(* ===== verification/Prelude.thy ===== *)
theory Prelude
  imports Main "HOL-Library.Word" "HOL-Library.Sublist"
begin

text \<open>The vocabulary the components share: the C integer types as words, byte
  buffers as lists, NUL-terminated strings as HOL strings without the NUL, and the
  loops that almost every component repeats (the digest check that ORs all bytes
  together, the constant-time comparison, the first-match scan of a fixed array, the
  forbidden-substring scan).  The interfaces several components implement are locales
  here: a machine whose operations keep an invariant, a machine with an absorbing
  condition, a counter that accepts strictly increasing numbers only, and a scan of a
  slot table with at most one live slot per key.\<close>

unbundle bit_operations_syntax

named_theorems inv_intros \<open>an operation keeps the invariant of its component\<close>
named_theorems enum_ord \<open>enumerations compared by their position\<close>

section \<open>Types\<close>

type_synonym u8 = "8 word"
type_synonym u16 = "16 word"
type_synonym u32 = "32 word"
type_synonym u64 = "64 word"
type_synonym bytes = "u8 list"

abbreviation UINT32_MAX :: u32 where "UINT32_MAX \<equiv> - 1"
abbreviation UINT64_MAX :: u64 where "UINT64_MAX \<equiv> - 1"

section \<open>Words\<close>

lemma unat_UINT64_MAX: "unat UINT64_MAX = 2 ^ 64 - 1"
  by (simp add: unsigned_minus_1_eq_mask mask_eq_exp_minus_1)

lemma unat_UINT32_MAX: "unat UINT32_MAX = 2 ^ 32 - 1"
  by (simp add: unsigned_minus_1_eq_mask mask_eq_exp_minus_1)

lemma unat_bounds:
  "unat (x8 :: u8) < 2 ^ 8" "unat (x16 :: u16) < 2 ^ 16" "unat (x32 :: u32) < 2 ^ 32"
  "unat (x64 :: u64) < 2 ^ 64"
  using unsigned_less [of x8] unsigned_less [of x16] unsigned_less [of x32] unsigned_less [of x64]
  by simp_all

text \<open>\<open>if(UINT64_MAX - a < b) return;\<close> guards the addition \<open>a + b\<close>.\<close>

lemma no_wrap64:
  fixes a b :: u64
  assumes "\<not> UINT64_MAX - a < b"
  shows "unat (a + b) = unat a + unat b"
proof -
  have "unat (UINT64_MAX - a) = 2 ^ 64 - 1 - unat a"
    by (simp add: unat_sub unat_UINT64_MAX)
  moreover have "unat a < 2 ^ 64"
    using unat_bounds(4) [of a] by simp
  ultimately have "unat a + unat b < 2 ^ 64"
    using assms by (simp add: word_less_nat_alt)
  then show ?thesis by (simp add: unat_word_ariths)
qed

lemma unat_ucast_64 [simp]: "unat (ucast (x :: u32) :: u64) = unat x"
  by (simp add: unsigned_ucast_eq take_bit_nat_eq_self_iff order_less_trans [OF unsigned_less])

lemma unat_Suc_eq:
  fixes x :: "'a :: len word"
  assumes "x \<noteq> - 1"
  shows "unat (x + 1) = Suc (unat x)"
proof -
  have "x < - 1"
    using assms word_order.not_eq_extremum by blast
  then have "unat x < 2 ^ LENGTH('a) - 1"
    by (simp add: word_less_nat_alt unsigned_minus_1_eq_mask mask_eq_exp_minus_1)
  then show ?thesis
    by (simp add: unat_word_ariths)
qed

lemma below_unat: "k < unat (x :: 'a :: len word) \<Longrightarrow> k < 2 ^ LENGTH('a)"
  by (rule order_less_trans [OF _ unsigned_less])

lemma below_unat64: "k < unat (x :: u64) \<Longrightarrow> k < 2 ^ 64"
  using below_unat [of k x] by simp

lemma unat_of_nat_small:
  "n < 2 ^ LENGTH('a) \<Longrightarrow> unat (of_nat n :: 'a :: len word) = n"
  by (simp add: unsigned_of_nat take_bit_nat_eq_self)

lemma unat_of_nat_below:
  "k < unat (x :: 'a :: len word) \<Longrightarrow> unat (of_nat k :: 'a word) = k"
  by (rule unat_of_nat_small) (rule below_unat)

lemma inc_no_wrap:
  fixes x :: "'a :: len word"
  assumes "x \<noteq> - 1"
  shows "unat (x + 1) = unat x + 1" "x < x + 1"
proof -
  show *: "unat (x + 1) = unat x + 1"
    using assms by (simp add: unat_Suc_eq)
  show "x < x + 1"
    by (simp add: word_less_nat_alt *)
qed

section \<open>Byte buffers\<close>

text \<open>\<open>for(i < n) nonzero |= digest[i];\<close>\<close>

definition or_bytes :: "nat \<Rightarrow> bytes \<Rightarrow> u8" where
  "or_bytes n bs = foldl (\<lambda>acc b. acc OR b) 0 (take n bs)"

lemma foldl_or_eq_0: "foldl (\<lambda>acc b. acc OR b) a bs = (0 :: 'a :: len word) \<longleftrightarrow> a = 0 \<and> (\<forall>b \<in> set bs. b = 0)"
  by (induction bs arbitrary: a) (auto simp: or_eq_0_iff)

lemma or_bytes_eq_0 [simp]: "or_bytes n bs = 0 \<longleftrightarrow> (\<forall>b \<in> set (take n bs). b = 0)"
  by (simp add: or_bytes_def foldl_or_eq_0)

lemma all_zero_replicate: "(\<forall>b \<in> set bs. b = 0) \<longleftrightarrow> bs = replicate (length bs) 0"
  by (metis in_set_replicate replicate_eqI)

text \<open>\<open>for(i < n) difference |= left[i] ^ right[i];\<close>\<close>

definition xor_diff :: "nat \<Rightarrow> bytes \<Rightarrow> bytes \<Rightarrow> u8" where
  "xor_diff n xs ys = foldl (\<lambda>acc i. acc OR (xs ! i XOR ys ! i)) 0 [0..<n]"

lemma xor_eq_0_iff: "(a XOR b = 0) \<longleftrightarrow> a = (b :: 'a :: len word)"
  by (metis xor.assoc xor.left_neutral xor.right_neutral xor_self_eq)

lemma foldl_or_map_eq_0:
  "foldl (\<lambda>acc i. acc OR f i) a is = (0 :: 'a :: len word) \<longleftrightarrow> a = 0 \<and> (\<forall>i \<in> set is. f i = 0)"
  by (induction "is" arbitrary: a) (auto simp: or_eq_0_iff)

lemma xor_diff_eq_0:
  assumes "n \<le> length xs" "n \<le> length ys"
  shows "xor_diff n xs ys = 0 \<longleftrightarrow> take n xs = take n ys"
  using assms by (auto simp: xor_diff_def foldl_or_map_eq_0 xor_eq_0_iff list_eq_iff_nth_eq)

lemma xor_diff_full:
  assumes "length xs = n" "length ys = n"
  shows "xor_diff n xs ys = 0 \<longleftrightarrow> xs = ys"
  using xor_diff_eq_0 [of n xs ys] assms by simp

lemma xor_diff_refl [simp]: "xor_diff n xs xs = 0"
  unfolding xor_diff_def by (subst foldl_or_map_eq_0) (simp add: xor_eq_0_iff)

definition zeros :: "nat \<Rightarrow> bytes" where
  "zeros n = replicate n 0"

lemma length_zeros [simp]: "length (zeros n) = n"
  by (simp add: zeros_def)

lemma take_zeros [simp]: "take m (zeros n) = zeros (min m n)"
  by (simp add: zeros_def)

lemma set_zeros: "b \<in> set (zeros n) \<Longrightarrow> b = 0"
  by (simp add: zeros_def)

text \<open>Big-endian encodings: \<open>output[n - 1 - i] = (uint8_t)(value >> (8 * i));\<close>\<close>

definition be_bytes :: "nat \<Rightarrow> 'a :: len word \<Rightarrow> bytes" where
  "be_bytes n v = map (\<lambda>i. ucast (drop_bit (8 * (n - 1 - i)) v)) [0..<n]"

lemma length_be_bytes [simp]: "length (be_bytes n v) = n"
  by (simp add: be_bytes_def)

lemma be_bytes_inj:
  fixes v w :: "'a :: len word"
  assumes "be_bytes n v = be_bytes n w" "LENGTH('a) \<le> 8 * n"
  shows "v = w"
proof (rule bit_word_eqI)
  fix k assume k: "k < LENGTH('a)"
  define i where "i = n - 1 - k div 8"
  have "k div 8 < n" using k assms(2) by auto
  then have i: "i < n" "n - 1 - i = k div 8"
    by (auto simp: i_def)
  have "be_bytes n v ! i = be_bytes n w ! i" using assms(1) by simp
  then have "(ucast (drop_bit (8 * (k div 8)) v) :: u8) = ucast (drop_bit (8 * (k div 8)) w)"
    using i by (simp add: be_bytes_def)
  then have "bit (ucast (drop_bit (8 * (k div 8)) v) :: u8) (k mod 8) =
      bit (ucast (drop_bit (8 * (k div 8)) w) :: u8) (k mod 8)" by simp
  then show "bit v k = bit w k"
    by (simp add: bit_ucast_iff bit_drop_bit_eq)
qed

text \<open>A NUL-terminated string in a byte buffer.\<close>

definition cstr_bytes :: "string \<Rightarrow> bytes" where
  "cstr_bytes s = map of_char s @ [0]"

definition no_nul :: "string \<Rightarrow> bool" where
  "no_nul s \<longleftrightarrow> (\<forall>c \<in> set s. (of_char c :: u8) \<noteq> 0)"

lemma length_cstr_bytes [simp]: "length (cstr_bytes s) = Suc (length s)"
  by (simp add: cstr_bytes_def)

lemma of_char_u8_eq [simp]: "(of_char a :: u8) = of_char b \<longleftrightarrow> a = b"
proof
  assume "(of_char a :: u8) = of_char b"
  then have "(word_of_nat (of_char a) :: u8) = word_of_nat (of_char b)"
    by (simp add: of_char_def)
  moreover have "(of_char c :: nat) < 2 ^ LENGTH(8)" for c
    by simp
  ultimately have "(of_char a :: nat) = of_char b"
    by (metis unat_of_nat_small)
  then show "a = b" by (simp add: of_char_eq_iff)
qed simp

text \<open>The terminator separates a string from what follows it.\<close>

lemma cstr_bytes_append_inj:
  "no_nul s \<Longrightarrow> no_nul t \<Longrightarrow> cstr_bytes s @ xs = cstr_bytes t @ ys \<longleftrightarrow> s = t \<and> xs = ys"
proof (induction s arbitrary: t)
  case Nil
  then show ?case by (cases t) (auto simp: cstr_bytes_def no_nul_def)
next
  case (Cons c s)
  note IH = Cons.IH and prems = Cons.prems
  show ?case
  proof (cases t)
    case Nil
    with prems show ?thesis by (auto simp: cstr_bytes_def no_nul_def)
  next
    case (Cons d t')
    with IH [of t'] prems show ?thesis by (auto simp: cstr_bytes_def no_nul_def)
  qed
qed

text \<open>A digest argument is a pointer that may be NULL; a digest is accepted when one of
  its \<open>n\<close> bytes is not zero.\<close>

definition digest_nonzero :: "nat \<Rightarrow> bytes option \<Rightarrow> bool" where
  "digest_nonzero n d = (case d of None \<Rightarrow> False | Some bs \<Rightarrow> or_bytes n bs \<noteq> 0)"

lemma digest_nonzero_simps [simp]:
  "digest_nonzero n None = False"
  "digest_nonzero n (Some bs) \<longleftrightarrow> (\<exists>b \<in> set (take n bs). b \<noteq> 0)"
  by (auto simp: digest_nonzero_def)

lemma digest_nonzero_iff: "digest_nonzero n d \<longleftrightarrow> (\<exists>bs. d = Some bs \<and> (\<exists>b \<in> set (take n bs). b \<noteq> 0))"
  by (cases d) auto

lemma digest_nonzero_not_zeros [simp]: "\<not> digest_nonzero n (Some (zeros m))"
  by (auto dest: set_zeros)

section \<open>Strings\<close>

text \<open>\<open>strnlen(s, max)\<close> and \<open>strstr(hay, needle) != NULL\<close>.\<close>

definition strnlen :: "string \<Rightarrow> nat \<Rightarrow> nat" where
  "strnlen s m = min (length s) m"

lemma strnlen_simps [simp]:
  "strnlen s k \<le> m \<longleftrightarrow> length s \<le> m \<or> k \<le> m"
  "m < strnlen s k \<longleftrightarrow> m < length s \<and> m < k"
  "strnlen s k = 0 \<longleftrightarrow> s = '''' \<or> k = 0"
  by (auto simp: strnlen_def min_def)

fun strstr :: "string \<Rightarrow> string \<Rightarrow> bool" where
  "strstr [] needle = (needle = [])"
| "strstr (c # cs) needle = (prefix needle (c # cs) \<or> strstr cs needle)"

lemma strstr_sublist: "strstr hay needle \<longleftrightarrow> sublist needle hay"
  by (induction hay) (auto simp: sublist_Cons_right)

definition strstr_any :: "string list \<Rightarrow> string \<Rightarrow> bool" where
  "strstr_any words hay = list_ex (strstr hay) words"

lemma strstr_any_iff: "strstr_any words hay \<longleftrightarrow> (\<exists>w \<in> set words. sublist w hay)"
  by (auto simp: strstr_any_def list_ex_iff strstr_sublist)

text \<open>\<open>(unsigned char)c\<close> compared with character codes.\<close>

abbreviation char_code :: "char \<Rightarrow> nat" where
  "char_code c \<equiv> of_char c"

definition printable :: "char \<Rightarrow> bool" where
  "printable c \<longleftrightarrow> 0x20 \<le> char_code c \<and> char_code c \<le> 0x7e"

section \<open>First match in a fixed array\<close>

text \<open>\<open>for(index = 0; index < N; ++index) if(p(&slots[index])) return index;\<close>\<close>

fun find_index :: "('a \<Rightarrow> bool) \<Rightarrow> 'a list \<Rightarrow> nat option" where
  "find_index p [] = None"
| "find_index p (x # xs) = (if p x then Some 0 else map_option Suc (find_index p xs))"

lemma find_index_None [simp]: "find_index p xs = None \<longleftrightarrow> (\<forall>x \<in> set xs. \<not> p x)"
  by (induction xs) auto

lemma find_index_SomeD:
  "find_index p xs = Some i \<Longrightarrow> i < length xs \<and> p (xs ! i) \<and> (\<forall>j < i. \<not> p (xs ! j))"
proof (induction xs arbitrary: i)
  case (Cons x xs)
  then show ?case
    by (cases i) (auto split: if_splits simp: nth_Cons split: nat.splits)
qed simp

lemma find_index_lt: "find_index p xs = Some i \<Longrightarrow> i < length xs"
  and find_index_sat: "find_index p xs = Some i \<Longrightarrow> p (xs ! i)"
  using find_index_SomeD [of p xs i] by auto

lemma find_index_ex: "(\<exists>x \<in> set xs. p x) \<longleftrightarrow> (\<exists>i. find_index p xs = Some i)"
  using find_index_None [of p xs] by (cases "find_index p xs") auto

lemma find_index_unique:
  assumes "i < length xs" "p (xs ! i)" "\<And>j. j < length xs \<Longrightarrow> p (xs ! j) \<Longrightarrow> j = i"
  shows "find_index p xs = Some i"
proof (cases "find_index p xs")
  case None
  with assms(1,2) show ?thesis using nth_mem by fastforce
next
  case (Some j)
  with find_index_SomeD [OF Some] assms(3) show ?thesis by simp
qed

lemma find_index_cong: "(\<And>x. x \<in> set xs \<Longrightarrow> p x = q x) \<Longrightarrow> find_index p xs = find_index q xs"
  by (induction xs) auto

lemma ball_subset: "\<forall>x \<in> A. P x \<Longrightarrow> B \<subseteq> A \<Longrightarrow> \<forall>x \<in> B. P x"
  by blast

lemma all_list_update: "\<forall>y \<in> set xs. P y \<Longrightarrow> P x \<Longrightarrow> \<forall>y \<in> set (xs[i := x]). P y"
  by (metis insert_iff set_update_subset_insert subset_iff)

section \<open>Runs of operations\<close>

text \<open>A component is driven by a sequence of calls; \<open>run_results\<close> threads the state and
  collects what each call returns, and \<open>accepted\<close> lists the calls that succeeded.\<close>

fun run_results :: "('op \<Rightarrow> 's \<Rightarrow> 's \<times> 'r) \<Rightarrow> 's \<Rightarrow> 'op list \<Rightarrow> 's \<times> 'r list" where
  "run_results step s [] = (s, [])"
| "run_results step s (op # ops) =
     (let (s1, r) = step op s; (s2, rs) = run_results step s1 ops in (s2, r # rs))"

definition run_state :: "('op \<Rightarrow> 's \<Rightarrow> 's \<times> 'r) \<Rightarrow> 's \<Rightarrow> 'op list \<Rightarrow> 's" where
  "run_state step s ops = fst (run_results step s ops)"

definition results :: "('op \<Rightarrow> 's \<Rightarrow> 's \<times> 'r) \<Rightarrow> 's \<Rightarrow> 'op list \<Rightarrow> 'r list" where
  "results step s ops = snd (run_results step s ops)"

definition accepted :: "('op \<Rightarrow> 's \<Rightarrow> 's \<times> 'r) \<Rightarrow> ('r \<Rightarrow> bool) \<Rightarrow> 's \<Rightarrow> 'op list \<Rightarrow>
    ('op \<times> 'r) list" where
  "accepted step success s ops = filter (success \<circ> snd) (zip ops (results step s ops))"

lemma run_state_simps [simp]:
  "run_state step s [] = s"
  "run_state step s (op # ops) = run_state step (fst (step op s)) ops"
  by (simp_all add: run_state_def split: prod.splits)

lemma results_simps [simp]:
  "results step s [] = []"
  "results step s (op # ops) = snd (step op s) # results step (fst (step op s)) ops"
  by (simp_all add: results_def split: prod.splits)

lemma run_state_append:
  "run_state step s (xs @ ys) = run_state step (run_state step s xs) ys"
  by (induction xs arbitrary: s) simp_all

lemma accepted_simps [simp]:
  "accepted step success s [] = []"
  "accepted step success s (op # ops) =
     (if success (snd (step op s)) then [(op, snd (step op s))] else []) @ accepted step success (fst (step op s)) ops"
  by (simp_all add: accepted_def)

lemma accepted_append:
  "accepted step success s (xs @ ys) =
     accepted step success s xs @ accepted step success (run_state step s xs) ys"
  by (induction xs arbitrary: s) simp_all

lemma accepted_subset: "fst ` set (accepted step success s ops) \<subseteq> set ops"
  by (induction ops arbitrary: s) auto

section \<open>Interfaces\<close>

text \<open>Every operation keeps an invariant.\<close>

locale invariant_machine =
  fixes step :: "'op \<Rightarrow> 's \<Rightarrow> 's \<times> 'r"
    and inv :: "'s \<Rightarrow> bool"
  assumes keeps: "inv s \<Longrightarrow> inv (fst (step op s))"
begin

lemma run_keeps: "inv s \<Longrightarrow> inv (run_state step s ops)"
  by (induction ops arbitrary: s) (simp_all add: keeps)

end

text \<open>A relation between the calls made so far and the state they lead to.\<close>

locale traced_machine = invariant_machine step inv
  for step :: "'op \<Rightarrow> 's \<Rightarrow> 's \<times> 'r" and inv :: "'s \<Rightarrow> bool" +
  fixes traced :: "'op list \<Rightarrow> 's \<Rightarrow> bool"
  assumes traced_step: "inv s \<Longrightarrow> traced ops s \<Longrightarrow> traced (ops @ [op]) (fst (step op s))"
begin

lemma traced_run: "inv s \<Longrightarrow> traced before s \<Longrightarrow> traced (before @ ops) (run_state step s ops)"
proof (induction ops arbitrary: before s)
  case (Cons op ops)
  from Cons.IH [OF keeps [OF Cons.prems(1)] traced_step [OF Cons.prems]] show ?case by simp
qed simp

end

lemma subseq_longer: "subseq xs ys \<Longrightarrow> subseq xs (ys @ zs)"
  using list_emb_append_mono [of "(=)" xs ys "[]" zs] by simp

text \<open>A machine whose state shows which calls of a protocol have happened: a call adds at most
  itself to them. What the state shows after a run is found, in order, among the calls.\<close>

locale history_machine = invariant_machine step inv
  for step :: "'op \<Rightarrow> 's \<Rightarrow> 's \<times> 'r" and inv :: "'s \<Rightarrow> bool" +
  fixes history :: "'s \<Rightarrow> 'op list"
  assumes history_step: "inv s \<Longrightarrow> subseq (history (fst (step op s))) (history s @ [op])"

sublocale history_machine \<subseteq> traced_machine step inv "\<lambda>ops s. subseq (history s) ops"
proof
  fix s op ops
  assume "inv s" "subseq (history s) ops"
  then have "subseq (history (fst (step op s))) (history s @ [op])"
    and "subseq (history s @ [op]) (ops @ [op])"
    by (simp_all add: history_step list_emb_append_mono)
  then show "subseq (history (fst (step op s))) (ops @ [op])"
    by (rule subseq_order.order_trans)
qed

text \<open>An operation that can succeed once: a success spends the state, a spent state stays
  spent and refuses.\<close>

locale one_shot =
  fixes step :: "'op \<Rightarrow> 's \<Rightarrow> 's \<times> 'r"
    and spent :: "'s \<Rightarrow> bool"
    and success :: "'r \<Rightarrow> bool"
  assumes spends: "success (snd (step op s)) \<Longrightarrow> spent (fst (step op s))"
    and stays_spent: "spent s \<Longrightarrow> spent (fst (step op s))"
    and spent_refuses: "spent s \<Longrightarrow> \<not> success (snd (step op s))"
begin

lemma spent_accepts_none: "spent s \<Longrightarrow> accepted step success s ops = []"
  by (induction ops arbitrary: s) (simp_all add: stays_spent spent_refuses)

lemma accepts_at_most_once: "length (accepted step success s ops) \<le> 1"
  by (induction ops arbitrary: s) (simp_all add: spends spent_accepts_none)

lemma run_stays_spent: "spent s \<Longrightarrow> spent (run_state step s ops)"
  by (induction ops arbitrary: s) (simp_all add: stays_spent)

end

text \<open>Replay protection: a call that carries a number is accepted only when the number has
  reached the floor, and lifts the floor above it; a refused call never lowers the floor.\<close>

locale replay_guard = invariant_machine step inv
  for step :: "'op \<Rightarrow> 's \<Rightarrow> 's \<times> 'r" and inv :: "'s \<Rightarrow> bool" +
  fixes success :: "'r \<Rightarrow> bool"
    and num :: "'op \<times> 'r \<Rightarrow> nat"
    and floor :: "'s \<Rightarrow> nat"
  assumes accepts_above: "inv s \<Longrightarrow> success (snd (step op s)) \<Longrightarrow> floor s \<le> num (op, snd (step op s))"
    and accepts_lifts: "inv s \<Longrightarrow> success (snd (step op s)) \<Longrightarrow>
          floor (fst (step op s)) = Suc (num (op, snd (step op s)))"
    and rejects_keeps: "inv s \<Longrightarrow> \<not> success (snd (step op s)) \<Longrightarrow> floor s \<le> floor (fst (step op s))"
begin

lemma accepted_above_floor:
  "inv s \<Longrightarrow> \<forall>x \<in> set (accepted step success s ops). floor s \<le> num x"
proof (induction ops arbitrary: s)
  case (Cons op ops)
  note IH = Cons.IH [OF keeps [OF Cons.prems], of op]
  show ?case
  proof (cases "success (snd (step op s))")
    case True
    have "floor s \<le> num x" if "x \<in> set (accepted step success (fst (step op s)) ops)" for x
      using IH that accepts_above [OF Cons.prems True] accepts_lifts [OF Cons.prems True] by fastforce
    with True show ?thesis by (simp add: accepts_above Cons.prems)
  next
    case False
    with IH rejects_keeps [OF Cons.prems False] show ?thesis by (auto dest: order.trans)
  qed
qed simp

lemma accepted_increasing:
  "inv s \<Longrightarrow> sorted_wrt (<) (map num (accepted step success s ops))"
proof (induction ops arbitrary: s)
  case (Cons op ops)
  then show ?case
    using accepted_above_floor [OF keeps [OF Cons.prems], of op ops] accepts_lifts [OF Cons.prems, of op]
      keeps [OF Cons.prems, of op]
    by (auto simp: Suc_le_eq)
qed simp

lemma accepted_distinct: "inv s \<Longrightarrow> distinct (map num (accepted step success s ops))"
  using accepted_increasing strict_sorted_iff by blast

lemma floor_mono: "inv s \<Longrightarrow> floor s \<le> floor (run_state step s ops)"
proof (induction ops arbitrary: s)
  case (Cons op ops)
  have "floor s \<le> floor (fst (step op s))"
    using accepts_above [OF Cons.prems, of op] accepts_lifts [OF Cons.prems, of op]
      rejects_keeps [OF Cons.prems, of op]
    by (cases "success (snd (step op s))") auto
  also have "\<dots> \<le> floor (run_state step (fst (step op s)) ops)"
    by (rule Cons.IH [OF keeps [OF Cons.prems]])
  finally show ?case by simp
qed simp

text \<open>A number below the floor is refused.\<close>

lemma replay_refused:
  "inv s \<Longrightarrow> num (op, snd (step op s)) < floor s \<Longrightarrow> \<not> success (snd (step op s))"
  using accepts_above [of s op] by auto

end

text \<open>A guard that also refuses gaps accepts consecutive numbers.\<close>

locale gapless_guard = replay_guard +
  assumes accepts_exact: "inv s \<Longrightarrow> success (snd (step op s)) \<Longrightarrow> num (op, snd (step op s)) = floor s"
    and rejects_exact: "inv s \<Longrightarrow> \<not> success (snd (step op s)) \<Longrightarrow> floor (fst (step op s)) = floor s"
begin

lemma accepted_consecutive:
  "inv s \<Longrightarrow> map num (accepted step success s ops) = [floor s..<floor (run_state step s ops)]"
proof (induction ops arbitrary: s)
  case (Cons op ops)
  note IH = Cons.IH [OF keeps [OF Cons.prems], of op]
  show ?case
  proof (cases "success (snd (step op s))")
    case True
    have "floor s < floor (run_state step (fst (step op s)) ops)"
      using floor_mono [OF keeps [OF Cons.prems], of op ops] accepts_lifts [OF Cons.prems True]
        accepts_exact [OF Cons.prems True]
      by simp
    with True IH show ?thesis
      by (simp add: accepts_lifts accepts_exact upt_conv_Cons Cons.prems)
  next
    case False
    with IH show ?thesis by (simp add: rejects_exact Cons.prems)
  qed
qed simp

lemma accepted_count:
  "inv s \<Longrightarrow> floor (run_state step s ops) = floor s + length (accepted step success s ops)"
  using arg_cong [OF accepted_consecutive, of s length ops] floor_mono [of s ops] by simp

end

end
