(* ===== verification/Policy.thy ===== *)
theory Policy
  imports Prelude
begin

text \<open>The policy service (\<open>rpc/poison_policy.c\<close>): the capability mask of each role and
  the decision for a request, as a function of the lock state of the device and of the
  physical confirmation.\<close>

section \<open>Roles and capabilities\<close>

datatype PoisonRole =
    PoisonRoleOwner | PoisonRoleOperator | PoisonRoleInstructor | PoisonRoleStudent
  | PoisonRoleObserver | PoisonRoleCount

fun role_index :: "PoisonRole \<Rightarrow> nat" where
  "role_index PoisonRoleOwner = 0"
| "role_index PoisonRoleOperator = 1"
| "role_index PoisonRoleInstructor = 2"
| "role_index PoisonRoleStudent = 3"
| "role_index PoisonRoleObserver = 4"
| "role_index PoisonRoleCount = 5"

lemma role_index_inj [simp]: "role_index a = role_index b \<longleftrightarrow> a = b"
  by (cases a; cases b) simp_all

instantiation PoisonRole :: linorder
begin

definition less_eq_PoisonRole :: "PoisonRole \<Rightarrow> PoisonRole \<Rightarrow> bool" where
  [enum_ord]: "less_eq_PoisonRole a b \<longleftrightarrow> role_index a \<le> role_index b"

definition less_PoisonRole :: "PoisonRole \<Rightarrow> PoisonRole \<Rightarrow> bool" where
  [enum_ord]: "less_PoisonRole a b \<longleftrightarrow> role_index a < role_index b"

instance by standard (auto simp: enum_ord)

end

lemma role_ge_Count [simp]: "PoisonRoleCount \<le> role \<longleftrightarrow> role = PoisonRoleCount"
  by (cases role) (simp_all add: enum_ord)

text \<open>The cast of a checked wire value to the role enumeration.\<close>

definition role_of_wire :: "u32 \<Rightarrow> PoisonRole" where
  "role_of_wire v =
     (if v = 0 then PoisonRoleOwner else if v = 1 then PoisonRoleOperator
      else if v = 2 then PoisonRoleInstructor else if v = 3 then PoisonRoleStudent
      else if v = 4 then PoisonRoleObserver else PoisonRoleCount)"

type_synonym PoisonCapability = u32

abbreviation "POISON_CAPABILITY_STATUS \<equiv> (0x01 :: PoisonCapability)"
abbreviation "POISON_CAPABILITY_CONTROL \<equiv> (0x02 :: PoisonCapability)"
abbreviation "POISON_CAPABILITY_LAUNCH \<equiv> (0x04 :: PoisonCapability)"
abbreviation "POISON_CAPABILITY_FILES \<equiv> (0x08 :: PoisonCapability)"
abbreviation "POISON_CAPABILITY_EVIDENCE \<equiv> (0x10 :: PoisonCapability)"
abbreviation "POISON_CAPABILITY_RADIO \<equiv> (0x20 :: PoisonCapability)"
abbreviation "POISON_CAPABILITY_NATIVE \<equiv> (0x40 :: PoisonCapability)"
abbreviation "POISON_CAPABILITY_DESTRUCTIVE \<equiv> (0x80 :: PoisonCapability)"

definition role_capabilities :: "PoisonCapability list" where
  "role_capabilities =
    [POISON_CAPABILITY_STATUS OR POISON_CAPABILITY_CONTROL OR POISON_CAPABILITY_LAUNCH OR
       POISON_CAPABILITY_FILES OR POISON_CAPABILITY_EVIDENCE OR POISON_CAPABILITY_RADIO OR
       POISON_CAPABILITY_NATIVE OR POISON_CAPABILITY_DESTRUCTIVE,
     POISON_CAPABILITY_STATUS OR POISON_CAPABILITY_CONTROL OR POISON_CAPABILITY_LAUNCH OR
       POISON_CAPABILITY_FILES OR POISON_CAPABILITY_EVIDENCE OR POISON_CAPABILITY_RADIO,
     POISON_CAPABILITY_STATUS OR POISON_CAPABILITY_CONTROL OR POISON_CAPABILITY_LAUNCH OR
       POISON_CAPABILITY_FILES OR POISON_CAPABILITY_EVIDENCE,
     POISON_CAPABILITY_STATUS OR POISON_CAPABILITY_CONTROL OR POISON_CAPABILITY_LAUNCH,
     POISON_CAPABILITY_STATUS OR POISON_CAPABILITY_EVIDENCE]"

definition poison_policy_role_capabilities :: "PoisonRole \<Rightarrow> PoisonCapability" where
  "poison_policy_role_capabilities role =
    (if role \<ge> PoisonRoleCount then 0 else role_capabilities ! role_index role)"

record PoisonPolicyDecision =
  granted :: PoisonCapability
  allowed :: bool
  decision_policy_version :: u32

definition poison_policy_evaluate ::
    "PoisonRole \<Rightarrow> PoisonCapability \<Rightarrow> bool \<Rightarrow> bool \<Rightarrow> u32 \<Rightarrow> PoisonPolicyDecision" where
  "poison_policy_evaluate role requested device_locked physical_confirmation policy_version =
    (let g0 = poison_policy_role_capabilities role AND requested;
         g1 = (if device_locked
               then g0 AND (POISON_CAPABILITY_STATUS OR POISON_CAPABILITY_EVIDENCE) else g0);
         g2 = (if \<not> physical_confirmation
               then g1 AND NOT (POISON_CAPABILITY_NATIVE OR POISON_CAPABILITY_DESTRUCTIVE OR
                                POISON_CAPABILITY_RADIO)
               else g1)
     in \<lparr> granted = g2, allowed = (g2 \<noteq> 0 \<and> g2 AND requested = requested),
          decision_policy_version = policy_version \<rparr>)"

section \<open>What the decision grants\<close>

lemma role_capabilities_values [simp]:
  "poison_policy_role_capabilities PoisonRoleOwner = 0xFF"
  "poison_policy_role_capabilities PoisonRoleOperator = 0x3F"
  "poison_policy_role_capabilities PoisonRoleInstructor = 0x1F"
  "poison_policy_role_capabilities PoisonRoleStudent = 0x07"
  "poison_policy_role_capabilities PoisonRoleObserver = 0x11"
  "poison_policy_role_capabilities PoisonRoleCount = 0"
  by (simp_all add: poison_policy_role_capabilities_def role_capabilities_def enum_ord)

text \<open>The masks the lock and the missing confirmation leave.\<close>

definition lock_mask :: "bool \<Rightarrow> PoisonCapability" where
  "lock_mask device_locked = (if device_locked then 0x11 else - 1)"

definition confirm_mask :: "bool \<Rightarrow> PoisonCapability" where
  "confirm_mask physical_confirmation = (if physical_confirmation then - 1 else NOT 0xE0)"

lemma granted_masks:
  "granted (poison_policy_evaluate role requested locked phys v) =
     poison_policy_role_capabilities role AND requested AND lock_mask locked AND confirm_mask phys"
  by (simp add: poison_policy_evaluate_def Let_def lock_mask_def confirm_mask_def and.assoc)

lemma bit_granted:
  "bit (granted (poison_policy_evaluate role requested locked phys v)) n \<longleftrightarrow>
     bit (poison_policy_role_capabilities role) n \<and> bit requested n \<and>
     bit (lock_mask locked) n \<and> bit (confirm_mask phys) n"
  by (simp add: granted_masks bit_and_iff)

lemma allowed_iff:
  "allowed (poison_policy_evaluate role requested locked phys v) \<longleftrightarrow>
     requested \<noteq> 0 \<and> granted (poison_policy_evaluate role requested locked phys v) = requested"
proof -
  let ?g = "granted (poison_policy_evaluate role requested locked phys v)"
  have sub: "?g AND requested = ?g"
    by (simp add: granted_masks and.assoc and.commute and.left_commute)
  have "allowed (poison_policy_evaluate role requested locked phys v) \<longleftrightarrow>
      ?g \<noteq> 0 \<and> ?g AND requested = requested"
    by (simp add: poison_policy_evaluate_def Let_def)
  with sub show ?thesis by auto
qed

lemma bit_lock_mask: "bit (lock_mask True) n \<longleftrightarrow> n = 0 \<or> n = 4"
  by (auto simp: lock_mask_def bit_numeral_rec bit_1_iff split: nat.splits)

lemma bit_confirm_mask: "bit (confirm_mask False) n \<longleftrightarrow> n < 32 \<and> n \<notin> {5, 6, 7}"
proof -
  have "bit (0xE0 :: u32) n \<longleftrightarrow> n \<in> {5, 6, 7}"
    by (auto simp: bit_numeral_rec bit_1_iff split: nat.splits)
  moreover have "bit (confirm_mask False) n \<longleftrightarrow> n < 32 \<and> \<not> bit (0xE0 :: u32) n"
    by (simp only: confirm_mask_def if_False bit_not_iff possible_bit_word) simp
  ultimately show ?thesis by simp
qed

lemma bit_masks_free [simp]:
  "bit (lock_mask False) n \<longleftrightarrow> n < 32"
  "bit (confirm_mask True) n \<longleftrightarrow> n < 32"
  by (simp_all add: lock_mask_def confirm_mask_def)

text \<open>Capabilities a locked device still serves, and those that need a confirmation.\<close>

definition locked_bits :: "nat set" where
  "locked_bits = {0, 4}"

definition confirmed_bits :: "nat set" where
  "confirmed_bits = {5, 6, 7}"

lemma granted_bit_iff:
  "bit (granted (poison_policy_evaluate role requested locked phys v)) n \<longleftrightarrow>
     bit requested n \<and> bit (poison_policy_role_capabilities role) n \<and>
     (locked \<longrightarrow> n \<in> locked_bits) \<and> (n \<in> confirmed_bits \<longrightarrow> phys)"
  using bit_imp_le_length [of requested n]
  by (cases locked; cases phys)
    (auto simp: bit_granted bit_lock_mask bit_confirm_mask locked_bits_def confirmed_bits_def)

lemma granted_subset_requested: "granted (poison_policy_evaluate role requested locked phys v) AND requested
    = granted (poison_policy_evaluate role requested locked phys v)"
  by (rule bit_word_eqI) (auto simp: bit_and_iff granted_bit_iff)

lemma granted_all_iff:
  "granted (poison_policy_evaluate role requested locked phys v) = requested \<longleftrightarrow>
     (\<forall>n. bit requested n \<longrightarrow> bit (granted (poison_policy_evaluate role requested locked phys v)) n)"
  by (metis bit_word_eqI granted_bit_iff)

text \<open>The capabilities of each role, by number of bit.\<close>

fun role_bits :: "PoisonRole \<Rightarrow> nat set" where
  "role_bits PoisonRoleOwner = {0, 1, 2, 3, 4, 5, 6, 7}"
| "role_bits PoisonRoleOperator = {0, 1, 2, 3, 4, 5}"
| "role_bits PoisonRoleInstructor = {0, 1, 2, 3, 4}"
| "role_bits PoisonRoleStudent = {0, 1, 2}"
| "role_bits PoisonRoleObserver = {0, 4}"
| "role_bits PoisonRoleCount = {}"

lemma bit_role_capabilities: "bit (poison_policy_role_capabilities role) n \<longleftrightarrow> n \<in> role_bits role"
  by (cases role) (auto simp: bit_numeral_rec bit_1_iff split: nat.splits)

text \<open>C9: the decision on a request, completely: a bit is granted exactly when it is requested, belongs to the
  role, is status or evidence while the device is locked, and is none of radio, native and destructive
  without a physical confirmation; the request is allowed exactly when it asks for something and everything it
  asks for is granted; and the decision carries the version of the policy it was asked under.\<close>

theorem policy_allowed_iff:
  fixes role requested locked phys v
  defines "d \<equiv> poison_policy_evaluate role requested locked phys v"
  shows "(\<forall>n. bit (granted d) n \<longleftrightarrow>
      bit requested n \<and> n \<in> role_bits role \<and> (locked \<longrightarrow> n \<in> locked_bits) \<and> (n \<in> confirmed_bits \<longrightarrow> phys)) \<and>
    (allowed d \<longleftrightarrow> requested \<noteq> 0 \<and>
      (\<forall>n. bit requested n \<longrightarrow>
         n \<in> role_bits role \<and> (locked \<longrightarrow> n \<in> locked_bits) \<and> (n \<in> confirmed_bits \<longrightarrow> phys))) \<and>
    decision_policy_version d = v"
proof (intro conjI allI)
  show "bit (granted d) n \<longleftrightarrow>
      bit requested n \<and> n \<in> role_bits role \<and> (locked \<longrightarrow> n \<in> locked_bits) \<and> (n \<in> confirmed_bits \<longrightarrow> phys)" for n
    by (simp add: d_def granted_bit_iff bit_role_capabilities)
  show "allowed d \<longleftrightarrow> requested \<noteq> 0 \<and>
      (\<forall>n. bit requested n \<longrightarrow>
         n \<in> role_bits role \<and> (locked \<longrightarrow> n \<in> locked_bits) \<and> (n \<in> confirmed_bits \<longrightarrow> phys))"
    by (auto simp: d_def allowed_iff granted_all_iff granted_bit_iff bit_role_capabilities)
  show "decision_policy_version d = v" by (simp add: d_def poison_policy_evaluate_def Let_def)
qed

lemma sample_bits:
  "bit (0x11 :: u32) n \<longleftrightarrow> n \<in> {0, 4}" "bit (0x40 :: u32) n \<longleftrightarrow> n = 6" "bit (0x41 :: u32) n \<longleftrightarrow> n \<in> {0, 6}"
  by (auto simp: bit_numeral_rec bit_1_iff split: nat.splits)

lemma policy_allowed_iff_witness:
  "allowed (poison_policy_evaluate PoisonRoleObserver 0x11 True False 7) \<and>
   \<not> allowed (poison_policy_evaluate PoisonRoleOwner 0x40 False False 7) \<and>
   bit (granted (poison_policy_evaluate PoisonRoleOwner 0x41 False False 7)) 0"
  using policy_allowed_iff [of PoisonRoleObserver "0x11" True False 7]
    policy_allowed_iff [of PoisonRoleOwner "0x40" False False 7]
    policy_allowed_iff [of PoisonRoleOwner "0x41" False False 7]
  by (simp only: sample_bits role_bits.simps locked_bits_def confirmed_bits_def) auto

text \<open>A role with a larger mask, an unlocked device or a confirmation never loses a grant.\<close>

lemma allowed_mono:
  assumes "allowed (poison_policy_evaluate r1 requested l1 p1 v)"
    and "poison_policy_role_capabilities r1 AND poison_policy_role_capabilities r2
           = poison_policy_role_capabilities r1"
    and "l2 \<longrightarrow> l1" "p1 \<longrightarrow> p2"
  shows "allowed (poison_policy_evaluate r2 requested l2 p2 v')"
proof -
  have "bit (poison_policy_role_capabilities r1) n \<Longrightarrow> bit (poison_policy_role_capabilities r2) n" for n
    using assms(2) by (metis bit_and_iff)
  with assms(1,3,4) show ?thesis
    by (auto simp: allowed_iff granted_all_iff granted_bit_iff)
qed

lemma allowed_confirmed_bits:
  assumes "allowed (poison_policy_evaluate role requested locked phys v)"
    and "bit requested n" "n \<in> confirmed_bits"
  shows "phys" "\<not> locked" "role = PoisonRoleOwner \<or> role = PoisonRoleOperator"
proof -
  have g: "bit (granted (poison_policy_evaluate role requested locked phys v)) n"
    using assms by (simp add: allowed_iff)
  then show "phys" "\<not> locked"
    using assms(3) by (auto simp: granted_bit_iff confirmed_bits_def locked_bits_def)
  show "role = PoisonRoleOwner \<or> role = PoisonRoleOperator"
    using g assms(3)
    by (cases role) (auto simp: granted_bit_iff confirmed_bits_def bit_numeral_rec split: nat.splits)
qed

end
