(* ===== verification/Session.thy ===== *)
theory Session
  imports Policy
begin

text \<open>The secure session (\<open>rpc/rpc_poison_session.c\<close>): its states, its sequence counters,
  the frames it authenticates and encrypts.  The primitives of mbedtls are the fields of a
  parameter record; each returns \<open>None\<close> where the C function reports an error.\<close>

section \<open>Types\<close>

abbreviation "POISON_SESSION_KEY_BYTES \<equiv> (32 :: nat)"
abbreviation "POISON_SESSION_AUTH_TAG_BYTES \<equiv> (16 :: nat)"
abbreviation "POISON_SESSION_CHANNEL_MAX \<equiv> (32 :: nat)"
abbreviation "POISON_SESSION_PAYLOAD_MAX \<equiv> (1024 :: nat)"
abbreviation "POISON_SESSION_RESUME_TOKEN_BYTES \<equiv> (32 :: nat)"

record Crypto =
  cr_sha256 :: "bytes \<Rightarrow> bytes option"
  cr_hmac_sha256 :: "bytes \<Rightarrow> bytes \<Rightarrow> bytes option"
  cr_gcm_encrypt :: "bytes \<Rightarrow> bytes \<Rightarrow> bytes \<Rightarrow> bytes \<Rightarrow> (bytes \<times> bytes) option"
  cr_gcm_decrypt :: "bytes \<Rightarrow> bytes \<Rightarrow> bytes \<Rightarrow> bytes \<Rightarrow> bytes \<Rightarrow> bytes option"
  cr_shared_secret :: "bytes \<Rightarrow> bytes \<Rightarrow> bytes option"
  cr_hkdf_sha256 :: "bytes \<Rightarrow> bytes \<Rightarrow> bytes \<Rightarrow> nat \<Rightarrow> bytes option"
  cr_verify_p256 :: "bytes \<Rightarrow> bytes \<Rightarrow> bytes \<Rightarrow> bool"

datatype PoisonSessionState =
    PoisonSessionUnpaired | PoisonSessionNegotiating | PoisonSessionConfirming
  | PoisonSessionActive | PoisonSessionClosing | PoisonSessionRevoked

datatype PoisonSessionResult =
    PoisonSessionResultOk | PoisonSessionResultInvalid | PoisonSessionResultState
  | PoisonSessionResultReplay | PoisonSessionResultGap | PoisonSessionResultSequenceWrap

record PoisonSession =
  ps_state :: PoisonSessionState
  ps_protocol_version :: u32
  ps_session_id :: u64
  ps_next_tx_sequence :: u64
  ps_next_rx_sequence :: u64
  ps_physical_confirmation :: bool
  ps_receive_key :: bytes
  ps_transmit_key :: bytes
  ps_directional_keys_set :: bool
  ps_role :: PoisonRole
  ps_granted_capabilities :: PoisonCapability
  ps_client_identity_digest :: bytes

section \<open>States\<close>

definition poison_session_init :: PoisonSession where
  "poison_session_init = \<lparr> ps_state = PoisonSessionUnpaired, ps_protocol_version = 0,
     ps_session_id = 0, ps_next_tx_sequence = 0, ps_next_rx_sequence = 0,
     ps_physical_confirmation = False, ps_receive_key = zeros POISON_SESSION_KEY_BYTES,
     ps_transmit_key = zeros POISON_SESSION_KEY_BYTES, ps_directional_keys_set = False,
     ps_role = PoisonRoleOwner, ps_granted_capabilities = 0,
     ps_client_identity_digest = zeros 32 \<rparr>"

definition poison_session_nonzero :: "bytes option \<Rightarrow> nat \<Rightarrow> bool" where
  "poison_session_nonzero value n =
     (case value of None \<Rightarrow> False | Some v \<Rightarrow> or_bytes n v \<noteq> 0)"

definition poison_session_begin_negotiation :: "PoisonSession \<Rightarrow> u32 \<Rightarrow>
    PoisonSession \<times> PoisonSessionResult" where
  "poison_session_begin_negotiation session protocol_version =
    (if protocol_version \<noteq> 2 then (session, PoisonSessionResultInvalid)
     else if ps_state session \<noteq> PoisonSessionUnpaired then (session, PoisonSessionResultState)
     else (session \<lparr> ps_protocol_version := protocol_version,
                     ps_state := PoisonSessionNegotiating \<rparr>, PoisonSessionResultOk))"

definition poison_session_begin_confirmation :: "PoisonSession \<Rightarrow> u64 \<Rightarrow>
    PoisonSession \<times> PoisonSessionResult" where
  "poison_session_begin_confirmation session session_id =
    (if session_id = 0 then (session, PoisonSessionResultInvalid)
     else if ps_state session \<noteq> PoisonSessionNegotiating then (session, PoisonSessionResultState)
     else (session \<lparr> ps_session_id := session_id, ps_state := PoisonSessionConfirming \<rparr>,
           PoisonSessionResultOk))"

definition poison_session_confirm :: "PoisonSession \<Rightarrow> bool \<Rightarrow> PoisonSession \<times> PoisonSessionResult" where
  "poison_session_confirm session physical_confirmation =
    (if ps_state session \<noteq> PoisonSessionConfirming then (session, PoisonSessionResultState)
     else if \<not> physical_confirmation then (session, PoisonSessionResultInvalid)
     else (session \<lparr> ps_physical_confirmation := True \<rparr>, PoisonSessionResultOk))"

definition poison_session_activate :: "PoisonSession \<Rightarrow> PoisonSession \<times> PoisonSessionResult" where
  "poison_session_activate session =
    (if ps_state session \<noteq> PoisonSessionConfirming \<or> \<not> ps_physical_confirmation session
     then (session, PoisonSessionResultState)
     else (session \<lparr> ps_next_tx_sequence := 0, ps_next_rx_sequence := 0,
                     ps_state := PoisonSessionActive \<rparr>, PoisonSessionResultOk))"

definition poison_session_set_directional_keys :: "PoisonSession \<Rightarrow> bytes option \<Rightarrow> bytes option \<Rightarrow>
    PoisonSession \<times> PoisonSessionResult" where
  "poison_session_set_directional_keys session receive_key transmit_key =
    (if receive_key = None \<or> transmit_key = None \<or> ps_state session \<noteq> PoisonSessionConfirming
     then (session, PoisonSessionResultInvalid)
     else (session \<lparr> ps_receive_key := take POISON_SESSION_KEY_BYTES (the receive_key),
                     ps_transmit_key := take POISON_SESSION_KEY_BYTES (the transmit_key),
                     ps_directional_keys_set := True \<rparr>, PoisonSessionResultOk))"

definition poison_session_set_authentication_key :: "PoisonSession \<Rightarrow> bytes option \<Rightarrow>
    PoisonSession \<times> PoisonSessionResult" where
  "poison_session_set_authentication_key session key =
     poison_session_set_directional_keys session key key"

definition poison_session_close :: "PoisonSession \<Rightarrow> PoisonSession \<times> PoisonSessionResult" where
  "poison_session_close session =
    (if ps_state session \<noteq> PoisonSessionActive then (session, PoisonSessionResultState)
     else (session \<lparr> ps_state := PoisonSessionClosing \<rparr>, PoisonSessionResultOk))"

definition poison_session_revoke :: "PoisonSession \<Rightarrow> PoisonSession \<times> PoisonSessionResult" where
  "poison_session_revoke session =
    (session \<lparr> ps_state := PoisonSessionRevoked, ps_physical_confirmation := False,
       ps_session_id := 0, ps_next_tx_sequence := 0, ps_next_rx_sequence := 0,
       ps_receive_key := zeros POISON_SESSION_KEY_BYTES,
       ps_transmit_key := zeros POISON_SESSION_KEY_BYTES,
       ps_directional_keys_set := False \<rparr>, PoisonSessionResultOk)"

section \<open>Sequences\<close>

definition poison_session_reserve_tx :: "PoisonSession \<Rightarrow>
    PoisonSession \<times> u64 option \<times> PoisonSessionResult" where
  "poison_session_reserve_tx session =
    (if ps_state session \<noteq> PoisonSessionActive then (session, None, PoisonSessionResultState)
     else if ps_next_tx_sequence session = UINT64_MAX
     then (session, None, PoisonSessionResultSequenceWrap)
     else (session \<lparr> ps_next_tx_sequence := ps_next_tx_sequence session + 1 \<rparr>,
           Some (ps_next_tx_sequence session), PoisonSessionResultOk))"

definition poison_session_accept_rx :: "PoisonSession \<Rightarrow> u64 \<Rightarrow> PoisonSession \<times> PoisonSessionResult" where
  "poison_session_accept_rx session sequence =
    (if ps_state session \<noteq> PoisonSessionActive then (session, PoisonSessionResultState)
     else if sequence < ps_next_rx_sequence session then (session, PoisonSessionResultReplay)
     else if sequence > ps_next_rx_sequence session then (session, PoisonSessionResultGap)
     else if ps_next_rx_sequence session = UINT64_MAX
     then (session, PoisonSessionResultSequenceWrap)
     else (session \<lparr> ps_next_rx_sequence := ps_next_rx_sequence session + 1 \<rparr>,
           PoisonSessionResultOk))"

section \<open>Frames\<close>

definition poison_session_valid_frame ::
    "u32 \<Rightarrow> string option \<Rightarrow> bytes option \<Rightarrow> nat \<Rightarrow> bytes option \<Rightarrow> bool" where
  "poison_session_valid_frame protocol_version channel payload payload_length authentication_tag \<longleftrightarrow>
     protocol_version = 2 \<and> channel \<noteq> None \<and> the channel \<noteq> '''' \<and>
     strnlen (the channel) (POISON_SESSION_CHANNEL_MAX + 1) \<le> POISON_SESSION_CHANNEL_MAX \<and>
     (payload_length = 0 \<or> payload \<noteq> None) \<and> payload_length \<le> POISON_SESSION_PAYLOAD_MAX \<and>
     authentication_tag \<noteq> None"

definition poison_session_encode_u64 :: "u64 \<Rightarrow> bytes" where
  "poison_session_encode_u64 v = map (\<lambda>i. ucast (drop_bit (8 * (7 - i)) v)) [0..<8]"

definition poison_session_encode_u32 :: "u32 \<Rightarrow> bytes" where
  "poison_session_encode_u32 v = map (\<lambda>i. ucast (drop_bit (8 * (3 - i)) v)) [0..<4]"

definition frame_payload :: "bytes option \<Rightarrow> nat \<Rightarrow> bytes" where
  "frame_payload payload payload_length =
     (case payload of None \<Rightarrow> [] | Some p \<Rightarrow> take payload_length p)"

text \<open>The bytes fed to the HMAC, in the order of the update calls.\<close>

definition session_mac_input ::
    "PoisonSession \<Rightarrow> u32 \<Rightarrow> u64 \<Rightarrow> u64 \<Rightarrow> string \<Rightarrow> bytes \<Rightarrow> bytes" where
  "session_mac_input session protocol_version sequence acknowledgement channel payload =
     poison_session_encode_u32 protocol_version @
     poison_session_encode_u64 (ps_session_id session) @
     poison_session_encode_u64 sequence @
     poison_session_encode_u64 acknowledgement @
     cstr_bytes channel @ payload"

definition poison_session_compute_tag ::
    "Crypto \<Rightarrow> PoisonSession \<Rightarrow> u32 \<Rightarrow> u64 \<Rightarrow> u64 \<Rightarrow> string \<Rightarrow> bytes \<Rightarrow> bytes option" where
  "poison_session_compute_tag cr session protocol_version sequence acknowledgement channel payload =
     map_option (take POISON_SESSION_AUTH_TAG_BYTES)
       (cr_hmac_sha256 cr (ps_transmit_key session)
          (session_mac_input session protocol_version sequence acknowledgement channel payload))"

definition poison_session_authenticate_rx ::
    "Crypto \<Rightarrow> PoisonSession \<Rightarrow> u32 \<Rightarrow> u64 \<Rightarrow> u64 \<Rightarrow> string option \<Rightarrow> bytes option \<Rightarrow> nat \<Rightarrow>
     bytes option \<Rightarrow> PoisonSession \<times> PoisonSessionResult" where
  "poison_session_authenticate_rx cr session protocol_version sequence acknowledgement channel
     payload payload_length authentication_tag =
   (if ps_state session \<noteq> PoisonSessionActive \<or> \<not> ps_directional_keys_set session \<or>
       \<not> poison_session_valid_frame protocol_version channel payload payload_length
           authentication_tag
    then (session, PoisonSessionResultInvalid)
    else
      let receiver = session \<lparr> ps_transmit_key := ps_receive_key session \<rparr>
      in case poison_session_compute_tag cr receiver protocol_version sequence acknowledgement
                (the channel) (frame_payload payload payload_length) of
           None \<Rightarrow> (session, PoisonSessionResultInvalid)
         | Some expected_tag \<Rightarrow>
             if xor_diff POISON_SESSION_AUTH_TAG_BYTES expected_tag (the authentication_tag) \<noteq> 0
             then (session, PoisonSessionResultInvalid)
             else poison_session_accept_rx session sequence)"

text \<open>On success the tag is written to the buffer the caller passed.\<close>

definition poison_session_sign_frame ::
    "Crypto \<Rightarrow> PoisonSession \<Rightarrow> u32 \<Rightarrow> u64 \<Rightarrow> u64 \<Rightarrow> string option \<Rightarrow> bytes option \<Rightarrow> nat \<Rightarrow>
     bytes option \<Rightarrow> bytes option \<times> PoisonSessionResult" where
  "poison_session_sign_frame cr session protocol_version sequence acknowledgement channel
     payload payload_length authentication_tag =
   (if ps_state session \<noteq> PoisonSessionActive \<or> \<not> ps_directional_keys_set session \<or>
       \<not> poison_session_valid_frame protocol_version channel payload payload_length
           authentication_tag
    then (None, PoisonSessionResultInvalid)
    else case poison_session_compute_tag cr session protocol_version sequence acknowledgement
                (the channel) (frame_payload payload payload_length) of
           None \<Rightarrow> (None, PoisonSessionResultInvalid)
         | Some tag \<Rightarrow> (Some tag, PoisonSessionResultOk))"

definition poison_session_build_aad ::
    "PoisonSession \<Rightarrow> u64 \<Rightarrow> u64 \<Rightarrow> string option \<Rightarrow> bytes option" where
  "poison_session_build_aad session sequence acknowledgement channel =
    (case channel of None \<Rightarrow> None
     | Some ch \<Rightarrow>
         let channel_length = strnlen ch (POISON_SESSION_CHANNEL_MAX + 1)
         in if channel_length = 0 \<or> channel_length > POISON_SESSION_CHANNEL_MAX then None
            else Some (poison_session_encode_u32 (ps_protocol_version session) @
                       poison_session_encode_u64 (ps_session_id session) @
                       poison_session_encode_u64 sequence @
                       poison_session_encode_u64 acknowledgement @ cstr_bytes ch))"

definition poison_session_build_iv :: "PoisonSession \<Rightarrow> u64 \<Rightarrow> bytes" where
  "poison_session_build_iv session sequence =
     poison_session_encode_u32 (ucast (drop_bit 32 (ps_session_id session))) @
     poison_session_encode_u64 sequence"

text \<open>What \<open>poison_session_encrypt_tx\<close> leaves behind: the sequence it wrote, the call to the
  cipher if it got that far, and its result.\<close>

record EncryptResult =
  er_sequence :: "u64 option"
  er_sealed :: "(bytes \<times> bytes) option"
  er_result :: PoisonSessionResult

definition poison_session_encrypt_tx ::
    "Crypto \<Rightarrow> PoisonSession \<Rightarrow> u64 \<Rightarrow> string option \<Rightarrow> bytes option \<Rightarrow> nat \<Rightarrow>
     PoisonSession \<times> EncryptResult" where
  "poison_session_encrypt_tx cr session acknowledgement channel plaintext plaintext_length =
   (if (plaintext_length \<noteq> 0 \<and> plaintext = None) \<or>
       plaintext_length > POISON_SESSION_PAYLOAD_MAX \<or>
       ps_state session \<noteq> PoisonSessionActive \<or> \<not> ps_directional_keys_set session
    then (session, \<lparr> er_sequence = None, er_sealed = None, er_result = PoisonSessionResultInvalid \<rparr>)
    else case poison_session_reserve_tx session of
      (session', sequence, result) \<Rightarrow>
        if result \<noteq> PoisonSessionResultOk
        then (session', \<lparr> er_sequence = sequence, er_sealed = None, er_result = result \<rparr>)
        else case poison_session_build_aad session' (the sequence) acknowledgement channel of
               None \<Rightarrow> (session', \<lparr> er_sequence = sequence, er_sealed = None,
                                   er_result = PoisonSessionResultInvalid \<rparr>)
             | Some aad \<Rightarrow>
                 (case cr_gcm_encrypt cr (ps_transmit_key session')
                         (poison_session_build_iv session' (the sequence)) aad
                         (frame_payload plaintext plaintext_length) of
                    None \<Rightarrow> (session', \<lparr> er_sequence = sequence, er_sealed = None,
                                        er_result = PoisonSessionResultInvalid \<rparr>)
                  | Some sealed \<Rightarrow> (session', \<lparr> er_sequence = sequence, er_sealed = Some sealed,
                                               er_result = PoisonSessionResultOk \<rparr>)))"

definition poison_session_decrypt_rx ::
    "Crypto \<Rightarrow> PoisonSession \<Rightarrow> u64 \<Rightarrow> u64 \<Rightarrow> string option \<Rightarrow> bytes option \<Rightarrow> nat \<Rightarrow>
     bytes option \<Rightarrow> PoisonSession \<times> bytes option \<times> PoisonSessionResult" where
  "poison_session_decrypt_rx cr session sequence acknowledgement channel ciphertext
     ciphertext_length authentication_tag =
   (if authentication_tag = None \<or> (ciphertext_length \<noteq> 0 \<and> ciphertext = None) \<or>
       ciphertext_length > POISON_SESSION_PAYLOAD_MAX \<or>
       ps_state session \<noteq> PoisonSessionActive \<or> \<not> ps_directional_keys_set session
    then (session, None, PoisonSessionResultInvalid)
    else if sequence < ps_next_rx_sequence session then (session, None, PoisonSessionResultReplay)
    else if sequence > ps_next_rx_sequence session then (session, None, PoisonSessionResultGap)
    else case poison_session_build_aad session sequence acknowledgement channel of
           None \<Rightarrow> (session, None, PoisonSessionResultInvalid)
         | Some aad \<Rightarrow>
             (case cr_gcm_decrypt cr (ps_receive_key session)
                     (poison_session_build_iv session sequence) aad
                     (frame_payload ciphertext ciphertext_length) (the authentication_tag) of
                None \<Rightarrow> (session, None, PoisonSessionResultInvalid)
              | Some plaintext \<Rightarrow>
                  (case poison_session_accept_rx session sequence of
                     (session', result) \<Rightarrow> (session', Some plaintext, result))))"

section \<open>What the encodings determine\<close>

lemma encode_be:
  "poison_session_encode_u64 v = be_bytes 8 v"
  "poison_session_encode_u32 w = be_bytes 4 w"
  by (simp_all add: poison_session_encode_u64_def poison_session_encode_u32_def be_bytes_def)

lemma encode_length [simp]:
  "length (poison_session_encode_u64 v) = 8" "length (poison_session_encode_u32 w) = 4"
  by (simp_all add: encode_be)

lemma encode_inj [simp]:
  "poison_session_encode_u64 v = poison_session_encode_u64 v' \<longleftrightarrow> v = v'"
  "poison_session_encode_u32 w = poison_session_encode_u32 w' \<longleftrightarrow> w = w'"
  using be_bytes_inj [of 8 v v'] be_bytes_inj [of 4 w w'] by (auto simp: encode_be)

lemma encode_append_inj [simp]:
  "poison_session_encode_u64 v @ xs = poison_session_encode_u64 v' @ ys \<longleftrightarrow> v = v' \<and> xs = ys"
  "poison_session_encode_u32 w @ xs = poison_session_encode_u32 w' @ ys \<longleftrightarrow> w = w' \<and> xs = ys"
  by (simp_all add: append_eq_append_conv)

lemma iv_inj:
  "poison_session_build_iv s q = poison_session_build_iv s q' \<longleftrightarrow> q = q'"
  by (simp add: poison_session_build_iv_def)

text \<open>The bytes that are authenticated determine the frame: two frames with the same HMAC
  input have the same protocol version, session, sequence, acknowledgement, channel and
  payload, so a tag of one frame is never a tag of another under the same key.\<close>

theorem mac_input_binds_frame:
  assumes "no_nul ch" "no_nul ch'"
  shows "session_mac_input s v q a ch p = session_mac_input s' v' q' a' ch' p' \<longleftrightarrow>
    v = v' \<and> ps_session_id s = ps_session_id s' \<and> q = q' \<and> a = a' \<and> ch = ch' \<and> p = p'"
  using cstr_bytes_append_inj [OF assms] by (simp add: session_mac_input_def)

lemma mac_input_binds_frame_witness:
  "session_mac_input poison_session_init 2 1 0 ''rpc'' [1, 2] \<noteq>
     session_mac_input poison_session_init 2 1 0 ''rp'' [99, 1, 2]"
  by (subst mac_input_binds_frame) (auto simp: no_nul_def of_char_def)

lemma aad_inj:
  assumes "no_nul ch" "no_nul ch'"
    and "poison_session_build_aad s q a (Some ch) = Some aad"
    and "poison_session_build_aad s' q' a' (Some ch') = Some aad"
  shows "ps_protocol_version s = ps_protocol_version s'" "ps_session_id s = ps_session_id s'"
    "q = q'" "a = a'" "ch = ch'"
  using assms cstr_bytes_append_inj [OF assms(1,2), of "[]" "[]"]
  by (auto simp: poison_session_build_aad_def Let_def split: if_splits)

lemma aad_length: "poison_session_build_aad s q a ch = Some aad \<Longrightarrow> length aad \<le> 61"
  by (auto simp: poison_session_build_aad_def Let_def split: option.splits if_splits)

section \<open>The session as a machine\<close>

datatype SessionOp =
    OpBeginNegotiation u32 | OpBeginConfirmation u64 | OpConfirm bool | OpActivate
  | OpSetKeys "bytes option" "bytes option"
  | OpEncryptTx u64 "string option" "bytes option" nat
  | OpDecryptRx u64 u64 "string option" "bytes option" nat "bytes option"
  | OpAuthenticateRx u32 u64 u64 "string option" "bytes option" nat "bytes option"
  | OpReserveTx | OpAcceptRx u64 | OpClose | OpRevoke

text \<open>A step reports the result, the sequence number the call consumed for sending and the
  one it accepted.\<close>

record SessionOutcome =
  out_result :: PoisonSessionResult
  out_tx :: "u64 option"
  out_rx :: "u64 option"

definition outcome :: "PoisonSessionResult \<Rightarrow> SessionOutcome" where
  "outcome r = \<lparr> out_result = r, out_tx = None, out_rx = None \<rparr>"

definition tx_outcome :: "PoisonSessionResult \<Rightarrow> u64 option \<Rightarrow> SessionOutcome" where
  "tx_outcome r q = \<lparr> out_result = r, out_tx = q, out_rx = None \<rparr>"

definition rx_outcome :: "u64 \<Rightarrow> PoisonSessionResult \<Rightarrow> SessionOutcome" where
  "rx_outcome q r = \<lparr> out_result = r, out_tx = None,
     out_rx = (if r = PoisonSessionResultOk then Some q else None) \<rparr>"

fun session_step :: "Crypto \<Rightarrow> SessionOp \<Rightarrow> PoisonSession \<Rightarrow> PoisonSession \<times> SessionOutcome" where
  "session_step cr (OpBeginNegotiation v) s = map_prod id outcome (poison_session_begin_negotiation s v)"
| "session_step cr (OpBeginConfirmation i) s = map_prod id outcome (poison_session_begin_confirmation s i)"
| "session_step cr (OpConfirm p) s = map_prod id outcome (poison_session_confirm s p)"
| "session_step cr OpActivate s = map_prod id outcome (poison_session_activate s)"
| "session_step cr (OpSetKeys rk tk) s = map_prod id outcome (poison_session_set_directional_keys s rk tk)"
| "session_step cr (OpEncryptTx a ch p n) s =
     map_prod id (\<lambda>e. tx_outcome (er_result e) (er_sequence e)) (poison_session_encrypt_tx cr s a ch p n)"
| "session_step cr (OpDecryptRx q a ch c n tag) s =
     map_prod id (\<lambda>(plain, r). rx_outcome q r) (poison_session_decrypt_rx cr s q a ch c n tag)"
| "session_step cr (OpAuthenticateRx v q a ch p n tag) s =
     map_prod id (rx_outcome q) (poison_session_authenticate_rx cr s v q a ch p n tag)"
| "session_step cr OpReserveTx s =
     map_prod id (\<lambda>(q, r). tx_outcome r q) (poison_session_reserve_tx s)"
| "session_step cr (OpAcceptRx q) s = map_prod id (rx_outcome q) (poison_session_accept_rx s q)"
| "session_step cr OpClose s = map_prod id outcome (poison_session_close s)"
| "session_step cr OpRevoke s = map_prod id outcome (poison_session_revoke s)"

lemmas session_ops = poison_session_begin_negotiation_def poison_session_begin_confirmation_def
  poison_session_confirm_def poison_session_activate_def poison_session_set_directional_keys_def
  poison_session_reserve_tx_def poison_session_accept_rx_def poison_session_close_def
  poison_session_revoke_def

lemmas session_frames = poison_session_encrypt_tx_def poison_session_decrypt_rx_def
  poison_session_authenticate_rx_def

fun session_phase :: "PoisonSessionState \<Rightarrow> nat" where
  "session_phase PoisonSessionUnpaired = 0"
| "session_phase PoisonSessionNegotiating = 1"
| "session_phase PoisonSessionConfirming = 2"
| "session_phase PoisonSessionActive = 3"
| "session_phase PoisonSessionClosing = 4"
| "session_phase PoisonSessionRevoked = 5"

lemma session_phase_inj [simp]: "session_phase a = session_phase b \<longleftrightarrow> a = b"
  by (cases a; cases b) simp_all

lemma session_phase_step:
  "session_phase (ps_state s) \<le> session_phase (ps_state (fst (session_step cr op s)))"
  by (cases op; cases "ps_state s")
    (auto simp: session_ops session_frames Let_def split: option.splits prod.splits)

text \<open>What holds in each state.\<close>

definition session_inv :: "PoisonSession \<Rightarrow> bool" where
  "session_inv s \<longleftrightarrow>
     length (ps_receive_key s) \<le> 32 \<and> length (ps_transmit_key s) \<le> 32 \<and>
     (ps_state s \<in> {PoisonSessionActive, PoisonSessionClosing} \<longrightarrow>
        ps_physical_confirmation s \<and> ps_session_id s \<noteq> 0 \<and> ps_protocol_version s = 2) \<and>
     (ps_state s = PoisonSessionConfirming \<longrightarrow> ps_session_id s \<noteq> 0 \<and> ps_protocol_version s = 2) \<and>
     (ps_state s = PoisonSessionNegotiating \<longrightarrow> ps_protocol_version s = 2) \<and>
     (ps_state s \<in> {PoisonSessionUnpaired, PoisonSessionNegotiating} \<longrightarrow>
        \<not> ps_directional_keys_set s \<and> \<not> ps_physical_confirmation s) \<and>
     (ps_state s = PoisonSessionRevoked \<longrightarrow>
        ps_session_id s = 0 \<and> \<not> ps_directional_keys_set s \<and> \<not> ps_physical_confirmation s \<and>
        ps_receive_key s = zeros 32 \<and> ps_transmit_key s = zeros 32)"

lemma session_init_inv [inv_intros]: "session_inv poison_session_init"
  by (simp add: session_inv_def poison_session_init_def)

lemma session_step_inv [inv_intros]:
  assumes "session_inv s"
  shows "session_inv (fst (session_step cr op s))"
  using assms
  by (cases op)
    (auto simp: session_inv_def session_ops session_frames Let_def split: option.splits prod.splits)

interpretation session: invariant_machine "session_step cr" session_inv for cr
  by unfold_locales (rule session_step_inv)

lemma session_phase_run:
  "session_phase (ps_state s) \<le> session_phase (ps_state (run_state (session_step cr) s ops))"
proof (induction ops arbitrary: s)
  case (Cons op ops)
  show ?case
    using session_phase_step [of s cr op] Cons.IH [of "fst (session_step cr op s)"] by simp
qed simp

section \<open>No replay\<close>

lemmas outcome_defs = outcome_def tx_outcome_def rx_outcome_def

text \<open>The number below which nothing is sent (accepted) any more: none before the session is
  active, the counter while it is, all numbers after.\<close>

definition sequence_floor :: "(PoisonSession \<Rightarrow> u64) \<Rightarrow> PoisonSession \<Rightarrow> nat" where
  "sequence_floor counter s =
     (if session_phase (ps_state s) < 3 then 0
      else if session_phase (ps_state s) = 3 then unat (counter s) else 2 ^ 64)"

lemma floor_le: "sequence_floor counter s \<le> 2 ^ 64"
  using unat_bounds(4) [of "counter s"] by (simp add: sequence_floor_def)

lemma reserve_tx_some:
  "fst (snd (poison_session_reserve_tx s)) = Some q \<longleftrightarrow>
     ps_state s = PoisonSessionActive \<and> q = ps_next_tx_sequence s \<and> q \<noteq> UINT64_MAX"
  "fst (snd (poison_session_reserve_tx s)) = Some q \<Longrightarrow>
     fst (poison_session_reserve_tx s) = s \<lparr> ps_next_tx_sequence := q + 1 \<rparr>"
  by (auto simp: poison_session_reserve_tx_def)

lemma accept_rx_ok:
  "snd (poison_session_accept_rx s q) = PoisonSessionResultOk \<longleftrightarrow>
     ps_state s = PoisonSessionActive \<and> q = ps_next_rx_sequence s \<and> q \<noteq> UINT64_MAX"
  "snd (poison_session_accept_rx s q) = PoisonSessionResultOk \<Longrightarrow>
     fst (poison_session_accept_rx s q) = s \<lparr> ps_next_rx_sequence := q + 1 \<rparr>"
  "snd (poison_session_accept_rx s q) \<noteq> PoisonSessionResultOk \<Longrightarrow>
     fst (poison_session_accept_rx s q) = s"
  by (auto simp: poison_session_accept_rx_def)

lemma encrypt_tx_reserves:
  "er_sequence (snd (poison_session_encrypt_tx cr s a ch p n)) = Some q \<Longrightarrow>
     fst (poison_session_encrypt_tx cr s a ch p n) = fst (poison_session_reserve_tx s) \<and>
     fst (snd (poison_session_reserve_tx s)) = Some q"
  by (auto simp: poison_session_encrypt_tx_def poison_session_reserve_tx_def
      split: option.splits if_splits)

lemma decrypt_rx_accepts:
  "snd (snd (poison_session_decrypt_rx cr s q a ch c n tag)) = PoisonSessionResultOk \<Longrightarrow>
     fst (poison_session_decrypt_rx cr s q a ch c n tag) = fst (poison_session_accept_rx s q) \<and>
     snd (poison_session_accept_rx s q) = PoisonSessionResultOk"
  by (auto simp: poison_session_decrypt_rx_def split_beta split: option.splits if_splits)

lemma authenticate_rx_accepts:
  "snd (poison_session_authenticate_rx cr s v q a ch p n tag) = PoisonSessionResultOk \<Longrightarrow>
     fst (poison_session_authenticate_rx cr s v q a ch p n tag) = fst (poison_session_accept_rx s q) \<and>
     snd (poison_session_accept_rx s q) = PoisonSessionResultOk"
  by (simp add: poison_session_authenticate_rx_def Let_def split: option.splits if_splits)

lemma step_sends:
  assumes "out_tx (snd (session_step cr op s)) = Some q"
  shows "fst (session_step cr op s) = fst (poison_session_reserve_tx s)"
    "fst (snd (poison_session_reserve_tx s)) = Some q"
  using assms encrypt_tx_reserves
  by (cases op; simp add: outcome_defs split_beta)+

lemma step_receives:
  assumes "out_rx (snd (session_step cr op s)) = Some q"
  shows "fst (session_step cr op s) = fst (poison_session_accept_rx s q)"
    "snd (poison_session_accept_rx s q) = PoisonSessionResultOk"
  using assms decrypt_rx_accepts authenticate_rx_accepts
  by (cases op; simp add: outcome_defs split_beta split: if_splits)+

lemma sends_only_active:
  assumes "out_tx (snd (session_step cr op s)) = Some q"
  shows "ps_state s = PoisonSessionActive" "q = ps_next_tx_sequence s" "q \<noteq> UINT64_MAX"
    "fst (session_step cr op s) = s \<lparr> ps_next_tx_sequence := q + 1 \<rparr>"
  using step_sends [OF assms] reserve_tx_some(1) [of s q] reserve_tx_some(2) [of s q] by auto

lemma receives_only_active:
  assumes "out_rx (snd (session_step cr op s)) = Some q"
  shows "ps_state s = PoisonSessionActive" "q = ps_next_rx_sequence s" "q \<noteq> UINT64_MAX"
    "fst (session_step cr op s) = s \<lparr> ps_next_rx_sequence := q + 1 \<rparr>"
  using step_receives [OF assms] accept_rx_ok(1) [of s q] accept_rx_ok(2) [of s q] by auto

lemma silent_step:
  assumes "ps_state s = PoisonSessionActive"
    "ps_state (fst (session_step cr op s)) = PoisonSessionActive"
  shows "out_tx (snd (session_step cr op s)) = None \<Longrightarrow>
           ps_next_tx_sequence (fst (session_step cr op s)) = ps_next_tx_sequence s"
    "out_rx (snd (session_step cr op s)) = None \<Longrightarrow>
           ps_next_rx_sequence (fst (session_step cr op s)) = ps_next_rx_sequence s"
  using assms
  by (cases op; auto simp: session_ops session_frames outcome_defs Let_def
      split: option.splits prod.splits if_splits)+

lemma floor_cases:
  "ps_state s = PoisonSessionActive \<Longrightarrow> sequence_floor counter s = unat (counter s)"
  "session_phase (ps_state s) < 3 \<Longrightarrow> sequence_floor counter s = 0"
  "3 < session_phase (ps_state s) \<Longrightarrow> sequence_floor counter s = 2 ^ 64"
  by (simp_all add: sequence_floor_def)

lemma phase_3 [simp]: "session_phase st = 3 \<longleftrightarrow> st = PoisonSessionActive"
  by (cases st) simp_all

lemma floor_silent:
  assumes keeps: "ps_state s = PoisonSessionActive \<Longrightarrow> ps_state s' = PoisonSessionActive \<Longrightarrow>
            counter s' = counter s"
    and phase: "session_phase (ps_state s) \<le> session_phase (ps_state s')"
  shows "sequence_floor counter s \<le> sequence_floor counter s'"
proof -
  consider "session_phase (ps_state s) < 3" | "3 < session_phase (ps_state s')"
    | "session_phase (ps_state s) = 3" "session_phase (ps_state s') = 3"
    using phase by linarith
  then show ?thesis
  proof cases
    case 1 then show ?thesis by (simp add: sequence_floor_def)
  next
    case 2 then show ?thesis using floor_le [of counter s] by (simp add: floor_cases)
  next
    case 3 with keeps show ?thesis by (simp add: floor_cases)
  qed
qed

interpretation sending: replay_guard "session_step cr" "\<lambda>s. True" "\<lambda>r. out_tx r \<noteq> None"
  "\<lambda>x. unat (the (out_tx (snd x)))" "sequence_floor ps_next_tx_sequence" for cr
proof (unfold_locales, goal_cases)
  case (2 s op)
  then obtain q where q: "out_tx (snd (session_step cr op s)) = Some q" by blast
  then show ?case using sends_only_active [OF q] by (simp add: floor_cases)
next
  case (3 s op)
  then obtain q where q: "out_tx (snd (session_step cr op s)) = Some q" by blast
  then show ?case using sends_only_active [OF q] by (simp add: floor_cases unat_Suc_eq)
next
  case (4 s op)
  then show ?case
    using silent_step(1) [of s cr op] session_phase_step [of s cr op]
    by (intro floor_silent) simp_all
qed simp

interpretation receiving: replay_guard "session_step cr" "\<lambda>s. True" "\<lambda>r. out_rx r \<noteq> None"
  "\<lambda>x. unat (the (out_rx (snd x)))" "sequence_floor ps_next_rx_sequence" for cr
proof (unfold_locales, goal_cases)
  case (1 s op)
  then obtain q where q: "out_rx (snd (session_step cr op s)) = Some q" by blast
  then show ?case using receives_only_active [OF q] by (simp add: floor_cases)
next
  case (2 s op)
  then obtain q where q: "out_rx (snd (session_step cr op s)) = Some q" by blast
  then show ?case using receives_only_active [OF q] by (simp add: floor_cases unat_Suc_eq)
next
  case (3 s op)
  then show ?case
    using silent_step(2) [of s cr op] session_phase_step [of s cr op]
    by (intro floor_silent) simp_all
qed

text \<open>The sequence numbers the calls of a run sent under, and those they accepted.\<close>

definition sent_sequences :: "Crypto \<Rightarrow> PoisonSession \<Rightarrow> SessionOp list \<Rightarrow> u64 list" where
  "sent_sequences cr s ops =
     map (\<lambda>x. the (out_tx (snd x))) (accepted (session_step cr) (\<lambda>r. out_tx r \<noteq> None) s ops)"

definition received_sequences :: "Crypto \<Rightarrow> PoisonSession \<Rightarrow> SessionOp list \<Rightarrow> u64 list" where
  "received_sequences cr s ops =
     map (\<lambda>x. the (out_rx (snd x))) (accepted (session_step cr) (\<lambda>r. out_rx r \<noteq> None) s ops)"

lemma increasing_unat:
  fixes f :: "'x \<Rightarrow> 'a :: len word"
  shows "sorted_wrt (<) (map (\<lambda>x. unat (f x)) xs) \<longleftrightarrow> sorted_wrt (<) (map f xs)"
  by (induction xs) (auto simp: word_less_nat_alt)

lemma sent_increasing: "sorted_wrt (<) (sent_sequences cr s ops)"
  using sending.accepted_increasing [of cr s ops]
  by (simp only: sent_sequences_def increasing_unat)

lemma received_increasing: "sorted_wrt (<) (received_sequences cr s ops)"
  using receiving.accepted_increasing [of cr s ops]
  by (simp only: received_sequences_def increasing_unat)

text \<open>What the cipher returned to the calls of a run that seal a frame.\<close>

fun op_sealed :: "Crypto \<Rightarrow> SessionOp \<Rightarrow> PoisonSession \<Rightarrow> (bytes \<times> bytes) option" where
  "op_sealed cr (OpEncryptTx a ch p n) s = er_sealed (snd (poison_session_encrypt_tx cr s a ch p n))"
| "op_sealed cr _ s = None"

primrec sealed_run :: "Crypto \<Rightarrow> PoisonSession \<Rightarrow> SessionOp list \<Rightarrow> (bytes \<times> bytes) list" where
  "sealed_run cr s [] = []"
| "sealed_run cr s (op # ops) =
     (case op_sealed cr op s of None \<Rightarrow> [] | Some x \<Rightarrow> [x]) @ sealed_run cr (fst (session_step cr op s)) ops"

text \<open>A cipher that hands back the key and the initialisation vector it was called with.\<close>

definition recording :: "Crypto \<Rightarrow> Crypto" where
  "recording cr = cr \<lparr> cr_gcm_encrypt := \<lambda>key iv aad plaintext. Some (iv, key) \<rparr>"

lemma recorded_iv:
  assumes "op_sealed (recording cr) op s = Some x"
  shows "\<exists>q. out_tx (snd (session_step (recording cr) op s)) = Some q \<and> drop 4 (fst x) = poison_session_encode_u64 q"
proof (cases op)
  case (OpEncryptTx a ch p n)
  then show ?thesis
    using assms
    by (auto simp: recording_def poison_session_encrypt_tx_def tx_outcome_def poison_session_build_iv_def
        poison_session_reserve_tx_def split: option.splits if_splits prod.splits)
qed (use assms in simp_all)

text \<open>What the cipher answers has no influence on the session.\<close>

lemma recording_same_session: "fst (session_step (recording cr) op s) = fst (session_step cr op s)"
  by (cases op) (auto simp: recording_def session_frames poison_session_authenticate_rx_def poison_session_compute_tag_def
      split: option.splits prod.splits)

lemma subseq_distinct: "subseq xs ys \<Longrightarrow> distinct ys \<Longrightarrow> distinct xs"
  by (induction xs ys rule: list_emb.induct) (auto dest: list_emb_set)

lemma recorded_subseq:
  "subseq (map (\<lambda>x. drop 4 (fst x)) (sealed_run (recording cr) s ops))
     (map poison_session_encode_u64 (sent_sequences (recording cr) s ops))"
proof (induction ops arbitrary: s)
  case (Cons op ops)
  show ?case
  proof (cases "op_sealed (recording cr) op s")
    case None
    then show ?thesis using Cons [of "fst (session_step (recording cr) op s)"]
      by (auto simp: sent_sequences_def)
  next
    case (Some x)
    then show ?thesis using Cons [of "fst (session_step (recording cr) op s)"] recorded_iv [OF Some]
      by (auto simp: sent_sequences_def)
  qed
qed (simp add: sent_sequences_def)

text \<open>C6: whatever calls are made on a session, in whatever order and with whatever results of the cryptographic
  primitives, no two calls of the cipher get the same initialisation vector, no two sends have the same sequence
  number and no sequence number is accepted twice.  The initialisation vectors are those the cipher itself sees:
  it is taken to hand back what it was called with, as its answer has no influence on the session.\<close>

theorem session_no_iv_reuse_no_replay:
  "distinct (map fst (sealed_run (recording cr) s ops)) \<and>
   distinct (sent_sequences cr s ops) \<and> distinct (received_sequences cr s ops)"
proof -
  have d: "distinct (sent_sequences cr s ops)" "distinct (received_sequences cr s ops)" for cr
    using sent_increasing received_increasing strict_sorted_iff by blast+
  have "distinct (map poison_session_encode_u64 (sent_sequences (recording cr) s ops))"
    using d(1) by (simp add: distinct_map inj_on_def)
  then have "distinct (map (\<lambda>x. drop 4 (fst x)) (sealed_run (recording cr) s ops))"
    using recorded_subseq [of cr s ops] subseq_distinct by blast
  then have "distinct (map (drop 4) (map fst (sealed_run (recording cr) s ops)))" by (simp add: o_def)
  then have "distinct (map fst (sealed_run (recording cr) s ops))" by (simp only: distinct_map)
  with d show ?thesis by blast
qed

section \<open>How a session becomes active\<close>

text \<open>The calls that a session in a given state has been through, in order.\<close>

definition session_history :: "PoisonSession \<Rightarrow> SessionOp list" where
  "session_history s =
     (if session_phase (ps_state s) \<ge> 1 then [OpBeginNegotiation 2] else []) @
     (if session_phase (ps_state s) \<ge> 2 then [OpBeginConfirmation (ps_session_id s)] else []) @
     (if ps_physical_confirmation s then [OpConfirm True] else []) @
     (if session_phase (ps_state s) \<ge> 3 then [OpActivate] else [])"

definition session_trace_inv :: "SessionOp list \<Rightarrow> PoisonSession \<Rightarrow> bool" where
  "session_trace_inv tr s \<longleftrightarrow> session_inv s \<and>
     (ps_state s \<noteq> PoisonSessionRevoked \<longrightarrow> subseq (session_history s) tr)"

lemma subseq_snoc: "subseq xs tr \<Longrightarrow> subseq xs (tr @ [x])"
  and subseq_snoc2: "subseq xs tr \<Longrightarrow> subseq (xs @ [x]) (tr @ [x])"
  using list_emb_append_mono [of "(=)" xs tr "[]" "[x]"] by simp_all

lemma quiet_ops [simp]:
  "fst (poison_session_set_directional_keys s rk tk) = s \<or>
     fst (poison_session_set_directional_keys s rk tk) =
       s \<lparr> ps_receive_key := take 32 (the rk), ps_transmit_key := take 32 (the tk),
           ps_directional_keys_set := True \<rparr>"
  "fst (poison_session_reserve_tx s) = s \<or>
     fst (poison_session_reserve_tx s) = s \<lparr> ps_next_tx_sequence := ps_next_tx_sequence s + 1 \<rparr>"
  "fst (poison_session_accept_rx s q) = s \<or>
     fst (poison_session_accept_rx s q) = s \<lparr> ps_next_rx_sequence := ps_next_rx_sequence s + 1 \<rparr>"
  by (auto simp: session_ops)

lemma quiet_frames:
  "fst (poison_session_encrypt_tx cr s a ch p n) = s \<or>
     fst (poison_session_encrypt_tx cr s a ch p n) = fst (poison_session_reserve_tx s)"
  "fst (poison_session_decrypt_rx cr s q a ch c n tag) = s \<or>
     fst (poison_session_decrypt_rx cr s q a ch c n tag) = fst (poison_session_accept_rx s q)"
  "fst (poison_session_authenticate_rx cr s v q a ch p n tag) = s \<or>
     fst (poison_session_authenticate_rx cr s v q a ch p n tag) = fst (poison_session_accept_rx s q)"
  by (auto simp: session_frames Let_def split: option.splits prod.splits)

lemma session_history_cong:
  "ps_state s' = ps_state s \<Longrightarrow> ps_session_id s' = ps_session_id s \<Longrightarrow>
   ps_physical_confirmation s' = ps_physical_confirmation s \<Longrightarrow>
   session_history s' = session_history s"
  by (simp add: session_history_def)

lemma quiet_history:
  "session_history (fst (poison_session_set_directional_keys s rk tk)) = session_history s"
  "session_history (fst (poison_session_reserve_tx s)) = session_history s"
  "session_history (fst (poison_session_accept_rx s q)) = session_history s"
  by (auto simp: session_ops intro: session_history_cong)

lemma quiet_frame_history:
  "session_history (fst (poison_session_encrypt_tx cr s a ch p n)) = session_history s"
  "session_history (fst (poison_session_decrypt_rx cr s q a ch c n tag)) = session_history s"
  "session_history (fst (poison_session_authenticate_rx cr s v q a ch p n tag)) = session_history s"
  using quiet_frames(1) [of cr s a ch p n] quiet_frames(2) [of cr s q a ch c n tag]
    quiet_frames(3) [of cr s v q a ch p n tag] by (auto simp: quiet_history)

lemma session_history_step:
  assumes "session_inv s" "ps_state (fst (session_step cr op s)) \<noteq> PoisonSessionRevoked"
  shows "session_history (fst (session_step cr op s)) = session_history s \<or>
         session_history (fst (session_step cr op s)) = session_history s @ [op]"
proof (cases op)
  case (OpBeginNegotiation v)
  then show ?thesis using assms
    by (simp add: poison_session_begin_negotiation_def session_history_def session_inv_def)
next
  case (OpBeginConfirmation i)
  then show ?thesis using assms
    by (simp add: poison_session_begin_confirmation_def session_history_def session_inv_def)
next
  case (OpConfirm p)
  then show ?thesis using assms by (simp add: poison_session_confirm_def session_history_def)
next
  case OpActivate
  then show ?thesis using assms by (simp add: poison_session_activate_def session_history_def)
next
  case OpClose
  then show ?thesis using assms by (simp add: poison_session_close_def session_history_def)
next
  case OpRevoke
  then show ?thesis using assms by (simp add: poison_session_revoke_def)
qed (simp_all add: quiet_history quiet_frame_history)

lemma revoked_stays:
  "ps_state s = PoisonSessionRevoked \<Longrightarrow> ps_state (fst (session_step cr op s)) = PoisonSessionRevoked"
  using session_phase_step [of s cr op]
  by (cases "ps_state (fst (session_step cr op s))") simp_all

lemma session_trace_run:
  "session_trace_inv tr s \<Longrightarrow> session_trace_inv (tr @ ops) (run_state (session_step cr) s ops)"
proof (induction ops arbitrary: tr s)
  case (Cons op ops)
  let ?s = "fst (session_step cr op s)"
  have inv: "session_inv s" "session_inv ?s"
    using Cons.prems by (simp_all add: session_trace_inv_def session_step_inv)
  have "session_trace_inv (tr @ [op]) ?s"
  proof (cases "ps_state ?s = PoisonSessionRevoked")
    case True
    with inv show ?thesis by (simp add: session_trace_inv_def)
  next
    case False
    then have "subseq (session_history s) tr"
      using Cons.prems revoked_stays by (auto simp: session_trace_inv_def)
    then show ?thesis
      using session_history_step [OF inv(1) False] inv(2)
      by (auto simp: session_trace_inv_def intro: subseq_snoc subseq_snoc2)
  qed
  from Cons.IH [OF this] show ?case by simp
qed simp

text \<open>C7: if a run of calls on a fresh session leaves it active, then the run negotiated
  protocol 2, fixed the (non-zero) session number, confirmed physically and activated, in this
  order.\<close>

theorem session_active_only_after_confirmation:
  assumes "ps_state (run_state (session_step cr) poison_session_init ops) = PoisonSessionActive"
  shows "\<exists>i. i \<noteq> 0 \<and> i = ps_session_id (run_state (session_step cr) poison_session_init ops) \<and>
    subseq [OpBeginNegotiation 2, OpBeginConfirmation i, OpConfirm True, OpActivate] ops"
proof -
  let ?s = "run_state (session_step cr) poison_session_init ops"
  have "session_trace_inv [] poison_session_init"
    using session_init_inv
    by (simp add: session_trace_inv_def session_history_def) (simp add: poison_session_init_def)
  from session_trace_run [OF this, of ops cr] have "session_trace_inv ops ?s" by simp
  with assms show ?thesis
    by (auto simp: session_trace_inv_def session_history_def session_inv_def)
qed

definition sample_crypto :: Crypto where
  "sample_crypto = \<lparr> cr_sha256 = (\<lambda>bs. Some (take 32 (bs @ replicate 32 1))),
     cr_hmac_sha256 = (\<lambda>k bs. Some (replicate 32 (of_nat (length bs)))),
     cr_gcm_encrypt = (\<lambda>k iv aad p. Some (p, take 16 aad)),
     cr_gcm_decrypt = (\<lambda>k iv aad c tag. if tag = take 16 aad then Some c else None),
     cr_shared_secret = (\<lambda>priv pub. Some (replicate 32 3)),
     cr_hkdf_sha256 = (\<lambda>salt ikm info n. Some (replicate n 4)),
     cr_verify_p256 = (\<lambda>pub digest sig. sig = [1]) \<rparr>"

definition sample_session_ops :: "SessionOp list" where
  "sample_session_ops = [OpBeginNegotiation 2, OpBeginConfirmation 77,
     OpSetKeys (Some (replicate 32 1)) (Some (replicate 32 2)), OpConfirm True, OpActivate]"

lemma session_active_only_after_confirmation_witness:
  "subseq [OpBeginNegotiation 2, OpBeginConfirmation 77, OpConfirm True, OpActivate] sample_session_ops"
  using session_active_only_after_confirmation [of sample_crypto sample_session_ops]
  by (simp add: sample_session_ops_def session_ops poison_session_init_def)

text \<open>A session that has been closed or revoked never becomes active again, and whatever is
  called on it afterwards neither sends nor accepts a sequence number.\<close>

theorem session_ended_stays_ended:
  assumes "ps_state s \<in> {PoisonSessionClosing, PoisonSessionRevoked}"
  shows "ps_state (run_state (session_step cr) s ops) \<in> {PoisonSessionClosing, PoisonSessionRevoked} \<and>
    sent_sequences cr s ops = [] \<and> received_sequences cr s ops = []"
  using assms
proof (induction ops arbitrary: s)
  case (Cons op ops)
  have 4: "4 \<le> session_phase (ps_state s)"
    using Cons.prems by auto
  then have "4 \<le> session_phase (ps_state (fst (session_step cr op s)))"
    using session_phase_step [of s cr op] by simp
  then have st: "ps_state (fst (session_step cr op s)) \<in> {PoisonSessionClosing, PoisonSessionRevoked}"
    by (cases "ps_state (fst (session_step cr op s))") simp_all
  have "out_tx (snd (session_step cr op s)) = None" "out_rx (snd (session_step cr op s)) = None"
    using 4 sends_only_active(1) [of cr op s] receives_only_active(1) [of cr op s]
    by (cases "out_tx (snd (session_step cr op s))"; cases "out_rx (snd (session_step cr op s))"; simp)+
  with Cons.IH [OF st] show ?case
    by (simp add: sent_sequences_def received_sequences_def)
qed (simp add: sent_sequences_def received_sequences_def)

lemma session_ended_stays_ended_witness:
  "sent_sequences sample_crypto (fst (poison_session_revoke poison_session_init)) [OpReserveTx] = []"
  using session_ended_stays_ended [of "fst (poison_session_revoke poison_session_init)" sample_crypto]
  by (simp add: poison_session_revoke_def)

end
