(* ===== verification/Pairing.thy ===== *)
theory Pairing
  imports Session
begin

text \<open>The pairing handshake of \<open>rpc/rpc_poison_session.c\<close>: the hello of a client, the challenge
  of the device with the digest of a transcript of everything exchanged, and the confirmation
  that turns the handshake into an active session.  Protocol buffer messages are records;
  what the random generator and the key generator return are arguments.\<close>

section \<open>Messages and state\<close>

abbreviation "POISON_PAIRING_TTL_MS \<equiv> (60000 :: u64)"
abbreviation "POISON_CRYPTO_P256_PUBLIC_BYTES \<equiv> (65 :: nat)"
abbreviation "POISON_CRYPTO_P256_PRIVATE_BYTES \<equiv> (32 :: nat)"

record PairingHello =
  hello_protocol_version :: u32
  hello_ephemeral_key :: bytes
  hello_identity_key :: bytes
  hello_client_name :: string
  hello_requested_role :: u32
  hello_requested_capabilities :: u32
  hello_client_nonce :: bytes

record PairingChallenge =
  chal_protocol_version :: u32
  chal_device_public_key :: bytes
  chal_device_nonce :: bytes
  chal_confirmation_code :: string
  chal_transcript_digest :: bytes
  chal_expires_at_ms :: u64
  chal_session_id :: u64

record PairingConfirm =
  pc_transcript_digest :: bytes
  pc_confirmation_code :: string
  pc_identity_signature :: bytes
  pc_physical_confirmation :: bool

record PoisonPairingHandshake =
  ph_session :: PoisonSession
  ph_device_private_key :: bytes
  ph_device_public_key :: bytes
  ph_client_public_key :: bytes
  ph_client_identity_public_key :: bytes
  ph_client_identity_digest :: bytes
  ph_client_nonce :: bytes
  ph_device_nonce :: bytes
  ph_transcript_digest :: bytes
  ph_confirmation_code :: string
  ph_client_name :: string
  ph_requested_role :: PoisonRole
  ph_requested_capabilities :: PoisonCapability
  ph_expires_at_ms :: u64
  ph_pending :: bool

definition handshake_zero :: PoisonPairingHandshake where
  "handshake_zero = \<lparr> ph_session = poison_session_init, ph_device_private_key = zeros 32,
     ph_device_public_key = zeros 65, ph_client_public_key = zeros 65,
     ph_client_identity_public_key = zeros 65, ph_client_identity_digest = zeros 32,
     ph_client_nonce = zeros 32, ph_device_nonce = zeros 32, ph_transcript_digest = zeros 32,
     ph_confirmation_code = '''', ph_client_name = '''', ph_requested_role = PoisonRoleOwner,
     ph_requested_capabilities = 0, ph_expires_at_ms = 0, ph_pending = False \<rparr>"

section \<open>The transcript\<close>

text \<open>\<open>poison_pairing_append\<close> appends a value unless it overflows the buffer.\<close>

definition poison_pairing_append :: "nat \<Rightarrow> bytes \<Rightarrow> bytes option \<Rightarrow> bytes option" where
  "poison_pairing_append capacity value transcript =
     (case transcript of None \<Rightarrow> None
      | Some t \<Rightarrow> if length value > capacity - length t then None else Some (t @ value))"

definition pairing_transcript_bytes :: "PairingHello \<Rightarrow> PoisonPairingHandshake \<Rightarrow> bytes option" where
  "pairing_transcript_bytes hello handshake =
     (let put = poison_pairing_append 384
      in put (poison_session_encode_u64 (ps_session_id (ph_session handshake)))
        (put (poison_session_encode_u64 (ph_expires_at_ms handshake))
        (put (ph_device_nonce handshake)
        (put (ph_device_public_key handshake)
        (put (hello_client_nonce hello)
        (put (poison_session_encode_u32 (hello_requested_capabilities hello))
        (put (poison_session_encode_u32 (hello_requested_role hello))
        (put (cstr_bytes (hello_client_name hello))
        (put (hello_identity_key hello)
        (put (hello_ephemeral_key hello)
        (put (poison_session_encode_u32 (hello_protocol_version hello)) (Some []))))))))))))"

definition poison_pairing_transcript :: "Crypto \<Rightarrow> PairingHello \<Rightarrow> PoisonPairingHandshake \<Rightarrow> bytes option" where
  "poison_pairing_transcript cr hello handshake =
     (case pairing_transcript_bytes hello handshake of None \<Rightarrow> None
      | Some transcript \<Rightarrow> cr_sha256 cr transcript)"

section \<open>Begin\<close>

text \<open>\<open>snprintf(code, 13, "%06lu", value)\<close> for a value below one million.\<close>

definition dec_digit :: "nat \<Rightarrow> char" where
  "dec_digit d = char_of (48 + d mod 10)"

definition format_06 :: "nat \<Rightarrow> string" where
  "format_06 v = map (\<lambda>k. dec_digit (v div 10 ^ k)) [5, 4, 3, 2, 1, 0]"

definition pairing_code :: "bytes \<Rightarrow> string" where
  "pairing_code digest =
     (let code_value = push_bit 24 (ucast (digest ! 0)) OR push_bit 16 (ucast (digest ! 1)) OR
                       push_bit 8 (ucast (digest ! 2)) OR (ucast (digest ! 3) :: u32)
      in format_06 (unat (code_value mod 1000000)))"

definition pairing_hello_valid :: "PairingHello \<Rightarrow> u64 \<Rightarrow> bool" where
  "pairing_hello_valid hello now_ms \<longleftrightarrow>
     \<not> (hello_protocol_version hello \<noteq> 2 \<or>
        length (hello_ephemeral_key hello) \<noteq> POISON_CRYPTO_P256_PUBLIC_BYTES \<or>
        hello_ephemeral_key hello ! 0 \<noteq> 0x04 \<or> length (hello_client_nonce hello) \<noteq> 32 \<or>
        length (hello_identity_key hello) \<noteq> POISON_CRYPTO_P256_PUBLIC_BYTES \<or>
        hello_identity_key hello ! 0 \<noteq> 0x04 \<or>
        \<not> poison_session_nonzero (Some (hello_client_nonce hello)) (length (hello_client_nonce hello)) \<or>
        hello_client_name hello = '''' \<or> strnlen (hello_client_name hello) 33 > 32 \<or>
        unat (hello_requested_role hello) \<ge> role_index PoisonRoleCount \<or>
        hello_requested_capabilities hello AND NOT (0xFF :: PoisonCapability) \<noteq> 0 \<or>
        UINT64_MAX - now_ms < POISON_PAIRING_TTL_MS)"

definition erase_private :: "PoisonPairingHandshake \<Rightarrow> PoisonPairingHandshake" where
  "erase_private handshake = handshake \<lparr> ph_device_private_key := zeros 32 \<rparr>"

definition revoke_handshake :: "PoisonPairingHandshake \<Rightarrow> PoisonPairingHandshake" where
  "revoke_handshake handshake =
     handshake \<lparr> ph_session := fst (poison_session_revoke (ph_session handshake)) \<rparr>"

text \<open>The random values the call draws: the key pair (None when its generation fails), the
  device nonce and the session number.\<close>

record PairingRandom =
  pr_keypair :: "(bytes \<times> bytes) option"
  pr_device_nonce :: bytes
  pr_session_id :: u64

definition poison_pairing_begin ::
    "Crypto \<Rightarrow> PairingRandom \<Rightarrow> PoisonPairingHandshake \<Rightarrow> PairingHello \<Rightarrow> u64 \<Rightarrow>
     PoisonPairingHandshake \<times> PairingChallenge option" where
  "poison_pairing_begin cr random handshake hello now_ms =
   (if \<not> pairing_hello_valid hello now_ms then (handshake, None)
    else case poison_session_begin_negotiation poison_session_init 2 of (s1, r1) \<Rightarrow>
      let h1 = handshake_zero \<lparr> ph_session := s1 \<rparr>
      in if r1 \<noteq> PoisonSessionResultOk then (h1, None)
      else case pr_keypair random of
        None \<Rightarrow> (h1, None)
      | Some (private, public) \<Rightarrow>
        let h2 = h1 \<lparr> ph_device_private_key := private, ph_device_public_key := public,
                       ph_client_public_key := hello_ephemeral_key hello,
                       ph_client_identity_public_key := hello_identity_key hello \<rparr>
        in case cr_sha256 cr (ph_client_identity_public_key h2) of
          None \<Rightarrow> (erase_private (revoke_handshake h2), None)
        | Some identity_digest \<Rightarrow>
          let session_id = (if pr_session_id random = 0 then 1 else pr_session_id random);
              h3 = h2 \<lparr> ph_client_identity_digest := identity_digest,
                         ph_client_nonce := hello_client_nonce hello,
                         ph_device_nonce := pr_device_nonce random,
                         ph_session := (ph_session h2) \<lparr> ps_session_id := session_id \<rparr>,
                         ph_expires_at_ms := now_ms + POISON_PAIRING_TTL_MS,
                         ph_requested_role := role_of_wire (hello_requested_role hello),
                         ph_requested_capabilities := hello_requested_capabilities hello,
                         ph_client_name := hello_client_name hello \<rparr>
          in case poison_session_begin_confirmation (ph_session h3) session_id of (s2, r2) \<Rightarrow>
            let h4 = h3 \<lparr> ph_session := s2 \<rparr>
            in if r2 \<noteq> PoisonSessionResultOk then (erase_private (revoke_handshake h4), None)
            else case poison_pairing_transcript cr hello h4 of
              None \<Rightarrow> (erase_private (revoke_handshake h4), None)
            | Some digest \<Rightarrow>
              let h5 = h4 \<lparr> ph_transcript_digest := digest,
                             ph_confirmation_code := pairing_code digest, ph_pending := True \<rparr>
              in (h5, Some \<lparr> chal_protocol_version = 2,
                    chal_device_public_key = ph_device_public_key h5,
                    chal_device_nonce = ph_device_nonce h5,
                    chal_confirmation_code = ph_confirmation_code h5,
                    chal_transcript_digest = ph_transcript_digest h5,
                    chal_expires_at_ms = ph_expires_at_ms h5,
                    chal_session_id = ps_session_id (ph_session h5) \<rparr>))"

section \<open>Complete\<close>

definition pairing_confirm_valid ::
    "Crypto \<Rightarrow> PoisonPairingHandshake \<Rightarrow> PairingConfirm \<Rightarrow> u64 \<Rightarrow> bool \<Rightarrow> bool" where
  "pairing_confirm_valid cr handshake confirm now_ms device_physical_confirmation \<longleftrightarrow>
     \<not> (\<not> ph_pending handshake \<or> now_ms \<ge> ph_expires_at_ms handshake \<or>
        length (pc_transcript_digest confirm) \<noteq> 32 \<or>
        pc_transcript_digest confirm \<noteq> ph_transcript_digest handshake \<or>
        pc_confirmation_code confirm \<noteq> ph_confirmation_code handshake \<or>
        length (pc_identity_signature confirm) = 0 \<or>
        \<not> cr_verify_p256 cr (ph_client_identity_public_key handshake)
             (ph_transcript_digest handshake) (pc_identity_signature confirm) \<or>
        \<not> pc_physical_confirmation confirm \<or> \<not> device_physical_confirmation)"

text \<open>\<open>memcpy(info, "poison-rpc-v2", 13)\<close>, without the NUL.\<close>

definition pairing_info :: "bytes \<Rightarrow> bytes" where
  "pairing_info digest = map of_char ''poison-rpc-v2'' @ digest"

definition pairing_keys :: "Crypto \<Rightarrow> PoisonPairingHandshake \<Rightarrow> bytes option" where
  "pairing_keys cr handshake =
     (case cr_shared_secret cr (ph_device_private_key handshake) (ph_client_public_key handshake) of
        None \<Rightarrow> None
      | Some shared_secret \<Rightarrow>
          cr_hkdf_sha256 cr (ph_client_nonce handshake @ ph_device_nonce handshake) shared_secret
            (pairing_info (ph_transcript_digest handshake)) (POISON_SESSION_KEY_BYTES * 2))"

definition poison_pairing_complete ::
    "Crypto \<Rightarrow> PoisonPairingHandshake \<Rightarrow> PairingConfirm \<Rightarrow> u64 \<Rightarrow> bool \<Rightarrow>
     PoisonPairingHandshake \<times> bool" where
  "poison_pairing_complete cr handshake confirm now_ms device_physical_confirmation =
   (if \<not> pairing_confirm_valid cr handshake confirm now_ms device_physical_confirmation
    then ((erase_private (revoke_handshake handshake)) \<lparr> ph_pending := False \<rparr>, False)
    else
      let policy = poison_policy_evaluate (ph_requested_role handshake)
                     (ph_requested_capabilities handshake) False True 1;
          keyed = (if \<not> allowed policy then (ph_session handshake, False)
                   else case pairing_keys cr handshake of
                     None \<Rightarrow> (ph_session handshake, False)
                   | Some directional_keys \<Rightarrow>
                       (case poison_session_set_directional_keys (ph_session handshake)
                               (Some directional_keys)
                               (Some (drop POISON_SESSION_KEY_BYTES directional_keys)) of
                          (s, r) \<Rightarrow> (s, r = PoisonSessionResultOk)));
          confirmed = (if snd keyed
                       then case poison_session_confirm (fst keyed) True of
                              (s, r) \<Rightarrow> (s, r = PoisonSessionResultOk)
                       else keyed);
          activated = (if snd confirmed
                       then case poison_session_activate (fst confirmed) of
                              (s, r) \<Rightarrow> (s, r = PoisonSessionResultOk)
                       else confirmed);
          session = (if snd activated
                     then (fst activated) \<lparr> ps_role := ph_requested_role handshake,
                            ps_granted_capabilities := granted policy,
                            ps_client_identity_digest := ph_client_identity_digest handshake \<rparr>
                     else fst activated);
          closed = (erase_private (handshake \<lparr> ph_session := session \<rparr>)) \<lparr> ph_pending := False \<rparr>
      in (if snd activated then closed else revoke_handshake closed, snd activated))"

section \<open>What a completed pairing is\<close>

definition pairing_decision :: "PoisonPairingHandshake \<Rightarrow> PoisonPolicyDecision" where
  "pairing_decision h =
     poison_policy_evaluate (ph_requested_role h) (ph_requested_capabilities h) False True 1"

definition paired_session :: "PoisonPairingHandshake \<Rightarrow> bytes \<Rightarrow> PoisonSession" where
  "paired_session h keys = (ph_session h)
     \<lparr> ps_state := PoisonSessionActive, ps_next_tx_sequence := 0, ps_next_rx_sequence := 0,
       ps_physical_confirmation := True, ps_receive_key := take 32 keys,
       ps_transmit_key := take 32 (drop 32 keys), ps_directional_keys_set := True,
       ps_role := ph_requested_role h, ps_granted_capabilities := granted (pairing_decision h),
       ps_client_identity_digest := ph_client_identity_digest h \<rparr>"

lemma complete_ok:
  assumes "pairing_confirm_valid cr h confirm now device" "allowed (pairing_decision h)"
    "pairing_keys cr h = Some keys" "ps_state (ph_session h) = PoisonSessionConfirming"
  shows "poison_pairing_complete cr h confirm now device =
    (h \<lparr> ph_session := paired_session h keys, ph_device_private_key := zeros 32,
         ph_pending := False \<rparr>, True)"
  using assms
  by (simp add: poison_pairing_complete_def Let_def pairing_decision_def
      poison_session_set_directional_keys_def poison_session_confirm_def poison_session_activate_def
      erase_private_def paired_session_def)

lemma complete_fails:
  assumes "\<not> (pairing_confirm_valid cr h confirm now device \<and> allowed (pairing_decision h) \<and>
              pairing_keys cr h \<noteq> None \<and> ps_state (ph_session h) = PoisonSessionConfirming)"
  shows "\<not> snd (poison_pairing_complete cr h confirm now device)"
    and "ps_state (ph_session (fst (poison_pairing_complete cr h confirm now device))) = PoisonSessionRevoked"
    and "ps_transmit_key (ph_session (fst (poison_pairing_complete cr h confirm now device))) = zeros 32"
    and "ps_receive_key (ph_session (fst (poison_pairing_complete cr h confirm now device))) = zeros 32"
    and "ps_directional_keys_set (ph_session (fst (poison_pairing_complete cr h confirm now device))) = False"
  using assms
  by (auto simp: poison_pairing_complete_def Let_def pairing_decision_def
      poison_session_set_directional_keys_def poison_session_confirm_def poison_session_activate_def
      erase_private_def revoke_handshake_def poison_session_revoke_def split: option.splits)

lemma complete_cleans:
  "ph_device_private_key (fst (poison_pairing_complete cr h confirm now device)) = zeros 32"
  "\<not> ph_pending (fst (poison_pairing_complete cr h confirm now device))"
  by (simp_all add: poison_pairing_complete_def Let_def erase_private_def revoke_handshake_def)

lemma confirm_valid_iff:
  "pairing_confirm_valid cr h confirm now device \<longleftrightarrow>
      ph_pending h \<and> now < ph_expires_at_ms h \<and>
      length (ph_transcript_digest h) = 32 \<and> pc_transcript_digest confirm = ph_transcript_digest h \<and>
      pc_confirmation_code confirm = ph_confirmation_code h \<and> pc_identity_signature confirm \<noteq> [] \<and>
      cr_verify_p256 cr (ph_client_identity_public_key h) (ph_transcript_digest h)
        (pc_identity_signature confirm) \<and>
      pc_physical_confirmation confirm \<and> device"
  by (auto simp: pairing_confirm_valid_def)

lemma pairing_complete_iff:
  "snd (poison_pairing_complete cr h confirm now device) \<longleftrightarrow>
      ph_pending h \<and> now < ph_expires_at_ms h \<and>
      length (ph_transcript_digest h) = 32 \<and> pc_transcript_digest confirm = ph_transcript_digest h \<and>
      pc_confirmation_code confirm = ph_confirmation_code h \<and> pc_identity_signature confirm \<noteq> [] \<and>
      cr_verify_p256 cr (ph_client_identity_public_key h) (ph_transcript_digest h)
        (pc_identity_signature confirm) \<and>
      pc_physical_confirmation confirm \<and> device \<and>
      allowed (poison_policy_evaluate (ph_requested_role h) (ph_requested_capabilities h) False True 1) \<and>
      pairing_keys cr h \<noteq> None \<and> ps_state (ph_session h) = PoisonSessionConfirming"
  using complete_fails(1) [of cr h confirm now device]
    complete_ok [of cr h confirm now device "the (pairing_keys cr h)"]
  by (cases "pairing_confirm_valid cr h confirm now device \<and> allowed (pairing_decision h) \<and>
      pairing_keys cr h \<noteq> None \<and> ps_state (ph_session h) = PoisonSessionConfirming")
    (auto simp: pairing_decision_def confirm_valid_iff)

lemma complete_session:
  "snd (poison_pairing_complete cr h confirm now device) \<Longrightarrow>
   ph_session (fst (poison_pairing_complete cr h confirm now device)) =
     paired_session h (the (pairing_keys cr h))"
  using complete_ok [of cr h confirm now device "the (pairing_keys cr h)"]
  by (simp add: pairing_complete_iff confirm_valid_iff pairing_decision_def)

lemma not_complete_revoked:
  assumes "\<not> snd (poison_pairing_complete cr h confirm now device)"
  shows "ps_state (ph_session (fst (poison_pairing_complete cr h confirm now device))) = PoisonSessionRevoked \<and>
    ps_transmit_key (ph_session (fst (poison_pairing_complete cr h confirm now device))) = zeros 32 \<and>
    ps_receive_key (ph_session (fst (poison_pairing_complete cr h confirm now device))) = zeros 32"
proof -
  have "\<not> (pairing_confirm_valid cr h confirm now device \<and> allowed (pairing_decision h) \<and>
              pairing_keys cr h \<noteq> None \<and> ps_state (ph_session h) = PoisonSessionConfirming)"
    using assms by (simp add: pairing_complete_iff confirm_valid_iff pairing_decision_def)
  from complete_fails(2-4) [OF this] show ?thesis by simp
qed

text \<open>C14: a confirmation completes the pairing exactly when the handshake is pending and not
  expired, the transcript digest and the code match, the signature of the identity key over
  the digest verifies, both sides confirmed physically, the policy allows the requested
  capabilities to the requested role and the keys can be derived in the confirming state;
  then the session is active with the derived keys and the granted capabilities, otherwise it
  is revoked with its keys erased, and in both cases the private key is erased and the
  handshake is spent.\<close>

theorem pairing_complete_exact:
  fixes cr h confirm now device
  defines "r \<equiv> poison_pairing_complete cr h confirm now device"
  shows "(snd r \<longleftrightarrow>
      ph_pending h \<and> now < ph_expires_at_ms h \<and>
      length (ph_transcript_digest h) = 32 \<and> pc_transcript_digest confirm = ph_transcript_digest h \<and>
      pc_confirmation_code confirm = ph_confirmation_code h \<and> pc_identity_signature confirm \<noteq> [] \<and>
      cr_verify_p256 cr (ph_client_identity_public_key h) (ph_transcript_digest h)
        (pc_identity_signature confirm) \<and>
      pc_physical_confirmation confirm \<and> device \<and>
      allowed (poison_policy_evaluate (ph_requested_role h) (ph_requested_capabilities h) False True 1) \<and>
      pairing_keys cr h \<noteq> None \<and> ps_state (ph_session h) = PoisonSessionConfirming) \<and>
    (if snd r then ph_session (fst r) = paired_session h (the (pairing_keys cr h))
     else ps_state (ph_session (fst r)) = PoisonSessionRevoked \<and>
       ps_transmit_key (ph_session (fst r)) = zeros 32 \<and> ps_receive_key (ph_session (fst r)) = zeros 32) \<and>
    ph_device_private_key (fst r) = zeros 32 \<and> \<not> ph_pending (fst r)"
  using pairing_complete_iff [of cr h confirm now device] complete_session [of cr h confirm now device]
    not_complete_revoked [of cr h confirm now device] complete_cleans [of cr h confirm now device]
  by (cases "snd r") (simp_all only: r_def if_True if_False simp_thms)

lemma paired_capabilities:
  assumes "snd (poison_pairing_complete cr h confirm now device)"
  shows "ps_granted_capabilities (ph_session (fst (poison_pairing_complete cr h confirm now device)))
       = ph_requested_capabilities h"
    and "ph_requested_capabilities h AND poison_policy_role_capabilities (ph_requested_role h)
       = ph_requested_capabilities h"
proof -
  let ?req = "ph_requested_capabilities h"
  have ok: "pairing_confirm_valid cr h confirm now device \<and> allowed (pairing_decision h) \<and>
      pairing_keys cr h \<noteq> None \<and> ps_state (ph_session h) = PoisonSessionConfirming"
    using assms complete_fails(1) by blast
  then obtain keys where "pairing_keys cr h = Some keys" by auto
  with ok have "fst (poison_pairing_complete cr h confirm now device) =
      h \<lparr> ph_session := paired_session h keys, ph_device_private_key := zeros 32, ph_pending := False \<rparr>"
    using complete_ok by simp
  moreover have g: "granted (pairing_decision h) = ?req"
    using ok by (simp add: pairing_decision_def allowed_iff)
  ultimately show "ps_granted_capabilities (ph_session (fst (poison_pairing_complete cr h confirm now device))) = ?req"
    by (simp add: paired_session_def)
  show "?req AND poison_policy_role_capabilities (ph_requested_role h) = ?req"
    using g by (intro bit_word_eqI) (auto simp: bit_and_iff pairing_decision_def granted_bit_iff
        dest: arg_cong [of _ _ "\<lambda>w. bit w n" for n])
qed

text \<open>A handshake completes at most once.\<close>

definition complete_step :: "Crypto \<Rightarrow> PairingConfirm \<times> u64 \<times> bool \<Rightarrow> PoisonPairingHandshake \<Rightarrow>
    PoisonPairingHandshake \<times> bool" where
  "complete_step cr a h = poison_pairing_complete cr h (fst a) (fst (snd a)) (snd (snd a))"

interpretation pairing: one_shot "complete_step cr" "\<lambda>h. \<not> ph_pending h" "\<lambda>ok. ok" for cr
proof (unfold_locales, goal_cases)
  case (3 h a)
  then have "\<not> pairing_confirm_valid cr h (fst a) (fst (snd a)) (snd (snd a))"
    by (simp add: pairing_confirm_valid_def)
  then show ?case by (simp add: complete_step_def complete_fails(1))
qed (simp_all add: complete_step_def complete_cleans)

section \<open>What the transcript binds\<close>

lemma pairing_append_some:
  "length t + length v \<le> n \<Longrightarrow> poison_pairing_append n v (Some t) = Some (t @ v)"
  by (simp add: poison_pairing_append_def)

lemma hello_lengths:
  assumes "pairing_hello_valid hello now"
  shows "length (hello_ephemeral_key hello) = 65" "length (hello_identity_key hello) = 65"
    "length (hello_client_nonce hello) = 32" "length (hello_client_name hello) \<le> 32"
    "role_of_wire (hello_requested_role hello) \<noteq> PoisonRoleCount"
  using assms unat_eq_zero [of "hello_requested_role hello"]
  by (auto simp: pairing_hello_valid_def role_of_wire_def word_less_nat_alt unat_arith_simps)

lemma transcript_fits:
  assumes "pairing_hello_valid hello now"
    and "length (ph_device_public_key h) = 65" "length (ph_device_nonce h) = 32"
  shows "pairing_transcript_bytes hello h = Some
    (poison_session_encode_u32 (hello_protocol_version hello) @ hello_ephemeral_key hello @
     hello_identity_key hello @ cstr_bytes (hello_client_name hello) @
     poison_session_encode_u32 (hello_requested_role hello) @
     poison_session_encode_u32 (hello_requested_capabilities hello) @ hello_client_nonce hello @
     ph_device_public_key h @ ph_device_nonce h @
     poison_session_encode_u64 (ph_expires_at_ms h) @
     poison_session_encode_u64 (ps_session_id (ph_session h)))"
  using hello_lengths [OF assms(1)] assms(2,3)
  by (simp add: pairing_transcript_bytes_def Let_def pairing_append_some)

text \<open>C15: for hello messages the device accepts, the transcript always fits its buffer, and two
  handshakes with the same transcript agree on the protocol version, both client keys, the
  client name, the requested role and capabilities, both nonces, the device key, the expiry
  and the session number.\<close>

theorem transcript_binds_handshake:
  assumes "pairing_hello_valid hello now" "pairing_hello_valid hello' now'"
    and "no_nul (hello_client_name hello)" "no_nul (hello_client_name hello')"
    and "length (ph_device_public_key h) = 65" "length (ph_device_nonce h) = 32"
    and "length (ph_device_public_key h') = 65" "length (ph_device_nonce h') = 32"
  shows "pairing_transcript_bytes hello h \<noteq> None \<and>
    (pairing_transcript_bytes hello h = pairing_transcript_bytes hello' h' \<longleftrightarrow>
       hello = hello' \<and> ph_device_public_key h = ph_device_public_key h' \<and>
       ph_device_nonce h = ph_device_nonce h' \<and> ph_expires_at_ms h = ph_expires_at_ms h' \<and>
       ps_session_id (ph_session h) = ps_session_id (ph_session h'))"
  using hello_lengths [OF assms(1)] hello_lengths [OF assms(2)] assms(5-8)
    cstr_bytes_append_inj [OF assms(3,4)]
  by (auto simp: transcript_fits [OF assms(1,5,6)] transcript_fits [OF assms(2,7,8)]
      append_eq_append_conv intro: PairingHello.equality)

section \<open>A pairing that goes through\<close>

lemma pairing_begin_ok:
  assumes "poison_pairing_begin cr rnd h0 hello now = (h, Some ch)"
  shows "pairing_hello_valid hello now" "ph_pending h"
    "unat (ph_expires_at_ms h) = unat now + 60000"
    "ps_state (ph_session h) = PoisonSessionConfirming" "ps_session_id (ph_session h) \<noteq> 0"
    "ps_session_id (ph_session h) = chal_session_id ch"
    "ph_transcript_digest h = chal_transcript_digest ch"
    "ph_confirmation_code h = chal_confirmation_code ch"
    "ph_client_identity_public_key h = hello_identity_key hello"
    "ph_requested_role h = role_of_wire (hello_requested_role hello)"
    "ph_requested_capabilities h = hello_requested_capabilities hello"
    "poison_pairing_transcript cr hello (h \<lparr> ph_pending := False, ph_confirmation_code := '''',
        ph_transcript_digest := zeros 32 \<rparr>) = Some (ph_transcript_digest h)"
proof -
  have valid: "pairing_hello_valid hello now"
    using assms by (auto simp: poison_pairing_begin_def split: if_splits)
  then have "\<not> UINT64_MAX - now < POISON_PAIRING_TTL_MS"
    by (simp add: pairing_hello_valid_def)
  from no_wrap64 [OF this] have exp: "unat (now + POISON_PAIRING_TTL_MS) = unat now + 60000"
    by simp
  show "pairing_hello_valid hello now" "ph_pending h"
    "unat (ph_expires_at_ms h) = unat now + 60000"
    "ps_state (ph_session h) = PoisonSessionConfirming" "ps_session_id (ph_session h) \<noteq> 0"
    "ps_session_id (ph_session h) = chal_session_id ch"
    "ph_transcript_digest h = chal_transcript_digest ch"
    "ph_confirmation_code h = chal_confirmation_code ch"
    "ph_client_identity_public_key h = hello_identity_key hello"
    "ph_requested_role h = role_of_wire (hello_requested_role hello)"
    "ph_requested_capabilities h = hello_requested_capabilities hello"
    using assms valid exp
    by (auto simp: poison_pairing_begin_def Let_def poison_session_begin_negotiation_def
        poison_session_begin_confirmation_def split: option.splits if_splits prod.splits)
  show "poison_pairing_transcript cr hello (h \<lparr> ph_pending := False, ph_confirmation_code := '''',
        ph_transcript_digest := zeros 32 \<rparr>) = Some (ph_transcript_digest h)"
    using assms valid
    by (auto simp: poison_pairing_begin_def Let_def poison_session_begin_negotiation_def
        poison_session_begin_confirmation_def poison_pairing_transcript_def
        pairing_transcript_bytes_def handshake_zero_def
        split: option.splits if_splits prod.splits)
qed

text \<open>When the device answers a hello with a challenge, a client that returns its digest and
  code with a valid signature within a minute, with both confirmations, for capabilities of its
  role, ends up with an active session of the announced number that holds exactly the
  requested capabilities, provided the key agreement and the key derivation do not fail.\<close>

theorem pairing_goes_through:
  assumes "poison_pairing_begin cr rnd h0 hello now = (h, Some ch)"
    and "pc_transcript_digest confirm = chal_transcript_digest ch"
    and "pc_confirmation_code confirm = chal_confirmation_code ch"
    and "pc_identity_signature confirm \<noteq> []" "pc_physical_confirmation confirm"
    and "cr_verify_p256 cr (hello_identity_key hello) (chal_transcript_digest ch) (pc_identity_signature confirm)"
    and "unat later < unat now + 60000"
    and "hello_requested_capabilities hello \<noteq> 0"
    and "hello_requested_capabilities hello
           AND poison_policy_role_capabilities (role_of_wire (hello_requested_role hello))
         = hello_requested_capabilities hello"
    and "\<And>bs d. cr_sha256 cr bs = Some d \<Longrightarrow> length d = 32"
    and "\<And>a b. cr_shared_secret cr a b \<noteq> None" "\<And>a b c n. cr_hkdf_sha256 cr a b c n \<noteq> None"
  shows "\<exists>h'. poison_pairing_complete cr h confirm later True = (h', True) \<and>
    ps_state (ph_session h') = PoisonSessionActive \<and>
    ps_session_id (ph_session h') = chal_session_id ch \<and>
    ps_granted_capabilities (ph_session h') = hello_requested_capabilities hello"
proof -
  note b = pairing_begin_ok [OF assms(1)]
  let ?d = "poison_policy_evaluate (ph_requested_role h) (ph_requested_capabilities h) False True 1"
  have "granted ?d = hello_requested_capabilities hello"
    using assms(9) b by (simp add: granted_masks lock_mask_def confirm_mask_def and.commute)
  then have pol: "allowed ?d" "granted ?d = hello_requested_capabilities hello"
    using assms(8) b by (simp_all add: allowed_iff)
  have keys: "pairing_keys cr h \<noteq> None"
    using assms(11) [of "ph_device_private_key h" "ph_client_public_key h"] assms(12)
    by (auto simp: pairing_keys_def split: option.splits)
  have "length (ph_transcript_digest h) = 32"
    using b(12) assms(10) by (auto simp: poison_pairing_transcript_def split: option.splits)
  then have "snd (poison_pairing_complete cr h confirm later True)"
    using pairing_complete_iff [of cr h confirm later True] b assms pol keys
    by (simp add: word_less_nat_alt)
  moreover from this have "ph_session (fst (poison_pairing_complete cr h confirm later True)) =
      paired_session h (the (pairing_keys cr h))"
    using complete_session by blast
  ultimately show ?thesis
    using b pol by (auto simp: prod_eq_iff paired_session_def pairing_decision_def)
qed

lemma pairing_begin_succeeds:
  assumes "pairing_hello_valid hello now" "pr_keypair rnd = Some (priv, pub)" "length pub = 65"
    and "length (pr_device_nonce rnd) = 32" "\<And>bs. cr_sha256 cr bs \<noteq> None"
  shows "snd (poison_pairing_begin cr rnd h0 hello now) \<noteq> None"
proof -
  have t: "False" if "poison_pairing_transcript cr hello h = None"
    "ph_device_public_key h = pub" "ph_device_nonce h = pr_device_nonce rnd" for h
    using transcript_fits [OF assms(1), of h] that assms(3-5)
    by (simp add: poison_pairing_transcript_def)
  obtain d where d: "cr_sha256 cr (hello_identity_key hello) = Some d"
    using assms(5) by blast
  show ?thesis
    using assms(1,2) d
    by (auto simp: poison_pairing_begin_def Let_def poison_session_begin_negotiation_def
        poison_session_begin_confirmation_def handshake_zero_def poison_session_init_def
        split: option.splits dest: t)
qed

section \<open>A concrete pairing\<close>

definition sample_hello :: PairingHello where
  "sample_hello = \<lparr> hello_protocol_version = 2, hello_ephemeral_key = 4 # replicate 64 1,
     hello_identity_key = 4 # replicate 64 2, hello_client_name = ''lab'', hello_requested_role = 0,
     hello_requested_capabilities = 0xFF, hello_client_nonce = replicate 32 3 \<rparr>"

definition sample_random :: PairingRandom where
  "sample_random = \<lparr> pr_keypair = Some (replicate 32 5, 4 # replicate 64 6),
     pr_device_nonce = replicate 32 7, pr_session_id = 0 \<rparr>"

lemma sample_hello_valid:
  "pairing_hello_valid sample_hello 500"
  "pairing_hello_valid (sample_hello \<lparr> hello_requested_role := 1 \<rparr>) 500"
  by (simp_all add: pairing_hello_valid_def sample_hello_def poison_session_nonzero_def)

definition sample_begin :: "PoisonPairingHandshake \<times> PairingChallenge option" where
  "sample_begin = poison_pairing_begin sample_crypto sample_random handshake_zero sample_hello 500"

definition sample_confirm :: PairingConfirm where
  "sample_confirm = \<lparr> pc_transcript_digest = chal_transcript_digest (the (snd sample_begin)),
     pc_confirmation_code = chal_confirmation_code (the (snd sample_begin)),
     pc_identity_signature = [1], pc_physical_confirmation = True \<rparr>"

lemma sample_begin_some:
  "poison_pairing_begin sample_crypto sample_random handshake_zero sample_hello 500
     = (fst sample_begin, Some (the (snd sample_begin)))"
proof -
  have "snd sample_begin \<noteq> None"
    unfolding sample_begin_def
    by (rule pairing_begin_succeeds [OF sample_hello_valid(1), of _ "replicate 32 5" "4 # replicate 64 6"])
      (simp_all add: sample_random_def sample_crypto_def)
  then show ?thesis by (simp add: sample_begin_def [symmetric] prod_eq_iff)
qed

lemma sample_crypto_total:
  "cr_sha256 sample_crypto bs = Some d \<Longrightarrow> length d = 32"
  "cr_shared_secret sample_crypto x y \<noteq> None" "cr_hkdf_sha256 sample_crypto x y z n \<noteq> None"
  "cr_verify_p256 sample_crypto x y [1]"
  by (auto simp: sample_crypto_def)

lemma pairing_goes_through_witness:
  "\<exists>h'. poison_pairing_complete sample_crypto (fst sample_begin) sample_confirm 900 True = (h', True) \<and>
     ps_granted_capabilities (ph_session h') = 0xFF"
proof -
  have "\<exists>h'. poison_pairing_complete sample_crypto (fst sample_begin) sample_confirm 900 True = (h', True) \<and>
    ps_state (ph_session h') = PoisonSessionActive \<and>
    ps_session_id (ph_session h') = chal_session_id (the (snd sample_begin)) \<and>
    ps_granted_capabilities (ph_session h') = hello_requested_capabilities sample_hello"
    by (rule pairing_goes_through [OF sample_begin_some, of sample_confirm 900])
      (simp_all add: sample_confirm_def sample_hello_def role_of_wire_def sample_crypto_total
        del: not_None_eq)
  then show ?thesis by (auto simp: sample_hello_def)
qed

definition sample_device :: PoisonPairingHandshake where
  "sample_device = handshake_zero \<lparr> ph_device_public_key := replicate 65 6 \<rparr>"

lemma transcript_binds_handshake_witness:
  "pairing_transcript_bytes sample_hello sample_device \<noteq>
   pairing_transcript_bytes (sample_hello \<lparr> hello_requested_role := 1 \<rparr>) sample_device"
proof -
  have n: "no_nul (hello_client_name sample_hello)"
    "no_nul (hello_client_name (sample_hello \<lparr> hello_requested_role := 1 \<rparr>))"
    by (simp_all add: no_nul_def sample_hello_def of_char_def)
  have l: "length (ph_device_public_key sample_device) = 65" "length (ph_device_nonce sample_device) = 32"
    by (simp_all add: sample_device_def handshake_zero_def)
  show ?thesis
    using transcript_binds_handshake [OF sample_hello_valid n l l] by (simp add: sample_hello_def)
qed

end
