(* ===== verification/Tables.thy ===== *)
theory Tables
  imports Prelude
begin

text \<open>Fixed arrays of slots searched by key, as the channel table, the pairing store, the
  signer registry and the package manager keep them: a slot is live or free, a scan finds the
  first live slot with a key, an insertion fills a free slot.  With at most one live slot
  per key such an array is a finite map, and the interface \<open>registry\<close> states what its
  clients rely on.\<close>

section \<open>Lookup in a slot array\<close>

definition tbl_lookup :: "('e \<Rightarrow> bool) \<Rightarrow> ('e \<Rightarrow> 'k) \<Rightarrow> 'e list \<Rightarrow> 'k \<Rightarrow> 'e option" where
  "tbl_lookup live key xs k =
     map_option (nth xs) (find_index (\<lambda>e. live e \<and> key e = k) xs)"

definition tbl_unique :: "('e \<Rightarrow> bool) \<Rightarrow> ('e \<Rightarrow> 'k) \<Rightarrow> 'e list \<Rightarrow> bool" where
  "tbl_unique live key xs \<longleftrightarrow> distinct (map key (filter live xs))"

lemma tbl_lookup_simps [simp]:
  "tbl_lookup live key [] k = None"
  "tbl_lookup live key (x # xs) k =
     (if live x \<and> key x = k then Some x else tbl_lookup live key xs k)"
  by (auto simp: tbl_lookup_def option.map_comp comp_def)

lemma tbl_lookup_append:
  "tbl_lookup live key (xs @ ys) k =
     (case tbl_lookup live key xs k of None \<Rightarrow> tbl_lookup live key ys k | Some e \<Rightarrow> Some e)"
  by (induction xs) auto

lemma tbl_lookup_None: "tbl_lookup live key xs k = None \<longleftrightarrow> k \<notin> key ` set (filter live xs)"
  by (induction xs) auto

lemma tbl_lookup_SomeD:
  "tbl_lookup live key xs k = Some e \<Longrightarrow> e \<in> set xs \<and> live e \<and> key e = k"
  by (induction xs) (auto split: if_splits)

lemma tbl_lookup_unique:
  "tbl_unique live key xs \<Longrightarrow> e \<in> set xs \<Longrightarrow> live e \<Longrightarrow> tbl_lookup live key xs (key e) = Some e"
  by (induction xs) (auto simp: tbl_unique_def image_iff split: if_splits)

lemma tbl_lookup_index:
  assumes "find_index (\<lambda>e. live e \<and> key e = k) xs = Some i"
  shows "tbl_lookup live key xs k = Some (xs ! i)" "i < length xs" "live (xs ! i)" "key (xs ! i) = k"
  using find_index_SomeD [OF assms] assms by (simp_all add: tbl_lookup_def)

lemma tbl_lookup_index_None:
  "find_index (\<lambda>e. live e \<and> key e = k) xs = None \<longleftrightarrow> tbl_lookup live key xs k = None"
  by (auto simp: tbl_lookup_def)

section \<open>Updates of one slot\<close>

lemma split_at:
  assumes "i < length xs"
  obtains pre x post where "xs = pre @ x # post" "length pre = i"
  using assms by (metis id_take_nth_drop length_take min.absorb4)

lemma tbl_insert:
  assumes "tbl_unique live key xs" "i < length xs" "\<not> live (xs ! i)" "live e"
    and "tbl_lookup live key xs (key e) = None"
  shows "tbl_unique live key (xs[i := e])"
    and "tbl_lookup live key (xs[i := e]) = (tbl_lookup live key xs)(key e \<mapsto> e)"
proof -
  obtain pre x post where xs: "xs = pre @ x # post" "length pre = i"
    using split_at [OF assms(2)] by blast
  have new: "key e \<notin> key ` set (filter live pre)" "key e \<notin> key ` set (filter live post)"
    using assms(5) unfolding tbl_lookup_None xs(1) by auto
  then have "tbl_lookup live key pre (key e) = None" by (simp only: tbl_lookup_None not_False_eq_True)
  then show "tbl_lookup live key (xs[i := e]) = (tbl_lookup live key xs)(key e \<mapsto> e)"
    using assms(3,4) unfolding xs(1) xs(2) [symmetric]
    by (intro ext) (simp add: tbl_lookup_append split: option.split)
  show "tbl_unique live key (xs[i := e])"
    using assms(1,3,4) new xs by (auto simp: tbl_unique_def)
qed

lemma tbl_remove:
  assumes "tbl_unique live key xs" "i < length xs" "live (xs ! i)" "\<not> live e"
  shows "tbl_unique live key (xs[i := e])"
    and "tbl_lookup live key (xs[i := e]) = (tbl_lookup live key xs)(key (xs ! i) := None)"
proof -
  obtain pre x post where xs: "xs = pre @ x # post" "length pre = i"
    using split_at [OF assms(2)] by blast
  have old: "key x \<notin> key ` set (filter live pre)" "key x \<notin> key ` set (filter live post)"
    using assms(1,3) xs by (auto simp: tbl_unique_def)
  then have "tbl_lookup live key pre (key x) = None" "tbl_lookup live key post (key x) = None"
    by (simp_all only: tbl_lookup_None not_False_eq_True)
  then show "tbl_lookup live key (xs[i := e]) = (tbl_lookup live key xs)(key (xs ! i) := None)"
    using assms(3,4) unfolding xs(1) xs(2) [symmetric]
    by (intro ext) (simp add: tbl_lookup_append split: option.split)
  show "tbl_unique live key (xs[i := e])"
    using assms(1,3,4) xs by (auto simp: tbl_unique_def)
qed

lemma tbl_replace:
  assumes "tbl_unique live key xs" "i < length xs" "live (xs ! i)" "live e" "key e = key (xs ! i)"
  shows "tbl_unique live key (xs[i := e])"
    and "tbl_lookup live key (xs[i := e]) = (tbl_lookup live key xs)(key e \<mapsto> e)"
proof -
  obtain pre x post where xs: "xs = pre @ x # post" "length pre = i"
    using split_at [OF assms(2)] by blast
  have old: "key x \<notin> key ` set (filter live pre)"
    using assms(1,3) xs by (auto simp: tbl_unique_def)
  then have "tbl_lookup live key pre (key x) = None"
    by (simp only: tbl_lookup_None not_False_eq_True)
  then show "tbl_lookup live key (xs[i := e]) = (tbl_lookup live key xs)(key e \<mapsto> e)"
    using assms(3-5) unfolding xs(1) xs(2) [symmetric]
    by (intro ext) (simp add: tbl_lookup_append split: option.split)
  show "tbl_unique live key (xs[i := e])"
    using assms(1,3-5) xs by (auto simp: tbl_unique_def)
qed

text \<open>Writing a live entry over a slot, whatever the slot held: the entry that lived there is gone.\<close>

lemma tbl_put:
  assumes "tbl_unique live key xs" "i < length xs" "live e"
    and "tbl_lookup live key xs (key e) = None \<or> (live (xs ! i) \<and> key (xs ! i) = key e)"
  shows "tbl_unique live key (xs[i := e])"
    and "tbl_lookup live key (xs[i := e]) =
      (if live (xs ! i) then (tbl_lookup live key xs)(key (xs ! i) := None)
       else tbl_lookup live key xs)(key e \<mapsto> e)"
proof -
  obtain pre x post where xs: "xs = pre @ x # post" "length pre = i"
    using split_at [OF assms(2)] by blast
  have x: "xs ! i = x" unfolding xs(1) xs(2) [symmetric] by simp
  have old: "key x \<notin> key ` set (filter live pre)" "key x \<notin> key ` set (filter live post)" if "live x"
    using assms(1) xs that by (auto simp: tbl_unique_def)
  have new: "key e \<notin> key ` set (filter live pre)" "key e \<notin> key ` set (filter live post)"
    using assms(4) old unfolding tbl_lookup_None x unfolding xs(1) by (cases "live x"; auto)+
  have "tbl_lookup live key pre (key e) = None"
    using new by (simp only: tbl_lookup_None not_False_eq_True)
  moreover have "tbl_lookup live key pre (key x) = None \<and> tbl_lookup live key post (key x) = None" if "live x"
    using old [OF that] by (simp only: tbl_lookup_None not_False_eq_True)
  ultimately show "tbl_lookup live key (xs[i := e]) =
      (if live (xs ! i) then (tbl_lookup live key xs)(key (xs ! i) := None)
       else tbl_lookup live key xs)(key e \<mapsto> e)"
    using assms(3) unfolding x unfolding xs(1) xs(2) [symmetric]
    by (intro ext) (auto simp: tbl_lookup_append split: option.split)
  show "tbl_unique live key (xs[i := e])"
    using assms(1,3) new xs by (cases "live x") (auto simp: tbl_unique_def)
qed

lemma tbl_unique_nth:
  assumes "tbl_unique live key xs" "i < length xs" "j < i" "live (xs ! i)" "live (xs ! j)"
  shows "key (xs ! j) \<noteq> key (xs ! i)"
proof -
  have xs: "xs = take j xs @ xs ! j # drop (Suc j) xs"
    using assms(2,3) by (simp add: id_take_nth_drop)
  have "xs ! i = drop (Suc j) xs ! (i - Suc j)"
    using assms(2,3) by (simp add: Suc_leI)
  then have "xs ! i \<in> set (drop (Suc j) xs)"
    using assms(2,3) by (auto simp: in_set_conv_nth intro!: exI [of _ "i - Suc j"])
  moreover have "key (xs ! j) \<notin> key ` set (filter live (drop (Suc j) xs))"
    using assms(1,5) by (subst (asm) xs) (simp add: tbl_unique_def)
  ultimately show ?thesis using assms(4) by auto
qed

lemma tbl_unique_free: "(\<forall>e \<in> set xs. \<not> live e) \<Longrightarrow> tbl_unique live key xs"
  by (simp add: tbl_unique_def filter_empty_conv)

lemma tbl_lookup_free: "(\<forall>e \<in> set xs. \<not> live e) \<Longrightarrow> tbl_lookup live key xs k = None"
  by (auto simp: tbl_lookup_None)

section \<open>The interface of a registry\<close>

text \<open>What the clients of a registry of named entries rely on: a lookup, an insertion that may
  be refused and a removal that may be refused, described by the finite map they act on.\<close>

locale registry =
  fixes find :: "'s \<Rightarrow> 'k \<Rightarrow> 'v option"
    and insert_entry :: "'s \<Rightarrow> 'v \<Rightarrow> 's \<times> bool"
    and remove_entry :: "'s \<Rightarrow> 'k \<Rightarrow> 's \<times> bool"
    and key :: "'v \<Rightarrow> 'k"
    and inv :: "'s \<Rightarrow> bool"
  assumes insert_inv: "inv s \<Longrightarrow> inv (fst (insert_entry s v))"
    and remove_inv: "inv s \<Longrightarrow> inv (fst (remove_entry s k))"
    and find_insert: "inv s \<Longrightarrow> snd (insert_entry s v) \<Longrightarrow>
          find (fst (insert_entry s v)) = (find s)(key v \<mapsto> v)"
    and insert_refused: "inv s \<Longrightarrow> \<not> snd (insert_entry s v) \<Longrightarrow> fst (insert_entry s v) = s"
    and find_remove: "inv s \<Longrightarrow> snd (remove_entry s k) \<Longrightarrow>
          find (fst (remove_entry s k)) = (find s)(k := None)"
    and remove_refused: "inv s \<Longrightarrow> \<not> snd (remove_entry s k) \<Longrightarrow> fst (remove_entry s k) = s"
begin

lemma removed_not_found: "inv s \<Longrightarrow> snd (remove_entry s k) \<Longrightarrow> find (fst (remove_entry s k)) k = None"
  using find_remove [of s k] by auto

lemma remove_keeps_others: "inv s \<Longrightarrow> k' \<noteq> k \<Longrightarrow> find (fst (remove_entry s k)) k' = find s k'"
  using find_remove [of s k] remove_refused [of s k] by (cases "snd (remove_entry s k)") auto

lemma insert_keeps_others: "inv s \<Longrightarrow> k \<noteq> key v \<Longrightarrow> find (fst (insert_entry s v)) k = find s k"
  using find_insert [of s v] insert_refused [of s v] by (cases "snd (insert_entry s v)") auto

lemma insert_then_remove:
  "inv s \<Longrightarrow> snd (insert_entry s v) \<Longrightarrow> snd (remove_entry (fst (insert_entry s v)) (key v)) \<Longrightarrow>
   find (fst (remove_entry (fst (insert_entry s v)) (key v))) = (find s)(key v := None)"
  using find_remove [OF insert_inv, of s v "key v"] by (simp add: find_insert)

end

end
