(* ===== verification/PairingStore.thy ===== *)
theory PairingStore
  imports Policy Tables
begin

text \<open>The store of paired clients (\<open>rpc/poison_pairing_store.c\<close>): eight records in memory, an
  authenticated image of them on disk in two slots that are written alternately by the parity
  of the generation, and the registry that keeps both together.  The keyed digest of an image
  is a parameter; the file system is a map from paths to what a slot file holds.\<close>

section \<open>Records\<close>

abbreviation "POISON_PAIRING_MAX_CLIENTS \<equiv> (8 :: nat)"
abbreviation "POISON_PAIRING_KEY_DIGEST_BYTES \<equiv> (32 :: nat)"
abbreviation "POISON_PAIRING_NAME_MAX \<equiv> (32 :: nat)"
abbreviation "POISON_PAIRING_STORE_VERSION \<equiv> (1 :: u32)"

record PoisonPairingRecord =
  pp_active :: bool
  pp_key_digest :: bytes
  pp_client_name :: string
  pp_role :: PoisonRole
  pp_generation :: u32
  pp_active_sessions :: u32

record PoisonPairingStore =
  pst_records :: "PoisonPairingRecord list"
  pst_generation :: u32

definition pairing_record_zero :: PoisonPairingRecord where
  "pairing_record_zero = \<lparr> pp_active = False, pp_key_digest = zeros 32, pp_client_name = '''',
     pp_role = PoisonRoleOwner, pp_generation = 0, pp_active_sessions = 0 \<rparr>"

definition poison_pairing_store_init :: PoisonPairingStore where
  "poison_pairing_store_init = \<lparr> pst_records = replicate POISON_PAIRING_MAX_CLIENTS pairing_record_zero,
     pst_generation = 0 \<rparr>"

definition poison_pairing_key_valid :: "bytes option \<Rightarrow> bool" where
  "poison_pairing_key_valid key_digest =
     (case key_digest of None \<Rightarrow> False | Some d \<Rightarrow> or_bytes POISON_PAIRING_KEY_DIGEST_BYTES d \<noteq> 0)"

definition poison_pairing_name_valid :: "string option \<Rightarrow> bool" where
  "poison_pairing_name_valid client_name =
     (case client_name of None \<Rightarrow> False
      | Some n \<Rightarrow> n \<noteq> '''' \<and> strnlen n (POISON_PAIRING_NAME_MAX + 1) \<le> POISON_PAIRING_NAME_MAX)"

text \<open>\<open>memcmp(a, b, 32) == 0\<close>.\<close>

abbreviation same_key :: "bytes \<Rightarrow> bytes \<Rightarrow> bool" where
  "same_key a b \<equiv> take POISON_PAIRING_KEY_DIGEST_BYTES a = take POISON_PAIRING_KEY_DIGEST_BYTES b"

definition poison_pairing_store_find :: "PoisonPairingStore \<Rightarrow> bytes option \<Rightarrow> PoisonPairingRecord option" where
  "poison_pairing_store_find store key_digest =
    (if \<not> poison_pairing_key_valid key_digest then None
     else map_option (nth (pst_records store))
            (find_index (\<lambda>r. pp_active r \<and> same_key (pp_key_digest r) (the key_digest))
               (pst_records store)))"

definition poison_pairing_store_add ::
    "PoisonPairingStore \<Rightarrow> bytes option \<Rightarrow> string option \<Rightarrow> PoisonRole \<Rightarrow>
     PoisonPairingStore \<times> nat option" where
  "poison_pairing_store_add store key_digest client_name role =
    (if pst_generation store = UINT32_MAX \<or> \<not> poison_pairing_key_valid key_digest \<or>
        \<not> poison_pairing_name_valid client_name \<or> role \<ge> PoisonRoleCount
     then (store, None)
     else if poison_pairing_store_find store key_digest \<noteq> None then (store, None)
     else case find_index (\<lambda>r. \<not> pp_active r) (pst_records store) of
            None \<Rightarrow> (store, None)
          | Some index \<Rightarrow>
              (\<lparr> pst_records = (pst_records store)[index :=
                   \<lparr> pp_active = True,
                     pp_key_digest = take POISON_PAIRING_KEY_DIGEST_BYTES (the key_digest),
                     pp_client_name = the client_name, pp_role = role,
                     pp_generation = pst_generation store + 1, pp_active_sessions = 0 \<rparr>],
                 pst_generation = pst_generation store + 1 \<rparr>, Some index))"

definition poison_pairing_store_revoke :: "PoisonPairingStore \<Rightarrow> nat \<Rightarrow> PoisonPairingStore \<times> bool" where
  "poison_pairing_store_revoke store record_index =
    (if pst_generation store = UINT32_MAX \<or> record_index \<ge> POISON_PAIRING_MAX_CLIENTS
     then (store, False)
     else if \<not> pp_active (pst_records store ! record_index) then (store, False)
     else (\<lparr> pst_records = (pst_records store)[record_index := pairing_record_zero],
             pst_generation = pst_generation store + 1 \<rparr>, True))"

definition poison_pairing_store_revoke_all :: "PoisonPairingStore \<Rightarrow> PoisonPairingStore \<times> nat" where
  "poison_pairing_store_revoke_all store =
     fold (\<lambda>index (s, revoked). case poison_pairing_store_revoke s index of
             (s', ok) \<Rightarrow> (s', revoked + (if ok then 1 else 0)))
          [0..<POISON_PAIRING_MAX_CLIENTS] (store, 0)"

definition poison_pairing_store_count :: "PoisonPairingStore \<Rightarrow> nat" where
  "poison_pairing_store_count store =
     fold (\<lambda>r count. count + (if pp_active r then 1 else 0)) (pst_records store) 0"

section \<open>The image on disk\<close>

record PoisonPairingDiskRecord =
  dr_active :: u8
  dr_role :: u8
  dr_key_digest :: bytes
  dr_client_name :: string
  dr_generation :: u32

record PoisonPairingDiskState =
  ds_magic :: string
  ds_version :: u32
  ds_generation :: u32
  ds_records :: "PoisonPairingDiskRecord list"
  ds_digest :: bytes

definition disk_record_zero :: PoisonPairingDiskRecord where
  "disk_record_zero = \<lparr> dr_active = 0, dr_role = 0, dr_key_digest = zeros 32,
     dr_client_name = '''', dr_generation = 0 \<rparr>"

text \<open>\<open>poison_pairing_store_authenticate\<close> covers the bytes before the digest; the parameter
  \<open>auth\<close> gets the image with a zero digest.\<close>

type_synonym PairingAuth = "PoisonPairingDiskState \<Rightarrow> bytes option"

definition encodable_record :: "u32 \<Rightarrow> PoisonPairingRecord \<Rightarrow> bool" where
  "encodable_record generation source \<longleftrightarrow>
     \<not> (\<not> poison_pairing_key_valid (Some (pp_key_digest source)) \<or>
        \<not> poison_pairing_name_valid (Some (pp_client_name source)) \<or>
        pp_role source \<ge> PoisonRoleCount \<or> pp_generation source = 0 \<or>
        pp_generation source > generation)"

definition encode_record :: "PoisonPairingRecord \<Rightarrow> PoisonPairingDiskRecord" where
  "encode_record source =
    (if \<not> pp_active source then disk_record_zero
     else \<lparr> dr_active = 1, dr_role = of_nat (role_index (pp_role source)),
            dr_key_digest = pp_key_digest source, dr_client_name = pp_client_name source,
            dr_generation = pp_generation source \<rparr>)"

definition poison_pairing_disk_encode :: "PairingAuth \<Rightarrow> PoisonPairingStore \<Rightarrow>
    PoisonPairingDiskState option" where
  "poison_pairing_disk_encode auth store =
    (if \<exists>r \<in> set (pst_records store). pp_active r \<and> \<not> encodable_record (pst_generation store) r
     then None
     else
       let state = \<lparr> ds_magic = ''PPRS'', ds_version = POISON_PAIRING_STORE_VERSION,
             ds_generation = pst_generation store,
             ds_records = map encode_record (pst_records store), ds_digest = zeros 32 \<rparr>
       in case auth state of None \<Rightarrow> None | Some digest \<Rightarrow> Some (state \<lparr> ds_digest := digest \<rparr>))"

fun decode_records :: "u32 \<Rightarrow> PoisonPairingDiskRecord list \<Rightarrow> PoisonPairingRecord list \<Rightarrow>
    PoisonPairingRecord list option" where
  "decode_records generation [] decoded = Some decoded"
| "decode_records generation (source # sources) decoded =
    (if dr_active source = 0
     then decode_records generation sources (decoded @ [pairing_record_zero])
     else if dr_active source \<noteq> 1 \<or> unat (dr_role source) \<ge> role_index PoisonRoleCount \<or>
             \<not> poison_pairing_key_valid (Some (dr_key_digest source)) \<or>
             \<not> poison_pairing_name_valid (Some (dr_client_name source)) \<or>
             dr_generation source = 0 \<or> dr_generation source > generation
     then None
     else if \<exists>previous \<in> set decoded. pp_active previous \<and>
               same_key (pp_key_digest previous) (dr_key_digest source)
     then None
     else decode_records generation sources (decoded @
            [\<lparr> pp_active = True, pp_key_digest = dr_key_digest source,
               pp_client_name = dr_client_name source,
               pp_role = role_of_wire (ucast (dr_role source)),
               pp_generation = dr_generation source, pp_active_sessions = 0 \<rparr>]))"

definition poison_pairing_disk_decode :: "PairingAuth \<Rightarrow> PoisonPairingDiskState \<Rightarrow>
    PoisonPairingStore option" where
  "poison_pairing_disk_decode auth state =
    (if ds_magic state \<noteq> ''PPRS'' \<or> ds_version state \<noteq> POISON_PAIRING_STORE_VERSION then None
     else case auth (state \<lparr> ds_digest := zeros 32 \<rparr>) of
            None \<Rightarrow> None
          | Some digest \<Rightarrow>
              if digest \<noteq> ds_digest state then None
              else case decode_records (ds_generation state) (ds_records state) [] of
                     None \<Rightarrow> None
                   | Some records \<Rightarrow> Some \<lparr> pst_records = records,
                                               pst_generation = ds_generation state \<rparr>)"

section \<open>Slots\<close>

datatype PairingFile = NoFile | BadFile | GoodFile PoisonPairingDiskState

type_synonym PairingDisk = "string \<Rightarrow> PairingFile"

definition poison_pairing_store_slot_path :: "string \<Rightarrow> u32 \<Rightarrow> string option" where
  "poison_pairing_store_slot_path path slot =
    (if slot \<le> 1 \<and> length (path @ ''.'' @ [if slot = 0 then CHR ''0'' else CHR ''1'']) < 128
     then Some (path @ ''.'' @ [if slot = 0 then CHR ''0'' else CHR ''1'']) else None)"

definition pairing_path_valid :: "string \<Rightarrow> bool" where
  "pairing_path_valid path \<longleftrightarrow> path \<noteq> '''' \<and> path ! 0 = CHR ''/'' \<and> \<not> strstr path ''..''"

definition poison_pairing_store_slot_exists :: "PairingDisk \<Rightarrow> string \<Rightarrow> bool" where
  "poison_pairing_store_slot_exists disk path =
     list_ex (\<lambda>slot. case poison_pairing_store_slot_path path slot of
                       None \<Rightarrow> False | Some p \<Rightarrow> disk p \<noteq> NoFile) [0, 1]"

text \<open>The outcome of each storage call of a save, and what the slot holds when the file was
  opened (and truncated) but not written, synced and closed without an error.\<close>

record SaveIo =
  io_mkdir :: bool
  io_open :: bool
  io_write :: bool
  io_sync :: bool
  io_close :: bool
  io_left :: PairingFile

definition poison_pairing_store_save :: "PairingAuth \<Rightarrow> SaveIo \<Rightarrow> PairingDisk \<Rightarrow> PoisonPairingStore \<Rightarrow>
    string \<Rightarrow> PairingDisk \<times> bool" where
  "poison_pairing_store_save auth io disk store path =
    (if \<not> pairing_path_valid path then (disk, False)
     else case poison_pairing_disk_encode auth store of
       None \<Rightarrow> (disk, False)
     | Some state \<Rightarrow>
       (case poison_pairing_store_slot_path path (pst_generation store AND 1) of
          None \<Rightarrow> (disk, False)
        | Some slot_path \<Rightarrow>
            let ok = (if prefix ''/int/.poison/'' path then io_mkdir io else True);
                opened = ok \<and> io_open io;
                written = opened \<and> io_write io \<and> io_sync io \<and> io_close io
            in (if \<not> opened then disk
                else disk(slot_path := (if written then GoodFile state else io_left io)), written)))"

definition load_slot :: "PairingAuth \<Rightarrow> PairingDisk \<Rightarrow> string \<Rightarrow> u32 \<Rightarrow> PoisonPairingStore option \<Rightarrow>
    PoisonPairingStore option" where
  "load_slot auth disk path slot newest =
    (case poison_pairing_store_slot_path path slot of
       None \<Rightarrow> newest
     | Some slot_path \<Rightarrow>
        (case disk slot_path of
           GoodFile state \<Rightarrow>
             (case poison_pairing_disk_decode auth state of
                None \<Rightarrow> newest
              | Some candidate \<Rightarrow>
                  (case newest of
                     None \<Rightarrow> Some candidate
                   | Some n \<Rightarrow> if pst_generation candidate > pst_generation n
                               then Some candidate else Some n))
         | _ \<Rightarrow> newest))"

definition poison_pairing_store_load :: "PairingAuth \<Rightarrow> PairingDisk \<Rightarrow> string \<Rightarrow>
    PoisonPairingStore option" where
  "poison_pairing_store_load auth disk path =
    (if \<not> pairing_path_valid path then None
     else load_slot auth disk path 1 (load_slot auth disk path 0 None))"

definition poison_pairing_store_recover_corrupt :: "PairingAuth \<Rightarrow> SaveIo \<Rightarrow> PairingDisk \<Rightarrow> string \<Rightarrow>
    PairingDisk \<times> bool" where
  "poison_pairing_store_recover_corrupt auth io disk path =
    (if \<not> pairing_path_valid path then (disk, False)
     else if \<not> poison_pairing_store_slot_exists disk path \<or>
             poison_pairing_store_load auth disk path \<noteq> None then (disk, False)
     else poison_pairing_store_save auth io disk
            (poison_pairing_store_init \<lparr> pst_generation := 1 \<rparr>) path)"

section \<open>The registry\<close>

record PairingRegistry =
  reg_store :: PoisonPairingStore
  reg_attempted :: bool
  reg_ready :: bool
  reg_disk :: PairingDisk

definition POISON_PAIRING_STORE_PATH :: string where
  "POISON_PAIRING_STORE_PATH = ''/int/.poison/paired-clients.bin''"

definition poison_pairing_registry_init :: "PairingAuth \<Rightarrow> PairingRegistry \<Rightarrow> PairingRegistry \<times> bool" where
  "poison_pairing_registry_init auth reg =
    (if \<not> reg_attempted reg
     then let exists = poison_pairing_store_slot_exists (reg_disk reg) POISON_PAIRING_STORE_PATH;
              loaded = poison_pairing_store_load auth (reg_disk reg) POISON_PAIRING_STORE_PATH;
              ready = (if exists then loaded \<noteq> None else True);
              store = (if exists then (case loaded of None \<Rightarrow> reg_store reg | Some s \<Rightarrow> s)
                       else poison_pairing_store_init)
          in (reg \<lparr> reg_store := store, reg_ready := ready, reg_attempted := True \<rparr>, ready)
     else (reg, reg_ready reg))"

definition poison_pairing_registry_recover_corrupt :: "PairingAuth \<Rightarrow> SaveIo \<Rightarrow> PairingRegistry \<Rightarrow>
    PairingRegistry \<times> bool" where
  "poison_pairing_registry_recover_corrupt auth io reg =
    (if reg_attempted reg \<and> \<not> reg_ready reg
     then case poison_pairing_store_recover_corrupt auth io (reg_disk reg) POISON_PAIRING_STORE_PATH of
            (disk, recovered) \<Rightarrow>
              if recovered
              then (reg \<lparr> reg_disk := disk, reg_store := poison_pairing_store_init,
                         reg_ready := True \<rparr>, True)
              else (reg \<lparr> reg_disk := disk \<rparr>, False)
     else (reg, False))"

text \<open>The three operations that change the set of clients work on a copy and keep it only when
  it was saved.\<close>

definition registry_commit :: "PairingAuth \<Rightarrow> SaveIo \<Rightarrow> PairingRegistry \<Rightarrow> PoisonPairingStore \<Rightarrow>
    PairingRegistry \<times> bool" where
  "registry_commit auth io reg next_store =
    (case poison_pairing_store_save auth io (reg_disk reg) next_store POISON_PAIRING_STORE_PATH of
       (disk, saved) \<Rightarrow>
         (if saved then reg \<lparr> reg_disk := disk, reg_store := next_store \<rparr>
          else reg \<lparr> reg_disk := disk \<rparr>, saved))"

definition poison_pairing_registry_add :: "PairingAuth \<Rightarrow> SaveIo \<Rightarrow> PairingRegistry \<Rightarrow> bytes option \<Rightarrow>
    string option \<Rightarrow> PoisonRole \<Rightarrow> PairingRegistry \<times> bool" where
  "poison_pairing_registry_add auth io reg key_digest client_name role =
    (case poison_pairing_registry_init auth reg of (reg1, ready) \<Rightarrow>
       if \<not> ready then (reg1, False)
       else case poison_pairing_store_add (reg_store reg1) key_digest client_name role of
              (next_store, None) \<Rightarrow> (reg1, False)
            | (next_store, Some _) \<Rightarrow> registry_commit auth io reg1 next_store)"

definition poison_pairing_registry_find :: "PairingAuth \<Rightarrow> PairingRegistry \<Rightarrow> bytes option \<Rightarrow>
    PairingRegistry \<times> (PoisonPairingRecord \<times> nat) option" where
  "poison_pairing_registry_find auth reg key_digest =
    (if \<not> poison_pairing_key_valid key_digest then (reg, None)
     else case poison_pairing_registry_init auth reg of (reg1, ready) \<Rightarrow>
       if \<not> ready then (reg1, None)
       else (reg1, map_option (\<lambda>i. (pst_records (reg_store reg1) ! i, i))
              (find_index (\<lambda>r. pp_active r \<and> same_key (pp_key_digest r) (the key_digest))
                 (pst_records (reg_store reg1)))))"

definition poison_pairing_registry_snapshot :: "PairingAuth \<Rightarrow> PairingRegistry \<Rightarrow> nat \<Rightarrow>
    PairingRegistry \<times> PoisonPairingRecord list" where
  "poison_pairing_registry_snapshot auth reg capacity =
    (if capacity = 0 then (reg, [])
     else case poison_pairing_registry_init auth reg of (reg1, ready) \<Rightarrow>
       if \<not> ready then (reg1, [])
       else (reg1, take (if capacity < POISON_PAIRING_MAX_CLIENTS then capacity
                         else POISON_PAIRING_MAX_CLIENTS) (pst_records (reg_store reg1))))"

definition poison_pairing_registry_revoke :: "PairingAuth \<Rightarrow> SaveIo \<Rightarrow> PairingRegistry \<Rightarrow> nat \<Rightarrow>
    PairingRegistry \<times> bool" where
  "poison_pairing_registry_revoke auth io reg record_index =
    (case poison_pairing_registry_init auth reg of (reg1, ready) \<Rightarrow>
       if \<not> ready then (reg1, False)
       else case poison_pairing_store_revoke (reg_store reg1) record_index of
              (next_store, revoked) \<Rightarrow>
                if \<not> revoked then (reg1, False) else registry_commit auth io reg1 next_store)"

definition poison_pairing_registry_revoke_all :: "PairingAuth \<Rightarrow> SaveIo \<Rightarrow> PairingRegistry \<Rightarrow>
    PairingRegistry \<times> nat" where
  "poison_pairing_registry_revoke_all auth io reg =
    (case poison_pairing_registry_init auth reg of (reg1, ready) \<Rightarrow>
       if \<not> ready then (reg1, 0)
       else case poison_pairing_store_revoke_all (reg_store reg1) of
              (next_store, revoked) \<Rightarrow>
                if revoked = 0 then (reg1 \<lparr> reg_store := next_store \<rparr>, 0)
                else case registry_commit auth io reg1 next_store of
                       (reg2, saved) \<Rightarrow> (reg2, if saved then revoked else 0))"

definition poison_pairing_registry_session_open :: "PairingAuth \<Rightarrow> PairingRegistry \<Rightarrow> bytes option \<Rightarrow>
    PairingRegistry \<times> bool" where
  "poison_pairing_registry_session_open auth reg key_digest =
    (if \<not> poison_pairing_key_valid key_digest then (reg, False)
     else case poison_pairing_registry_init auth reg of (reg1, ready) \<Rightarrow>
       if \<not> ready then (reg1, False)
       else let records = pst_records (reg_store reg1)
            in case find_index (\<lambda>r. pp_active r \<and> same_key (pp_key_digest r) (the key_digest) \<and>
                                    pp_active_sessions r < UINT32_MAX) records of
                 None \<Rightarrow> (reg1, False)
               | Some i \<Rightarrow>
                   (reg1 \<lparr> reg_store := (reg_store reg1) \<lparr> pst_records := records[i := (records ! i)
                      \<lparr> pp_active_sessions := pp_active_sessions (records ! i) + 1 \<rparr>] \<rparr> \<rparr>, True))"

definition poison_pairing_registry_session_close :: "PairingAuth \<Rightarrow> PairingRegistry \<Rightarrow> bytes option \<Rightarrow>
    PairingRegistry" where
  "poison_pairing_registry_session_close auth reg key_digest =
    (if \<not> poison_pairing_key_valid key_digest then reg
     else case poison_pairing_registry_init auth reg of (reg1, ready) \<Rightarrow>
       if \<not> ready then reg1
       else let records = pst_records (reg_store reg1)
            in case find_index (\<lambda>r. pp_active r \<and> same_key (pp_key_digest r) (the key_digest)) records of
                 None \<Rightarrow> reg1
               | Some i \<Rightarrow>
                   if pp_active_sessions (records ! i) > 0
                   then reg1 \<lparr> reg_store := (reg_store reg1) \<lparr> pst_records := records[i := (records ! i)
                      \<lparr> pp_active_sessions := pp_active_sessions (records ! i) - 1 \<rparr>] \<rparr> \<rparr>
                   else reg1)"

section \<open>The store is a finite map\<close>

definition record_ok :: "u32 \<Rightarrow> PoisonPairingRecord \<Rightarrow> bool" where
  "record_ok generation r \<longleftrightarrow>
     (if pp_active r then encodable_record generation r \<and> length (pp_key_digest r) = 32
      else r = pairing_record_zero)"

definition pairing_inv :: "PoisonPairingStore \<Rightarrow> bool" where
  "pairing_inv s \<longleftrightarrow> length (pst_records s) = 8 \<and>
     tbl_unique pp_active pp_key_digest (pst_records s) \<and>
     (\<forall>r \<in> set (pst_records s). record_ok (pst_generation s) r)"

lemma pairing_key_valid_iff [simp]:
  "poison_pairing_key_valid k \<longleftrightarrow> (\<exists>d. k = Some d \<and> (\<exists>b \<in> set (take 32 d). b \<noteq> 0))"
  by (cases k) (auto simp: poison_pairing_key_valid_def)

lemma pairing_name_valid_iff [simp]:
  "poison_pairing_name_valid n \<longleftrightarrow> (\<exists>s. n = Some s \<and> s \<noteq> '''' \<and> length s \<le> 32)"
  by (cases n) (auto simp: poison_pairing_name_valid_def)

lemma encodable_iff:
  "encodable_record g r \<longleftrightarrow> (\<exists>b \<in> set (take 32 (pp_key_digest r)). b \<noteq> 0) \<and>
     pp_client_name r \<noteq> '''' \<and> length (pp_client_name r) \<le> 32 \<and> pp_role r \<noteq> PoisonRoleCount \<and>
     pp_generation r \<noteq> 0 \<and> pp_generation r \<le> g"
  by (auto simp: encodable_record_def)

lemma record_zero_inactive [simp]: "\<not> pp_active pairing_record_zero"
  by (simp add: pairing_record_zero_def)

lemma pairing_init_inv [inv_intros]: "pairing_inv poison_pairing_store_init"
  by (simp add: pairing_inv_def poison_pairing_store_init_def tbl_unique_free record_ok_def)

lemma find_pred_cong:
  assumes "pairing_inv s" "length k = 32"
  shows "find_index (\<lambda>r. pp_active r \<and> same_key (pp_key_digest r) k) (pst_records s) =
    find_index (\<lambda>r. pp_active r \<and> pp_key_digest r = k) (pst_records s)"
  by (rule find_index_cong) (use assms in \<open>auto simp: pairing_inv_def record_ok_def\<close>)

lemma store_find_lookup:
  assumes "pairing_inv s" "length k = 32" "\<exists>b \<in> set k. b \<noteq> 0"
  shows "poison_pairing_store_find s (Some k) = tbl_lookup pp_active pp_key_digest (pst_records s) k"
  using assms find_pred_cong [OF assms(1,2)]
  by (simp add: poison_pairing_store_find_def tbl_lookup_def)

lemma generation_step:
  fixes g :: u32
  assumes "g \<noteq> UINT32_MAX"
  shows "x \<le> g \<Longrightarrow> x \<le> g + 1" "g + 1 \<noteq> 0" "g < g + 1"
  using inc_no_wrap [OF assms] by (auto simp: word_le_nat_alt word_less_nat_alt)

lemma add_success:
  assumes "pairing_inv s" "length k = 32" "snd (poison_pairing_store_add s (Some k) name role) = Some i"
  defines "r \<equiv> \<lparr> pp_active = True, pp_key_digest = k, pp_client_name = the name, pp_role = role,
     pp_generation = pst_generation s + 1, pp_active_sessions = 0 \<rparr>"
  shows "fst (poison_pairing_store_add s (Some k) name role) =
      \<lparr> pst_records = (pst_records s)[i := r], pst_generation = pst_generation s + 1 \<rparr>"
    "i < 8" "\<not> pp_active (pst_records s ! i)" "pst_generation s \<noteq> UINT32_MAX"
    "tbl_lookup pp_active pp_key_digest (pst_records s) k = None"
    "encodable_record (pst_generation s + 1) r"
proof -
  have *: "find_index (\<lambda>r. \<not> pp_active r) (pst_records s) = Some i" "pst_generation s \<noteq> UINT32_MAX"
    "\<exists>b \<in> set k. b \<noteq> 0" "poison_pairing_store_find s (Some k) = None"
    "role \<noteq> PoisonRoleCount" "\<exists>n. name = Some n \<and> n \<noteq> '''' \<and> length n \<le> 32"
    using assms(2,3) by (auto simp: poison_pairing_store_add_def split: if_splits option.splits)
  then show "i < 8" "\<not> pp_active (pst_records s ! i)" "pst_generation s \<noteq> UINT32_MAX"
    "tbl_lookup pp_active pp_key_digest (pst_records s) k = None"
    using find_index_SomeD [OF *(1)] assms(1) store_find_lookup [OF assms(1,2) *(3)]
    by (simp_all add: pairing_inv_def)
  show "fst (poison_pairing_store_add s (Some k) name role) =
      \<lparr> pst_records = (pst_records s)[i := r], pst_generation = pst_generation s + 1 \<rparr>"
    using * assms(2) by (auto simp: poison_pairing_store_add_def r_def)
  show "encodable_record (pst_generation s + 1) r"
    using * assms(2) generation_step [OF *(2)] by (auto simp: encodable_iff r_def)
qed

lemma add_refused:
  "snd (poison_pairing_store_add s k name role) = None \<Longrightarrow>
   fst (poison_pairing_store_add s k name role) = s"
  by (auto simp: poison_pairing_store_add_def simp del: find_index_None split: if_splits option.splits)

lemma encodable_mono: "encodable_record g r \<Longrightarrow> g \<noteq> UINT32_MAX \<Longrightarrow> encodable_record (g + 1) r"
  using generation_step(1) by (auto simp: encodable_iff)

lemma records_ok_mono:
  "\<forall>r \<in> set rs. record_ok g r \<Longrightarrow> g \<noteq> UINT32_MAX \<Longrightarrow> \<forall>r \<in> set rs. record_ok (g + 1) r"
  using encodable_mono by (auto simp: record_ok_def)

lemma add_inv [inv_intros]:
  assumes "pairing_inv s" "length k = 32"
  shows "pairing_inv (fst (poison_pairing_store_add s (Some k) name role))"
proof (cases "snd (poison_pairing_store_add s (Some k) name role)")
  case None
  then show ?thesis using assms by (simp add: add_refused)
next
  case (Some i)
  note add = add_success [OF assms Some]
  have "i < length (pst_records s)" using assms(1) add(2) by (simp add: pairing_inv_def)
  then have "tbl_unique pp_active pp_key_digest (pst_records (fst (poison_pairing_store_add s (Some k) name role)))"
    using assms(1) add(3,5) by (simp add: add(1) pairing_inv_def tbl_insert(1))
  moreover have "\<forall>r \<in> set (pst_records (fst (poison_pairing_store_add s (Some k) name role))).
      record_ok (pst_generation s + 1) r"
    unfolding add(1) PoisonPairingStore.simps
    using assms add(4,6) by (intro all_list_update records_ok_mono) (auto simp: pairing_inv_def record_ok_def)
  ultimately show ?thesis
    using assms(1) by (simp add: pairing_inv_def add(1))
qed

lemma revoke_refused:
  "\<not> snd (poison_pairing_store_revoke s i) \<Longrightarrow> fst (poison_pairing_store_revoke s i) = s"
  by (auto simp: poison_pairing_store_revoke_def split: if_splits)

lemma revoke_success:
  assumes "snd (poison_pairing_store_revoke s i)"
  shows "fst (poison_pairing_store_revoke s i) =
      \<lparr> pst_records = (pst_records s)[i := pairing_record_zero], pst_generation = pst_generation s + 1 \<rparr>"
    "i < 8" "pp_active (pst_records s ! i)" "pst_generation s \<noteq> UINT32_MAX"
  using assms by (auto simp: poison_pairing_store_revoke_def split: if_splits)

lemma revoke_inv [inv_intros]:
  assumes "pairing_inv s"
  shows "pairing_inv (fst (poison_pairing_store_revoke s i))"
proof (cases "snd (poison_pairing_store_revoke s i)")
  case False
  then show ?thesis using assms by (simp add: revoke_refused)
next
  case True
  note rev = revoke_success [OF True]
  have "i < length (pst_records s)" using assms rev(2) by (simp add: pairing_inv_def)
  then have "tbl_unique pp_active pp_key_digest (pst_records (fst (poison_pairing_store_revoke s i)))"
    using assms rev(3) by (simp add: rev(1) pairing_inv_def tbl_remove(1))
  moreover have "\<forall>r \<in> set (pst_records (fst (poison_pairing_store_revoke s i))).
      record_ok (pst_generation s + 1) r"
    unfolding rev(1) PoisonPairingStore.simps
    using assms rev(4) by (intro all_list_update records_ok_mono) (auto simp: pairing_inv_def record_ok_def)
  ultimately show ?thesis
    using assms by (simp add: pairing_inv_def rev(1))
qed

lemma fold_revoke_inv:
  "pairing_inv s \<Longrightarrow> pairing_inv (fst (fold (\<lambda>index (s, revoked).
     case poison_pairing_store_revoke s index of (s', ok) \<Rightarrow> (s', revoked + (if ok then 1 else 0)))
     is (s, n :: nat)))"
proof (induction "is" arbitrary: s n)
  case (Cons i "is")
  then show ?case
    using revoke_inv [of s i] by (auto split: prod.splits)
qed simp

lemma revoke_all_inv [inv_intros]:
  "pairing_inv s \<Longrightarrow> pairing_inv (fst (poison_pairing_store_revoke_all s))"
  unfolding poison_pairing_store_revoke_all_def by (rule fold_revoke_inv)

text \<open>The store as a registry of clients: the record is built by the store, so the entry of
  an insertion is given by its key, name and role; a removal is by key.\<close>

definition pairing_lookup :: "PoisonPairingStore \<Rightarrow> bytes \<Rightarrow> (bytes \<times> string \<times> PoisonRole) option" where
  "pairing_lookup s k = map_option (\<lambda>r. (pp_key_digest r, pp_client_name r, pp_role r))
     (tbl_lookup pp_active pp_key_digest (pst_records s) k)"

definition pairing_insert :: "PoisonPairingStore \<Rightarrow> bytes \<times> string \<times> PoisonRole \<Rightarrow>
    PoisonPairingStore \<times> bool" where
  "pairing_insert s c = (if length (fst c) \<noteq> 32 then (s, False)
     else case poison_pairing_store_add s (Some (fst c)) (Some (fst (snd c))) (snd (snd c)) of
            (s', i) \<Rightarrow> (s', i \<noteq> None))"

definition pairing_remove :: "PoisonPairingStore \<Rightarrow> bytes \<Rightarrow> PoisonPairingStore \<times> bool" where
  "pairing_remove s k =
     (case find_index (\<lambda>r. pp_active r \<and> pp_key_digest r = k) (pst_records s) of
        None \<Rightarrow> (s, False) | Some i \<Rightarrow> poison_pairing_store_revoke s i)"

lemma pairing_find_insert:
  assumes "pairing_inv s" "length k = 32" "snd (poison_pairing_store_add s (Some k) (Some n) role) = Some i"
  shows "tbl_lookup pp_active pp_key_digest
      (pst_records (fst (poison_pairing_store_add s (Some k) (Some n) role))) =
    (tbl_lookup pp_active pp_key_digest (pst_records s))(k \<mapsto>
      \<lparr> pp_active = True, pp_key_digest = k, pp_client_name = n, pp_role = role,
        pp_generation = pst_generation s + 1, pp_active_sessions = 0 \<rparr>)"
  using tbl_insert(2) [of pp_active pp_key_digest "pst_records s" i
      "\<lparr> pp_active = True, pp_key_digest = k, pp_client_name = n, pp_role = role,
        pp_generation = pst_generation s + 1, pp_active_sessions = 0 \<rparr>"]
    add_success [OF assms] assms(1)
  by (simp add: pairing_inv_def)

lemma pairing_find_remove:
  assumes "pairing_inv s" "snd (poison_pairing_store_revoke s i)"
  shows "tbl_lookup pp_active pp_key_digest (pst_records (fst (poison_pairing_store_revoke s i))) =
    (tbl_lookup pp_active pp_key_digest (pst_records s))(pp_key_digest (pst_records s ! i) := None)"
  using tbl_remove(2) [of pp_active pp_key_digest "pst_records s" i pairing_record_zero]
    revoke_success [OF assms(2)] assms(1)
  by (simp add: pairing_inv_def)

interpretation clients: registry pairing_lookup pairing_insert pairing_remove fst pairing_inv
proof (unfold_locales, goal_cases)
  case (1 s v)
  then show ?case
    using add_inv [OF 1, of "fst v" "Some (fst (snd v))" "snd (snd v)"]
    by (auto simp: pairing_insert_def split: prod.splits)
next
  case (2 s k)
  then show ?case by (auto simp: pairing_remove_def revoke_inv split: option.splits)
next
  case (3 s v)
  obtain k n r where v: "v = (k, n, r)" by (cases v) auto
  with 3 obtain i where len: "length k = 32"
    and i: "snd (poison_pairing_store_add s (Some k) (Some n) r) = Some i"
    by (auto simp: pairing_insert_def split: if_splits prod.splits)
  then have "fst (pairing_insert s v) = fst (poison_pairing_store_add s (Some k) (Some n) r)"
    by (simp add: pairing_insert_def v split: prod.splits)
  then show ?case
    by (auto simp: pairing_lookup_def pairing_find_insert [OF 3(1) len i] v)
next
  case (4 s v)
  then show ?case
    using add_refused [of s "Some (fst v)" "Some (fst (snd v))" "snd (snd v)"]
    by (auto simp: pairing_insert_def split: if_splits prod.splits)
next
  case (5 s k)
  then obtain i where i: "find_index (\<lambda>r. pp_active r \<and> pp_key_digest r = k) (pst_records s) = Some i"
    and rev: "snd (poison_pairing_store_revoke s i)"
    by (auto simp: pairing_remove_def simp del: find_index_None split: option.splits)
  then show ?case
    using pairing_find_remove [OF 5(1) rev] find_index_SomeD [OF i]
    by (auto simp: pairing_remove_def pairing_lookup_def)
next
  case (6 s k)
  then show ?case
    by (auto simp: pairing_remove_def revoke_refused simp del: find_index_None split: option.splits)
qed

lemma lookup_free_iff:
  "pairing_lookup s k = None \<longleftrightarrow> tbl_lookup pp_active pp_key_digest (pst_records s) k = None"
  by (simp add: pairing_lookup_def)

text \<open>C16: the store behaves as a finite map from key digests to clients.  A client is added
  exactly when its digest is not zero, its name and role are valid, it is not known yet, a
  record is free and the generation is not exhausted; an addition binds the key and a removal
  unbinds it, other keys keep their clients, and the store stays in order.\<close>

theorem pairing_store_is_map:
  assumes "pairing_inv s"
  shows "(snd (pairing_insert s (k, n, r)) \<longleftrightarrow>
        length k = 32 \<and> (\<exists>b \<in> set k. b \<noteq> 0) \<and> n \<noteq> '''' \<and> length n \<le> 32 \<and> r \<noteq> PoisonRoleCount \<and>
        pairing_lookup s k = None \<and> (\<exists>x \<in> set (pst_records s). \<not> pp_active x) \<and>
        pst_generation s \<noteq> UINT32_MAX) \<and>
    pairing_lookup (fst (pairing_insert s (k, n, r))) =
      (if snd (pairing_insert s (k, n, r)) then (pairing_lookup s)(k \<mapsto> (k, n, r)) else pairing_lookup s) \<and>
    pairing_lookup (fst (pairing_remove s k)) =
      (if snd (pairing_remove s k) then (pairing_lookup s)(k := None) else pairing_lookup s) \<and>
    pairing_inv (fst (pairing_insert s (k, n, r))) \<and> pairing_inv (fst (pairing_remove s k))"
proof -
  have "snd (pairing_insert s (k, n, r)) \<longleftrightarrow>
        length k = 32 \<and> (\<exists>b \<in> set k. b \<noteq> 0) \<and> n \<noteq> '''' \<and> length n \<le> 32 \<and> r \<noteq> PoisonRoleCount \<and>
        pairing_lookup s k = None \<and> (\<exists>x \<in> set (pst_records s). \<not> pp_active x) \<and>
        pst_generation s \<noteq> UINT32_MAX"
  proof (cases "length k = 32 \<and> (\<exists>b \<in> set k. b \<noteq> 0)")
    case True
    then show ?thesis
      using store_find_lookup [OF assms, of k]
        find_index_None [of "\<lambda>r. \<not> pp_active r" "pst_records s"]
      by (auto simp: pairing_insert_def poison_pairing_store_add_def lookup_free_iff
          simp del: find_index_None split: prod.splits if_splits option.splits)
  next
    case False
    then show ?thesis
      by (auto simp: pairing_insert_def poison_pairing_store_add_def split: prod.splits)
  qed
  then show ?thesis
    using clients.find_insert [OF assms, of "(k, n, r)"] clients.insert_refused [OF assms, of "(k, n, r)"]
      clients.find_remove [OF assms, of k] clients.remove_refused [OF assms, of k]
      clients.insert_inv [OF assms, of "(k, n, r)"] clients.remove_inv [OF assms, of k]
    by (cases "snd (pairing_insert s (k, n, r))"; cases "snd (pairing_remove s k)")
      (simp_all only: if_True if_False fst_conv simp_thms)
qed

lemma pairing_store_is_map_witness:
  "snd (pairing_insert poison_pairing_store_init (replicate 32 1, ''bench'', PoisonRoleStudent))"
  using pairing_store_is_map [OF pairing_init_inv, of "replicate 32 1" "''bench''" PoisonRoleStudent]
    pairing_record_zero_def
  by (simp add: poison_pairing_store_init_def pairing_lookup_def tbl_lookup_free)

section \<open>The round trip through the disk image\<close>

definition strip_sessions :: "PoisonPairingRecord \<Rightarrow> PoisonPairingRecord" where
  "strip_sessions r = r \<lparr> pp_active_sessions := 0 \<rparr>"

definition strip_store :: "PoisonPairingStore \<Rightarrow> PoisonPairingStore" where
  "strip_store s = s \<lparr> pst_records := map strip_sessions (pst_records s) \<rparr>"

lemma role_round_trip:
  "r \<noteq> PoisonRoleCount \<Longrightarrow> role_of_wire (ucast (of_nat (role_index r) :: u8)) = r \<and>
     unat (of_nat (role_index r) :: u8) < 5"
  by (cases r) (simp_all add: role_of_wire_def)

lemma strip_simps [simp]:
  "pp_active (strip_sessions r) = pp_active r" "pp_key_digest (strip_sessions r) = pp_key_digest r"
  "strip_sessions pairing_record_zero = pairing_record_zero"
  by (simp_all add: strip_sessions_def pairing_record_zero_def)

lemma encode_zero [simp]: "encode_record pairing_record_zero = disk_record_zero"
  by (simp add: encode_record_def)

lemma encode_active:
  "pp_active r \<Longrightarrow> encode_record r = \<lparr> dr_active = 1, dr_role = of_nat (role_index (pp_role r)),
     dr_key_digest = pp_key_digest r, dr_client_name = pp_client_name r,
     dr_generation = pp_generation r \<rparr>"
  by (simp add: encode_record_def)

lemma decode_encode_records:
  assumes "\<forall>r \<in> set rs. record_ok g r"
    and "\<forall>r \<in> set acc. length (pp_key_digest r) = 32"
    and "tbl_unique pp_active pp_key_digest (acc @ rs)"
  shows "decode_records g (map encode_record rs) acc = Some (acc @ map strip_sessions rs)"
  using assms
proof (induction rs arbitrary: acc)
  case (Cons r rs)
  show ?case
  proof (cases "pp_active r")
    case False
    with Cons.prems have r: "r = pairing_record_zero" by (simp add: record_ok_def)
    have "decode_records g (map encode_record rs) (acc @ [pairing_record_zero]) =
        Some ((acc @ [pairing_record_zero]) @ map strip_sessions rs)"
      using Cons.prems r by (intro Cons.IH) (auto simp: tbl_unique_def pairing_record_zero_def)
    then show ?thesis by (simp add: r disk_record_zero_def)
  next
    case True
    let ?r = "strip_sessions r"
    have enc: "encodable_record g r" "length (pp_key_digest r) = 32"
      using Cons.prems(1) True by (simp_all add: record_ok_def)
    have fresh: "\<forall>p \<in> set acc. \<not> (pp_active p \<and> same_key (pp_key_digest p) (pp_key_digest r))"
      using Cons.prems(2,3) True enc(2) by (auto simp: tbl_unique_def image_iff)
    have "decode_records g (map encode_record rs) (acc @ [?r]) = Some ((acc @ [?r]) @ map strip_sessions rs)"
      using Cons.prems True enc by (intro Cons.IH) (auto simp: tbl_unique_def)
    moreover have "\<lparr> pp_active = True, pp_key_digest = pp_key_digest r,
        pp_client_name = pp_client_name r, pp_role = pp_role r,
        pp_generation = pp_generation r, pp_active_sessions = 0 \<rparr> = ?r"
      using True by (simp add: strip_sessions_def)
    ultimately show ?thesis
      using enc fresh role_round_trip [of "pp_role r"] True
      by (simp add: encode_active [OF True] encodable_iff not_less)
  qed
qed simp

text \<open>The digest of an image does not depend on its own digest field.\<close>

lemma decode_encode:
  assumes "pairing_inv s" "poison_pairing_disk_encode auth s = Some state"
  shows "poison_pairing_disk_decode auth state = Some (strip_store s)"
proof -
  let ?state = "\<lparr> ds_magic = ''PPRS'', ds_version = 1, ds_generation = pst_generation s,
      ds_records = map encode_record (pst_records s), ds_digest = zeros 32 \<rparr>"
  obtain d where d: "auth ?state = Some d" "state = ?state \<lparr> ds_digest := d \<rparr>"
    using assms(2) by (auto simp: poison_pairing_disk_encode_def Let_def split: if_splits option.splits)
  have "decode_records (pst_generation s) (map encode_record (pst_records s)) [] =
      Some ([] @ map strip_sessions (pst_records s))"
    using assms(1) by (intro decode_encode_records) (auto simp: pairing_inv_def)
  with d show ?thesis
    by (simp add: poison_pairing_disk_decode_def strip_store_def)
qed

lemma encode_total:
  assumes "pairing_inv s" "\<And>st. auth st \<noteq> None"
  shows "poison_pairing_disk_encode auth s \<noteq> None"
  using assms
  by (auto simp: poison_pairing_disk_encode_def Let_def pairing_inv_def record_ok_def split: option.splits)

section \<open>Durability\<close>

text \<open>The store a slot stands for, when it holds an authentic image.\<close>

definition slot_store :: "PairingAuth \<Rightarrow> PairingDisk \<Rightarrow> bool \<Rightarrow> PoisonPairingStore option" where
  "slot_store auth disk one =
    (case disk (POISON_PAIRING_STORE_PATH @ (if one then ''.1'' else ''.0'')) of
       GoodFile state \<Rightarrow> poison_pairing_disk_decode auth state | _ \<Rightarrow> None)"

lemma slot_paths [simp]:
  "poison_pairing_store_slot_path POISON_PAIRING_STORE_PATH 0 = Some (POISON_PAIRING_STORE_PATH @ ''.0'')"
  "poison_pairing_store_slot_path POISON_PAIRING_STORE_PATH 1 = Some (POISON_PAIRING_STORE_PATH @ ''.1'')"
  by (simp_all add: poison_pairing_store_slot_path_def POISON_PAIRING_STORE_PATH_def)

lemma registry_path [simp]:
  "pairing_path_valid POISON_PAIRING_STORE_PATH" "prefix ''/int/.poison/'' POISON_PAIRING_STORE_PATH"
  by (simp_all add: pairing_path_valid_def POISON_PAIRING_STORE_PATH_def)

lemma load_slots:
  "poison_pairing_store_load auth disk POISON_PAIRING_STORE_PATH =
    (case slot_store auth disk False of
       None \<Rightarrow> slot_store auth disk True
     | Some a \<Rightarrow> (case slot_store auth disk True of
           None \<Rightarrow> Some a
         | Some b \<Rightarrow> if pst_generation b > pst_generation a then Some b else Some a))"
  by (simp add: poison_pairing_store_load_def load_slot_def slot_store_def
      split: PairingFile.splits option.splits)

lemma generation_slot: "(g :: u32) AND 1 = (if odd g then 1 else 0)"
  by (simp add: and_one_eq mod_2_eq_odd)

lemma save_registry:
  assumes "poison_pairing_store_save auth io disk n POISON_PAIRING_STORE_PATH = (disk', ok)"
  shows "slot_store auth disk' (even (pst_generation n)) = slot_store auth disk (even (pst_generation n))"
    and "ok \<Longrightarrow> pairing_inv n \<Longrightarrow> slot_store auth disk' (odd (pst_generation n)) = Some (strip_store n)"
    and "\<not> ok \<Longrightarrow> disk' = disk \<or>
           disk' = disk(POISON_PAIRING_STORE_PATH @ (if odd (pst_generation n) then ''.1'' else ''.0'') := io_left io)"
proof -
  have paths: "POISON_PAIRING_STORE_PATH @ ''.0'' \<noteq> POISON_PAIRING_STORE_PATH @ ''.1''" by simp
  show "slot_store auth disk' (even (pst_generation n)) = slot_store auth disk (even (pst_generation n))"
    using assms paths
    by (auto simp: poison_pairing_store_save_def generation_slot slot_store_def Let_def
        split: option.splits if_splits)
  show "\<not> ok \<Longrightarrow> disk' = disk \<or>
       disk' = disk(POISON_PAIRING_STORE_PATH @ (if odd (pst_generation n) then ''.1'' else ''.0'') := io_left io)"
    using assms
    by (auto simp: poison_pairing_store_save_def generation_slot Let_def split: option.splits if_splits)
  assume ok: ok and inv: "pairing_inv n"
  then obtain state where st: "poison_pairing_disk_encode auth n = Some state"
    using assms by (auto simp: poison_pairing_store_save_def split: option.splits if_splits)
  then show "slot_store auth disk' (odd (pst_generation n)) = Some (strip_store n)"
    using assms ok decode_encode [OF inv st]
    by (auto simp: poison_pairing_store_save_def generation_slot slot_store_def Let_def
        split: option.splits if_splits)
qed

text \<open>The newest image is in the slot of the parity of the store's generation, and the other
  slot is older; before the first save there is no image.\<close>

definition disk_inv :: "PairingAuth \<Rightarrow> PairingDisk \<Rightarrow> PoisonPairingStore \<Rightarrow> bool" where
  "disk_inv auth disk s \<longleftrightarrow>
    (if pst_generation s = 0 then slot_store auth disk False = None \<and> slot_store auth disk True = None
     else slot_store auth disk (odd (pst_generation s)) = Some (strip_store s) \<and>
       (case slot_store auth disk (even (pst_generation s)) of
          None \<Rightarrow> True | Some c \<Rightarrow> pst_generation c < pst_generation s))"

lemma strip_generation [simp]: "pst_generation (strip_store s) = pst_generation s"
  by (simp add: strip_store_def)

lemma disk_inv_load:
  assumes "disk_inv auth disk s"
  shows "poison_pairing_store_load auth disk POISON_PAIRING_STORE_PATH =
    (if pst_generation s = 0 then None else Some (strip_store s))"
  using assms
  by (cases "odd (pst_generation s)")
    (auto simp: disk_inv_def load_slots split: if_splits option.splits)

lemma save_next:
  assumes "disk_inv auth disk s" "pairing_inv n" "pst_generation n = pst_generation s + 1"
    and "pst_generation s \<noteq> UINT32_MAX"
    and "poison_pairing_store_save auth io disk n POISON_PAIRING_STORE_PATH = (disk', ok)"
  shows "ok \<Longrightarrow> disk_inv auth disk' n"
    and "\<not> ok \<Longrightarrow> (\<And>st. io_left io = GoodFile st \<Longrightarrow>
           poison_pairing_disk_decode auth st \<in> {None, Some (strip_store n)}) \<Longrightarrow>
         poison_pairing_store_load auth disk' POISON_PAIRING_STORE_PATH
           \<in> {poison_pairing_store_load auth disk POISON_PAIRING_STORE_PATH, Some (strip_store n)}"
proof -
  note save = save_registry [OF assms(5)]
  note gen = generation_step [OF assms(4)]
  have par: "odd (pst_generation n) = even (pst_generation s)"
    using assms(3) by simp
  have old: "case slot_store auth disk (odd (pst_generation s)) of
      None \<Rightarrow> True | Some c \<Rightarrow> pst_generation c < pst_generation n"
    using assms(1,3) gen(3) by (auto simp: disk_inv_def split: if_splits option.splits)
  show "disk_inv auth disk' n" if ok
    using save(1) save(2) [OF that assms(2)] old gen(2) par assms(3)
    by (simp add: disk_inv_def)
  assume fail: "\<not> ok" and torn: "\<And>st. io_left io = GoodFile st \<Longrightarrow>
      poison_pairing_disk_decode auth st \<in> {None, Some (strip_store n)}"
  consider "disk' = disk" | "slot_store auth disk' (odd (pst_generation n)) \<in> {None, Some (strip_store n)}"
    using save(3) [OF fail] torn by (auto simp: slot_store_def split: PairingFile.splits)
  then show "poison_pairing_store_load auth disk' POISON_PAIRING_STORE_PATH
      \<in> {poison_pairing_store_load auth disk POISON_PAIRING_STORE_PATH, Some (strip_store n)}"
  proof cases
    case 2
    then show ?thesis
      using save(1) old par assms(1,3) gen
      by (cases "odd (pst_generation s)")
        (auto simp: load_slots disk_inv_def split: option.splits if_splits)
  qed simp
qed

section \<open>The registry across restarts\<close>

text \<open>A restart: the static registry starts out zero and loads what the disk holds.\<close>

definition registry_restart :: "PairingAuth \<Rightarrow> PairingDisk \<Rightarrow> PairingRegistry \<times> bool" where
  "registry_restart auth disk = poison_pairing_registry_init auth
     \<lparr> reg_store = poison_pairing_store_init, reg_attempted = False, reg_ready = False,
       reg_disk = disk \<rparr>"

definition registry_ok :: "PairingAuth \<Rightarrow> PairingRegistry \<Rightarrow> bool" where
  "registry_ok auth reg \<longleftrightarrow> reg_attempted reg \<and> reg_ready reg \<and> pairing_inv (reg_store reg) \<and>
     disk_inv auth (reg_disk reg) (reg_store reg)"

text \<open>The two operations that change one client.\<close>

datatype RegistryOp = RegAdd SaveIo bytes "string option" PoisonRole | RegRevoke SaveIo nat

fun registry_io :: "RegistryOp \<Rightarrow> SaveIo" where
  "registry_io (RegAdd io k n r) = io"
| "registry_io (RegRevoke io i) = io"

fun registry_step :: "PairingAuth \<Rightarrow> RegistryOp \<Rightarrow> PairingRegistry \<Rightarrow> PairingRegistry \<times> bool" where
  "registry_step auth (RegAdd io k n r) reg = poison_pairing_registry_add auth io reg (Some k) n r"
| "registry_step auth (RegRevoke io i) reg = poison_pairing_registry_revoke auth io reg i"

text \<open>The store the operation tries to save, when it gets that far.\<close>

fun registry_target :: "RegistryOp \<Rightarrow> PoisonPairingStore \<Rightarrow> PoisonPairingStore option" where
  "registry_target (RegAdd io k n r) s =
     (case poison_pairing_store_add s (Some k) n r of (s', None) \<Rightarrow> None | (s', Some _) \<Rightarrow> Some s')"
| "registry_target (RegRevoke io i) s =
     (case poison_pairing_store_revoke s i of (s', ok) \<Rightarrow> if ok then Some s' else None)"

definition op_key_length :: "RegistryOp \<Rightarrow> bool" where
  "op_key_length op = (case op of RegAdd io k n r \<Rightarrow> length k = 32 | RegRevoke io i \<Rightarrow> True)"

lemma registry_target_next:
  assumes "pairing_inv s" "op_key_length op" "registry_target op s = Some n"
  shows "pairing_inv n" "pst_generation n = pst_generation s + 1" "pst_generation s \<noteq> UINT32_MAX"
proof -
  have "pairing_inv n \<and> pst_generation n = pst_generation s + 1 \<and> pst_generation s \<noteq> UINT32_MAX"
  proof (cases op)
    case (RegAdd io k name r)
    then obtain i where k: "length k = 32" and i: "snd (poison_pairing_store_add s (Some k) name r) = Some i"
      and n: "n = fst (poison_pairing_store_add s (Some k) name r)"
      using assms(2,3) by (auto simp: op_key_length_def split: prod.splits option.splits)
    have "pairing_inv n" unfolding n by (rule add_inv [OF assms(1) k])
    moreover have "pst_generation n = pst_generation s + 1"
      unfolding n add_success(1) [OF assms(1) k i] by simp
    ultimately show ?thesis using add_success(4) [OF assms(1) k i] by simp
  next
    case (RegRevoke io i)
    then have ok: "snd (poison_pairing_store_revoke s i)" and n: "n = fst (poison_pairing_store_revoke s i)"
      using assms(3) by (auto split: prod.splits if_splits)
    have "pairing_inv n" unfolding n by (rule revoke_inv [OF assms(1)])
    moreover have "pst_generation n = pst_generation s + 1"
      unfolding n revoke_success(1) [OF ok] by simp
    ultimately show ?thesis using revoke_success(4) [OF ok] by simp
  qed
  then show "pairing_inv n" "pst_generation n = pst_generation s + 1" "pst_generation s \<noteq> UINT32_MAX"
    by simp_all
qed

lemma registry_step_target:
  assumes "reg_attempted reg" "reg_ready reg"
  shows "registry_step auth op reg =
    (case registry_target op (reg_store reg) of
       None \<Rightarrow> (reg, False) | Some n \<Rightarrow> registry_commit auth (registry_io op) reg n)"
  using assms
  by (cases op) (auto simp: poison_pairing_registry_add_def poison_pairing_registry_revoke_def
      poison_pairing_registry_init_def split: prod.splits option.splits)

lemma loaded_files_exist:
  "poison_pairing_store_load auth disk POISON_PAIRING_STORE_PATH \<noteq> None \<Longrightarrow>
   poison_pairing_store_slot_exists disk POISON_PAIRING_STORE_PATH"
  by (auto simp: load_slots slot_store_def poison_pairing_store_slot_exists_def
      split: option.splits PairingFile.splits if_splits)

lemma restart_loads:
  "poison_pairing_store_load auth disk POISON_PAIRING_STORE_PATH = Some s \<Longrightarrow>
   registry_restart auth disk =
     (\<lparr> reg_store = s, reg_attempted = True, reg_ready = True, reg_disk = disk \<rparr>, True)"
  using loaded_files_exist [of auth disk]
  by (simp add: registry_restart_def poison_pairing_registry_init_def Let_def)

lemma restart_store:
  assumes "poison_pairing_store_load auth (reg_disk reg) POISON_PAIRING_STORE_PATH = Some s"
    and "reg_attempted reg" "reg_ready reg"
  shows "registry_restart auth (reg_disk reg) = (reg \<lparr> reg_store := s \<rparr>, True)"
  using restart_loads [OF assms(1)] assms(2,3) by (cases reg) simp


section \<open>Concrete registries\<close>

definition sample_auth :: PairingAuth where
  "sample_auth st = Some (replicate 32 (ucast (ds_generation st) + 9))"

definition good_io :: SaveIo where
  "good_io = \<lparr> io_mkdir = True, io_open = True, io_write = True, io_sync = True, io_close = True,
     io_left = BadFile \<rparr>"

definition torn_io :: SaveIo where
  "torn_io = good_io \<lparr> io_write := False \<rparr>"

definition fresh_registry :: PairingRegistry where
  "fresh_registry = \<lparr> reg_store = poison_pairing_store_init, reg_attempted = True, reg_ready = True,
     reg_disk = (\<lambda>p. NoFile) \<rparr>"

lemma fresh_registry_ok: "registry_ok sample_auth fresh_registry"
  by (simp add: registry_ok_def fresh_registry_def pairing_init_inv disk_inv_def slot_store_def)
    (simp add: poison_pairing_store_init_def)

definition sample_add :: RegistryOp where
  "sample_add = RegAdd good_io (replicate 32 1) (Some ''bench'') PoisonRoleOwner"

lemma sample_add_ok: "snd (registry_step sample_auth sample_add fresh_registry)"
  by code_simp


text \<open>The very first save, interrupted: the file is there and does not load, and the registry refuses every
  client at the next start.\<close>

lemma first_save_interrupted:
  "\<not> snd (registry_step sample_auth (RegAdd torn_io (replicate 32 1) (Some ''bench'') PoisonRoleOwner) fresh_registry) \<and>
   \<not> snd (registry_restart sample_auth (reg_disk (fst (registry_step sample_auth
       (RegAdd torn_io (replicate 32 1) (Some ''bench'') PoisonRoleOwner) fresh_registry))))"
  by code_simp

text \<open>C18: an image of a store in order decodes to the store it was made from, with no session
  counted as open, whatever keyed digest authenticates it.\<close>

theorem pairing_image_round_trip:
  assumes "pairing_inv s" "poison_pairing_disk_encode auth s = Some state"
  shows "poison_pairing_disk_decode auth state = Some (strip_store s)"
  using assms by (rule decode_encode)

definition one_client :: PoisonPairingStore where
  "one_client = fst (poison_pairing_store_add poison_pairing_store_init (Some (replicate 32 1))
     (Some ''bench'') PoisonRoleOwner)"

lemma one_client_inv: "pairing_inv one_client"
  unfolding one_client_def by (rule add_inv [OF pairing_init_inv]) simp

lemma pairing_image_round_trip_witness:
  "\<exists>state. poison_pairing_disk_encode sample_auth one_client = Some state \<and>
     poison_pairing_disk_decode sample_auth state = Some (strip_store one_client)"
proof -
  obtain state where "poison_pairing_disk_encode sample_auth one_client = Some state"
    using encode_total [OF one_client_inv, of sample_auth] by (auto simp: sample_auth_def)
  with pairing_image_round_trip [OF one_client_inv] show ?thesis by blast
qed

text \<open>Revoking all clients moves the generation by the number of clients.  When that number is
  even the image goes to the slot of the current one, and an interrupted write loses it: the
  next start finds the image before it.\<close>

definition two_clients :: PairingRegistry where
  "two_clients = fst (registry_step sample_auth
     (RegAdd good_io (replicate 32 2) (Some ''tablet'') PoisonRoleStudent)
     (fst (registry_step sample_auth sample_add fresh_registry)))"

lemma revoke_all_interrupted:
  "poison_pairing_store_count (reg_store two_clients) = 2 \<and>
   map_option poison_pairing_store_count
     (poison_pairing_store_load sample_auth (reg_disk two_clients) POISON_PAIRING_STORE_PATH) = Some 2 \<and>
   snd (poison_pairing_registry_revoke_all sample_auth torn_io two_clients) = 0 \<and>
   map_option poison_pairing_store_count
     (poison_pairing_store_load sample_auth
        (reg_disk (fst (poison_pairing_registry_revoke_all sample_auth torn_io two_clients)))
        POISON_PAIRING_STORE_PATH) = Some 1"
  by code_simp

end
