(* ===== verification/Resume.thy ===== *)
theory Resume
  imports Session
begin

text \<open>Session resumption: the slot operations of \<open>rpc/rpc_poison_session.c\<close> and the table of
  eight slots that \<open>rpc/rpc.c\<close> keeps for all connections.  A slot holds the whole session and
  the digest of a token; the token is good for one resumption.\<close>

section \<open>One slot\<close>

record PoisonSessionResumeSlot =
  rs_active :: bool
  rs_expires_at_ms :: u64
  rs_token_digest :: bytes
  rs_session :: PoisonSession

definition poison_session_resume_slot_init :: PoisonSessionResumeSlot where
  "poison_session_resume_slot_init = \<lparr> rs_active = False, rs_expires_at_ms = 0,
     rs_token_digest = zeros 32, rs_session = poison_session_init \<rparr>"

definition poison_session_resume_revoke :: "PoisonSessionResumeSlot \<Rightarrow> PoisonSessionResumeSlot" where
  "poison_session_resume_revoke slot = poison_session_resume_slot_init"

definition poison_session_resume_store ::
    "Crypto \<Rightarrow> PoisonSessionResumeSlot \<Rightarrow> PoisonSession \<Rightarrow> bytes option \<Rightarrow> u64 \<Rightarrow> u64 \<Rightarrow>
     PoisonSessionResumeSlot \<times> bool" where
  "poison_session_resume_store cr slot session token now_ms ttl_ms =
    (if token = None \<or> ps_state session \<noteq> PoisonSessionActive \<or>
        \<not> ps_directional_keys_set session \<or> ps_session_id session = 0 \<or> ttl_ms = 0 \<or>
        ttl_ms > UINT64_MAX - now_ms \<or>
        \<not> poison_session_nonzero token POISON_SESSION_RESUME_TOKEN_BYTES
     then (slot, False)
     else case cr_sha256 cr (take POISON_SESSION_RESUME_TOKEN_BYTES (the token)) of
            None \<Rightarrow> (slot, False)
          | Some digest \<Rightarrow>
              (\<lparr> rs_active = True, rs_expires_at_ms = now_ms + ttl_ms,
                 rs_token_digest = digest, rs_session = session \<rparr>, True))"

definition resume_sequence_matches :: "PoisonSession \<Rightarrow> u64 \<Rightarrow> bool" where
  "resume_sequence_matches session last_received_sequence \<longleftrightarrow>
     (ps_next_tx_sequence session = 0 \<and> last_received_sequence = UINT64_MAX) \<or>
     (last_received_sequence \<noteq> UINT64_MAX \<and>
      last_received_sequence + 1 = ps_next_tx_sequence session)"

text \<open>The resumed session is the value written to \<open>*resumed_session\<close> when the call returns
  true.\<close>

definition poison_session_resume_take ::
    "Crypto \<Rightarrow> PoisonSessionResumeSlot \<Rightarrow> u64 \<Rightarrow> bytes option \<Rightarrow> u64 \<Rightarrow> u64 \<Rightarrow>
     PoisonSessionResumeSlot \<times> PoisonSession option" where
  "poison_session_resume_take cr slot session_id token last_received_sequence now_ms =
    (if token = None \<or> \<not> rs_active slot then (slot, None)
     else if now_ms \<ge> rs_expires_at_ms slot then (poison_session_resume_revoke slot, None)
     else if session_id = 0 \<or> ps_session_id (rs_session slot) \<noteq> session_id \<or>
             ps_state (rs_session slot) \<noteq> PoisonSessionActive \<or>
             \<not> ps_directional_keys_set (rs_session slot)
     then (slot, None)
     else if \<not> resume_sequence_matches (rs_session slot) last_received_sequence then (slot, None)
     else case cr_sha256 cr (take POISON_SESSION_RESUME_TOKEN_BYTES (the token)) of
            None \<Rightarrow> (slot, None)
          | Some token_digest \<Rightarrow>
              if xor_diff 32 (rs_token_digest slot) token_digest \<noteq> 0 then (slot, None)
              else (poison_session_resume_revoke slot, Some (rs_session slot)))"

section \<open>The table of the RPC service\<close>

abbreviation "RPC_RESUME_SLOT_COUNT \<equiv> (8 :: nat)"
abbreviation "RPC_RESUME_TTL_MS \<equiv> (60000 :: u64)"

text \<open>The scan that picks a slot: the first slot of the same session, free or expired;
  otherwise the one that expires first.  \<open>index\<close> is the position of the head of the list.\<close>

fun resume_select :: "u64 \<Rightarrow> u64 \<Rightarrow> PoisonSessionResumeSlot list \<Rightarrow> nat \<Rightarrow> nat \<Rightarrow> u64 \<Rightarrow> nat" where
  "resume_select session_id now_ms [] index selected oldest_expiry = selected"
| "resume_select session_id now_ms (slot # slots) index selected oldest_expiry =
    (if rs_active slot \<and> ps_session_id (rs_session slot) = session_id then index
     else if \<not> rs_active slot \<or> now_ms \<ge> rs_expires_at_ms slot then index
     else if rs_expires_at_ms slot < oldest_expiry
     then resume_select session_id now_ms slots (index + 1) index (rs_expires_at_ms slot)
     else resume_select session_id now_ms slots (index + 1) selected oldest_expiry)"

definition rpc_session_store_resume ::
    "Crypto \<Rightarrow> PoisonSessionResumeSlot list \<Rightarrow> PoisonSession \<Rightarrow> bytes \<Rightarrow> u64 \<Rightarrow>
     PoisonSessionResumeSlot list \<times> bool" where
  "rpc_session_store_resume cr slots poison_session token now_ms =
    (let selected = resume_select (ps_session_id poison_session) now_ms slots 0
                      RPC_RESUME_SLOT_COUNT UINT64_MAX
     in if selected < RPC_RESUME_SLOT_COUNT
        then case poison_session_resume_store cr (slots ! selected) poison_session (Some token)
                    now_ms RPC_RESUME_TTL_MS of
               (slot, stored) \<Rightarrow> (slots[selected := slot], stored)
        else (slots, False))"

fun rpc_session_take_resume ::
    "Crypto \<Rightarrow> PoisonSessionResumeSlot list \<Rightarrow> u64 \<Rightarrow> bytes \<Rightarrow> u64 \<Rightarrow> u64 \<Rightarrow>
     PoisonSessionResumeSlot list \<times> PoisonSession option" where
  "rpc_session_take_resume cr [] session_id token last_received_sequence now_ms = ([], None)"
| "rpc_session_take_resume cr (slot # slots) session_id token last_received_sequence now_ms =
    (if rs_active slot \<and> ps_session_id (rs_session slot) = session_id
     then case poison_session_resume_take cr slot session_id (Some token)
                 last_received_sequence now_ms of
            (slot', Some resumed) \<Rightarrow> (slot' # slots, Some resumed)
          | (slot', None) \<Rightarrow>
              (case rpc_session_take_resume cr slots session_id token last_received_sequence now_ms
                 of (slots', r) \<Rightarrow> (slot' # slots', r))
     else let slot' = (if rs_active slot \<and> now_ms \<ge> rs_expires_at_ms slot
                       then poison_session_resume_revoke slot else slot)
          in case rpc_session_take_resume cr slots session_id token last_received_sequence now_ms
               of (slots', r) \<Rightarrow> (slot' # slots', r))"

definition rpc_session_revoke_resume :: "PoisonSessionResumeSlot list \<Rightarrow> u64 \<Rightarrow>
    PoisonSessionResumeSlot list" where
  "rpc_session_revoke_resume slots session_id =
     map (\<lambda>slot. if rs_active slot \<and> ps_session_id (rs_session slot) = session_id
                 then poison_session_resume_revoke slot else slot) slots"

section \<open>A token resumes once\<close>

record ResumeAttempt =
  ra_session_id :: u64
  ra_token :: "bytes option"
  ra_last_received :: u64
  ra_now_ms :: u64

definition take_attempt :: "Crypto \<Rightarrow> ResumeAttempt \<Rightarrow> PoisonSessionResumeSlot \<Rightarrow>
    PoisonSessionResumeSlot \<times> PoisonSession option" where
  "take_attempt cr a slot =
     poison_session_resume_take cr slot (ra_session_id a) (ra_token a) (ra_last_received a) (ra_now_ms a)"

lemma resume_init_inactive [simp]: "\<not> rs_active poison_session_resume_slot_init"
  by (simp add: poison_session_resume_slot_init_def)

lemma resume_take_some:
  assumes "snd (poison_session_resume_take cr slot sid token lrs now) = Some s"
  shows "s = rs_session slot" "rs_active slot" "now < rs_expires_at_ms slot"
    "ps_session_id s = sid" "sid \<noteq> 0" "ps_state s = PoisonSessionActive"
    "ps_directional_keys_set s" "resume_sequence_matches s lrs"
    "\<exists>t d. token = Some t \<and> cr_sha256 cr (take 32 t) = Some d \<and> xor_diff 32 (rs_token_digest slot) d = 0"
    "fst (poison_session_resume_take cr slot sid token lrs now) = poison_session_resume_slot_init"
  using assms
  by (auto simp: poison_session_resume_take_def poison_session_resume_revoke_def
      split: if_splits option.splits)

lemma resume_take_none:
  "snd (poison_session_resume_take cr slot sid token lrs now) = None \<Longrightarrow>
   fst (poison_session_resume_take cr slot sid token lrs now) \<in> {slot, poison_session_resume_slot_init}"
  by (auto simp: poison_session_resume_take_def poison_session_resume_revoke_def
      split: if_splits option.splits)

lemma resume_take_inactive:
  "\<not> rs_active slot \<Longrightarrow> poison_session_resume_take cr slot sid token lrs now = (slot, None)"
  by (simp add: poison_session_resume_take_def)

interpretation resumption: one_shot "take_attempt cr" "\<lambda>slot. \<not> rs_active slot" "\<lambda>r. r \<noteq> None" for cr
  by unfold_locales
    (auto simp: take_attempt_def resume_take_inactive resume_take_some(10)
      simp del: not_None_eq split: option.splits)

lemma resume_sequence_matches_iff:
  "resume_sequence_matches s lrs \<longleftrightarrow> lrs + 1 = ps_next_tx_sequence s"
  by (auto simp: resume_sequence_matches_def)

lemma resume_stored:
  assumes "poison_session_resume_store cr slot s (Some token) now ttl = (slot', True)"
  shows "rs_active slot'" "rs_session slot' = s" "unat (rs_expires_at_ms slot') = unat now + unat ttl"
    "cr_sha256 cr (take 32 token) = Some (rs_token_digest slot')"
    "ps_state s = PoisonSessionActive" "ps_directional_keys_set s" "ps_session_id s \<noteq> 0"
proof -
  have "\<not> ttl > UINT64_MAX - now"
    using assms by (auto simp: poison_session_resume_store_def split: if_splits)
  then have "unat (now + ttl) = unat now + unat ttl"
    by (rule no_wrap64)
  then show "rs_active slot'" "rs_session slot' = s" "unat (rs_expires_at_ms slot') = unat now + unat ttl"
    "cr_sha256 cr (take 32 token) = Some (rs_token_digest slot')"
    "ps_state s = PoisonSessionActive" "ps_directional_keys_set s" "ps_session_id s \<noteq> 0"
    using assms by (auto simp: poison_session_resume_store_def split: if_splits option.splits)
qed

text \<open>C8: once a session is stored with a token, an attempt to take it succeeds exactly when it
  comes before the expiry, names the session, presents a token with the stored digest and
  confirms the lrs frame sent; it returns the stored session and empties the slot.\<close>

theorem resume_take_exact:
  assumes "poison_session_resume_store cr slot s (Some token) now ttl = (slot', True)"
    and "\<And>bs d. cr_sha256 cr bs = Some d \<Longrightarrow> length d = 32"
  shows "take_attempt cr a slot' = (poison_session_resume_slot_init, Some s) \<longleftrightarrow>
    unat (ra_now_ms a) < unat now + unat ttl \<and> ra_session_id a = ps_session_id s \<and>
    ra_last_received a + 1 = ps_next_tx_sequence s \<and>
    (\<exists>t. ra_token a = Some t \<and> cr_sha256 cr (take 32 t) = cr_sha256 cr (take 32 token))"
proof -
  note st = resume_stored [OF assms(1)]
  have same: "xor_diff 32 (rs_token_digest slot') d = 0 \<longleftrightarrow> d = rs_token_digest slot'"
    if "cr_sha256 cr t = Some d" for t d
    using xor_diff_full [of "rs_token_digest slot'" 32 d] assms(2) [OF that] assms(2) [OF st(4)] by auto
  have exp: "ra_now_ms a < rs_expires_at_ms slot' \<longleftrightarrow> unat (ra_now_ms a) < unat now + unat ttl"
    by (simp add: word_less_nat_alt st(3))
  show ?thesis
    using st same
    by (auto simp: take_attempt_def poison_session_resume_take_def poison_session_resume_revoke_def
        resume_sequence_matches_iff not_le exp [symmetric] split: option.splits)
qed

definition sample_active_session :: PoisonSession where
  "sample_active_session = run_state (session_step sample_crypto) poison_session_init sample_session_ops"

definition sample_slot :: PoisonSessionResumeSlot where
  "sample_slot = fst (poison_session_resume_store sample_crypto poison_session_resume_slot_init
     sample_active_session (Some (replicate 32 8)) 100 50)"

lemma sample_store:
  "poison_session_resume_store sample_crypto poison_session_resume_slot_init
     sample_active_session (Some (replicate 32 8)) 100 50 = (sample_slot, True)"
proof -
  have "snd (poison_session_resume_store sample_crypto poison_session_resume_slot_init
     sample_active_session (Some (replicate 32 8)) 100 50)"
    by code_simp
  then show ?thesis by (simp add: sample_slot_def prod_eq_iff)
qed

lemma sample_sha256_length: "cr_sha256 sample_crypto bs = Some d \<Longrightarrow> length d = 32"
  by (auto simp: sample_crypto_def)

lemma resume_take_exact_witness:
  "take_attempt sample_crypto \<lparr> ra_session_id = 77, ra_token = Some (replicate 32 8),
     ra_last_received = UINT64_MAX, ra_now_ms = 120 \<rparr> sample_slot
   = (poison_session_resume_slot_init, Some sample_active_session)"
proof -
  have "ps_session_id sample_active_session = 77" "ps_next_tx_sequence sample_active_session = 0"
    by code_simp+
  then show ?thesis
    by (subst resume_take_exact [OF sample_store sample_sha256_length]) simp_all
qed

end
