(* ===== verification/Channel.thy ===== *)
theory Channel
  imports Session Tables
begin

text \<open>The channel table of a session (\<open>rpc/rpc_poison_channel.c\<close>): four named channels with a
  send and a receive counter and flow-control credits.\<close>

section \<open>State\<close>

abbreviation "POISON_CHANNEL_MAX_CHANNELS \<equiv> (4 :: nat)"
abbreviation "POISON_CHANNEL_NAME_MAX \<equiv> (32 :: nat)"
abbreviation "POISON_CHANNEL_MAX_CREDITS \<equiv> (4 :: u32)"
abbreviation "POISON_CHANNEL_MAX_FRAME_BYTES \<equiv> (1024 :: nat)"

datatype PoisonChannelResult =
    PoisonChannelResultOk | PoisonChannelResultInvalid | PoisonChannelResultFull
  | PoisonChannelResultClosed | PoisonChannelResultDuplicate | PoisonChannelResultGap
  | PoisonChannelResultNoCredit | PoisonChannelResultSequenceWrap

record PoisonChannel =
  ch_active :: bool
  ch_name :: string
  ch_next_tx_sequence :: u64
  ch_next_rx_sequence :: u64
  ch_credits :: u32

type_synonym PoisonChannelTable = "PoisonChannel list"

definition channel_zero :: PoisonChannel where
  "channel_zero = \<lparr> ch_active = False, ch_name = '''', ch_next_tx_sequence = 0,
     ch_next_rx_sequence = 0, ch_credits = 0 \<rparr>"

section \<open>Operations\<close>

definition poison_channel_index_valid :: "nat \<Rightarrow> bool" where
  "poison_channel_index_valid channel_index \<longleftrightarrow> channel_index < POISON_CHANNEL_MAX_CHANNELS"

definition poison_channel_at :: "PoisonChannelTable \<Rightarrow> nat \<Rightarrow> PoisonChannel option" where
  "poison_channel_at table channel_index =
     (if \<not> poison_channel_index_valid channel_index then None else Some (table ! channel_index))"

definition poison_channel_table_init :: PoisonChannelTable where
  "poison_channel_table_init = replicate POISON_CHANNEL_MAX_CHANNELS channel_zero"

lemma channel_table_init_list:
  "poison_channel_table_init = [channel_zero, channel_zero, channel_zero, channel_zero]"
  by (simp add: poison_channel_table_init_def eval_nat_numeral)

definition poison_channel_open_at ::
    "PoisonChannelTable \<Rightarrow> string option \<Rightarrow> u32 \<Rightarrow> u64 \<Rightarrow>
     PoisonChannelTable \<times> nat option \<times> PoisonChannelResult" where
  "poison_channel_open_at table name initial_credits next_sequence =
    (if name = None \<or> the name = '''' \<or> next_sequence = UINT64_MAX
     then (table, None, PoisonChannelResultInvalid)
     else let name_length = strnlen (the name) (POISON_CHANNEL_NAME_MAX + 1)
     in if name_length = 0 \<or> name_length > POISON_CHANNEL_NAME_MAX
     then (table, None, PoisonChannelResultInvalid)
     else if initial_credits > POISON_CHANNEL_MAX_CREDITS
     then (table, None, PoisonChannelResultInvalid)
     else if find_index (\<lambda>c. ch_active c \<and> ch_name c = the name) table \<noteq> None
     then (table, None, PoisonChannelResultInvalid)
     else case find_index (\<lambda>c. \<not> ch_active c) table of
            None \<Rightarrow> (table, None, PoisonChannelResultFull)
          | Some index \<Rightarrow>
              (table[index := \<lparr> ch_active = True, ch_name = the name,
                 ch_next_tx_sequence = next_sequence, ch_next_rx_sequence = next_sequence,
                 ch_credits = initial_credits \<rparr>], Some index, PoisonChannelResultOk))"

definition poison_channel_open ::
    "PoisonChannelTable \<Rightarrow> string option \<Rightarrow> u32 \<Rightarrow>
     PoisonChannelTable \<times> nat option \<times> PoisonChannelResult" where
  "poison_channel_open table name initial_credits = poison_channel_open_at table name initial_credits 0"

definition poison_channel_close :: "PoisonChannelTable \<Rightarrow> nat \<Rightarrow>
    PoisonChannelTable \<times> PoisonChannelResult" where
  "poison_channel_close table channel_index =
    (case poison_channel_at table channel_index of
       None \<Rightarrow> (table, PoisonChannelResultInvalid)
     | Some channel \<Rightarrow>
         if \<not> ch_active channel then (table, PoisonChannelResultClosed)
         else (table[channel_index := channel_zero], PoisonChannelResultOk))"

definition poison_channel_reserve_send :: "PoisonChannelTable \<Rightarrow> nat \<Rightarrow> nat \<Rightarrow>
    PoisonChannelTable \<times> u64 option \<times> PoisonChannelResult" where
  "poison_channel_reserve_send table channel_index frame_bytes =
    (case poison_channel_at table channel_index of
       None \<Rightarrow> (table, None, PoisonChannelResultInvalid)
     | Some channel \<Rightarrow>
         if \<not> ch_active channel then (table, None, PoisonChannelResultClosed)
         else if frame_bytes > POISON_CHANNEL_MAX_FRAME_BYTES
         then (table, None, PoisonChannelResultInvalid)
         else if ch_credits channel = 0 then (table, None, PoisonChannelResultNoCredit)
         else if ch_next_tx_sequence channel = UINT64_MAX
         then (table, None, PoisonChannelResultSequenceWrap)
         else (table[channel_index := channel
                 \<lparr> ch_next_tx_sequence := ch_next_tx_sequence channel + 1,
                   ch_credits := ch_credits channel - 1 \<rparr>],
               Some (ch_next_tx_sequence channel), PoisonChannelResultOk))"

definition poison_channel_receive :: "PoisonChannelTable \<Rightarrow> nat \<Rightarrow> nat \<Rightarrow> u64 \<Rightarrow>
    PoisonChannelTable \<times> PoisonChannelResult" where
  "poison_channel_receive table channel_index frame_bytes sequence =
    (case poison_channel_at table channel_index of
       None \<Rightarrow> (table, PoisonChannelResultInvalid)
     | Some channel \<Rightarrow>
         if \<not> ch_active channel then (table, PoisonChannelResultClosed)
         else if frame_bytes > POISON_CHANNEL_MAX_FRAME_BYTES then (table, PoisonChannelResultInvalid)
         else if sequence < ch_next_rx_sequence channel then (table, PoisonChannelResultDuplicate)
         else if sequence > ch_next_rx_sequence channel then (table, PoisonChannelResultGap)
         else if ch_next_rx_sequence channel = UINT64_MAX
         then (table, PoisonChannelResultSequenceWrap)
         else (table[channel_index := channel
                 \<lparr> ch_next_rx_sequence := ch_next_rx_sequence channel + 1 \<rparr>], PoisonChannelResultOk))"

definition poison_channel_add_credits :: "PoisonChannelTable \<Rightarrow> nat \<Rightarrow> u32 \<Rightarrow>
    PoisonChannelTable \<times> PoisonChannelResult" where
  "poison_channel_add_credits table channel_index credits =
    (case poison_channel_at table channel_index of
       None \<Rightarrow> (table, PoisonChannelResultInvalid)
     | Some channel \<Rightarrow>
         if \<not> ch_active channel then (table, PoisonChannelResultClosed)
         else if credits > POISON_CHANNEL_MAX_CREDITS - ch_credits channel
         then (table, PoisonChannelResultInvalid)
         else (table[channel_index := channel \<lparr> ch_credits := ch_credits channel + credits \<rparr>],
               PoisonChannelResultOk))"

definition poison_channel_get :: "PoisonChannelTable \<Rightarrow> nat \<Rightarrow> PoisonChannel option" where
  "poison_channel_get table channel_index =
    (case poison_channel_at table channel_index of
       None \<Rightarrow> None
     | Some channel \<Rightarrow> if \<not> ch_active channel then None else Some channel)"

definition poison_channel_find :: "PoisonChannelTable \<Rightarrow> string option \<Rightarrow> nat option" where
  "poison_channel_find table name =
    (case name of
       None \<Rightarrow> None
     | Some n \<Rightarrow> find_index (\<lambda>index. case poison_channel_get table index of
                   None \<Rightarrow> False | Some channel \<Rightarrow> ch_name channel = n) [0..<POISON_CHANNEL_MAX_CHANNELS])"

definition rpc_poison_channel_receive_authenticated ::
    "Crypto \<Rightarrow> PoisonSession \<Rightarrow> u32 \<Rightarrow> u64 \<Rightarrow> u64 \<Rightarrow> string option \<Rightarrow> bytes option \<Rightarrow> nat \<Rightarrow>
     bytes option \<Rightarrow> PoisonChannelTable \<Rightarrow> nat \<Rightarrow> u64 \<Rightarrow>
     PoisonSession \<times> PoisonChannelTable \<times> bool" where
  "rpc_poison_channel_receive_authenticated cr session protocol_version sequence acknowledgement
     channel payload payload_length authentication_tag table channel_index channel_sequence =
   (case poison_channel_get table channel_index of
      None \<Rightarrow> (session, table, False)
    | Some target \<Rightarrow>
        if channel = None \<or> ch_name target \<noteq> the channel then (session, table, False)
        else case poison_session_authenticate_rx cr session protocol_version sequence
                    acknowledgement channel payload payload_length authentication_tag of
               (session', r) \<Rightarrow>
                 if r \<noteq> PoisonSessionResultOk then (session', table, False)
                 else case poison_channel_receive table channel_index payload_length
                             channel_sequence of
                        (table', r') \<Rightarrow> (session', table', r' = PoisonChannelResultOk))"

section \<open>The table as a machine\<close>

datatype ChannelOp =
    ChOpen "string option" u32 u64 | ChClose nat | ChSend nat nat | ChReceive nat nat u64
  | ChCredit nat u32

fun channel_step :: "ChannelOp \<Rightarrow> PoisonChannelTable \<Rightarrow>
    PoisonChannelTable \<times> (PoisonChannelResult \<times> u64 option)" where
  "channel_step (ChOpen n c q) t =
     (case poison_channel_open_at t n c q of (t', i, r) \<Rightarrow> (t', r, None))"
| "channel_step (ChClose i) t = (case poison_channel_close t i of (t', r) \<Rightarrow> (t', r, None))"
| "channel_step (ChSend i n) t = (case poison_channel_reserve_send t i n of (t', q, r) \<Rightarrow> (t', r, q))"
| "channel_step (ChReceive i n q) t =
     (case poison_channel_receive t i n q of (t', r) \<Rightarrow> (t', r, None))"
| "channel_step (ChCredit i c) t =
     (case poison_channel_add_credits t i c of (t', r) \<Rightarrow> (t', r, None))"

lemmas channel_ops = poison_channel_open_at_def poison_channel_close_def
  poison_channel_reserve_send_def poison_channel_receive_def poison_channel_add_credits_def
  poison_channel_at_def poison_channel_index_valid_def

definition channel_ok :: "PoisonChannel \<Rightarrow> bool" where
  "channel_ok c \<longleftrightarrow>
     (if ch_active c then ch_name c \<noteq> '''' \<and> length (ch_name c) \<le> 32 \<and> ch_credits c \<le> 4
      else c = channel_zero)"

definition channel_inv :: "PoisonChannelTable \<Rightarrow> bool" where
  "channel_inv t \<longleftrightarrow> length t = 4 \<and> tbl_unique ch_active ch_name t \<and> (\<forall>c \<in> set t. channel_ok c)"

lemma channel_zero_inactive [simp]: "\<not> ch_active channel_zero" "channel_ok channel_zero"
  by (simp_all add: channel_zero_def channel_ok_def)

lemma channel_init_inv [inv_intros]: "channel_inv poison_channel_table_init"
  by (simp add: channel_inv_def poison_channel_table_init_def tbl_unique_free)

lemma channel_place:
  assumes "channel_inv t" "channel_ok c" "tbl_unique ch_active ch_name (t[i := c])"
  shows "channel_inv (t[i := c])"
proof -
  have "\<forall>c \<in> set (t[i := c]). channel_ok c"
    by (rule all_list_update) (use assms in \<open>simp_all add: channel_inv_def\<close>)
  with assms show ?thesis by (simp only: channel_inv_def length_list_update simp_thms)
qed

lemma channel_put:
  assumes "channel_inv t" "i < 4" "channel_ok c" "ch_active (t ! i)" "ch_active c"
    "ch_name c = ch_name (t ! i)"
  shows "channel_inv (t[i := c])"
proof -
  have "tbl_unique ch_active ch_name (t[i := c])"
    by (rule tbl_replace(1)) (use assms in \<open>simp_all only: channel_inv_def\<close>)
  with assms show ?thesis by (intro channel_place)
qed

lemma channel_at_ok: "channel_inv t \<Longrightarrow> i < 4 \<Longrightarrow> channel_ok (t ! i)"
  by (simp add: channel_inv_def)

lemma credits_no_wrap:
  fixes have_credits more :: u32
  assumes "have_credits \<le> 4" "\<not> more > 4 - have_credits"
  shows "have_credits + more \<le> 4" "unat (have_credits + more) = unat have_credits + unat more"
proof -
  have "unat (4 - have_credits) = 4 - unat have_credits"
    using assms(1) by (simp add: unat_sub)
  then have "unat have_credits + unat more \<le> 4"
    using assms by (simp add: word_less_nat_alt word_le_nat_alt)
  then show "unat (have_credits + more) = unat have_credits + unat more"
    by (simp add: unat_word_ariths)
  with \<open>unat have_credits + unat more \<le> 4\<close> show "have_credits + more \<le> 4"
    by (simp add: word_le_nat_alt)
qed

lemma credit_dec:
  fixes c :: u32
  assumes "c \<noteq> 0" shows "unat (c - 1) = unat c - 1" "c - 1 \<le> c"
proof -
  have "1 \<le> c" using assms by (simp add: word_le_nat_alt Suc_le_eq unat_gt_0)
  then show "unat (c - 1) = unat c - 1" by (simp add: unat_sub)
  then show "c - 1 \<le> c" by (simp add: word_le_nat_alt)
qed

lemma channel_step_inv [inv_intros]:
  assumes "channel_inv t"
  shows "channel_inv (fst (channel_step op t))"
proof (cases op)
  case (ChOpen n c q)
  show ?thesis
  proof (cases "fst (channel_step op t) = t")
    case False
    then obtain i where i: "find_index (\<lambda>c. \<not> ch_active c) t = Some i"
      and new: "find_index (\<lambda>c. ch_active c \<and> ch_name c = the n) t = None"
      and ok: "n \<noteq> None" "the n \<noteq> ''''" "length (the n) \<le> 32" "c \<le> 4"
      and t': "fst (channel_step op t) = t[i := \<lparr> ch_active = True, ch_name = the n,
                 ch_next_tx_sequence = q, ch_next_rx_sequence = q, ch_credits = c \<rparr>]"
      using ChOpen by (auto simp: poison_channel_open_at_def Let_def simp del: find_index_None
          split: option.splits if_splits)
    show ?thesis
      unfolding t'
    proof (rule channel_place [OF assms])
      show "tbl_unique ch_active ch_name (t[i := \<lparr> ch_active = True, ch_name = the n,
          ch_next_tx_sequence = q, ch_next_rx_sequence = q, ch_credits = c \<rparr>])"
        using assms find_index_SomeD [OF i] new
        by (intro tbl_insert(1)) (simp_all add: channel_inv_def tbl_lookup_index_None del: find_index_None)
    qed (use ok in \<open>simp add: channel_ok_def\<close>)
  qed (use assms in simp)
next
  case (ChClose i)
  then show ?thesis
    using assms tbl_remove(1) [of ch_active ch_name t i channel_zero]
    by (auto simp: channel_ops intro!: channel_place) (simp_all add: channel_inv_def)
next
  case (ChSend i n)
  then show ?thesis
    using assms channel_at_ok [OF assms, of i] credit_dec [of "ch_credits (t ! i)"]
    by (auto simp: channel_ops intro!: channel_put) (auto simp: channel_ok_def split: if_splits)
next
  case (ChReceive i n q)
  then show ?thesis
    using assms channel_at_ok [OF assms, of i]
    by (auto simp: channel_ops intro!: channel_put) (auto simp: channel_ok_def split: if_splits)
next
  case (ChCredit i c)
  then show ?thesis
    using assms channel_at_ok [OF assms, of i] credits_no_wrap [of "ch_credits (t ! i)" c]
    by (auto simp: channel_ops intro!: channel_put) (auto simp: channel_ok_def split: if_splits)
qed

interpretation channels: invariant_machine channel_step channel_inv
  by unfold_locales (rule channel_step_inv)

section \<open>Frames on one channel\<close>

text \<open>The calls that carry traffic on the channel at a given index; a step also reports the call
  itself, so that the accepted calls of each kind can be listed.\<close>

datatype FrameOp = FrSend nat | FrReceive nat u64 | FrCredit u32

fun frame_call :: "nat \<Rightarrow> FrameOp \<Rightarrow> ChannelOp" where
  "frame_call i (FrSend n) = ChSend i n"
| "frame_call i (FrReceive n q) = ChReceive i n q"
| "frame_call i (FrCredit c) = ChCredit i c"

record FrameOutcome =
  fo_op :: FrameOp
  fo_ok :: bool
  fo_sequence :: "u64 option"

definition frame_step :: "nat \<Rightarrow> FrameOp \<Rightarrow> PoisonChannelTable \<Rightarrow> PoisonChannelTable \<times> FrameOutcome" where
  "frame_step i op t =
     (case channel_step (frame_call i op) t of
        (t', r, q) \<Rightarrow> (t', \<lparr> fo_op = op, fo_ok = (r = PoisonChannelResultOk), fo_sequence = q \<rparr>))"

fun is_send :: "FrameOp \<Rightarrow> bool" where "is_send (FrSend n) = True" | "is_send _ = False"
fun is_receive :: "FrameOp \<Rightarrow> bool" where "is_receive (FrReceive n q) = True" | "is_receive _ = False"
fun is_credit :: "FrameOp \<Rightarrow> bool" where "is_credit (FrCredit c) = True" | "is_credit _ = False"

fun receive_number :: "FrameOp \<Rightarrow> nat" where
  "receive_number (FrReceive n q) = unat q" | "receive_number _ = 0"

fun credit_amount :: "FrameOp \<Rightarrow> nat" where
  "credit_amount (FrCredit c) = unat c" | "credit_amount _ = 0"

lemma frame_send:
  "frame_step i (FrSend n) t =
    (if i < 4 \<and> ch_active (t ! i) \<and> n \<le> 1024 \<and> ch_credits (t ! i) \<noteq> 0 \<and>
        ch_next_tx_sequence (t ! i) \<noteq> UINT64_MAX
     then (t[i := (t ! i) \<lparr> ch_next_tx_sequence := ch_next_tx_sequence (t ! i) + 1,
                             ch_credits := ch_credits (t ! i) - 1 \<rparr>],
           \<lparr> fo_op = FrSend n, fo_ok = True, fo_sequence = Some (ch_next_tx_sequence (t ! i)) \<rparr>)
     else (t, \<lparr> fo_op = FrSend n, fo_ok = False, fo_sequence = None \<rparr>))"
  by (auto simp: frame_step_def channel_ops)

lemma frame_receive:
  "frame_step i (FrReceive n q) t =
    (if i < 4 \<and> ch_active (t ! i) \<and> n \<le> 1024 \<and> q = ch_next_rx_sequence (t ! i) \<and> q \<noteq> UINT64_MAX
     then (t[i := (t ! i) \<lparr> ch_next_rx_sequence := q + 1 \<rparr>],
           \<lparr> fo_op = FrReceive n q, fo_ok = True, fo_sequence = None \<rparr>)
     else (t, \<lparr> fo_op = FrReceive n q, fo_ok = False, fo_sequence = None \<rparr>))"
  by (auto simp: frame_step_def channel_ops)

lemma frame_credit:
  "frame_step i (FrCredit c) t =
    (if i < 4 \<and> ch_active (t ! i) \<and> \<not> c > 4 - ch_credits (t ! i)
     then (t[i := (t ! i) \<lparr> ch_credits := ch_credits (t ! i) + c \<rparr>],
           \<lparr> fo_op = FrCredit c, fo_ok = True, fo_sequence = None \<rparr>)
     else (t, \<lparr> fo_op = FrCredit c, fo_ok = False, fo_sequence = None \<rparr>))"
  by (auto simp: frame_step_def channel_ops)

lemmas frame_cases = frame_send frame_receive frame_credit

lemma frame_inv: "channel_inv t \<Longrightarrow> channel_inv (fst (frame_step i op t))"
  using channel_step_inv [of t "frame_call i op"] by (simp add: frame_step_def split_beta)

interpretation frames: invariant_machine "frame_step i" channel_inv for i
  by unfold_locales (rule frame_inv)

interpretation reception: gapless_guard "frame_step i" channel_inv
  "\<lambda>r. fo_ok r \<and> is_receive (fo_op r)" "\<lambda>x. receive_number (fst x)"
  "\<lambda>t. if i < 4 then unat (ch_next_rx_sequence (t ! i)) else 0" for i
proof (unfold_locales, goal_cases)
  case (1 t op)
  then show ?case
    by (cases op) (auto simp: frame_cases split: if_splits)
next
  case (2 t op)
  then show ?case
    by (cases op) (auto simp: frame_cases channel_inv_def unat_Suc_eq split: if_splits)
next
  case (3 t op)
  then show ?case
    by (cases op) (auto simp: frame_cases channel_inv_def split: if_splits)
next
  case (4 t op)
  then show ?case
    by (cases op) (auto simp: frame_cases split: if_splits)
next
  case (5 t op)
  then show ?case
    by (cases op) (auto simp: frame_cases channel_inv_def split: if_splits)
qed

interpretation transmission: gapless_guard "frame_step i" channel_inv
  "\<lambda>r. fo_ok r \<and> is_send (fo_op r)" "\<lambda>x. unat (the (fo_sequence (snd x)))"
  "\<lambda>t. if i < 4 then unat (ch_next_tx_sequence (t ! i)) else 0" for i
proof (unfold_locales, goal_cases)
  case (1 t op)
  then show ?case
    by (cases op) (auto simp: frame_cases split: if_splits)
next
  case (2 t op)
  then show ?case
    by (cases op) (auto simp: frame_cases channel_inv_def unat_Suc_eq split: if_splits)
next
  case (3 t op)
  then show ?case
    by (cases op) (auto simp: frame_cases channel_inv_def split: if_splits)
next
  case (4 t op)
  then show ?case
    by (cases op) (auto simp: frame_cases split: if_splits)
next
  case (5 t op)
  then show ?case
    by (cases op) (auto simp: frame_cases channel_inv_def split: if_splits)
qed

text \<open>Credits are conserved: what is left is what there was, plus what was granted, minus one per
  frame sent.\<close>

definition frames_sent :: "nat \<Rightarrow> PoisonChannelTable \<Rightarrow> FrameOp list \<Rightarrow> nat" where
  "frames_sent i t ops = length (accepted (frame_step i) (\<lambda>r. fo_ok r \<and> is_send (fo_op r)) t ops)"

definition credits_granted :: "nat \<Rightarrow> PoisonChannelTable \<Rightarrow> FrameOp list \<Rightarrow> nat" where
  "credits_granted i t ops =
     sum_list (map (credit_amount \<circ> fst) (accepted (frame_step i) (\<lambda>r. fo_ok r \<and> is_credit (fo_op r)) t ops))"

lemma credit_step:
  assumes "channel_inv t" "i < 4"
  shows "unat (ch_credits (fst (frame_step i op t) ! i)) + (if fo_ok (snd (frame_step i op t)) \<and> is_send op then 1 else 0)
    = unat (ch_credits (t ! i)) + (if fo_ok (snd (frame_step i op t)) then credit_amount op else 0)"
  using assms channel_at_ok [OF assms] credit_dec(1) [of "ch_credits (t ! i)"]
    credits_no_wrap(2) [of "ch_credits (t ! i)"] unat_gt_0 [of "ch_credits (t ! i)"]
  by (cases op) (auto simp: frame_cases channel_inv_def channel_ok_def)

lemma frame_outcome_op [simp]: "fo_op (snd (frame_step i op t)) = op"
  by (simp add: frame_step_def split: prod.splits)

lemma credits_conserved:
  assumes "channel_inv t" "i < 4"
  shows "unat (ch_credits (run_state (frame_step i) t ops ! i)) + frames_sent i t ops
    = unat (ch_credits (t ! i)) + credits_granted i t ops"
  using assms(1)
proof (induction ops arbitrary: t)
  case (Cons op ops)
  have "credit_amount op = 0" if "\<not> is_credit op" using that by (cases op) simp_all
  with Cons.IH [OF frame_inv [OF Cons.prems], of i op] credit_step [OF Cons.prems assms(2), of op]
  show ?case by (auto simp: frames_sent_def credits_granted_def)
qed (simp add: frames_sent_def credits_granted_def)

text \<open>C19: from any table reached by any calls, the traffic on a channel keeps its numbering and its
  flow control: the frames received in order are exactly the next consecutive numbers, and so
  are the frames sent; the frames sent never outnumber the credits the channel had plus those
  granted since; and the credits never exceed four.\<close>

theorem channel_traffic:
  fixes calls ops
  assumes "i < 4"
  defines "t \<equiv> run_state channel_step poison_channel_table_init calls"
  defines "t' \<equiv> run_state (frame_step i) t ops"
  shows "map (receive_number \<circ> fst) (accepted (frame_step i) (\<lambda>r. fo_ok r \<and> is_receive (fo_op r)) t ops)
      = [unat (ch_next_rx_sequence (t ! i))..<unat (ch_next_rx_sequence (t' ! i))] \<and>
    map (\<lambda>x. unat (the (fo_sequence (snd x))))
        (accepted (frame_step i) (\<lambda>r. fo_ok r \<and> is_send (fo_op r)) t ops)
      = [unat (ch_next_tx_sequence (t ! i))..<unat (ch_next_tx_sequence (t' ! i))] \<and>
    frames_sent i t ops \<le> unat (ch_credits (t ! i)) + credits_granted i t ops \<and>
    unat (ch_credits (t' ! i)) \<le> 4"
proof -
  have inv: "channel_inv t"
    unfolding t_def by (rule channels.run_keeps) (rule channel_init_inv)
  then have inv': "channel_inv t'"
    unfolding t'_def by (rule frames.run_keeps)
  then have "ch_credits (t' ! i) \<le> 4"
    using channel_at_ok [OF inv' assms(1)]
    by (auto simp: channel_ok_def channel_zero_def split: if_splits)
  then show ?thesis
    using reception.accepted_consecutive [OF inv, of i ops]
      transmission.accepted_consecutive [OF inv, of i ops]
      credits_conserved [OF inv assms(1), of ops] assms(1)
    by (simp add: t'_def [symmetric] split_beta comp_def word_le_nat_alt)
qed

lemma channel_traffic_witness:
  "frames_sent 0 (run_state channel_step poison_channel_table_init [ChOpen (Some ''rpc'') 2 5])
     [FrSend 10, FrSend 10, FrSend 10] \<le> 2 + credits_granted 0
     (run_state channel_step poison_channel_table_init [ChOpen (Some ''rpc'') 2 5])
     [FrSend 10, FrSend 10, FrSend 10]"
proof -
  have "unat (ch_credits (run_state channel_step poison_channel_table_init [ChOpen (Some ''rpc'') 2 5] ! 0)) = 2"
    by (simp add: channel_ops channel_table_init_list channel_zero_def)
  then show ?thesis
    using channel_traffic [of 0 "[ChOpen (Some ''rpc'') 2 5]" "[FrSend 10, FrSend 10, FrSend 10]"]
    by linarith
qed

end
