(* ===== verification/Ring.thy ===== *)
theory Ring
  imports Prelude
begin

text \<open>A fixed array written at a cursor that wraps around, as the audit chain and the
  diagnostics service keep it.  Read from the cursor on, the array lists its entries from
  the oldest to the newest; a write drops the oldest entry and appends the new one.\<close>

definition ring_view :: "nat \<Rightarrow> 'a list \<Rightarrow> 'a list" where
  "ring_view cursor buf = rotate cursor buf"

definition last_n :: "nat \<Rightarrow> 'a list \<Rightarrow> 'a list" where
  "last_n n xs = drop (length xs - n) xs"

lemma length_ring_view [simp]: "length (ring_view c buf) = length buf"
  by (simp add: ring_view_def)

lemma set_ring_view [simp]: "set (ring_view c buf) = set buf"
  by (simp add: ring_view_def)

lemma ring_view_drop_take: "c < length buf \<Longrightarrow> ring_view c buf = drop c buf @ take c buf"
  by (simp add: ring_view_def rotate_drop_take)

lemma ring_write:
  assumes "c < length buf"
  shows "ring_view ((c + 1) mod length buf) (buf[c := x]) = tl (ring_view c buf) @ [x]"
proof -
  obtain pre y post where buf: "buf = pre @ y # post" "length pre = c"
    using assms by (metis id_take_nth_drop length_take min.absorb4)
  then have upd: "buf[c := x] = (pre @ [x]) @ post" and len: "length buf = length (pre @ [x]) + length post"
    by (simp_all add: list_update_append)
  have "ring_view ((c + 1) mod length buf) (buf[c := x]) = rotate (length (pre @ [x])) (buf[c := x])"
    using buf(2) len upd by (simp add: ring_view_def rotate_conv_mod [of "Suc c"] del: rotate_Suc)
  also have "\<dots> = post @ pre @ [x]"
    unfolding upd rotate_append by simp
  finally have "ring_view ((c + 1) mod length buf) (buf[c := x]) = post @ pre @ [x]" .
  moreover have "ring_view c buf = y # post @ pre"
    using buf rotate_append [of pre "y # post"] by (simp add: ring_view_def)
  ultimately show ?thesis by simp
qed

lemma last_n_all [simp]: "length xs \<le> n \<Longrightarrow> last_n n xs = xs"
  by (simp add: last_n_def)

lemma length_last_n [simp]: "length (last_n n xs) = min n (length xs)"
  by (simp add: last_n_def min_def)

lemma last_n_last_n: "last_n n (last_n n xs @ ys) = last_n n (xs @ ys)"
proof -
  have "drop (length (last_n n xs @ ys) - n) (last_n n xs @ ys)
      = drop (length (xs @ ys) - n) (xs @ ys)"
    by (cases "length xs \<le> n"; cases "length ys \<le> n") (simp_all add: last_n_def min_def add.commute)
  then show ?thesis by (simp add: last_n_def)
qed

lemma last_n_push: "length xs = n \<Longrightarrow> 0 < n \<Longrightarrow> last_n n (xs @ [x]) = tl xs @ [x]"
  by (cases xs) (simp_all add: last_n_def)

lemma last_n_append_ge: "n \<le> length ys \<Longrightarrow> last_n n (xs @ ys) = last_n n ys"
  by (simp add: last_n_def)

text \<open>A component whose operation either leaves the ring alone or pushes one entry.\<close>

locale ring_log =
  fixes step :: "'op \<Rightarrow> 's \<Rightarrow> 's \<times> 'e option"
    and entries :: "'s \<Rightarrow> 'e list"
    and shape :: "'s \<Rightarrow> bool"
    and capacity :: nat
  assumes capacity_pos: "0 < capacity"
    and shape_length: "shape s \<Longrightarrow> length (entries s) = capacity"
    and keeps_shape: "shape s \<Longrightarrow> shape (fst (step op s))"
    and refused: "shape s \<Longrightarrow> snd (step op s) = None \<Longrightarrow> entries (fst (step op s)) = entries s"
    and pushed: "shape s \<Longrightarrow> snd (step op s) = Some e \<Longrightarrow>
                   entries (fst (step op s)) = tl (entries s) @ [e]"
begin

lemma run_shape: "shape s \<Longrightarrow> shape (run_state step s ops)"
  by (induction ops arbitrary: s) (simp_all add: keeps_shape)

lemma step_entries:
  assumes "shape s"
  shows "entries (fst (step op s)) =
           last_n capacity (entries s @ (case snd (step op s) of None \<Rightarrow> [] | Some e \<Rightarrow> [e]))"
  using refused [OF assms] pushed [OF assms] shape_length [OF assms] capacity_pos
  by (cases "snd (step op s)") (simp_all add: last_n_push)

text \<open>After any run the ring holds the last entries pushed.\<close>

lemma run_entries:
  "shape s \<Longrightarrow> entries (run_state step s ops) =
     last_n capacity (entries s @ List.map_filter id (results step s ops))"
proof (induction ops arbitrary: s)
  case Nil
  then show ?case by (simp add: shape_length map_filter_simps)
next
  case (Cons op ops)
  show ?case
    using Cons.IH [OF keeps_shape [OF Cons.prems]] step_entries [OF Cons.prems, of op]
    by (cases "snd (step op s)") (simp_all add: map_filter_simps last_n_last_n)
qed

end

end
