(* ===== verification/AuditChain.thy ===== *)
theory AuditChain
  imports Ring
begin

text \<open>The audit chain (\<open>poison_audit/poison_audit.c\<close>): a ring of the last 16 events, each
  carrying the digest of its predecessor, with a reader that returns the events after a
  given number.  SHA-256 is a parameter, and so is the layout in memory of the bytes of an
  event that precede its digest; a mutex guards the functions and has no other effect.\<close>

section \<open>State\<close>

abbreviation "POISON_AUDIT_DIGEST_BYTES \<equiv> (32 :: nat)"
abbreviation "POISON_AUDIT_TEXT_MAX \<equiv> (32 :: nat)"
abbreviation "POISON_AUDIT_METADATA_MAX \<equiv> (160 :: nat)"
abbreviation "POISON_AUDIT_RING_SIZE \<equiv> (16 :: nat)"

text \<open>The decision is an integer in C, and the code tests its range.\<close>

type_synonym PoisonAuditDecision = u32

abbreviation "PoisonAuditDecisionDenied \<equiv> (0 :: PoisonAuditDecision)"
abbreviation "PoisonAuditDecisionAllowed \<equiv> (1 :: PoisonAuditDecision)"
abbreviation "PoisonAuditDecisionExpired \<equiv> (2 :: PoisonAuditDecision)"
abbreviation "PoisonAuditDecisionRevoked \<equiv> (3 :: PoisonAuditDecision)"

record PoisonAuditEvent =
  ae_event_id :: u64
  ae_prior_digest :: bytes
  ae_actor_digest :: bytes
  ae_action :: string
  ae_resource :: string
  ae_decision :: PoisonAuditDecision
  ae_timestamp_ms :: u64
  ae_correlation_id :: bytes
  ae_safe_metadata :: string
  ae_digest :: bytes

record PoisonAuditChain =
  ac_next_event_id :: u64
  ac_last_digest :: bytes
  ac_events :: "PoisonAuditEvent list"
  ac_event_count :: nat
  ac_write_index :: nat

definition audit_event_zero :: PoisonAuditEvent where
  "audit_event_zero = \<lparr> ae_event_id = 0, ae_prior_digest = zeros 32, ae_actor_digest = zeros 32,
     ae_action = '''', ae_resource = '''', ae_decision = 0, ae_timestamp_ms = 0,
     ae_correlation_id = zeros 32, ae_safe_metadata = '''', ae_digest = zeros 32 \<rparr>"

section \<open>Operations\<close>

definition audit_digest_valid :: "bytes option \<Rightarrow> bool" where
  "audit_digest_valid digest =
     (case digest of None \<Rightarrow> False | Some d \<Rightarrow> or_bytes POISON_AUDIT_DIGEST_BYTES d \<noteq> 0)"

definition audit_text_valid :: "string option \<Rightarrow> nat \<Rightarrow> bool" where
  "audit_text_valid value max_length =
     (case value of None \<Rightarrow> False
      | Some v \<Rightarrow>
          if v = '''' then False
          else let length = strnlen v (max_length + 1)
               in if length = 0 \<or> length > max_length then False
                  else list_all printable (take length v))"

definition audit_metadata_safe :: "string option \<Rightarrow> bool" where
  "audit_metadata_safe metadata =
     (case metadata of None \<Rightarrow> False
      | Some m \<Rightarrow>
          if strstr_any [''key'', ''secret'', ''token'', ''payload'', ''private''] m then False
          else audit_text_valid metadata POISON_AUDIT_METADATA_MAX)"

definition poison_audit_init :: PoisonAuditChain where
  "poison_audit_init = \<lparr> ac_next_event_id = 1, ac_last_digest = zeros 32,
     ac_events = replicate POISON_AUDIT_RING_SIZE audit_event_zero, ac_event_count = 0,
     ac_write_index = 0 \<rparr>"

definition poison_audit_append ::
    "(PoisonAuditEvent \<Rightarrow> bytes) \<Rightarrow> (bytes \<Rightarrow> bytes option) \<Rightarrow> PoisonAuditChain \<Rightarrow> bytes option \<Rightarrow>
     string option \<Rightarrow> string option \<Rightarrow> PoisonAuditDecision \<Rightarrow> u64 \<Rightarrow> bytes option \<Rightarrow>
     string option \<Rightarrow> PoisonAuditEvent \<Rightarrow> PoisonAuditChain \<times> PoisonAuditEvent \<times> bool" where
  "poison_audit_append event_bytes sha256 chain actor_digest action resource decision
     timestamp_ms correlation_id safe_metadata event =
   (if ac_next_event_id chain = 0 \<or> \<not> audit_digest_valid actor_digest \<or>
       \<not> audit_text_valid action POISON_AUDIT_TEXT_MAX \<or>
       \<not> audit_text_valid resource POISON_AUDIT_TEXT_MAX \<or>
       decision > PoisonAuditDecisionRevoked \<or> \<not> audit_digest_valid correlation_id \<or>
       \<not> audit_metadata_safe safe_metadata
    then (chain, event, False)
    else
      let e = \<lparr> ae_event_id = ac_next_event_id chain, ae_prior_digest = ac_last_digest chain,
            ae_actor_digest = take 32 (the actor_digest), ae_action = the action,
            ae_resource = the resource, ae_decision = decision, ae_timestamp_ms = timestamp_ms,
            ae_correlation_id = take 32 (the correlation_id),
            ae_safe_metadata = the safe_metadata, ae_digest = zeros 32 \<rparr>
      in case sha256 (event_bytes e) of
           None \<Rightarrow> (chain, audit_event_zero, False)
         | Some digest \<Rightarrow>
             let e' = e \<lparr> ae_digest := digest \<rparr>
             in (chain \<lparr> ac_last_digest := digest,
                   ac_events := (ac_events chain)[ac_write_index chain := e'],
                   ac_write_index := (ac_write_index chain + 1) mod POISON_AUDIT_RING_SIZE,
                   ac_event_count := (if ac_event_count chain < POISON_AUDIT_RING_SIZE
                                      then ac_event_count chain + 1 else ac_event_count chain),
                   ac_next_event_id := ac_next_event_id chain + 1 \<rparr>, e', True))"

text \<open>The event numbers the reader's loops visit, and the copy loop.\<close>

definition audit_oldest_event_id :: "PoisonAuditChain \<Rightarrow> u64" where
  "audit_oldest_event_id chain = ac_next_event_id chain - of_nat (ac_event_count chain)"

definition audit_visited_ids :: "PoisonAuditChain \<Rightarrow> u64 list" where
  "audit_visited_ids chain =
     map of_nat [unat (audit_oldest_event_id chain)..<unat (ac_next_event_id chain)]"

fun audit_copy_loop :: "PoisonAuditEvent list \<Rightarrow> u64 \<Rightarrow> nat \<Rightarrow> u64 list \<Rightarrow> PoisonAuditEvent list \<Rightarrow>
    PoisonAuditEvent list" where
  "audit_copy_loop slots after_event_id capacity [] copied = copied"
| "audit_copy_loop slots after_event_id capacity (event_id # ids) copied =
     (if length copied \<ge> capacity then copied
      else if event_id \<le> after_event_id
      then audit_copy_loop slots after_event_id capacity ids copied
      else case find_index (\<lambda>e. ae_event_id e = event_id) slots of
             None \<Rightarrow> audit_copy_loop slots after_event_id capacity ids copied
           | Some i \<Rightarrow> audit_copy_loop slots after_event_id capacity ids (copied @ [slots ! i]))"

record PoisonAuditSnapshot =
  snap_events :: "PoisonAuditEvent list"
  snap_truncated :: bool
  snap_next_event_id :: u64
  snap_last_digest :: bytes

definition poison_audit_snapshot :: "PoisonAuditChain \<Rightarrow> u64 \<Rightarrow> nat \<Rightarrow> PoisonAuditSnapshot option" where
  "poison_audit_snapshot chain after_event_id event_capacity =
    (if event_capacity = 0 \<or> event_capacity > POISON_AUDIT_RING_SIZE then None
     else
       let oldest = audit_oldest_event_id chain;
           ids = audit_visited_ids chain;
           available = length (filter (\<lambda>event_id. event_id > after_event_id) ids)
       in Some \<lparr> snap_events = audit_copy_loop (ac_events chain) after_event_id event_capacity ids [],
            snap_truncated = (ac_event_count chain \<noteq> 0 \<and> after_event_id < oldest - 1 \<or>
                              available > event_capacity),
            snap_next_event_id = ac_next_event_id chain,
            snap_last_digest = ac_last_digest chain \<rparr>)"

section \<open>The log a chain stands for\<close>

definition audit_entries :: "PoisonAuditChain \<Rightarrow> PoisonAuditEvent list" where
  "audit_entries c = ring_view (ac_write_index c) (ac_events c)"

definition audit_log :: "PoisonAuditChain \<Rightarrow> PoisonAuditEvent list" where
  "audit_log c = drop (POISON_AUDIT_RING_SIZE - ac_event_count c) (audit_entries c)"

definition audit_shape :: "PoisonAuditChain \<Rightarrow> bool" where
  "audit_shape c \<longleftrightarrow> length (ac_events c) = 16 \<and> ac_write_index c < 16"

text \<open>A request to append, and the append as a step that returns the event it stored.\<close>

record AuditRequest =
  ar_actor :: "bytes option"
  ar_action :: "string option"
  ar_resource :: "string option"
  ar_decision :: PoisonAuditDecision
  ar_timestamp :: u64
  ar_correlation :: "bytes option"
  ar_metadata :: "string option"

definition audit_step :: "(PoisonAuditEvent \<Rightarrow> bytes) \<Rightarrow> (bytes \<Rightarrow> bytes option) \<Rightarrow> AuditRequest \<Rightarrow>
    PoisonAuditChain \<Rightarrow> PoisonAuditChain \<times> PoisonAuditEvent option" where
  "audit_step event_bytes sha256 r c =
     (case poison_audit_append event_bytes sha256 c (ar_actor r) (ar_action r) (ar_resource r)
             (ar_decision r) (ar_timestamp r) (ar_correlation r) (ar_metadata r) audit_event_zero of
        (c', e, ok) \<Rightarrow> (c', if ok then Some e else None))"

definition audit_accepts :: "PoisonAuditChain \<Rightarrow> AuditRequest \<Rightarrow> bool" where
  "audit_accepts c r \<longleftrightarrow>
     ac_next_event_id c \<noteq> 0 \<and> audit_digest_valid (ar_actor r) \<and>
     audit_text_valid (ar_action r) 32 \<and> audit_text_valid (ar_resource r) 32 \<and>
     ar_decision r \<le> PoisonAuditDecisionRevoked \<and> audit_digest_valid (ar_correlation r) \<and>
     audit_metadata_safe (ar_metadata r)"

definition audit_draft :: "PoisonAuditChain \<Rightarrow> AuditRequest \<Rightarrow> PoisonAuditEvent" where
  "audit_draft c r = \<lparr> ae_event_id = ac_next_event_id c, ae_prior_digest = ac_last_digest c,
     ae_actor_digest = take 32 (the (ar_actor r)), ae_action = the (ar_action r),
     ae_resource = the (ar_resource r), ae_decision = ar_decision r,
     ae_timestamp_ms = ar_timestamp r, ae_correlation_id = take 32 (the (ar_correlation r)),
     ae_safe_metadata = the (ar_metadata r), ae_digest = zeros 32 \<rparr>"

definition audit_store :: "PoisonAuditChain \<Rightarrow> PoisonAuditEvent \<Rightarrow> PoisonAuditChain" where
  "audit_store c e = c \<lparr> ac_last_digest := ae_digest e,
     ac_events := (ac_events c)[ac_write_index c := e],
     ac_write_index := (ac_write_index c + 1) mod 16,
     ac_event_count := min 16 (ac_event_count c + 1),
     ac_next_event_id := ac_next_event_id c + 1 \<rparr>"

lemma audit_step_cases:
  assumes "ac_event_count c \<le> 16"
  shows "audit_step eb sha r c =
    (if audit_accepts c r
     then (case sha (eb (audit_draft c r)) of
             None \<Rightarrow> (c, None)
           | Some d \<Rightarrow> (let e = audit_draft c r \<lparr> ae_digest := d \<rparr> in (audit_store c e, Some e)))
     else (c, None))"
  using assms
  by (auto simp: audit_step_def poison_audit_append_def audit_accepts_def audit_draft_def
      audit_store_def Let_def not_less min_def split: option.splits)

lemma audit_step_none: "snd (audit_step eb sha r c) = None \<Longrightarrow> fst (audit_step eb sha r c) = c"
  by (auto simp: audit_step_def poison_audit_append_def Let_def split: option.splits if_splits)

lemma audit_step_entries:
  assumes "audit_shape c" "snd (audit_step eb sha r c) = Some e"
  shows "audit_entries (fst (audit_step eb sha r c)) = tl (audit_entries c) @ [e]"
  using assms ring_write [of "ac_write_index c" "ac_events c" e]
  by (auto simp: audit_step_def poison_audit_append_def Let_def audit_entries_def audit_shape_def
      split: option.splits if_splits)

lemma audit_step_shape: "audit_shape c \<Longrightarrow> audit_shape (fst (audit_step eb sha r c))"
  by (auto simp: audit_step_def poison_audit_append_def Let_def audit_shape_def
      split: option.splits if_splits)

interpretation audit: ring_log "audit_step eb sha" audit_entries audit_shape 16 for eb sha
proof (unfold_locales, goal_cases)
  case 1 show ?case by simp
next
  case (2 c) then show ?case by (simp add: audit_entries_def audit_shape_def)
next
  case (3 c r) then show ?case by (rule audit_step_shape)
next
  case (4 c r) then show ?case by (simp add: audit_step_none)
next
  case (5 c r e) then show ?case by (rule audit_step_entries)
qed

section \<open>The chain invariant\<close>

text \<open>Consecutive events are linked by their digests, and each digest seals its event.\<close>

fun linked :: "bytes \<Rightarrow> PoisonAuditEvent list \<Rightarrow> bytes \<Rightarrow> bool" where
  "linked prior [] final = (prior = final)"
| "linked prior (e # es) final = (ae_prior_digest e = prior \<and> linked (ae_digest e) es final)"

definition sealed :: "(PoisonAuditEvent \<Rightarrow> bytes) \<Rightarrow> (bytes \<Rightarrow> bytes option) \<Rightarrow> PoisonAuditEvent \<Rightarrow> bool" where
  "sealed eb sha e \<longleftrightarrow> sha (eb (e \<lparr> ae_digest := zeros 32 \<rparr>)) = Some (ae_digest e)"

definition audit_numbers :: "u64 \<Rightarrow> nat \<Rightarrow> u64 list" where
  "audit_numbers nid count = map of_nat [unat nid - count..<unat nid]"

definition audit_inv :: "(PoisonAuditEvent \<Rightarrow> bytes) \<Rightarrow> (bytes \<Rightarrow> bytes option) \<Rightarrow> PoisonAuditChain \<Rightarrow> bool" where
  "audit_inv eb sha c \<longleftrightarrow> audit_shape c \<and>
     (ac_next_event_id c \<noteq> 0 \<longrightarrow>
        ac_event_count c = min 16 (unat (ac_next_event_id c) - 1) \<and>
        map ae_event_id (audit_entries c) =
          replicate (16 - ac_event_count c) 0 @ audit_numbers (ac_next_event_id c) (ac_event_count c) \<and>
        (\<exists>prior. linked prior (audit_log c) (ac_last_digest c)) \<and>
        (\<forall>e \<in> set (audit_log c). sealed eb sha e))"

lemma linked_snoc: "linked p es q \<Longrightarrow> ae_prior_digest e = q \<Longrightarrow> linked p (es @ [e]) (ae_digest e)"
  by (induction es arbitrary: p) auto

lemma linked_drop: "linked p es q \<Longrightarrow> \<exists>p'. linked p' (drop n es) q"
proof (induction n arbitrary: p es)
  case (Suc n)
  then show ?case by (cases es) auto
qed auto

lemma audit_init_inv [inv_intros]: "audit_inv eb sha poison_audit_init"
  by (simp add: audit_inv_def audit_shape_def poison_audit_init_def audit_entries_def audit_log_def
      ring_view_def audit_numbers_def audit_event_zero_def)

lemma audit_numbers_step:
  assumes "nid \<noteq> (0 :: u64)" "nid + 1 \<noteq> 0" "count = min 16 (unat nid - 1)"
  shows "tl (replicate (16 - count) 0 @ audit_numbers nid count) @ [nid]
       = replicate (16 - min 16 (count + 1)) 0 @ audit_numbers (nid + 1) (min 16 (count + 1))"
proof -
  have n1: "unat (nid + 1) = Suc (unat nid)"
    using assms(2) unat_Suc_eq [of nid] by (metis add.commute add_eq_0_iff)
  have pos: "0 < unat nid"
    using assms(1) by (simp add: unat_gt_0)
  show ?thesis
  proof (cases "count < 16")
    case True
    with assms(3) pos have "unat nid - count = 1" by simp
    with True show ?thesis
      using pos by (cases "16 - count") (simp_all add: audit_numbers_def n1 Suc_diff_le)
  next
    case False
    with assms(3) have c: "count = 16" "16 < unat nid" by auto
    have "audit_numbers nid count = of_nat (unat nid - 16) # map of_nat [Suc (unat nid) - 16..<unat nid]"
      using c by (simp add: audit_numbers_def upt_conv_Cons Suc_diff_le)
    with c show ?thesis
      by (simp add: audit_numbers_def n1)
  qed
qed

lemma audit_log_step:
  assumes "audit_shape c" "ac_event_count c \<le> 16" "snd (audit_step eb sha r c) = Some e"
  shows "audit_log (fst (audit_step eb sha r c)) = last_n 16 (audit_log c @ [e])"
proof -
  have len: "length (audit_entries c) = 16"
    using assms(1) by (simp add: audit.shape_length)
  have count: "ac_event_count (fst (audit_step eb sha r c)) = min 16 (ac_event_count c + 1)"
    using assms(2,3)
    by (auto simp: audit_step_cases audit_store_def Let_def split: if_splits option.splits)
  show ?thesis
  proof (cases "ac_event_count c = 16")
    case True
    with len show ?thesis
      by (simp add: audit_log_def count audit_step_entries [OF assms(1,3)] last_n_def drop_Suc)
  next
    case False
    with assms(2) have "16 - ac_event_count c = Suc (15 - ac_event_count c)" by simp
    with False len assms(2) show ?thesis
      by (simp add: audit_log_def count audit_step_entries [OF assms(1,3)] drop_Suc)
  qed
qed

lemma audit_step_some:
  assumes "ac_event_count c \<le> 16" "snd (audit_step eb sha r c) = Some e"
  shows "fst (audit_step eb sha r c) = audit_store c e" "ae_prior_digest e = ac_last_digest c"
    "ae_event_id e = ac_next_event_id c" "sealed eb sha e" "ac_next_event_id c \<noteq> 0"
  using assms
  by (auto simp: audit_step_cases Let_def audit_draft_def audit_accepts_def sealed_def
      split: if_splits option.splits)

lemma last_n_linked: "linked p es q \<Longrightarrow> \<exists>p'. linked p' (last_n n es) q"
  by (simp add: last_n_def linked_drop)

lemma set_last_n: "set (last_n n xs) \<subseteq> set xs"
  by (simp add: last_n_def set_drop_subset)

lemma audit_step_inv [inv_intros]:
  assumes inv: "audit_inv eb sha c"
  shows "audit_inv eb sha (fst (audit_step eb sha r c))"
proof (cases "snd (audit_step eb sha r c)")
  case None
  then show ?thesis using inv by (simp add: audit_step_none)
next
  case (Some e)
  have nz: "ac_next_event_id c \<noteq> 0"
    using Some
    by (auto simp: audit_step_def poison_audit_append_def split: if_splits)
  with inv have count: "ac_event_count c = min 16 (unat (ac_next_event_id c) - 1)"
    and le: "ac_event_count c \<le> 16" and shape: "audit_shape c"
    by (simp_all add: audit_inv_def)
  note e = audit_step_some [OF le Some]
  let ?c = "fst (audit_step eb sha r c)"
  have nid: "ac_next_event_id ?c = ac_next_event_id c + 1"
    and cnt: "ac_event_count ?c = min 16 (ac_event_count c + 1)"
    and last: "ac_last_digest ?c = ae_digest e"
    by (simp_all add: e audit_store_def)
  have ids: "map ae_event_id (audit_entries ?c) =
      replicate (16 - ac_event_count ?c) 0 @ audit_numbers (ac_next_event_id ?c) (ac_event_count ?c)"
    if "ac_next_event_id ?c \<noteq> 0"
  proof -
    have "map ae_event_id (audit_entries ?c) = tl (map ae_event_id (audit_entries c)) @ [ac_next_event_id c]"
      unfolding audit_step_entries [OF shape Some] by (simp add: map_tl e)
    also have "map ae_event_id (audit_entries c) =
        replicate (16 - ac_event_count c) 0 @ audit_numbers (ac_next_event_id c) (ac_event_count c)"
      using inv nz by (simp add: audit_inv_def)
    finally show ?thesis
      unfolding nid cnt using audit_numbers_step [OF nz _ count] that nid by simp
  qed
  have "\<exists>prior. linked prior (audit_log c @ [e]) (ae_digest e)"
    using inv nz e by (auto simp: audit_inv_def intro: linked_snoc)
  then have links: "\<exists>prior. linked prior (audit_log ?c) (ac_last_digest ?c)"
    using last_n_linked by (auto simp: audit_log_step [OF shape le Some] last)
  have "\<forall>x \<in> set (audit_log c @ [e]). sealed eb sha x"
    using inv nz e by (simp add: audit_inv_def)
  moreover have "set (audit_log ?c) \<subseteq> set (audit_log c @ [e])"
    unfolding audit_log_step [OF shape le Some] by (rule set_last_n)
  ultimately have seals: "\<forall>x \<in> set (audit_log ?c). sealed eb sha x"
    by (rule ball_subset)
  have "ac_event_count ?c = min 16 (unat (ac_next_event_id ?c) - 1)"
    if "ac_next_event_id ?c \<noteq> 0"
  proof -
    have "unat (ac_next_event_id c + 1) = Suc (unat (ac_next_event_id c))"
      using that nid unat_Suc_eq by (metis add.commute add_eq_0_iff)
    then show ?thesis using nz by (auto simp: nid cnt count unat_gt_0 min_def)
  qed
  with ids links seals show ?thesis
    using audit_step_shape [OF shape, of eb sha r] by (simp add: audit_inv_def)
qed

interpretation audit: invariant_machine "audit_step eb sha" "audit_inv eb sha" for eb sha
  by unfold_locales (rule audit_step_inv)

definition sample_request :: AuditRequest where
  "sample_request = \<lparr> ar_actor = Some (replicate 32 5), ar_action = Some ''unlock'',
     ar_resource = Some ''device'', ar_decision = PoisonAuditDecisionAllowed, ar_timestamp = 40,
     ar_correlation = Some (replicate 32 6), ar_metadata = Some ''button'' \<rparr>"

definition sample_hash :: "bytes \<Rightarrow> bytes option" where
  "sample_hash bs = Some (replicate 32 (of_nat (length bs) + 1))"

definition sample_layout :: "PoisonAuditEvent \<Rightarrow> bytes" where
  "sample_layout e = ae_prior_digest e @ ae_actor_digest e"

definition sample_chain :: PoisonAuditChain where
  "sample_chain = run_state (audit_step sample_layout sample_hash) poison_audit_init
     [sample_request, sample_request]"

lemma sample_chain_next: "ac_next_event_id sample_chain = 3"
  by code_simp

lemma sample_chain_inv: "audit_inv sample_layout sample_hash sample_chain"
  unfolding sample_chain_def by (rule audit.run_keeps) (rule audit_init_inv)

text \<open>C11: after any sequence of append calls from the start, with any hash and any outcome of
  it, the ring holds the last 16 events that were accepted, in order (before 16 events, after
  the blank entries of the start).\<close>

theorem audit_ring_holds_last_events:
  "audit_entries (run_state (audit_step eb sha) poison_audit_init rs) =
     last_n 16 (replicate 16 audit_event_zero @
                List.map_filter id (results (audit_step eb sha) poison_audit_init rs))"
proof -
  have "audit_shape poison_audit_init"
    by (simp add: audit_shape_def poison_audit_init_def)
  moreover have "audit_entries poison_audit_init = replicate 16 audit_event_zero"
    by (simp add: audit_entries_def poison_audit_init_def ring_view_def)
  ultimately show ?thesis by (simp add: audit.run_entries)
qed

text \<open>C12: after any sequence of append calls from the start, as long as the event counter has
  not wrapped, the stored events carry consecutive numbers up to the counter, the prior digest
  of each is the digest of its predecessor, the last one is the chain's last digest, and the
  digest of each is the hash of the event.\<close>

theorem audit_chain_linked_and_sealed:
  assumes "ac_next_event_id (run_state (audit_step eb sha) poison_audit_init rs) \<noteq> 0"
  defines "c \<equiv> run_state (audit_step eb sha) poison_audit_init rs"
  shows "map ae_event_id (audit_log c) = audit_numbers (ac_next_event_id c) (ac_event_count c) \<and>
    (\<exists>prior. linked prior (audit_log c) (ac_last_digest c)) \<and>
    (\<forall>e \<in> set (audit_log c). sealed eb sha e)"
proof -
  have inv: "audit_inv eb sha c"
    unfolding c_def by (rule audit.run_keeps) (rule audit_init_inv)
  then have "map ae_event_id (audit_log c) = audit_numbers (ac_next_event_id c) (ac_event_count c)"
    using assms(1) by (simp add: audit_inv_def audit_log_def c_def drop_map [symmetric])
  with inv assms(1) show ?thesis
    by (simp add: audit_inv_def c_def)
qed

lemma audit_chain_linked_and_sealed_witness:
  "map ae_event_id (audit_log sample_chain) = [1, 2]"
proof -
  have "map ae_event_id (audit_log sample_chain) =
      audit_numbers (ac_next_event_id sample_chain) (ac_event_count sample_chain)"
    using audit_chain_linked_and_sealed [of sample_layout sample_hash "[sample_request, sample_request]",
        folded sample_chain_def] by (simp only: sample_chain_next) simp
  also have "\<dots> = [1, 2]" by code_simp
  finally show ?thesis .
qed

section \<open>The reader\<close>

lemma log_ids:
  assumes "audit_inv eb sha c" "ac_next_event_id c \<noteq> 0"
  shows "map ae_event_id (audit_log c) = audit_numbers (ac_next_event_id c) (ac_event_count c)"
    "length (audit_log c) = ac_event_count c"
    "ac_event_count c = min 16 (unat (ac_next_event_id c) - 1)"
  using assms by (simp_all add: audit_inv_def audit_log_def drop_map [symmetric] audit_shape_def
      audit_entries_def)

lemma oldest_unat:
  assumes "audit_inv eb sha c" "ac_next_event_id c \<noteq> 0"
  shows "unat (audit_oldest_event_id c) = unat (ac_next_event_id c) - ac_event_count c"
proof -
  have le: "ac_event_count c \<le> unat (ac_next_event_id c)" "ac_event_count c < 2 ^ 64"
    using log_ids(3) [OF assms] by auto
  then have "unat (of_nat (ac_event_count c) :: u64) = ac_event_count c"
    by (simp add: unat_of_nat_small)
  with le show ?thesis
    by (simp add: audit_oldest_event_id_def unat_sub word_le_nat_alt)
qed

lemma visited_ids:
  assumes "audit_inv eb sha c" "ac_next_event_id c \<noteq> 0"
  shows "audit_visited_ids c = map ae_event_id (audit_log c)"
  by (simp add: audit_visited_ids_def oldest_unat [OF assms] log_ids(1) [OF assms] audit_numbers_def)

lemma audit_numbers_distinct: "distinct (audit_numbers nid count)"
proof -
  have "inj_on (of_nat :: nat \<Rightarrow> u64) {unat nid - count..<unat nid}"
    by (rule inj_on_inverseI [where g = unat]) (simp add: unat_of_nat_below [of _ nid])
  then show ?thesis by (simp add: audit_numbers_def distinct_map)
qed

lemma audit_numbers_pos:
  assumes "count \<le> unat nid - 1" "x \<in> set (audit_numbers nid count)"
  shows "x \<noteq> 0" "x < nid"
proof -
  obtain k where k: "x = of_nat k" "unat nid - count \<le> k" "k < unat nid"
    using assms(2) by (auto simp: audit_numbers_def)
  then have "unat x = k"
    by (simp add: unat_of_nat_below [of _ nid])
  then show "x \<noteq> 0" "x < nid"
    using k assms(1) by (auto simp: word_less_nat_alt unat_eq_zero [symmetric])
qed

text \<open>The scan for a number finds the event of the log that carries it.\<close>

lemma find_event:
  assumes inv: "audit_inv eb sha c" "ac_next_event_id c \<noteq> 0" and e: "e \<in> set (audit_log c)"
  obtains i where "find_index (\<lambda>x. ae_event_id x = ae_event_id e) (ac_events c) = Some i"
    "ac_events c ! i = e"
proof -
  let ?p = "\<lambda>x. ae_event_id x = ae_event_id e"
  let ?blank = "take (16 - ac_event_count c) (audit_entries c)"
  have split: "audit_entries c = ?blank @ audit_log c"
    by (simp add: audit_log_def)
  have "map ae_event_id ?blank = replicate (16 - ac_event_count c) 0"
    using inv by (simp add: audit_inv_def take_map [symmetric])
  then have blank: "\<forall>x \<in> set ?blank. ae_event_id x = 0"
    by (metis in_set_replicate list.set_map image_eqI)
  have e0: "ae_event_id e \<noteq> 0"
    using e audit_numbers_pos(1) [of "ac_event_count c" "ac_next_event_id c" "ae_event_id e"]
      log_ids [OF inv] by (metis image_eqI list.set_map min.cobounded2)
  have "e \<in> set (ac_events c)"
    using e set_drop_subset [of _ "audit_entries c"]
    by (fastforce simp: audit_log_def audit_entries_def)
  then obtain i where i: "find_index ?p (ac_events c) = Some i"
    using find_index_ex [of "ac_events c" ?p] by auto
  let ?x = "ac_events c ! i"
  have x: "?p ?x" "?x \<in> set (audit_entries c)"
    using find_index_SomeD [OF i] by (simp_all add: audit_entries_def)
  with blank e0 split have "?x \<in> set (audit_log c)"
    by (metis Un_iff set_append)
  moreover have "inj_on ae_event_id (set (audit_log c))"
    using log_ids(1) [OF inv] audit_numbers_distinct by (metis distinct_map)
  ultimately have "?x = e"
    using x(1) e by (simp add: inj_on_def)
  with i show thesis by (rule that)
qed

lemma copy_loop:
  assumes inv: "audit_inv eb sha c" "ac_next_event_id c \<noteq> 0"
  shows "set es \<subseteq> set (audit_log c) \<Longrightarrow>
    audit_copy_loop (ac_events c) after capacity (map ae_event_id es) copied =
      copied @ take (capacity - length copied) (filter (\<lambda>e. after < ae_event_id e) es)"
proof (induction es arbitrary: copied)
  case (Cons e es)
  obtain i where "find_index (\<lambda>x. ae_event_id x = ae_event_id e) (ac_events c) = Some i"
    "ac_events c ! i = e"
    using find_event [OF inv, of e] Cons.prems by auto
  with Cons show ?case
    by (auto simp: not_le Suc_diff_le take_Cons' diff_Suc split: nat.splits)
qed simp

lemma ids_above:
  fixes nid after :: u64
  assumes "unat nid \<noteq> 0"
  shows "length (filter (\<lambda>x. after < x) (audit_numbers nid count))
       = unat nid - max (unat after + 1) (unat nid - count)"
proof -
  have "filter (\<lambda>k. after < (of_nat k :: u64)) [unat nid - count..<unat nid] =
        filter (\<lambda>k. unat after < k) [unat nid - count..<unat nid]"
    by (intro filter_cong) (simp_all add: word_less_nat_alt unat_of_nat_below [of _ nid])
  moreover have "{k. unat nid - count \<le> k \<and> k < unat nid \<and> unat after < k} =
      {max (unat after + 1) (unat nid - count)..<unat nid}" by auto
  ultimately show ?thesis
    by (simp add: audit_numbers_def filter_map comp_def distinct_length_filter Int_def conj_ac)
qed

text \<open>C13: on a chain that keeps the invariant, the reader returns the events after the number
  asked for, oldest first, up to the capacity, and reports truncation exactly when it did not
  return every event that was appended after that number.\<close>

theorem audit_snapshot_exact:
  assumes "audit_inv eb sha c" "ac_next_event_id c \<noteq> 0" "0 < capacity" "capacity \<le> 16"
  shows "\<exists>r. poison_audit_snapshot c after capacity = Some r \<and>
    snap_events r = take capacity (filter (\<lambda>e. after < ae_event_id e) (audit_log c)) \<and>
    (snap_truncated r \<longleftrightarrow>
       length (snap_events r) \<noteq> unat (ac_next_event_id c) - 1 - unat after) \<and>
    snap_next_event_id r = ac_next_event_id c \<and> snap_last_digest r = ac_last_digest c"
proof -
  let ?n = "unat (ac_next_event_id c)" and ?k = "ac_event_count c"
  note inv = assms(1,2)
  have n: "?n \<noteq> 0" using assms(2) by (simp add: unat_eq_zero)
  have k: "?k = min 16 (?n - 1)" by (rule log_ids(3) [OF inv])
  have avail: "length (filter (\<lambda>x. after < x) (audit_visited_ids c)) = ?n - max (unat after + 1) (?n - ?k)"
    by (simp add: visited_ids [OF inv] log_ids(1) [OF inv] ids_above [OF n])
  have avail': "length (filter (\<lambda>e. after < ae_event_id e) (audit_log c)) = ?n - max (unat after + 1) (?n - ?k)"
    using avail by (simp add: visited_ids [OF inv] filter_map comp_def)
  have "unat (audit_oldest_event_id c - 1) = ?n - ?k - 1"
    using oldest_unat [OF inv] n k by (simp add: unat_sub word_le_nat_alt)
  then have old: "after < audit_oldest_event_id c - 1 \<longleftrightarrow> unat after < ?n - ?k - 1"
    by (simp add: word_less_nat_alt)
  have copy: "audit_copy_loop (ac_events c) after capacity (audit_visited_ids c) [] =
      take capacity (filter (\<lambda>e. after < ae_event_id e) (audit_log c))"
    by (simp add: visited_ids [OF inv] copy_loop [OF inv])
  show ?thesis
    using assms(3,4) n k
    by (simp add: poison_audit_snapshot_def Let_def copy avail avail' old) (auto simp: min_def max_def)
qed

lemma audit_snapshot_exact_witness:
  "\<exists>r. poison_audit_snapshot sample_chain 1 4 = Some r \<and> map ae_event_id (snap_events r) = [2] \<and>
     \<not> snap_truncated r"
proof -
  have log: "map ae_event_id (filter (\<lambda>e. 1 < ae_event_id e) (audit_log sample_chain)) = [2]"
    by code_simp
  then have "length (filter (\<lambda>e. 1 < ae_event_id e) (audit_log sample_chain)) = 1"
    by (metis One_nat_def length_Cons length_map list.size(3))
  then show ?thesis
    using audit_snapshot_exact [OF sample_chain_inv, of 4 1] log
    by (auto simp: sample_chain_next)
qed

end
