(* ===== verification/SecureTransport.thy ===== *)
theory SecureTransport
  imports Pairing PairingStore Resume Channel AuditChain "HOL-Library.Monad_Syntax"
begin

text \<open>One RPC connection (\<open>rpc/rpc.c\<close>) with the handlers that establish and use its secure
  transport (\<open>rpc/rpc_poison_session.c\<close>, \<open>rpc/rpc_poison_channel.c\<close>): the pairing handshake, the
  client registry, the resume slots, the session and the channels as one machine that takes
  one message at a time.  The message decoder, the encoder and the handlers of the other
  services are parameters.\<close>

section \<open>Messages\<close>

text \<open>The content tag of a message, \<open>PB_Main_<name>_tag\<close>, is given by its name; the empty name is
  the tag 0, of a message without content.\<close>

type_synonym Tag = string

definition rpc_secure_required_capabilities :: "Tag \<Rightarrow> PoisonCapability" where
  "rpc_secure_required_capabilities tag =
    (if tag \<in> {''stop_session'', ''system_ping_request'', ''system_device_info_request'',
        ''system_get_datetime_request'', ''system_protobuf_version_request'', ''system_power_info_request'',
        ''property_get_request'', ''desktop_is_locked_request'', ''desktop_status_subscribe_request'',
        ''desktop_status_unsubscribe_request'', ''gpio_get_pin_mode'', ''gpio_read_pin'', ''gpio_get_otg_mode'',
        ''poison_diagnostic_snapshot_request'', ''poison_policy_request'', ''poison_channel_open'',
        ''poison_credit_update'', ''poison_cancel_request'', ''poison_resume_request'',
        ''poison_workload_request''}
     then POISON_CAPABILITY_STATUS
     else if tag \<in> {''app_button_press_request'', ''app_button_release_request'',
        ''app_button_press_release_request'', ''app_exit_request'', ''gui_start_screen_stream_request'',
        ''gui_stop_screen_stream_request'', ''gui_send_input_event_request'',
        ''gui_start_virtual_display_request'', ''gui_stop_virtual_display_request'',
        ''desktop_unlock_request''}
     then POISON_CAPABILITY_CONTROL
     else if tag \<in> {''app_start_request'', ''app_load_file_request'', ''app_get_error_request'',
        ''app_data_exchange_request''}
     then POISON_CAPABILITY_LAUNCH
     else if tag \<in> {''storage_list_request'', ''storage_read_request'', ''storage_stat_request'',
        ''storage_info_request'', ''storage_md5sum_request'', ''storage_timestamp_request''}
     then POISON_CAPABILITY_FILES
     else if tag \<in> {''storage_write_request'', ''storage_delete_request'', ''storage_mkdir_request'',
        ''storage_rename_request'', ''storage_backup_create_request'', ''storage_backup_restore_request'',
        ''storage_tar_extract_request''}
     then POISON_CAPABILITY_FILES OR POISON_CAPABILITY_DESTRUCTIVE
     else if tag \<in> {''gpio_set_pin_mode'', ''gpio_set_input_pull'', ''gpio_write_pin'', ''gpio_set_otg_mode''}
     then POISON_CAPABILITY_RADIO
     else if tag \<in> {''system_reboot_request'', ''system_factory_reset_request'',
        ''system_set_datetime_request'', ''system_update_request'', ''poison_content_update_request'',
        ''poison_package_operation_request''}
     then POISON_CAPABILITY_DESTRUCTIVE
     else if tag \<in> {''poison_file_list_request'', ''poison_file_transfer_begin'',
        ''poison_file_transfer_chunk'', ''poison_file_transfer_complete'', ''poison_js_bundle_request''}
     then POISON_CAPABILITY_FILES
     else if tag \<in> {''poison_evidence_record'', ''poison_case'', ''poison_annotation'',
        ''poison_export_manifest''}
     then POISON_CAPABILITY_EVIDENCE
     else if tag = ''poison_tool_run'' then POISON_CAPABILITY_STATUS
     else if tag \<in> {''poison_app_command'', ''poison_app_event'', ''poison_profile'', ''poison_profile_apply''}
     then POISON_CAPABILITY_CONTROL
     else 0)"

record SessionEnvelope =
  se_protocol_version :: u32
  se_session_id :: u64
  se_sequence :: u64
  se_acknowledgement :: u64
  se_channel :: string
  se_payload :: bytes
  se_authentication_tag :: bytes

record ResumeRequest =
  rq_session_id :: u64
  rq_resume_token :: bytes
  rq_last_received_sequence :: u64

record ChannelOpen =
  co_channel :: string
  co_initial_credits :: u32
  co_resume_sequence :: u64

record CreditUpdate =
  cd_channel :: string
  cd_credits :: u32

record PolicyRequest =
  pq_policy_version :: u32
  pq_role :: u32
  pq_requested_capabilities :: u32
  pq_device_locked :: bool
  pq_physical_confirmation :: bool

text \<open>A request: the tag and, for each member of the content union, its value when the union is
  read as that member.\<close>

record PB_Main =
  mn_command_id :: u32
  mn_has_next :: bool
  mn_which_content :: Tag
  mn_pairing_hello :: PairingHello
  mn_pairing_confirm :: PairingConfirm
  mn_session_envelope :: SessionEnvelope
  mn_resume_request :: ResumeRequest
  mn_channel_open :: ChannelOpen
  mn_credit_update :: CreditUpdate
  mn_policy_request :: PolicyRequest
  mn_cancel_command_id :: u64

datatype CommandStatus =
    CommandStatus_OK | CommandStatus_ERROR_DECODE | CommandStatus_ERROR_NOT_IMPLEMENTED
  | CommandStatus_ERROR_INVALID_PARAMETERS

datatype ReplyContent =
    EmptyReply
  | ChallengeReply PairingChallenge bool
  | ResumeReply "(bytes \<times> u64) option"
  | ChannelOpenedReply string u32 u64
  | PolicyReply PoisonPolicyDecision
  | CancelledReply u64 bool
  | ServiceReply bytes

record Reply =
  rp_command_id :: u32
  rp_status :: CommandStatus
  rp_content :: ReplyContent

datatype Wire = Plain Reply | Sealed SessionEnvelope

section \<open>State\<close>

datatype RpcOwner = RpcOwnerUnknown | RpcOwnerBle | RpcOwnerUsb | RpcOwnerUart | RpcOwnerCount

text \<open>A cancellation slot; the callback and its context are named by one number.\<close>

record RpcCancellationSlot =
  cs_active :: bool
  cs_command_id :: u32
  cs_context :: nat

definition cancellation_zero :: RpcCancellationSlot where
  "cancellation_zero = \<lparr> cs_active = False, cs_command_id = 0, cs_context = 0 \<rparr>"

text \<open>A call of a message handler, for the trace: its tag, whether it was made inside the secure
  dispatch, and the session, the client records and the channels it found.\<close>

record Executed =
  ex_tag :: Tag
  ex_secure :: bool
  ex_session :: PoisonSession
  ex_records :: "PoisonPairingRecord list"
  ex_channels :: PoisonChannelTable

text \<open>\<open>RpcSession\<close> with its \<open>RpcPoisonSystem\<close>, the parts of \<open>Rpc\<close> and of the services they
  share, the bytes sent and the trace.  \<open>secure_session\<close> is NULL or the address of the
  session of the handshake, so it is one bit.  \<open>rc_halted\<close>: a \<open>furi_check\<close> has failed.\<close>

record Connection =
  rc_owner :: RpcOwner
  rc_decode_error :: bool
  rc_terminated :: bool
  rc_halted :: bool
  rc_secure_dispatch_active :: bool
  rc_secure_transport_active :: bool
  rc_secure_session :: bool
  rc_secure_channel :: string
  rc_secure_acknowledgement :: u64
  rc_secure_channels :: PoisonChannelTable
  rc_cancellations :: "RpcCancellationSlot list"
  rc_handshake :: PoisonPairingHandshake
  rc_resume_token :: bytes
  rc_resume_issued :: bool
  rc_pairing_store_ready :: bool
  rc_trusted_identity :: bool
  rc_identity_session_counted :: bool
  rc_registry :: PairingRegistry
  rc_resume_slots :: "PoisonSessionResumeSlot list"
  rc_audit :: PoisonAuditChain
  rc_wire :: "Wire list"
  rc_trace :: "Executed list"

abbreviation rc_session :: "Connection \<Rightarrow> PoisonSession" where
  "rc_session c \<equiv> ph_session (rc_handshake c)"

definition set_session :: "PoisonSession \<Rightarrow> Connection \<Rightarrow> Connection" where
  "set_session s c = c \<lparr> rc_handshake := (rc_handshake c) \<lparr> ph_session := s \<rparr> \<rparr>"

text \<open>What the connection is given: the ciphers, the registry's authentication, the memory
  layout of audit events, the codec of the inner messages (\<open>en_decode\<close> succeeds only when it
  consumes every byte, \<open>en_encode\<close> only when the result fits the payload of an envelope) and
  the tags other services have registered a handler for.\<close>

record RpcEnv =
  en_crypto :: Crypto
  en_auth :: PairingAuth
  en_event_bytes :: "PoisonAuditEvent \<Rightarrow> bytes"
  en_decode :: "bytes \<Rightarrow> PB_Main option"
  en_encode :: "Reply \<Rightarrow> bytes option"
  en_registered :: "Tag \<Rightarrow> bool"

text \<open>What a handler of another service does to the connection.\<close>

datatype ServiceAction = SendReply Reply | RegisterCancellable u32 nat | CompleteCancellable u32 nat

text \<open>What the outside answers while one message is handled: the clock, the clock when the audit
  event is made, the random values, the user at the device, the storage, the cancelled
  service and the service whose handler runs.\<close>

record RpcInput =
  in_now_ms :: u64
  in_audit_now_ms :: u64
  in_pairing :: PairingRandom
  in_token_fills :: "bytes list"
  in_approved :: bool
  in_save :: SaveIo
  in_cancel_accepted :: bool
  in_service :: "ServiceAction list"

type_synonym Handler = "PB_Main \<Rightarrow> RpcInput \<Rightarrow> Connection \<Rightarrow> Connection option"

section \<open>Sending\<close>

text \<open>None: a \<open>furi_check\<close> failed and the device stops.\<close>

definition fallback_reply :: "u32 \<Rightarrow> Reply" where
  "fallback_reply command_id = \<lparr> rp_command_id = command_id,
     rp_status = CommandStatus_ERROR_INVALID_PARAMETERS, rp_content = EmptyReply \<rparr>"

definition rpc_send_secure :: "RpcEnv \<Rightarrow> Reply \<Rightarrow> Connection \<Rightarrow> Connection option" where
  "rpc_send_secure env message c =
    do { plaintext \<leftarrow> (case en_encode env message of
                         Some p \<Rightarrow> Some p
                       | None \<Rightarrow> en_encode env (fallback_reply (rp_command_id message)));
         (case poison_session_encrypt_tx (en_crypto env) (rc_session c)
                 (rc_secure_acknowledgement c) (Some (rc_secure_channel c)) (Some plaintext)
                 (length plaintext) of
            (session, r) \<Rightarrow>
              if er_result r \<noteq> PoisonSessionResultOk then None
              else Some ((set_session session c)
                \<lparr> rc_wire := rc_wire c @ [Sealed \<lparr>
                    se_protocol_version = ps_protocol_version (rc_session c),
                    se_session_id = ps_session_id (rc_session c),
                    se_sequence = the (er_sequence r),
                    se_acknowledgement = rc_secure_acknowledgement c,
                    se_channel = rc_secure_channel c,
                    se_payload = fst (the (er_sealed r)),
                    se_authentication_tag = snd (the (er_sealed r)) \<rparr>] \<rparr>)) }"

definition rpc_send_plain :: "Reply \<Rightarrow> Connection \<Rightarrow> Connection" where
  "rpc_send_plain message c = c \<lparr> rc_wire := rc_wire c @ [Plain message] \<rparr>"

definition rpc_send :: "RpcEnv \<Rightarrow> Reply \<Rightarrow> Connection \<Rightarrow> Connection option" where
  "rpc_send env message c =
    (if rc_secure_transport_active c \<and> rc_secure_session c \<and>
        ps_state (rc_session c) = PoisonSessionActive
     then rpc_send_secure env message c
     else Some (rpc_send_plain message c))"

definition rpc_send_and_release_empty :: "RpcEnv \<Rightarrow> u32 \<Rightarrow> CommandStatus \<Rightarrow> Connection \<Rightarrow>
    Connection option" where
  "rpc_send_and_release_empty env command_id status c =
     rpc_send env \<lparr> rp_command_id = command_id, rp_status = status, rp_content = EmptyReply \<rparr> c"

abbreviation answer :: "PB_Main \<Rightarrow> ReplyContent \<Rightarrow> Reply" where
  "answer request content \<equiv> \<lparr> rp_command_id = mn_command_id request,
     rp_status = CommandStatus_OK, rp_content = content \<rparr>"

abbreviation refuse :: "RpcEnv \<Rightarrow> PB_Main \<Rightarrow> Connection \<Rightarrow> Connection option" where
  "refuse env request c \<equiv> rpc_send_and_release_empty env (mn_command_id request)
     CommandStatus_ERROR_INVALID_PARAMETERS c"

section \<open>The secure transport of the session\<close>

definition rpc_session_activate_secure_transport :: "Connection \<Rightarrow> Connection option" where
  "rpc_session_activate_secure_transport c =
    (if ps_state (rc_session c) \<noteq> PoisonSessionActive then None
     else Some (c \<lparr> rc_secure_transport_active := True, rc_secure_session := True,
                    rc_secure_channel := ''rpc'', rc_secure_acknowledgement := 0 \<rparr>))"

definition rpc_session_revoke_secure_transport :: "Connection \<Rightarrow> Connection" where
  "rpc_session_revoke_secure_transport c =
    (let session_id = (if rc_secure_session c then ps_session_id (rc_session c) else 0);
         c1 = (if rc_secure_session c
               then set_session (fst (poison_session_revoke (rc_session c))) c else c);
         c2 = c1 \<lparr> rc_secure_dispatch_active := False, rc_secure_transport_active := False,
                   rc_secure_session := False, rc_secure_channel := '''',
                   rc_secure_acknowledgement := 0,
                   rc_secure_channels := poison_channel_table_init \<rparr>
     in if session_id \<noteq> 0
        then c2 \<lparr> rc_resume_slots := rpc_session_revoke_resume (rc_resume_slots c2) session_id \<rparr>
        else c2)"

definition rpc_session_open_secure_channel :: "string \<Rightarrow> u32 \<Rightarrow> u64 \<Rightarrow> Connection \<Rightarrow>
    Connection \<times> (u32 \<times> u64) option" where
  "rpc_session_open_secure_channel channel credits next_sequence c =
    (case poison_channel_open_at (rc_secure_channels c) (Some channel) credits next_sequence of
       (table, channel_index, r) \<Rightarrow>
         let c1 = c \<lparr> rc_secure_channels := table \<rparr>
         in if r \<noteq> PoisonChannelResultOk then (c1, None)
            else (case poison_channel_get table (the channel_index) of
                    None \<Rightarrow> (c1, None)
                  | Some opened \<Rightarrow> (c1, Some (ch_credits opened, ch_next_tx_sequence opened))))"

definition rpc_session_add_secure_channel_credits :: "string \<Rightarrow> u32 \<Rightarrow> Connection \<Rightarrow>
    Connection \<times> bool" where
  "rpc_session_add_secure_channel_credits channel credits c =
    (if credits = 0 then (c, False)
     else case poison_channel_find (rc_secure_channels c) (Some channel) of
            None \<Rightarrow> (c, False)
          | Some channel_index \<Rightarrow>
              (case poison_channel_add_credits (rc_secure_channels c) channel_index credits of
                 (table, r) \<Rightarrow> (c \<lparr> rc_secure_channels := table \<rparr>, r = PoisonChannelResultOk)))"

definition rpc_session_secure_channel_is_open :: "string \<Rightarrow> Connection \<Rightarrow> bool" where
  "rpc_session_secure_channel_is_open channel c \<longleftrightarrow>
     poison_channel_find (rc_secure_channels c) (Some channel) \<noteq> None"

definition rpc_session_get_secure_identity :: "Connection \<Rightarrow> (u64 \<times> PoisonRole) option" where
  "rpc_session_get_secure_identity c =
    (if rc_secure_dispatch_active c \<and> rc_secure_session c \<and>
        ps_state (rc_session c) = PoisonSessionActive
     then Some (ps_session_id (rc_session c), ps_role (rc_session c)) else None)"

definition rpc_session_get_secure_authorization ::
    "Connection \<Rightarrow> (u64 \<times> PoisonRole \<times> PoisonCapability) option" where
  "rpc_session_get_secure_authorization c =
    (if rc_secure_dispatch_active c \<and> rc_secure_session c \<and>
        ps_state (rc_session c) = PoisonSessionActive
     then Some (ps_session_id (rc_session c), ps_role (rc_session c),
                ps_granted_capabilities (rc_session c)) else None)"

definition rpc_session_get_secure_actor_identity :: "Connection \<Rightarrow> bytes option" where
  "rpc_session_get_secure_actor_identity c =
    (if rc_secure_dispatch_active c \<and> rc_secure_session c \<and>
        ps_state (rc_session c) = PoisonSessionActive
     then (if or_bytes 32 (ps_client_identity_digest (rc_session c)) = 0 then None
           else Some (take 32 (ps_client_identity_digest (rc_session c))))
     else None)"

section \<open>Cancellation\<close>

abbreviation "RPC_CANCELLATION_SLOT_COUNT \<equiv> (4 :: nat)"

definition rpc_session_register_cancellable :: "u32 \<Rightarrow> nat \<Rightarrow> RpcCancellationSlot list \<Rightarrow>
    RpcCancellationSlot list \<times> bool" where
  "rpc_session_register_cancellable command_id callback_context slots =
    (if command_id = 0 then (slots, False)
     else if find_index (\<lambda>s. cs_active s \<and> cs_command_id s = command_id) slots \<noteq> None
     then (slots, False)
     else case find_index (\<lambda>s. \<not> cs_active s) slots of
            None \<Rightarrow> (slots, False)
          | Some available \<Rightarrow>
              (slots[available := \<lparr> cs_active = True, cs_command_id = command_id,
                 cs_context = callback_context \<rparr>], True))"

definition rpc_session_complete_cancellable :: "u32 \<Rightarrow> nat \<Rightarrow> RpcCancellationSlot list \<Rightarrow>
    RpcCancellationSlot list" where
  "rpc_session_complete_cancellable command_id callback_context slots =
    (if command_id = 0 then slots
     else case find_index (\<lambda>s. cs_active s \<and> cs_command_id s = command_id \<and>
                               cs_context s = callback_context) slots of
            None \<Rightarrow> slots
          | Some index \<Rightarrow> slots[index := cancellation_zero])"

definition rpc_cancel_request_process :: "RpcEnv \<Rightarrow> Handler" where
  "rpc_cancel_request_process env request i c =
    (let proper = (mn_which_content request = ''poison_cancel_request'' \<and> \<not> mn_has_next request);
         target_id = (if proper then mn_cancel_command_id request else 0);
         slot = (if proper \<and> target_id > 0 \<and> target_id \<le> ucast UINT32_MAX
                 then find_index (\<lambda>s. cs_active s \<and> cs_command_id s = ucast target_id)
                        (rc_cancellations c)
                 else None);
         was_accepted = (slot \<noteq> None \<and> in_cancel_accepted i);
         c1 = (if was_accepted
               then c \<lparr> rc_cancellations := (rc_cancellations c)[the slot := cancellation_zero] \<rparr>
               else c)
     in rpc_send env (answer request (CancelledReply target_id was_accepted)) c1)"

section \<open>Pairing\<close>

definition rpc_poison_count_identity_session :: "RpcEnv \<Rightarrow> Connection \<Rightarrow> Connection \<times> bool" where
  "rpc_poison_count_identity_session env c =
    (if rc_identity_session_counted c then (c, False)
     else case poison_pairing_registry_session_open (en_auth env) (rc_registry c)
                 (Some (ps_client_identity_digest (rc_session c))) of
            (reg, opened) \<Rightarrow>
              (c \<lparr> rc_registry := reg, rc_identity_session_counted := opened \<rparr>, opened))"

definition rpc_poison_identity_allowed :: "RpcEnv \<Rightarrow> Connection \<Rightarrow> Connection \<times> bool" where
  "rpc_poison_identity_allowed env c =
    (if \<not> rc_pairing_store_ready c then (c, False)
     else case poison_pairing_registry_find (en_auth env) (rc_registry c)
                 (Some (ps_client_identity_digest (rc_session c))) of
            (reg, found) \<Rightarrow> (c \<lparr> rc_registry := reg \<rparr>, found \<noteq> None))"

text \<open>At most four attempts; the list holds what the generator fills in.\<close>

definition rpc_poison_random_resume_token :: "bytes list \<Rightarrow> bytes option" where
  "rpc_poison_random_resume_token fills =
     find (\<lambda>t. or_bytes POISON_SESSION_RESUME_TOKEN_BYTES t \<noteq> 0) (take 4 fills)"

text \<open>\<open>snprintf(metadata, ..., "name=%.24s;role=%lu;returning=%s", ...)\<close>; the text is at most 50
  characters long and always fits.\<close>

definition pairing_audit_metadata :: "PoisonPairingHandshake \<Rightarrow> bool \<Rightarrow> string" where
  "pairing_audit_metadata handshake returning_client =
     ''name='' @ take 24 (ph_client_name handshake) @ '';role='' @
     [dec_digit (role_index (ph_requested_role handshake))] @ '';returning='' @
     (if returning_client then ''yes'' else ''no'')"

definition rpc_poison_pairing_audit :: "RpcEnv \<Rightarrow> u64 \<Rightarrow> PoisonPairingHandshake \<Rightarrow> bool \<Rightarrow> bool \<Rightarrow>
    PoisonAuditChain \<Rightarrow> PoisonAuditChain" where
  "rpc_poison_pairing_audit env now_ms handshake returning_client was_allowed chain =
     fst (poison_audit_append (en_event_bytes env) (cr_sha256 (en_crypto env)) chain
       (Some (ph_client_identity_digest handshake)) (Some ''pairing.authenticate'')
       (Some ''client'')
       (if was_allowed then PoisonAuditDecisionAllowed else PoisonAuditDecisionDenied) now_ms
       (Some (ph_transcript_digest handshake))
       (Some (pairing_audit_metadata handshake returning_client)) audit_event_zero)"

definition identity_trusted :: "PoisonPairingHandshake \<Rightarrow> (PoisonPairingRecord \<times> nat) option \<Rightarrow> bool" where
  "identity_trusted handshake found =
     (case found of None \<Rightarrow> False
      | Some (trusted_record, _) \<Rightarrow> pp_role trusted_record = ph_requested_role handshake \<and>
          pp_client_name trusted_record = ph_client_name handshake)"

definition rpc_poison_pairing_hello_process :: "RpcEnv \<Rightarrow> Handler" where
  "rpc_poison_pairing_hello_process env request i c =
    (if mn_which_content request \<noteq> ''poison_pairing_hello'' \<or> mn_has_next request \<or>
        \<not> rc_pairing_store_ready c
     then refuse env request c
     else case poison_pairing_begin (en_crypto env) (in_pairing i) (rc_handshake c)
                 (mn_pairing_hello request) (in_now_ms i) of
            (handshake, None) \<Rightarrow> refuse env request (c \<lparr> rc_handshake := handshake \<rparr>)
          | (handshake, Some challenge) \<Rightarrow>
              (case poison_pairing_registry_find (en_auth env) (rc_registry c)
                      (Some (ph_client_identity_digest handshake)) of
                 (reg, found) \<Rightarrow>
                   rpc_send env (answer request (ChallengeReply challenge (identity_trusted handshake found)))
                     (c \<lparr> rc_handshake := handshake, rc_registry := reg,
                          rc_trusted_identity := identity_trusted handshake found \<rparr>)))"

text \<open>The part of the confirmation that decides: the state it leaves and whether the client is
  paired.\<close>

definition pairing_confirm_outcome :: "RpcEnv \<Rightarrow> PB_Main \<Rightarrow> RpcInput \<Rightarrow> Connection \<Rightarrow> Connection \<times> bool" where
  "pairing_confirm_outcome env request i c =
    (let device_approved = (rc_trusted_identity c \<or> in_approved i)
     in case poison_pairing_complete (en_crypto env) (rc_handshake c)
               (mn_pairing_confirm request) (in_now_ms i) device_approved of
          (handshake, completed) \<Rightarrow>
            let c1 = c \<lparr> rc_handshake := handshake \<rparr>;
                added = (if completed \<and> \<not> rc_trusted_identity c
                         then case poison_pairing_registry_add (en_auth env) (in_save i)
                                     (rc_registry c) (Some (ph_client_identity_digest handshake))
                                     (Some (ph_client_name handshake))
                                     (ph_requested_role handshake) of
                                (reg, stored) \<Rightarrow>
                                  let c2 = c1 \<lparr> rc_registry := reg \<rparr>
                                  in (if stored then c2
                                      else set_session (fst (poison_session_revoke (rc_session c2))) c2,
                                      stored)
                         else (c1, completed))
            in if snd added
               then case rpc_poison_count_identity_session env (fst added) of
                      (c3, counted) \<Rightarrow>
                        if counted then (c3, True)
                        else (set_session (fst (poison_session_revoke (rc_session c3))) c3, False)
               else added)"

definition rpc_poison_pairing_confirm_process :: "RpcEnv \<Rightarrow> Handler" where
  "rpc_poison_pairing_confirm_process env request i c =
    (if mn_which_content request \<noteq> ''poison_pairing_confirm'' \<or> mn_has_next request \<or>
        \<not> ph_pending (rc_handshake c)
     then refuse env request c
     else case pairing_confirm_outcome env request i c of
            (c1, paired) \<Rightarrow>
              do { c2 \<leftarrow> rpc_send_and_release_empty env (mn_command_id request)
                          (if paired then CommandStatus_OK
                           else CommandStatus_ERROR_INVALID_PARAMETERS)
                          (c1 \<lparr> rc_audit := rpc_poison_pairing_audit env (in_audit_now_ms i)
                                  (rc_handshake c1) (rc_trusted_identity c1) paired (rc_audit c1) \<rparr>);
                   (if paired then rpc_session_activate_secure_transport c2 else Some c2) })"

section \<open>Resuming a session\<close>

definition resume_reply :: "PB_Main \<Rightarrow> bool \<Rightarrow> bytes \<Rightarrow> u64 \<Rightarrow> Reply" where
  "resume_reply request was_accepted token next_sequence =
     answer request (ResumeReply (if was_accepted then Some (token, next_sequence) else None))"

text \<open>Inside the secure dispatch the request draws a token for the running session.\<close>

definition resume_issue :: "RpcEnv \<Rightarrow> Handler" where
  "resume_issue env request i c =
    (case rpc_poison_identity_allowed env c of
       (c1, identity_ok) \<Rightarrow>
         let guards = (identity_ok \<and> rq_resume_token (mn_resume_request request) = [] \<and>
               (case rpc_session_get_secure_identity c1 of None \<Rightarrow> False
                | Some (active_session_id, _) \<Rightarrow>
                    active_session_id = rq_session_id (mn_resume_request request)) \<and>
               ps_next_tx_sequence (rc_session c1) < UINT64_MAX)
         in if \<not> guards then rpc_send env (resume_reply request False [] 0) c1
            else case rpc_poison_random_resume_token (in_token_fills i) of
                   None \<Rightarrow> rpc_send env (resume_reply request False [] 0)
                             (c1 \<lparr> rc_resume_token := zeros POISON_SESSION_RESUME_TOKEN_BYTES \<rparr>)
                 | Some token \<Rightarrow>
                     rpc_send env
                       (resume_reply request True token (ps_next_tx_sequence (rc_session c1) + 1))
                       (c1 \<lparr> rc_resume_token := token, rc_resume_issued := True \<rparr>))"

text \<open>Outside it the request takes a stored session, and a client that is still registered
  continues it under a new token.\<close>

definition resume_take_over :: "RpcEnv \<Rightarrow> PB_Main \<Rightarrow> RpcInput \<Rightarrow> Connection \<Rightarrow> Connection \<times> bool" where
  "resume_take_over env request i c =
    (let wanted = mn_resume_request request
     in if length (rq_resume_token wanted) \<noteq> POISON_SESSION_RESUME_TOKEN_BYTES then (c, False)
     else case rpc_session_take_resume (en_crypto env) (rc_resume_slots c) (rq_session_id wanted)
                 (rq_resume_token wanted) (rq_last_received_sequence wanted) (in_now_ms i) of
            (slots, None) \<Rightarrow> (c \<lparr> rc_resume_slots := slots \<rparr>, False)
          | (slots, Some session) \<Rightarrow>
              let c1 = set_session session (c \<lparr> rc_resume_slots := slots \<rparr>);
                  revoked = (\<lambda>d. (set_session (fst (poison_session_revoke (rc_session d))) d, False))
              in case rpc_poison_identity_allowed env c1 of
                   (c2, identity_ok) \<Rightarrow>
                     if \<not> identity_ok then revoked c2
                     else case rpc_poison_count_identity_session env c2 of
                            (c3, counted) \<Rightarrow> if counted then (c3, True) else revoked c3)"

definition resume_restore :: "RpcEnv \<Rightarrow> Handler" where
  "resume_restore env request i c =
    (case rpc_poison_random_resume_token (in_token_fills i) of
       None \<Rightarrow> rpc_send env (resume_reply request False [] 0) c
     | Some rotated_token \<Rightarrow>
         (case resume_take_over env request i c of
            (c1, resumed) \<Rightarrow>
              if \<not> resumed then rpc_send env (resume_reply request False [] 0) c1
              else do { c2 \<leftarrow> rpc_send env
                                (resume_reply request True rotated_token
                                   (ps_next_tx_sequence (rc_session c1)))
                                (c1 \<lparr> rc_resume_token := rotated_token, rc_resume_issued := True \<rparr>);
                        rpc_session_activate_secure_transport c2 }))"

definition rpc_poison_resume_request_process :: "RpcEnv \<Rightarrow> Handler" where
  "rpc_poison_resume_request_process env request i c =
    (if mn_which_content request \<noteq> ''poison_resume_request'' \<or> mn_has_next request
     then rpc_send env (resume_reply request False [] 0) c
     else if rc_secure_dispatch_active c then resume_issue env request i c
     else resume_restore env request i c)"

section \<open>The handlers of the inner messages\<close>

definition rpc_poison_policy_request_process :: "RpcEnv \<Rightarrow> Handler" where
  "rpc_poison_policy_request_process env request i c =
    (let p = mn_policy_request request;
         known_capabilities = (0xFF :: PoisonCapability)
     in if mn_which_content request \<noteq> ''poison_policy_request'' \<or> mn_has_next request \<or>
           \<not> rc_secure_dispatch_active c
        then refuse env request c
        else if pq_policy_version p \<noteq> 1 \<or> unat (pq_role p) \<ge> role_index PoisonRoleCount \<or>
                pq_requested_capabilities p = 0 \<or>
                pq_requested_capabilities p AND NOT known_capabilities \<noteq> 0 \<or>
                (case rpc_session_get_secure_identity c of None \<Rightarrow> True
                 | Some (_, authenticated_role) \<Rightarrow>
                     role_index authenticated_role \<noteq> unat (pq_role p))
        then refuse env request c
        else rpc_send env (answer request (PolicyReply
               (poison_policy_evaluate (ps_role (rc_session c)) (pq_requested_capabilities p)
                  (pq_device_locked p) (pq_physical_confirmation p) (pq_policy_version p)))) c)"

definition rpc_poison_channel_open_process :: "RpcEnv \<Rightarrow> Handler" where
  "rpc_poison_channel_open_process env request i c =
    (let wanted = mn_channel_open request
     in if mn_which_content request \<noteq> ''poison_channel_open'' \<or> mn_has_next request \<or>
           \<not> rc_secure_dispatch_active c
        then refuse env request c
        else if \<not> (co_channel wanted = ''rpc'' \<and> co_initial_credits wanted > 0)
        then refuse env request c
        else case rpc_session_open_secure_channel (co_channel wanted) (co_initial_credits wanted)
                    (co_resume_sequence wanted) c of
               (c1, None) \<Rightarrow> refuse env request c1
             | (c1, Some (granted_credits, granted_sequence)) \<Rightarrow>
                 rpc_send env (answer request
                   (ChannelOpenedReply (co_channel wanted) granted_credits granted_sequence)) c1)"

definition rpc_poison_credit_update_process :: "RpcEnv \<Rightarrow> Handler" where
  "rpc_poison_credit_update_process env request i c =
    (let proper = (mn_which_content request = ''poison_credit_update'' \<and> \<not> mn_has_next request \<and>
                   rc_secure_dispatch_active c)
     in case (if proper
              then rpc_session_add_secure_channel_credits (cd_channel (mn_credit_update request))
                     (cd_credits (mn_credit_update request)) c
              else (c, False)) of
          (c1, was_accepted) \<Rightarrow>
            rpc_send_and_release_empty env (mn_command_id request)
              (if was_accepted then CommandStatus_OK
               else CommandStatus_ERROR_INVALID_PARAMETERS) c1)"

definition rpc_close_session_process :: "RpcEnv \<Rightarrow> Handler" where
  "rpc_close_session_process env request i c =
    do { c1 \<leftarrow> rpc_send_and_release_empty env (mn_command_id request) CommandStatus_OK c;
         Some (if rc_secure_dispatch_active c1 then rpc_session_revoke_secure_transport c1
               else c1) }"

text \<open>The handlers of the other services: what they do is an input.\<close>

fun service_action :: "RpcEnv \<Rightarrow> ServiceAction \<Rightarrow> Connection \<Rightarrow> Connection option" where
  "service_action env (SendReply reply) c = rpc_send env reply c"
| "service_action env (RegisterCancellable k x) c = Some (c \<lparr> rc_cancellations :=
     fst (rpc_session_register_cancellable k x (rc_cancellations c)) \<rparr>)"
| "service_action env (CompleteCancellable k x) c = Some (c \<lparr> rc_cancellations :=
     rpc_session_complete_cancellable k x (rc_cancellations c) \<rparr>)"

fun service_actions :: "RpcEnv \<Rightarrow> ServiceAction list \<Rightarrow> Connection \<Rightarrow> Connection option" where
  "service_actions env [] c = Some c"
| "service_actions env (a # as) c = Option.bind (service_action env a c) (service_actions env as)"

definition service_process :: "RpcEnv \<Rightarrow> Handler" where
  "service_process env request i c = service_actions env (in_service i) c"

definition inner_handler :: "RpcEnv \<Rightarrow> Tag \<Rightarrow> Handler option" where
  "inner_handler env tag =
    (if tag = ''stop_session'' then Some (rpc_close_session_process env)
     else if tag = ''poison_cancel_request'' then Some (rpc_cancel_request_process env)
     else if tag = ''poison_policy_request'' then Some (rpc_poison_policy_request_process env)
     else if tag = ''poison_resume_request'' then Some (rpc_poison_resume_request_process env)
     else if tag = ''poison_channel_open'' then Some (rpc_poison_channel_open_process env)
     else if tag = ''poison_credit_update'' then Some (rpc_poison_credit_update_process env)
     else if tag \<noteq> '''' \<and> en_registered env tag then Some (service_process env)
     else None)"

section \<open>The secure dispatch\<close>

abbreviation "RPC_SECURE_REQUEST_PAYLOAD_MAX \<equiv> (768 :: nat)"

text \<open>\<open>handler->message_handler(...)\<close>, with the call noted in the trace.\<close>

definition note_call :: "Tag \<Rightarrow> Connection \<Rightarrow> Connection" where
  "note_call tag c = c \<lparr> rc_trace := rc_trace c @ [\<lparr> ex_tag = tag,
     ex_secure = rc_secure_dispatch_active c, ex_session = rc_session c,
     ex_records = pst_records (reg_store (rc_registry c)),
     ex_channels = rc_secure_channels c \<rparr>] \<rparr>"

definition inner_refused :: "Tag \<Rightarrow> bool" where
  "inner_refused tag \<longleftrightarrow> tag \<in> {'''', ''poison_session_envelope'', ''poison_pairing_hello'',
     ''poison_pairing_challenge'', ''poison_pairing_confirm''}"

definition secure_authorized :: "Connection \<Rightarrow> string \<Rightarrow> Tag \<Rightarrow> bool" where
  "secure_authorized c channel tag \<longleftrightarrow>
     (tag = ''poison_channel_open'' \<or> rpc_session_secure_channel_is_open channel c) \<and>
     rpc_secure_required_capabilities tag \<noteq> 0 \<and>
     ps_granted_capabilities (rc_session c) AND rpc_secure_required_capabilities tag =
       rpc_secure_required_capabilities tag"

definition enter_dispatch :: "string \<Rightarrow> u64 \<Rightarrow> Connection \<Rightarrow> Connection" where
  "enter_dispatch channel acknowledgement c =
     c \<lparr> rc_secure_transport_active := True, rc_secure_dispatch_active := True,
         rc_secure_session := True, rc_secure_channel := channel,
         rc_secure_acknowledgement := acknowledgement \<rparr>"

definition rpc_session_dispatch_secure_payload ::
    "RpcEnv \<Rightarrow> string \<Rightarrow> u64 \<Rightarrow> bytes \<Rightarrow> RpcInput \<Rightarrow> Connection \<Rightarrow> Connection option" where
  "rpc_session_dispatch_secure_payload env channel acknowledgement payload i c =
    (if channel \<noteq> ''rpc'' \<or> payload = [] \<or> length payload > RPC_SECURE_REQUEST_PAYLOAD_MAX
     then Some c
     else case en_decode env payload of
            None \<Rightarrow> Some c
          | Some inner \<Rightarrow>
              let tag = mn_which_content inner
              in if inner_refused tag then Some c
                 else
                   let c1 = enter_dispatch channel acknowledgement c
                   in do { c2 \<leftarrow> (if \<not> secure_authorized c1 channel tag
                                  then refuse env inner c1
                                  else case inner_handler env tag of
                                         Some handler \<Rightarrow> handler inner i (note_call tag c1)
                                       | None \<Rightarrow> rpc_send_and_release_empty env (mn_command_id inner)
                                                   CommandStatus_ERROR_NOT_IMPLEMENTED c1);
                           Some (c2 \<lparr> rc_secure_dispatch_active := False \<rparr>) })"

definition rpc_poison_session_envelope_process :: "RpcEnv \<Rightarrow> Handler" where
  "rpc_poison_session_envelope_process env request i c =
    (if mn_which_content request \<noteq> ''poison_session_envelope'' \<or> mn_has_next request \<or>
        ps_state (rc_session c) \<noteq> PoisonSessionActive
     then Some c
     else case rpc_poison_identity_allowed env c of
       (c1, identity_ok) \<Rightarrow>
         if \<not> identity_ok then Some (rpc_session_revoke_secure_transport c1)
         else let envelope = mn_session_envelope request
         in if se_session_id envelope \<noteq> ps_session_id (rc_session c1) \<or>
               length (se_authentication_tag envelope) \<noteq> POISON_SESSION_AUTH_TAG_BYTES \<or>
               se_payload envelope = []
            then Some c1
            else case poison_session_decrypt_rx (en_crypto env) (rc_session c1)
                        (se_sequence envelope) (se_acknowledgement envelope)
                        (Some (se_channel envelope)) (Some (se_payload envelope))
                        (length (se_payload envelope)) (Some (se_authentication_tag envelope)) of
                   (session, plaintext, result) \<Rightarrow>
                     if result \<noteq> PoisonSessionResultOk then Some (set_session session c1)
                     else rpc_session_dispatch_secure_payload env (se_channel envelope)
                            (se_sequence envelope) (the plaintext) i (set_session session c1))"

section \<open>The worker\<close>

definition rpc_handler :: "RpcEnv \<Rightarrow> Tag \<Rightarrow> Handler option" where
  "rpc_handler env tag =
    (if tag = ''poison_pairing_hello'' then Some (rpc_poison_pairing_hello_process env)
     else if tag = ''poison_pairing_confirm'' then Some (rpc_poison_pairing_confirm_process env)
     else if tag = ''poison_session_envelope'' then Some (rpc_poison_session_envelope_process env)
     else inner_handler env tag)"

definition rpc_session_plaintext_allowed :: "Connection \<Rightarrow> Tag \<Rightarrow> bool" where
  "rpc_session_plaintext_allowed c content =
    (if rc_secure_transport_active c then content = ''poison_session_envelope''
     else if rc_owner c \<noteq> RpcOwnerUart then True
     else content \<in> {''poison_pairing_hello'', ''poison_pairing_confirm'', ''poison_resume_request'',
                     ''poison_session_envelope''})"

definition message_decode_failed :: "RpcEnv \<Rightarrow> Connection \<Rightarrow> Connection option" where
  "message_decode_failed env c =
    (if rc_terminated c then Some c
     else rpc_send_and_release_empty env 0 CommandStatus_ERROR_DECODE
            (c \<lparr> rc_decode_error := True \<rparr>))"

text \<open>One round of the loop for a message that was decoded.\<close>

definition rpc_session_worker_message :: "RpcEnv \<Rightarrow> Handler" where
  "rpc_session_worker_message env request i c =
    (let tag = mn_which_content request
     in if \<not> rpc_session_plaintext_allowed c tag then refuse env request c
        else case rpc_handler env tag of
               Some handler \<Rightarrow> handler request i (note_call tag c)
             | None \<Rightarrow>
                 if tag = '''' then message_decode_failed env c
                 else if \<not> rc_terminated c
                 then rpc_send_and_release_empty env (mn_command_id request)
                        CommandStatus_ERROR_NOT_IMPLEMENTED c
                 else Some c)"

section \<open>Opening and closing\<close>

definition rpc_session_open :: "RpcEnv \<Rightarrow> RpcOwner \<Rightarrow> PairingRegistry \<Rightarrow> PoisonSessionResumeSlot list \<Rightarrow>
    PoisonAuditChain \<Rightarrow> Connection" where
  "rpc_session_open env owner reg slots chain =
    (case poison_pairing_registry_init (en_auth env) reg of (registry1, ready) \<Rightarrow>
       \<lparr> rc_owner = owner, rc_decode_error = False, rc_terminated = False, rc_halted = False,
         rc_secure_dispatch_active = False, rc_secure_transport_active = False,
         rc_secure_session = False, rc_secure_channel = '''', rc_secure_acknowledgement = 0,
         rc_secure_channels = poison_channel_table_init,
         rc_cancellations = replicate RPC_CANCELLATION_SLOT_COUNT cancellation_zero,
         rc_handshake = handshake_zero, rc_resume_token = zeros POISON_SESSION_RESUME_TOKEN_BYTES,
         rc_resume_issued = False, rc_pairing_store_ready = ready, rc_trusted_identity = False,
         rc_identity_session_counted = False, rc_registry = registry1, rc_resume_slots = slots,
         rc_audit = chain, rc_wire = [], rc_trace = [] \<rparr>)"

text \<open>\<open>rpc_system_poison_free\<close>, when the connection ends.\<close>

definition rpc_system_poison_free :: "RpcEnv \<Rightarrow> u64 \<Rightarrow> Connection \<Rightarrow> Connection" where
  "rpc_system_poison_free env now_ms c =
    (let c1 = (if rc_resume_issued c \<and> ps_state (rc_session c) = PoisonSessionActive
               then c \<lparr> rc_resume_slots := fst (rpc_session_store_resume (en_crypto env)
                      (rc_resume_slots c) (rc_session c) (rc_resume_token c) now_ms) \<rparr>
               else c);
         c2 = (if rc_identity_session_counted c1
               then c1 \<lparr> rc_registry := poison_pairing_registry_session_close (en_auth env)
                      (rc_registry c1) (Some (ps_client_identity_digest (rc_session c1))) \<rparr>
               else c1)
     in c2 \<lparr> rc_handshake := handshake_zero,
             rc_resume_token := zeros POISON_SESSION_RESUME_TOKEN_BYTES, rc_resume_issued := False,
             rc_pairing_store_ready := False, rc_trusted_identity := False,
             rc_identity_session_counted := False \<rparr>)"

section \<open>The connection as a machine\<close>

text \<open>A message arrives, the bytes of one cannot be decoded, a service acts on its own, the
  transport disconnects, or another connection or the settings change what is shared.\<close>

datatype RpcEvent =
    Received PB_Main RpcInput
  | Undecodable
  | ServiceActs "ServiceAction list"
  | Disconnected u64
  | SharedChanged PairingRegistry "PoisonSessionResumeSlot list" PoisonAuditChain

definition halted_or :: "Connection \<Rightarrow> Connection option \<Rightarrow> Connection" where
  "halted_or c r = (case r of None \<Rightarrow> c \<lparr> rc_halted := True \<rparr> | Some c' \<Rightarrow> c')"

text \<open>After a decoding error the stream is never read again, and nothing happens to a
  connection that ended or on a device that stopped.\<close>

fun rpc_event :: "RpcEnv \<Rightarrow> RpcEvent \<Rightarrow> Connection \<Rightarrow> Connection" where
  "rpc_event env (Received request i) c =
     (if rc_decode_error c then c else halted_or c (rpc_session_worker_message env request i c))"
| "rpc_event env Undecodable c =
     (if rc_decode_error c then c else halted_or c (message_decode_failed env c))"
| "rpc_event env (ServiceActs as) c = halted_or c (service_actions env as c)"
| "rpc_event env (Disconnected now_ms) c =
     (rpc_system_poison_free env now_ms c) \<lparr> rc_terminated := True \<rparr>"
| "rpc_event env (SharedChanged reg slots chain) c =
     c \<lparr> rc_registry := reg, rc_resume_slots := slots, rc_audit := chain \<rparr>"

definition rpc_step :: "RpcEnv \<Rightarrow> RpcEvent \<Rightarrow> Connection \<Rightarrow> Connection \<times> unit" where
  "rpc_step env e c = (if rc_halted c \<or> rc_terminated c then c else rpc_event env e c, ())"

end
