(* ===== verification/TransportInvariant.thy ===== *)
theory TransportInvariant
  imports SecureTransport
begin

text \<open>What holds of every RPC connection that \<open>SecureTransport\<close> can reach: it stays well typed,
  commands run only as the session of a registered client permits, a removed client is cut
  off, and a repeated envelope runs nothing.\<close>

section \<open>Well-typed connections\<close>

text \<open>A session that is active holds its keys and no capability its role does not have.\<close>

definition session_typed :: "PoisonSession \<Rightarrow> bool" where
  "session_typed s \<longleftrightarrow> session_inv s \<and>
     (ps_state s = PoisonSessionActive \<longrightarrow> ps_directional_keys_set s \<and>
        ps_granted_capabilities s AND poison_policy_role_capabilities (ps_role s) =
          ps_granted_capabilities s)"

definition resumable_slot :: "PoisonSessionResumeSlot \<Rightarrow> bool" where
  "resumable_slot slot \<longleftrightarrow> (rs_active slot \<longrightarrow>
     ps_state (rs_session slot) = PoisonSessionActive \<and> session_typed (rs_session slot))"

text \<open>Only the channel \<open>rpc\<close> is ever opened, with a bounded credit.\<close>

definition rpc_channel_typed :: "PoisonChannel \<Rightarrow> bool" where
  "rpc_channel_typed ch \<longleftrightarrow>
     (ch_active ch \<longrightarrow> ch_name ch = ''rpc'' \<and> ch_credits ch \<le> POISON_CHANNEL_MAX_CREDITS)"

definition cancellations_typed :: "RpcCancellationSlot list \<Rightarrow> bool" where
  "cancellations_typed slots \<longleftrightarrow> length slots = RPC_CANCELLATION_SLOT_COUNT \<and>
     tbl_unique cs_active cs_command_id slots"

definition channels_typed :: "PoisonChannelTable \<Rightarrow> bool" where
  "channels_typed table \<longleftrightarrow> length table = POISON_CHANNEL_MAX_CHANNELS \<and>
     (\<forall>ch \<in> set table. rpc_channel_typed ch)"

definition connection_typed :: "Connection \<Rightarrow> bool" where
  "connection_typed c \<longleftrightarrow>
     session_typed (rc_session c) \<and>
     (rc_secure_transport_active c \<longleftrightarrow> ps_state (rc_session c) = PoisonSessionActive) \<and>
     (rc_secure_session c \<longleftrightarrow> ps_state (rc_session c) = PoisonSessionActive) \<and>
     rc_secure_channel c = (if rc_secure_transport_active c then ''rpc'' else '''') \<and>
     channels_typed (rc_secure_channels c) \<and>
     (\<not> rc_secure_transport_active c \<longrightarrow> rc_secure_channels c = poison_channel_table_init) \<and>
     cancellations_typed (rc_cancellations c) \<and>
     (\<forall>slot \<in> set (rc_resume_slots c). resumable_slot slot)"

subsection \<open>Sessions\<close>

lemma session_typed_tx [simp]:
  "session_typed (s \<lparr> ps_next_tx_sequence := n \<rparr>) = session_typed s"
  "session_typed (s \<lparr> ps_next_rx_sequence := n \<rparr>) = session_typed s"
  by (simp_all add: session_typed_def session_inv_def)

lemma session_typed_revoke [simp]: "session_typed (fst (poison_session_revoke s))"
  by (simp add: session_typed_def session_inv_def poison_session_revoke_def)

lemma revoke_not_active [simp]: "ps_state (fst (poison_session_revoke s)) = PoisonSessionRevoked"
  by (simp add: poison_session_revoke_def)

text \<open>The sessions a hello can leave.\<close>

definition negotiating_session :: PoisonSession where
  "negotiating_session = poison_session_init
     \<lparr> ps_protocol_version := 2, ps_state := PoisonSessionNegotiating \<rparr>"

lemma negotiating_session_simps [simp]:
  "poison_session_begin_negotiation poison_session_init 2 = (negotiating_session, PoisonSessionResultOk)"
  "k \<noteq> 0 \<Longrightarrow> poison_session_begin_confirmation (negotiating_session \<lparr> ps_session_id := k \<rparr>) k =
     (negotiating_session \<lparr> ps_session_id := k, ps_state := PoisonSessionConfirming \<rparr>,
      PoisonSessionResultOk)"
  by (simp_all add: poison_session_begin_negotiation_def poison_session_begin_confirmation_def
      negotiating_session_def poison_session_init_def)

lemma begin_session_cases:
  assumes "Q (ph_session h)" "Q negotiating_session" "\<And>s. Q (fst (poison_session_revoke s))"
    and "\<And>k. k \<noteq> 0 \<Longrightarrow>
      Q (negotiating_session \<lparr> ps_session_id := k, ps_state := PoisonSessionConfirming \<rparr>)"
  shows "Q (ph_session (fst (poison_pairing_begin cr rnd h hello now)))"
  using assms
  by (simp add: poison_pairing_begin_def Let_def erase_private_def revoke_handshake_def
      split: option.split prod.split)

lemma negotiating_typed [simp]:
  "session_typed negotiating_session" "ps_state negotiating_session = PoisonSessionNegotiating"
  "k \<noteq> 0 \<Longrightarrow> session_typed (negotiating_session
     \<lparr> ps_session_id := k, ps_state := PoisonSessionConfirming \<rparr>)"
  by (simp_all add: session_typed_def session_inv_def negotiating_session_def
      poison_session_init_def)

lemma begin_typed:
  assumes "poison_pairing_begin cr rnd h hello now = (h', ch)"
    and "session_typed (ph_session h)" "ps_state (ph_session h) \<noteq> PoisonSessionActive"
  shows "session_typed (ph_session h') \<and> ps_state (ph_session h') \<noteq> PoisonSessionActive"
proof -
  have "session_typed s \<and> ps_state s \<noteq> PoisonSessionActive"
    if "s = ph_session (fst (poison_pairing_begin cr rnd h hello now))" for s
    unfolding that
    by (rule begin_session_cases) (use assms in simp_all)
  then show ?thesis using assms(1) by simp
qed

lemma complete_typed:
  assumes "session_typed (ph_session h)"
    and "poison_pairing_complete cr h confirm now device = (h', done_ok)"
  shows "session_typed (ph_session h') \<and>
    (done_ok \<longleftrightarrow> ps_state (ph_session h') = PoisonSessionActive)"
proof (cases done_ok)
  case True
  then have ok: "snd (poison_pairing_complete cr h confirm now device)" using assms(2) by simp
  then have "ph_session h' = paired_session h (the (pairing_keys cr h))"
    using complete_session [OF ok] assms(2) by simp
  moreover have "ps_state (ph_session h) = PoisonSessionConfirming"
    using ok by (simp add: pairing_complete_iff)
  ultimately show ?thesis
    using True assms(1) paired_capabilities [OF ok] assms(2)
    by (auto simp: session_typed_def session_inv_def paired_session_def)
next
  case False
  then have no: "\<not> (pairing_confirm_valid cr h confirm now device \<and> allowed (pairing_decision h) \<and>
      pairing_keys cr h \<noteq> None \<and> ps_state (ph_session h) = PoisonSessionConfirming)"
    using assms(2) pairing_complete_iff [of cr h confirm now device]
    by (simp add: confirm_valid_iff pairing_decision_def)
  have "ps_session_id (ph_session h') = 0 \<and> \<not> ps_physical_confirmation (ph_session h')"
    using no assms(2)
    by (auto simp: poison_pairing_complete_def Let_def pairing_decision_def
        poison_session_set_directional_keys_def poison_session_confirm_def poison_session_activate_def
        erase_private_def revoke_handshake_def poison_session_revoke_def split: option.splits if_splits)
  then show ?thesis
    using False complete_fails [OF no] assms(2)
    by (simp add: session_typed_def session_inv_def)
qed

subsection \<open>The resume slots\<close>

lemma resumable_init [simp]: "resumable_slot poison_session_resume_slot_init"
  by (simp add: resumable_slot_def poison_session_resume_slot_init_def)

lemma take_resumable:
  assumes "\<forall>slot \<in> set slots. resumable_slot slot"
    and "rpc_session_take_resume cr slots session_id token q now = (slots', r)"
  shows "(\<forall>slot \<in> set slots'. resumable_slot slot) \<and>
    (\<forall>s. r = Some s \<longrightarrow> session_typed s \<and> ps_state s = PoisonSessionActive)"
  using assms
proof (induction slots arbitrary: slots' r)
  case (Cons slot slots)
  obtain rest r' where rest: "rpc_session_take_resume cr slots session_id token q now = (rest, r')"
    by (cases "rpc_session_take_resume cr slots session_id token q now")
  show ?case
    using Cons.prems Cons.IH [OF _ rest] rest
    by (auto simp: poison_session_resume_take_def poison_session_resume_revoke_def
        resumable_slot_def poison_session_resume_slot_init_def Let_def
        split: if_splits option.splits prod.splits)
qed simp

lemma store_resumable:
  assumes "\<forall>slot \<in> set slots. resumable_slot slot" "session_typed s"
  shows "\<forall>slot \<in> set (fst (rpc_session_store_resume cr slots s token now)). resumable_slot slot"
proof -
  let ?k = "resume_select (ps_session_id s) now slots 0 RPC_RESUME_SLOT_COUNT UINT64_MAX"
  let ?r = "poison_session_resume_store cr (slots ! ?k) s (Some token) now RPC_RESUME_TTL_MS"
  have "fst ?r = slots ! ?k \<or> resumable_slot (fst ?r)"
    using assms(2) by (auto simp: poison_session_resume_store_def resumable_slot_def split: option.splits)
  then have "\<forall>slot \<in> set (slots[?k := fst ?r]). resumable_slot slot"
    using assms(1) all_list_update [of slots resumable_slot "fst ?r" ?k] by auto
  then show ?thesis
    using assms(1) by (simp add: rpc_session_store_resume_def Let_def split: prod.splits)
qed

lemma revoke_resumable:
  "\<forall>slot \<in> set slots. resumable_slot slot \<Longrightarrow>
   \<forall>slot \<in> set (rpc_session_revoke_resume slots k). resumable_slot slot"
  by (auto simp: rpc_session_revoke_resume_def poison_session_resume_revoke_def)

subsection \<open>The tables\<close>

lemma channels_typed_init [simp]: "channels_typed poison_channel_table_init"
  by (simp add: channels_typed_def poison_channel_table_init_def rpc_channel_typed_def channel_zero_def)

lemma channels_typed_update:
  "channels_typed table \<Longrightarrow> rpc_channel_typed ch \<Longrightarrow> channels_typed (table[k := ch])"
  unfolding channels_typed_def using all_list_update [of table rpc_channel_typed ch k] by simp

lemma channels_typed_open:
  assumes "channels_typed table" "poison_channel_open_at table (Some ''rpc'') credits q = (table', k, r)"
  shows "channels_typed table'"
proof -
  have "table' = table \<or> (\<exists>k. table' = table[k := \<lparr> ch_active = True, ch_name = ''rpc'',
      ch_next_tx_sequence = q, ch_next_rx_sequence = q, ch_credits = credits \<rparr>] \<and>
      credits \<le> POISON_CHANNEL_MAX_CREDITS)"
    using assms(2) unfolding poison_channel_open_at_def Let_def
    by (simp add: not_less del: find_index_None split: if_split_asm option.split_asm)
      (metis not_less)
  moreover have "rpc_channel_typed \<lparr> ch_active = True, ch_name = ''rpc'',
      ch_next_tx_sequence = q, ch_next_rx_sequence = q, ch_credits = credits \<rparr>"
    if "credits \<le> POISON_CHANNEL_MAX_CREDITS"
    using that by (simp add: rpc_channel_typed_def)
  ultimately show ?thesis using assms(1) channels_typed_update by blast
qed

lemma credit_sum:
  assumes "a \<le> (m :: u32)" "b \<le> m - a"
  shows "a + b \<le> m"
proof -
  have "unat (m - a) = unat m - unat a" using assms(1) by (simp add: unat_sub)
  then have "unat a + unat b \<le> unat m"
    using assms by (simp add: word_le_nat_alt)
  moreover from this have "unat (a + b) = unat a + unat b"
    using unat_bounds(3) [of m] by (simp add: unat_word_ariths)
  ultimately show ?thesis by (simp add: word_le_nat_alt)
qed

lemma channels_typed_credit:
  assumes "channels_typed table" "poison_channel_add_credits table k credits = (table', r)"
  shows "channels_typed table'"
proof (cases "k < POISON_CHANNEL_MAX_CHANNELS \<and> ch_active (table ! k) \<and>
    \<not> credits > POISON_CHANNEL_MAX_CREDITS - ch_credits (table ! k)")
  case True
  then have "rpc_channel_typed (table ! k)"
    using assms(1) by (simp add: channels_typed_def)
  then have "ch_credits (table ! k) \<le> POISON_CHANNEL_MAX_CREDITS" "ch_name (table ! k) = ''rpc''"
    using True by (simp_all add: rpc_channel_typed_def)
  moreover have "credits \<le> POISON_CHANNEL_MAX_CREDITS - ch_credits (table ! k)"
    using True by (simp add: not_less)
  ultimately have "rpc_channel_typed ((table ! k) \<lparr> ch_credits := ch_credits (table ! k) + credits \<rparr>)"
    using credit_sum by (simp add: rpc_channel_typed_def)
  with assms True show ?thesis
    by (auto simp: poison_channel_add_credits_def poison_channel_at_def poison_channel_index_valid_def
        intro!: channels_typed_update)
next
  case False
  then have "table' = table"
    using assms(2) by (auto simp: poison_channel_add_credits_def poison_channel_at_def
        poison_channel_index_valid_def split: if_splits)
  with assms(1) show ?thesis by simp
qed

lemma tbl_clear:
  assumes "tbl_unique live key xs" "\<not> live e"
  shows "tbl_unique live key (xs[k := e])"
proof (cases "k < length xs")
  case True
  then obtain pre x post where xs: "xs = pre @ x # post" "length pre = k"
    using split_at by blast
  show ?thesis
    using assms xs by (auto simp: tbl_unique_def split: if_splits)
next
  case False
  then show ?thesis using assms(1) by (simp add: list_update_beyond)
qed

lemma cancellations_clear:
  "cancellations_typed slots \<Longrightarrow> cancellations_typed (slots[k := cancellation_zero])"
  by (simp add: cancellations_typed_def tbl_clear cancellation_zero_def)

lemma cancellations_register:
  assumes "cancellations_typed slots"
  shows "cancellations_typed (fst (rpc_session_register_cancellable k x slots))"
proof (cases "snd (rpc_session_register_cancellable k x slots)")
  case True
  then obtain n where n: "find_index (\<lambda>s. \<not> cs_active s) slots = Some n"
    and other: "\<forall>s \<in> set slots. \<not> (cs_active s \<and> cs_command_id s = k)" "k \<noteq> 0"
    by (auto simp: rpc_session_register_cancellable_def split: if_splits option.splits)
  then have eq: "fst (rpc_session_register_cancellable k x slots) =
      slots[n := \<lparr> cs_active = True, cs_command_id = k, cs_context = x \<rparr>]"
    by (simp add: rpc_session_register_cancellable_def)
  have "tbl_lookup cs_active cs_command_id slots k = None"
    using other(1) by (auto simp: tbl_lookup_None)
  with assms find_index_SomeD [OF n] show ?thesis
    unfolding eq by (simp add: cancellations_typed_def tbl_insert(1))
next
  case False
  then have "fst (rpc_session_register_cancellable k x slots) = slots"
    by (simp add: rpc_session_register_cancellable_def split: option.split_asm if_split_asm
        option.split del: find_index_None)
  with assms show ?thesis by simp
qed

lemma cancellations_complete:
  "cancellations_typed slots \<Longrightarrow> cancellations_typed (rpc_session_complete_cancellable k x slots)"
  by (simp add: rpc_session_complete_cancellable_def cancellations_clear split: option.split)

subsection \<open>Sending keeps everything but the counter\<close>

text \<open>What a handler leaves: a well-typed connection, the trace, the owner and the flags of the
  worker as they were, and no dispatch that was not already active.\<close>

definition steady :: "Connection \<Rightarrow> Connection \<Rightarrow> bool" where
  "steady c c' \<longleftrightarrow> rc_trace c' = rc_trace c \<and> rc_owner c' = rc_owner c \<and>
     rc_terminated c' = rc_terminated c \<and> rc_halted c' = rc_halted c \<and>
     (rc_secure_dispatch_active c' \<longrightarrow> rc_secure_dispatch_active c)"

definition handled :: "Connection \<Rightarrow> Connection \<Rightarrow> bool" where
  "handled c c' \<longleftrightarrow> connection_typed c' \<and> steady c c'"

lemma steady_trans: "steady c d \<Longrightarrow> steady d e \<Longrightarrow> steady c e"
  by (simp add: steady_def)

lemma handled_refl: "connection_typed c \<Longrightarrow> handled c c"
  by (simp add: handled_def steady_def)

lemma handled_trans: "handled c d \<Longrightarrow> handled d e \<Longrightarrow> handled c e"
  by (simp add: handled_def steady_def)

lemma set_session_simps [simp]:
  "rc_session (set_session s c) = s"
  "rc_handshake (set_session s c) = (rc_handshake c) \<lparr> ph_session := s \<rparr>"
  "rc_trace (set_session s c) = rc_trace c" "rc_owner (set_session s c) = rc_owner c"
  "rc_terminated (set_session s c) = rc_terminated c" "rc_halted (set_session s c) = rc_halted c"
  "rc_decode_error (set_session s c) = rc_decode_error c"
  "rc_secure_dispatch_active (set_session s c) = rc_secure_dispatch_active c"
  "rc_secure_transport_active (set_session s c) = rc_secure_transport_active c"
  "rc_secure_session (set_session s c) = rc_secure_session c"
  "rc_secure_channel (set_session s c) = rc_secure_channel c"
  "rc_secure_acknowledgement (set_session s c) = rc_secure_acknowledgement c"
  "rc_secure_channels (set_session s c) = rc_secure_channels c"
  "rc_cancellations (set_session s c) = rc_cancellations c"
  "rc_resume_token (set_session s c) = rc_resume_token c"
  "rc_resume_issued (set_session s c) = rc_resume_issued c"
  "rc_pairing_store_ready (set_session s c) = rc_pairing_store_ready c"
  "rc_trusted_identity (set_session s c) = rc_trusted_identity c"
  "rc_identity_session_counted (set_session s c) = rc_identity_session_counted c"
  "rc_registry (set_session s c) = rc_registry c"
  "rc_resume_slots (set_session s c) = rc_resume_slots c"
  "rc_audit (set_session s c) = rc_audit c" "rc_wire (set_session s c) = rc_wire c"
  by (simp_all add: set_session_def)

lemma encrypt_session:
  "\<exists>n. fst (poison_session_encrypt_tx cr s ack ch p l) = s \<lparr> ps_next_tx_sequence := n \<rparr>"
proof -
  have "fst (poison_session_encrypt_tx cr s ack ch p l) = s \<or>
      fst (poison_session_encrypt_tx cr s ack ch p l) =
        s \<lparr> ps_next_tx_sequence := ps_next_tx_sequence s + 1 \<rparr>"
    by (simp add: poison_session_encrypt_tx_def poison_session_reserve_tx_def split: option.split)
  then show ?thesis
    by (metis PoisonSession.surjective PoisonSession.update_convs(4))
qed

lemma rpc_send_only:
  assumes "rpc_send env m c = Some c'"
  shows "\<exists>n w. c' = (set_session ((rc_session c) \<lparr> ps_next_tx_sequence := n \<rparr>) c) \<lparr> rc_wire := w \<rparr>"
proof (cases "rc_secure_transport_active c \<and> rc_secure_session c \<and>
    ps_state (rc_session c) = PoisonSessionActive")
  case True
  then have "rpc_send_secure env m c = Some c'" using assms by (simp add: rpc_send_def)
  then obtain p where sent: "(case poison_session_encrypt_tx (en_crypto env) (rc_session c)
      (rc_secure_acknowledgement c) (Some (rc_secure_channel c)) (Some p) (length p) of
        (s, r) \<Rightarrow> if er_result r \<noteq> PoisonSessionResultOk then None
          else Some ((set_session s c) \<lparr> rc_wire := rc_wire c @ [Sealed \<lparr>
                    se_protocol_version = ps_protocol_version (rc_session c),
                    se_session_id = ps_session_id (rc_session c),
                    se_sequence = the (er_sequence r),
                    se_acknowledgement = rc_secure_acknowledgement c,
                    se_channel = rc_secure_channel c,
                    se_payload = fst (the (er_sealed r)),
                    se_authentication_tag = snd (the (er_sealed r)) \<rparr>] \<rparr>)) = Some c'"
    unfolding rpc_send_secure_def bind_eq_Some_conv by blast
  obtain s r where e: "poison_session_encrypt_tx (en_crypto env) (rc_session c)
      (rc_secure_acknowledgement c) (Some (rc_secure_channel c)) (Some p) (length p) = (s, r)"
    by fastforce
  obtain n where "s = (rc_session c) \<lparr> ps_next_tx_sequence := n \<rparr>"
    using encrypt_session [of "en_crypto env" "rc_session c" "rc_secure_acknowledgement c"
        "Some (rc_secure_channel c)" "Some p" "length p"] e by auto
  with sent e show ?thesis by (auto split: if_splits)
next
  case False
  then have "c' = c \<lparr> rc_wire := rc_wire c' \<rparr>"
    using assms by (auto simp: rpc_send_def rpc_send_plain_def)
  moreover have "set_session ((rc_session c) \<lparr> ps_next_tx_sequence := ps_next_tx_sequence (rc_session c) \<rparr>) c = c"
    by (simp add: set_session_def)
  ultimately show ?thesis by metis
qed

lemma connection_typed_sent:
  "connection_typed ((set_session ((rc_session c) \<lparr> ps_next_tx_sequence := n \<rparr>) c) \<lparr> rc_wire := w \<rparr>)
     = connection_typed c"
  by (simp add: connection_typed_def)

lemma rpc_send_handled:
  assumes "rpc_send env m c = Some c'" "connection_typed c"
  shows "handled c c'"
  using rpc_send_only [OF assms(1)] assms(2) by (auto simp: handled_def steady_def connection_typed_sent)

lemma rpc_send_state:
  assumes "rpc_send env m c = Some c'"
  shows "rc_secure_dispatch_active c' = rc_secure_dispatch_active c"
    "ps_state (rc_session c') = ps_state (rc_session c)"
    "rc_secure_transport_active c' = rc_secure_transport_active c"
  using rpc_send_only [OF assms(1)] by auto

lemma send_after:
  "rpc_send env m c1 = Some c' \<Longrightarrow> handled c c1 \<Longrightarrow> handled c c'"
  "rpc_send_and_release_empty env k st c1 = Some c' \<Longrightarrow> handled c c1 \<Longrightarrow> handled c c'"
  using rpc_send_handled handled_trans unfolding rpc_send_and_release_empty_def
  by (meson handled_def)+

lemma typed_ignores [simp]:
  "connection_typed (c \<lparr> rc_registry := r \<rparr>) = connection_typed c"
  "connection_typed (c \<lparr> rc_audit := a \<rparr>) = connection_typed c"
  "connection_typed (c \<lparr> rc_resume_token := t \<rparr>) = connection_typed c"
  "connection_typed (c \<lparr> rc_resume_issued := b \<rparr>) = connection_typed c"
  "connection_typed (c \<lparr> rc_identity_session_counted := b \<rparr>) = connection_typed c"
  "connection_typed (c \<lparr> rc_trusted_identity := b \<rparr>) = connection_typed c"
  "connection_typed (c \<lparr> rc_secure_dispatch_active := b \<rparr>) = connection_typed c"
  "connection_typed (c \<lparr> rc_secure_acknowledgement := q \<rparr>) = connection_typed c"
  "connection_typed (c \<lparr> rc_decode_error := b \<rparr>) = connection_typed c"
  "connection_typed (c \<lparr> rc_terminated := b \<rparr>) = connection_typed c"
  "connection_typed (c \<lparr> rc_halted := b \<rparr>) = connection_typed c"
  "connection_typed (c \<lparr> rc_trace := tr \<rparr>) = connection_typed c"
  by (simp_all add: connection_typed_def)

subsection \<open>The handlers inside the dispatch\<close>

text \<open>A handler that returns has handled the connection.\<close>

definition returns_handled :: "Connection \<Rightarrow> Connection option \<Rightarrow> bool" where
  "returns_handled c r \<longleftrightarrow> (\<forall>c'. r = Some c' \<longrightarrow> handled c c')"

lemma returns_handledD: "returns_handled c r \<Longrightarrow> r = Some c' \<Longrightarrow> handled c c'"
  by (simp add: returns_handled_def)

lemma returns_send [simp]:
  "handled c c1 \<Longrightarrow> returns_handled c (rpc_send env m c1)"
  "handled c c1 \<Longrightarrow> returns_handled c (rpc_send_and_release_empty env k st c1)"
  "returns_handled c (Some c1) = handled c c1"
  "returns_handled c None"
  by (auto simp: returns_handled_def intro: send_after)

lemma returns_bind:
  "returns_handled c r \<Longrightarrow> (\<And>d. r = Some d \<Longrightarrow> handled c d \<Longrightarrow> returns_handled c (f d)) \<Longrightarrow>
   returns_handled c (Option.bind r f)"
  by (auto simp: returns_handled_def bind_eq_Some_conv)

lemma returns_trans: "handled c d \<Longrightarrow> returns_handled d r \<Longrightarrow> returns_handled c r"
  using handled_trans by (auto simp: returns_handled_def)

lemma identity_allowed_only:
  "rpc_poison_identity_allowed env c = (c1, ok) \<Longrightarrow> \<exists>reg. c1 = c \<lparr> rc_registry := reg \<rparr>"
proof -
  assume a: "rpc_poison_identity_allowed env c = (c1, ok)"
  show ?thesis
  proof (cases "rc_pairing_store_ready c")
    case True
    with a show ?thesis by (auto simp: rpc_poison_identity_allowed_def split: prod.splits)
  next
    case False
    then have "c1 = c \<lparr> rc_registry := rc_registry c \<rparr>"
      using a by (simp add: rpc_poison_identity_allowed_def)
    then show ?thesis by blast
  qed
qed

lemma identity_allowed_handled:
  assumes "connection_typed c" "rpc_poison_identity_allowed env c = (c1, ok)"
  shows "handled c c1"
proof -
  from identity_allowed_only [OF assms(2)] obtain reg where "c1 = c \<lparr> rc_registry := reg \<rparr>" ..
  with assms(1) show ?thesis by (simp add: handled_def steady_def)
qed

lemma identity_allowed_found:
  assumes "rpc_poison_identity_allowed env c = (c1, True)"
  shows "\<exists>r \<in> set (pst_records (reg_store (rc_registry c1))). pp_active r \<and>
    same_key (pp_key_digest r) (ps_client_identity_digest (rc_session c1))"
proof -
  let ?k = "ps_client_identity_digest (rc_session c)"
  from assms have found: "poison_pairing_registry_find (en_auth env) (rc_registry c) (Some ?k) =
      (rc_registry c1, snd (poison_pairing_registry_find (en_auth env) (rc_registry c) (Some ?k)))"
    and some: "snd (poison_pairing_registry_find (en_auth env) (rc_registry c) (Some ?k)) \<noteq> None"
    and same: "rc_session c1 = rc_session c"
    by (auto simp: rpc_poison_identity_allowed_def split: if_splits prod.splits)
  obtain reg1 ready where i: "poison_pairing_registry_init (en_auth env) (rc_registry c) = (reg1, ready)"
    by fastforce
  have "rc_registry c1 = reg1"
    and "find_index (\<lambda>r. pp_active r \<and> same_key (pp_key_digest r) ?k) (pst_records (reg_store reg1)) \<noteq> None"
    using found some i by (auto simp: poison_pairing_registry_find_def simp del: find_index_None
        split: if_splits)
  then show ?thesis unfolding same by auto
qed

lemma revoke_transport_handled:
  assumes "connection_typed c"
  shows "handled c (rpc_session_revoke_secure_transport c)"
proof -
  have "connection_typed (rpc_session_revoke_secure_transport c)"
    using assms revoke_resumable [of "rc_resume_slots c"]
    by (cases "rc_secure_session c")
      (simp_all add: connection_typed_def rpc_session_revoke_secure_transport_def Let_def)
  then show ?thesis
    by (simp add: handled_def steady_def rpc_session_revoke_secure_transport_def Let_def)
qed

lemma cancel_handled:
  assumes "connection_typed c"
  shows "returns_handled c (rpc_cancel_request_process env request i c)"
proof -
  have "handled c (c \<lparr> rc_cancellations := (rc_cancellations c)[k := cancellation_zero] \<rparr>)" for k
    using assms by (simp add: handled_def steady_def connection_typed_def cancellations_clear)
  then show ?thesis
    using handled_refl [OF assms]
    by (simp add: rpc_cancel_request_process_def Let_def del: find_index_None)
qed

lemma policy_handled:
  assumes "connection_typed c"
  shows "returns_handled c (rpc_poison_policy_request_process env request i c)"
  using handled_refl [OF assms] by (simp add: rpc_poison_policy_request_process_def Let_def)

lemma open_channel_handled:
  assumes "connection_typed c" "rc_secure_transport_active c"
    and "rpc_session_open_secure_channel ''rpc'' credits q c = (c1, r)"
  shows "handled c c1"
proof -
  obtain table k res where o: "poison_channel_open_at (rc_secure_channels c) (Some ''rpc'') credits q =
      (table, k, res)" by (cases "poison_channel_open_at (rc_secure_channels c) (Some ''rpc'') credits q")
  then have "c1 = c \<lparr> rc_secure_channels := table \<rparr>"
    using assms(3) by (auto simp: rpc_session_open_secure_channel_def Let_def split: if_splits option.splits)
  moreover have "channels_typed table"
    using channels_typed_open [OF _ o] assms(1) by (simp add: connection_typed_def)
  ultimately show ?thesis
    using assms(1,2) by (simp add: handled_def steady_def connection_typed_def)
qed

text \<open>Inside the dispatch the transport is active.\<close>

lemma channel_open_handled:
  assumes "connection_typed c" "rc_secure_dispatch_active c \<longrightarrow> rc_secure_transport_active c"
  shows "returns_handled c (rpc_poison_channel_open_process env request i c)"
proof (cases "mn_which_content request \<noteq> ''poison_channel_open'' \<or> mn_has_next request \<or>
    \<not> rc_secure_dispatch_active c \<or>
    \<not> (co_channel (mn_channel_open request) = ''rpc'' \<and> co_initial_credits (mn_channel_open request) > 0)")
  case True
  then show ?thesis
    using handled_refl [OF assms(1)] by (auto simp: rpc_poison_channel_open_process_def Let_def)
next
  case False
  obtain c1 r where o: "rpc_session_open_secure_channel ''rpc'' (co_initial_credits (mn_channel_open request))
      (co_resume_sequence (mn_channel_open request)) c = (c1, r)" by fastforce
  have "handled c c1" using open_channel_handled [OF assms(1) _ o] False assms(2) by simp
  with False o show ?thesis
    by (simp add: rpc_poison_channel_open_process_def Let_def split: option.split)
qed

lemma add_credits_handled:
  assumes "connection_typed c" "rc_secure_transport_active c"
    and "rpc_session_add_secure_channel_credits ch n c = (c1, ok)"
  shows "handled c c1"
proof (cases "c1 = c")
  case True
  with assms(1) handled_refl show ?thesis by simp
next
  case False
  then obtain k table r where "poison_channel_add_credits (rc_secure_channels c) k n = (table, r)"
    and c1: "c1 = c \<lparr> rc_secure_channels := table \<rparr>"
    using assms(3)
    by (auto simp: rpc_session_add_secure_channel_credits_def split: if_splits option.splits prod.splits)
  then have "channels_typed table"
    using channels_typed_credit [of "rc_secure_channels c" k n table r] assms(1)
    by (simp add: connection_typed_def)
  with assms(1,2) c1 show ?thesis by (simp add: handled_def steady_def connection_typed_def)
qed

lemma credit_handled:
  assumes "connection_typed c" "rc_secure_dispatch_active c \<longrightarrow> rc_secure_transport_active c"
  shows "returns_handled c (rpc_poison_credit_update_process env request i c)"
proof (cases "mn_which_content request = ''poison_credit_update'' \<and> \<not> mn_has_next request \<and>
    rc_secure_dispatch_active c")
  case True
  obtain c1 ok where o: "rpc_session_add_secure_channel_credits (cd_channel (mn_credit_update request))
      (cd_credits (mn_credit_update request)) c = (c1, ok)" by fastforce
  have "handled c c1" using add_credits_handled [OF assms(1) _ o] True assms(2) by simp
  with True o show ?thesis by (simp add: rpc_poison_credit_update_process_def Let_def)
next
  case False
  then show ?thesis
    using handled_refl [OF assms(1)] by (auto simp: rpc_poison_credit_update_process_def Let_def)
qed

lemma close_handled:
  assumes "connection_typed c"
  shows "returns_handled c (rpc_close_session_process env request i c)"
  unfolding rpc_close_session_process_def
proof (rule returns_bind)
  fix d
  assume "handled c d"
  then show "returns_handled c (Some (if rc_secure_dispatch_active d
      then rpc_session_revoke_secure_transport d else d))"
    using handled_trans revoke_transport_handled by (auto simp: handled_def)
qed (simp add: handled_refl assms)

lemma resume_issue_handled:
  assumes "connection_typed c"
  shows "returns_handled c (resume_issue env request i c)"
proof -
  obtain c1 ok where a: "rpc_poison_identity_allowed env c = (c1, ok)" by fastforce
  note h = identity_allowed_handled [OF assms a]
  then have "handled c (c1 \<lparr> rc_resume_token := t, rc_resume_issued := b \<rparr>)"
    and "handled c (c1 \<lparr> rc_resume_token := t \<rparr>)" for t b
    by (simp_all add: handled_def steady_def)
  with h a show ?thesis
    by (simp add: resume_issue_def Let_def split: option.split)
qed

lemma service_action_handled:
  "connection_typed c \<Longrightarrow> returns_handled c (service_action env a c)"
  using handled_refl
  by (cases a) (auto simp: handled_def steady_def connection_typed_def cancellations_register
      cancellations_complete)

lemma service_actions_handled:
  "connection_typed c \<Longrightarrow> returns_handled c (service_actions env as c)"
proof (induction as arbitrary: c)
  case Nil
  then show ?case by (simp add: handled_refl)
next
  case (Cons a as)
  show ?case
    unfolding service_actions.simps
  proof (rule returns_bind)
    fix d
    assume "handled c d"
    then show "returns_handled c (service_actions env as d)"
      using Cons.IH [of d] returns_trans by (simp add: handled_def)
  qed (rule service_action_handled [OF Cons.prems])
qed

subsection \<open>The handlers that start a session\<close>

text \<open>A connection whose session has become active and whose transport is not switched on yet.\<close>

definition activatable :: "Connection \<Rightarrow> bool" where
  "activatable c \<longleftrightarrow> session_typed (rc_session c) \<and> ps_state (rc_session c) = PoisonSessionActive \<and>
     \<not> rc_secure_transport_active c \<and> rc_secure_channels c = poison_channel_table_init \<and>
     cancellations_typed (rc_cancellations c) \<and>
     (\<forall>slot \<in> set (rc_resume_slots c). resumable_slot slot)"

lemma activate_handled:
  assumes "activatable c1" "steady c c1"
  shows "returns_handled c (rpc_session_activate_secure_transport c1)"
  using assms
  by (simp add: rpc_session_activate_secure_transport_def handled_def steady_def activatable_def
      connection_typed_def)

text \<open>The reply that announces success still goes out in plain.\<close>

lemma send_then_activate:
  assumes "activatable c1" "steady c c1"
  shows "returns_handled c (Option.bind (rpc_send env m c1) rpc_session_activate_secure_transport)"
proof -
  have "rpc_send env m c1 = Some (rpc_send_plain m c1)"
    using assms(1) by (simp add: rpc_send_def activatable_def)
  moreover have "activatable (rpc_send_plain m c1)" "steady c (rpc_send_plain m c1)"
    using assms by (simp_all add: rpc_send_plain_def activatable_def steady_def)
  ultimately show ?thesis using activate_handled by simp
qed

lemma inactive_simps:
  assumes "connection_typed c" "\<not> rc_secure_transport_active c"
  shows "ps_state (rc_session c) \<noteq> PoisonSessionActive" "\<not> rc_secure_session c"
    "rc_secure_channels c = poison_channel_table_init" "rc_secure_channel c = ''''"
  using assms by (simp_all add: connection_typed_def)

lemma typed_revoked:
  assumes "activatable c1" "\<not> rc_secure_session c1" "rc_secure_channel c1 = ''''"
  shows "connection_typed (set_session (fst (poison_session_revoke (rc_session c1))) c1)"
  using assms by (simp add: activatable_def connection_typed_def)

lemma count_identity_only:
  "rpc_poison_count_identity_session env c = (c1, ok) \<Longrightarrow>
   \<exists>reg b. c1 = c \<lparr> rc_registry := reg, rc_identity_session_counted := b \<rparr>"
proof -
  assume a: "rpc_poison_count_identity_session env c = (c1, ok)"
  show ?thesis
  proof (cases "rc_identity_session_counted c")
    case True
    then have "c1 = c \<lparr> rc_registry := rc_registry c, rc_identity_session_counted := True \<rparr>"
      using a by (simp add: rpc_poison_count_identity_session_def)
    then show ?thesis by blast
  next
    case False
    with a show ?thesis by (auto simp: rpc_poison_count_identity_session_def split: prod.splits)
  qed
qed

text \<open>Counting the session of an active client, or revoking it.\<close>

definition count_or_revoke :: "RpcEnv \<Rightarrow> Connection \<Rightarrow> Connection \<times> bool" where
  "count_or_revoke env c =
    (case rpc_poison_count_identity_session env c of
       (c1, counted) \<Rightarrow> if counted then (c1, True)
         else (set_session (fst (poison_session_revoke (rc_session c1))) c1, False))"

lemma count_or_revoke_state:
  assumes "count_or_revoke env c = (c1, ok)" "activatable c" "\<not> rc_secure_session c"
    "rc_secure_channel c = ''''"
  shows "steady c c1 \<and> (if ok then activatable c1 else connection_typed c1)"
proof -
  obtain c2 counted where r: "rpc_poison_count_identity_session env c = (c2, counted)" by fastforce
  obtain reg b where c2: "c2 = c \<lparr> rc_registry := reg, rc_identity_session_counted := b \<rparr>"
    using count_identity_only [OF r] by blast
  have "activatable c2" "\<not> rc_secure_session c2" "rc_secure_channel c2 = ''''"
    using assms(2-4) c2 by (simp_all add: activatable_def)
  with assms(1) r typed_revoked [OF this] c2 show ?thesis
    by (auto simp: count_or_revoke_def steady_def split: if_splits)
qed

lemma count_unless_state:
  assumes "activatable c2" "\<not> rc_secure_session c2" "rc_secure_channel c2 = ''''" "steady c c2"
    and "(c1, ok) = (if refused then (set_session (fst (poison_session_revoke (rc_session c2))) c2, False)
        else count_or_revoke env c2)"
  shows "steady c c1 \<and> (if ok then activatable c1 else connection_typed c1)"
proof (cases refused)
  case True
  with assms(5) have "c1 = set_session (fst (poison_session_revoke (rc_session c2))) c2" "\<not> ok"
    by simp_all
  with typed_revoked [OF assms(1-3)] assms(4) show ?thesis by (simp add: steady_def)
next
  case False
  with assms(5) have "count_or_revoke env c2 = (c1, ok)" by simp
  from count_or_revoke_state [OF this assms(1-3)] steady_trans [OF assms(4)] show ?thesis by blast
qed

lemma resume_take_over_state:
  assumes "resume_take_over env request i c = (c1, ok)" "connection_typed c"
    and "\<not> rc_secure_transport_active c"
  shows "steady c c1 \<and> (if ok then activatable c1 else connection_typed c1)"
proof -
  let ?w = "mn_resume_request request"
  obtain slots r where t: "rpc_session_take_resume (en_crypto env) (rc_resume_slots c)
      (rq_session_id ?w) (rq_resume_token ?w) (rq_last_received_sequence ?w) (in_now_ms i) = (slots, r)"
    by fastforce
  have slots: "\<forall>slot \<in> set slots. resumable_slot slot"
    and ses: "\<And>s. r = Some s \<Longrightarrow> session_typed s \<and> ps_state s = PoisonSessionActive"
    using take_resumable [OF _ t] assms(2) by (auto simp: connection_typed_def)
  note off = inactive_simps [OF assms(2,3)]
  show ?thesis
  proof (cases "length (rq_resume_token ?w) = POISON_SESSION_RESUME_TOKEN_BYTES \<and> r \<noteq> None")
    case False
    then have "(c1, ok) = (c, False) \<or> (c1, ok) = (c \<lparr> rc_resume_slots := slots \<rparr>, False)"
      using assms(1) t by (cases r) (simp_all add: resume_take_over_def Let_def split: if_split_asm)
    moreover have "connection_typed (c \<lparr> rc_resume_slots := slots \<rparr>)"
      using assms(2) slots by (simp add: connection_typed_def)
    ultimately show ?thesis
      using assms(2) by (elim disjE) (simp_all add: steady_def)
  next
    case True
    then obtain s where s: "r = Some s" by auto
    let ?c1 = "set_session s (c \<lparr> rc_resume_slots := slots \<rparr>)"
    obtain c2 idok where a: "rpc_poison_identity_allowed env ?c1 = (c2, idok)" by fastforce
    obtain reg where c2: "c2 = ?c1 \<lparr> rc_registry := reg \<rparr>" using identity_allowed_only [OF a] ..
    have act: "activatable c2" "\<not> rc_secure_session c2" "rc_secure_channel c2 = ''''"
      and st: "steady c c2"
      using assms(2,3) off slots ses [OF s] c2
      by (simp_all add: activatable_def connection_typed_def steady_def)
    have "resume_take_over env request i c =
        (if \<not> idok then (set_session (fst (poison_session_revoke (rc_session c2))) c2, False)
         else count_or_revoke env c2)"
      using t s True a by (simp add: resume_take_over_def Let_def count_or_revoke_def)
    then have "(c1, ok) = (if \<not> idok then (set_session (fst (poison_session_revoke (rc_session c2))) c2, False)
        else count_or_revoke env c2)"
      unfolding assms(1) .
    from count_unless_state [OF act st this] show ?thesis .
  qed
qed

lemma resume_restore_handled:
  assumes "connection_typed c" "\<not> rc_secure_transport_active c"
  shows "returns_handled c (resume_restore env request i c)"
proof -
  obtain c1 ok where t: "resume_take_over env request i c = (c1, ok)" by fastforce
  note state = resume_take_over_state [OF t assms]
  show ?thesis
  proof (cases ok)
    case True
    with state have "activatable (c1 \<lparr> rc_resume_token := tk, rc_resume_issued := True \<rparr>)"
      "steady c (c1 \<lparr> rc_resume_token := tk, rc_resume_issued := True \<rparr>)" for tk
      by (simp_all add: activatable_def steady_def)
    from send_then_activate [OF this] True t handled_refl [OF assms(1)] show ?thesis
      by (simp add: resume_restore_def split: option.split)
  next
    case False
    with state have "handled c c1" by (simp add: handled_def)
    with False t handled_refl [OF assms(1)] show ?thesis
      by (simp add: resume_restore_def split: option.split)
  qed
qed

lemma resume_handled:
  assumes "connection_typed c" "\<not> rc_secure_dispatch_active c \<Longrightarrow> \<not> rc_secure_transport_active c"
  shows "returns_handled c (rpc_poison_resume_request_process env request i c)"
  using resume_issue_handled [OF assms(1)] resume_restore_handled [OF assms(1)] assms(2)
    handled_refl [OF assms(1)]
  by (simp add: rpc_poison_resume_request_process_def resume_reply_def)

lemma hello_handled:
  assumes "connection_typed c" "\<not> rc_secure_transport_active c"
  shows "returns_handled c (rpc_poison_pairing_hello_process env request i c)"
proof -
  obtain h ch where b: "poison_pairing_begin (en_crypto env) (in_pairing i) (rc_handshake c)
      (mn_pairing_hello request) (in_now_ms i) = (h, ch)" by fastforce
  have "session_typed (ph_session h)" "ps_state (ph_session h) \<noteq> PoisonSessionActive"
    using begin_typed [OF b] assms inactive_simps [OF assms] by (simp_all add: connection_typed_def)
  then have "handled c (c \<lparr> rc_handshake := h \<rparr>)"
    and "handled c (c \<lparr> rc_handshake := h, rc_registry := reg, rc_trusted_identity := t \<rparr>)" for reg t
    using assms by (simp_all add: handled_def steady_def connection_typed_def)
  with handled_refl [OF assms(1)] b show ?thesis
    by (simp add: rpc_poison_pairing_hello_process_def split: option.split prod.split)
qed

lemma pairing_confirm_state:
  assumes "pairing_confirm_outcome env request i c = (c1, paired)" "connection_typed c"
    and "\<not> rc_secure_transport_active c"
  shows "steady c c1 \<and> (if paired then activatable c1 else connection_typed c1)"
proof -
  note off = inactive_simps [OF assms(2,3)]
  obtain h ok where comp: "poison_pairing_complete (en_crypto env) (rc_handshake c)
      (mn_pairing_confirm request) (in_now_ms i) (rc_trusted_identity c \<or> in_approved i) = (h, ok)"
    by fastforce
  have h: "session_typed (ph_session h)" "ok \<longleftrightarrow> ps_state (ph_session h) = PoisonSessionActive"
    using complete_typed [OF _ comp] assms(2) by (simp_all add: connection_typed_def)
  let ?c1 = "c \<lparr> rc_handshake := h \<rparr>"
  show ?thesis
  proof (cases ok)
    case False
    with assms(1) comp have "c1 = ?c1" "\<not> paired"
      by (simp_all add: pairing_confirm_outcome_def Let_def)
    with h False assms(2) off assms(3) show ?thesis by (simp add: steady_def connection_typed_def)
  next
    case True
    obtain reg stored where add: "poison_pairing_registry_add (en_auth env) (in_save i)
        (rc_registry c) (Some (ph_client_identity_digest h)) (Some (ph_client_name h))
        (ph_requested_role h) = (reg, stored)" by fastforce
    have act: "activatable (?c1 \<lparr> rc_registry := r \<rparr>)" "\<not> rc_secure_session (?c1 \<lparr> rc_registry := r \<rparr>)"
      "rc_secure_channel (?c1 \<lparr> rc_registry := r \<rparr>) = ''''" "steady c (?c1 \<lparr> rc_registry := r \<rparr>)" for r
      using h True assms(2,3) off by (simp_all add: activatable_def connection_typed_def steady_def)
    let ?c2 = "(if rc_trusted_identity c then ?c1 \<lparr> rc_registry := rc_registry c \<rparr>
        else ?c1 \<lparr> rc_registry := reg \<rparr>)"
    have "(c1, paired) = (if \<not> rc_trusted_identity c \<and> \<not> stored
        then (set_session (fst (poison_session_revoke (rc_session ?c2))) ?c2, False)
        else count_or_revoke env ?c2)"
      using assms(1) comp True add
      by (simp add: pairing_confirm_outcome_def Let_def count_or_revoke_def split: if_splits)
    moreover have "activatable ?c2" "\<not> rc_secure_session ?c2" "rc_secure_channel ?c2 = ''''"
      "steady c ?c2"
      using act by (simp_all only: if_cancel split: if_split) simp_all
    ultimately show ?thesis by (rule count_unless_state [rotated 4])
  qed
qed

lemma confirm_handled:
  assumes "connection_typed c" "\<not> rc_secure_transport_active c"
  shows "returns_handled c (rpc_poison_pairing_confirm_process env request i c)"
proof -
  obtain c1 paired where o: "pairing_confirm_outcome env request i c = (c1, paired)" by fastforce
  note state = pairing_confirm_state [OF o assms]
  show ?thesis
  proof (cases paired)
    case True
    with state have "activatable (c1 \<lparr> rc_audit := a \<rparr>)" "steady c (c1 \<lparr> rc_audit := a \<rparr>)" for a
      by (simp_all add: activatable_def steady_def)
    from send_then_activate [OF this] True o handled_refl [OF assms(1)] show ?thesis
      by (simp add: rpc_poison_pairing_confirm_process_def rpc_send_and_release_empty_def)
  next
    case False
    with state have "handled c (c1 \<lparr> rc_audit := a \<rparr>)" for a by (simp add: handled_def steady_def)
    with False o handled_refl [OF assms(1)] show ?thesis
      by (simp add: rpc_poison_pairing_confirm_process_def)
  qed
qed

subsection \<open>Dispatch, worker and events\<close>

lemma inner_handled:
  assumes "inner_handler env tag = Some handler" "connection_typed c"
    and "rc_secure_dispatch_active c \<longleftrightarrow> rc_secure_transport_active c"
  shows "returns_handled c (handler request i c)"
proof -
  have "handler \<in> {rpc_close_session_process env, rpc_cancel_request_process env,
      rpc_poison_policy_request_process env, rpc_poison_resume_request_process env,
      rpc_poison_channel_open_process env, rpc_poison_credit_update_process env,
      service_process env}"
    using assms(1) by (simp add: inner_handler_def split: if_split_asm)
  moreover have "returns_handled c (service_process env request i c)"
    unfolding service_process_def by (rule service_actions_handled [OF assms(2)])
  moreover have "returns_handled c (rpc_poison_resume_request_process env request i c)"
    using resume_handled [OF assms(2)] assms(3) by blast
  moreover have "returns_handled c (rpc_poison_channel_open_process env request i c)"
    "returns_handled c (rpc_poison_credit_update_process env request i c)"
    using channel_open_handled [OF assms(2)] credit_handled [OF assms(2)] assms(3) by blast+
  ultimately show ?thesis
    using cancel_handled [OF assms(2)] policy_handled [OF assms(2)] close_handled [OF assms(2)]
    by blast
qed

text \<open>A call that the trace may show: inside the dispatch an active session of a registered
  client whose role grants what the command requires, over an open channel; outside it, on a
  UART connection, one of the four handlers that establish the transport.\<close>

definition permitted :: "RpcOwner \<Rightarrow> Executed \<Rightarrow> bool" where
  "permitted owner e \<longleftrightarrow>
    (if ex_secure e
     then \<not> inner_refused (ex_tag e) \<and>
       ps_state (ex_session e) = PoisonSessionActive \<and> ps_physical_confirmation (ex_session e) \<and>
       ps_directional_keys_set (ex_session e) \<and> ps_session_id (ex_session e) \<noteq> 0 \<and>
       (ex_tag e = ''poison_channel_open'' \<or>
        poison_channel_find (ex_channels e) (Some ''rpc'') \<noteq> None) \<and>
       rpc_secure_required_capabilities (ex_tag e) \<noteq> 0 \<and>
       ps_granted_capabilities (ex_session e) AND rpc_secure_required_capabilities (ex_tag e) =
         rpc_secure_required_capabilities (ex_tag e) \<and>
       ps_granted_capabilities (ex_session e) AND
         poison_policy_role_capabilities (ps_role (ex_session e)) =
         ps_granted_capabilities (ex_session e) \<and>
       (\<exists>r \<in> set (ex_records e). pp_active r \<and>
          same_key (pp_key_digest r) (ps_client_identity_digest (ex_session e)))
     else owner = RpcOwnerUart \<longrightarrow>
       ex_tag e \<in> {''poison_pairing_hello'', ''poison_pairing_confirm'',
                   ''poison_resume_request'', ''poison_session_envelope''})"

text \<open>Between two messages: well typed, no dispatch, a trace of permitted calls.\<close>

definition connection_ok :: "RpcOwner \<Rightarrow> Connection \<Rightarrow> bool" where
  "connection_ok owner c \<longleftrightarrow> rc_owner c = owner \<and> (rc_terminated c \<or> connection_typed c) \<and>
     \<not> rc_secure_dispatch_active c \<and> (\<forall>e \<in> set (rc_trace c). permitted owner e) \<and>
     (\<forall>slot \<in> set (rc_resume_slots c). resumable_slot slot)"

lemma handled_ok:
  assumes "handled d c'" "\<not> rc_secure_dispatch_active d" "rc_owner d = owner"
    and "\<forall>e \<in> set (rc_trace d). permitted owner e"
  shows "connection_ok owner c'"
  using assms by (auto simp: handled_def steady_def connection_ok_def connection_typed_def)

lemma decrypt_ok_session:
  assumes "poison_session_decrypt_rx cr s q ack ch ct n tag = (s', p, r)"
  shows "\<exists>k. s' = s \<lparr> ps_next_rx_sequence := k \<rparr>"
    and "r = PoisonSessionResultOk \<Longrightarrow> ps_state s = PoisonSessionActive"
proof -
  have "s' = s \<or> s' = s \<lparr> ps_next_rx_sequence := ps_next_rx_sequence s + 1 \<rparr>"
    using assms
    by (auto simp: poison_session_decrypt_rx_def poison_session_accept_rx_def
        split: if_splits option.splits)
  moreover have "s = s \<lparr> ps_next_rx_sequence := ps_next_rx_sequence s \<rparr>" by simp
  ultimately show "\<exists>k. s' = s \<lparr> ps_next_rx_sequence := k \<rparr>" by metis
  show "r = PoisonSessionResultOk \<Longrightarrow> ps_state s = PoisonSessionActive"
    using assms by (auto simp: poison_session_decrypt_rx_def split: if_splits)
qed

lemma dispatch_ok:
  assumes "rpc_session_dispatch_secure_payload env channel ack payload i c = Some c'"
    and "connection_ok owner c" "\<not> rc_terminated c" "ps_state (rc_session c) = PoisonSessionActive"
    and "\<exists>r \<in> set (pst_records (reg_store (rc_registry c))). pp_active r \<and>
      same_key (pp_key_digest r) (ps_client_identity_digest (rc_session c))"
  shows "connection_ok owner c'"
proof (cases "channel \<noteq> ''rpc'' \<or> payload = [] \<or> length payload > RPC_SECURE_REQUEST_PAYLOAD_MAX \<or>
    en_decode env payload = None \<or> inner_refused (mn_which_content (the (en_decode env payload)))")
  case True
  with assms(1) have "c' = c"
    by (cases "en_decode env payload")
      (simp_all add: rpc_session_dispatch_secure_payload_def Let_def split: if_split_asm)
  with assms(2) show ?thesis by simp
next
  case False
  then obtain inner where inner: "en_decode env payload = Some inner" by auto
  let ?tag = "mn_which_content inner"
  let ?c1 = "enter_dispatch channel ack c"
  have typed: "connection_typed c" using assms(2,3) by (simp add: connection_ok_def)
  have c1: "connection_typed ?c1" "rc_secure_dispatch_active ?c1" "rc_secure_transport_active ?c1"
    using typed assms(4) False by (simp_all add: enter_dispatch_def connection_typed_def)
  let ?noted = "note_call ?tag ?c1"
  have noted: "connection_typed ?noted" "rc_secure_dispatch_active ?noted"
    "rc_secure_transport_active ?noted"
    using c1 by (simp_all add: note_call_def)
  obtain c2 where c2: "(if \<not> secure_authorized ?c1 channel ?tag then refuse env inner ?c1
      else case inner_handler env ?tag of
             Some handler \<Rightarrow> handler inner i ?noted
           | None \<Rightarrow> rpc_send_and_release_empty env (mn_command_id inner)
                       CommandStatus_ERROR_NOT_IMPLEMENTED ?c1) = Some c2"
    and c': "c' = c2 \<lparr> rc_secure_dispatch_active := False \<rparr>"
    using assms(1) False inner
    by (auto simp: rpc_session_dispatch_secure_payload_def Let_def bind_eq_Some_conv)
  have call: "permitted owner \<lparr> ex_tag = ?tag, ex_secure = True, ex_session = rc_session c,
      ex_records = pst_records (reg_store (rc_registry c)), ex_channels = rc_secure_channels c \<rparr>"
    if "secure_authorized ?c1 channel ?tag" for owner
    using that typed assms(4,5) False inner
    by (simp add: permitted_def secure_authorized_def enter_dispatch_def connection_typed_def
        session_typed_def session_inv_def rpc_session_secure_channel_is_open_def)
  have trace: "\<forall>e \<in> set (rc_trace c). permitted owner e" and own: "rc_owner c = owner"
    using assms(2) by (simp_all add: connection_ok_def)
  have "\<exists>d. handled d c2 \<and> rc_owner d = owner \<and> (\<forall>e \<in> set (rc_trace d). permitted owner e)"
  proof (cases "secure_authorized ?c1 channel ?tag \<and> inner_handler env ?tag \<noteq> None")
    case True
    then obtain handler where h: "inner_handler env ?tag = Some handler" by auto
    with True c2 have "handler inner i ?noted = Some c2" by simp
    then have "handled ?noted c2"
      using returns_handledD [OF inner_handled [OF h noted(1)]] noted(2,3) by blast
    moreover have "rc_owner ?noted = owner" "\<forall>e \<in> set (rc_trace ?noted). permitted owner e"
      using own trace call True by (simp_all add: note_call_def enter_dispatch_def)
    ultimately show ?thesis by blast
  next
    case False
    with c2 have "handled ?c1 c2"
      using send_after(2) [OF _ handled_refl [OF c1(1)]] by (auto split: if_splits)
    moreover have "rc_owner ?c1 = owner" "\<forall>e \<in> set (rc_trace ?c1). permitted owner e"
      using own trace by (simp_all add: enter_dispatch_def)
    ultimately show ?thesis by blast
  qed
  then obtain d where "handled d c2" "rc_owner d = owner" "\<forall>e \<in> set (rc_trace d). permitted owner e"
    by blast
  then show ?thesis
    using c' by (simp add: connection_ok_def handled_def steady_def) (simp add: connection_typed_def)
qed

lemma note_call_simps [simp]:
  "connection_typed (note_call tag c) = connection_typed c"
  "rc_session (note_call tag c) = rc_session c"
  "rc_owner (note_call tag c) = rc_owner c"
  "rc_secure_dispatch_active (note_call tag c) = rc_secure_dispatch_active c"
  "rc_secure_transport_active (note_call tag c) = rc_secure_transport_active c"
  "rc_terminated (note_call tag c) = rc_terminated c"
  by (simp_all add: note_call_def)

lemma envelope_ok:
  assumes "rpc_poison_session_envelope_process env request i c = Some c'"
    and "connection_ok owner c" "\<not> rc_terminated c"
  shows "connection_ok owner c'"
proof (cases "mn_which_content request \<noteq> ''poison_session_envelope'' \<or> mn_has_next request \<or>
    ps_state (rc_session c) \<noteq> PoisonSessionActive")
  case True
  with assms show ?thesis by (simp add: rpc_poison_session_envelope_process_def)
next
  case act: False
  have typed: "connection_typed c" using assms(2,3) by (simp add: connection_ok_def)
  have trace: "\<forall>e \<in> set (rc_trace c). permitted owner e" "\<not> rc_secure_dispatch_active c"
    "rc_owner c = owner"
    using assms(2) by (simp_all add: connection_ok_def)
  obtain c1 ok where a: "rpc_poison_identity_allowed env c = (c1, ok)" by fastforce
  obtain reg where c1: "c1 = c \<lparr> rc_registry := reg \<rparr>" using identity_allowed_only [OF a] ..
  have h: "handled c c1" by (rule identity_allowed_handled [OF typed a])
  then have typed1: "connection_typed c1" by (simp add: handled_def)
  show ?thesis
  proof (cases ok)
    case False
    with act a assms(1) have "c' = rpc_session_revoke_secure_transport c1"
      by (simp add: rpc_poison_session_envelope_process_def)
    with handled_ok [OF handled_trans [OF h revoke_transport_handled [OF typed1]] trace(2,3,1)]
    show ?thesis by simp
  next
    case True
    let ?e = "mn_session_envelope request"
    obtain s p r where d: "poison_session_decrypt_rx (en_crypto env) (rc_session c1) (se_sequence ?e)
        (se_acknowledgement ?e) (Some (se_channel ?e)) (Some (se_payload ?e))
        (length (se_payload ?e)) (Some (se_authentication_tag ?e)) = (s, p, r)"
      by (metis prod_cases3)
    obtain k where s: "s = (rc_session c1) \<lparr> ps_next_rx_sequence := k \<rparr>"
      using decrypt_ok_session(1) [OF d] ..
    let ?c2 = "set_session s c1"
    have ok1: "connection_ok owner c1" and ok2: "connection_ok owner ?c2" "\<not> rc_terminated ?c2"
      using assms(2,3) c1 s by (simp_all add: connection_ok_def connection_typed_def)
    have found: "\<exists>r \<in> set (pst_records (reg_store (rc_registry ?c2))). pp_active r \<and>
        same_key (pp_key_digest r) (ps_client_identity_digest (rc_session ?c2))"
      using identity_allowed_found [of env c c1] a True s by simp
    have "ps_state (rc_session ?c2) = PoisonSessionActive" using act c1 s by simp
    note ready = ok2 this found
    from act a True assms(1) d have "c' = c1 \<or> c' = ?c2 \<or>
        rpc_session_dispatch_secure_payload env (se_channel ?e) (se_sequence ?e) (the p) i ?c2 = Some c'"
      by (simp add: rpc_poison_session_envelope_process_def Let_def split: if_split_asm)
    then show ?thesis using ok1 ok2 dispatch_ok [OF _ ready] by blast
  qed
qed

lemma worker_ok:
  assumes "rpc_session_worker_message env request i c = Some c'"
    and "connection_ok owner c" "\<not> rc_terminated c"
  shows "connection_ok owner c'"
proof -
  let ?tag = "mn_which_content request"
  have typed: "connection_typed c" and off: "\<not> rc_secure_dispatch_active c"
    and trace: "\<forall>e \<in> set (rc_trace c). permitted owner e" and own: "rc_owner c = owner"
    using assms(2,3) by (simp_all add: connection_ok_def)
  have plain: "connection_ok owner d" if "handled c d" for d
    using handled_ok [OF that off own trace] .
  show ?thesis
  proof (cases "rpc_session_plaintext_allowed c ?tag \<and> rpc_handler env ?tag \<noteq> None")
    case False
    have "connection_typed (c \<lparr> rc_decode_error := True \<rparr>)" using typed by simp
    then have "handled c (c \<lparr> rc_decode_error := True \<rparr>)" by (simp add: handled_def steady_def)
    then have "returns_handled c (rpc_session_worker_message env request i c)"
      using False handled_refl [OF typed]
      by (auto simp: rpc_session_worker_message_def Let_def message_decode_failed_def)
    with assms(1) plain show ?thesis by (blast dest: returns_handledD)
  next
    case True
    then obtain handler where h: "rpc_handler env ?tag = Some handler" by auto
    let ?n = "note_call ?tag c"
    have run: "handler request i ?n = Some c'"
      using True h assms(1) by (simp add: rpc_session_worker_message_def Let_def)
    have ntrace: "\<forall>e \<in> set (rc_trace ?n). permitted owner e"
      using trace True off own
      by (auto simp: note_call_def permitted_def rpc_session_plaintext_allowed_def split: if_split_asm)
    have n: "connection_typed ?n" "\<not> rc_secure_dispatch_active ?n" using typed off by simp_all
    show ?thesis
    proof (cases "?tag = ''poison_session_envelope''")
      case True
      with h have "handler = rpc_poison_session_envelope_process env" by (simp add: rpc_handler_def)
      moreover have "connection_ok owner ?n" "\<not> rc_terminated ?n"
        using assms(2,3) ntrace by (simp_all add: connection_ok_def) (simp add: note_call_def)
      ultimately show ?thesis using envelope_ok run by blast
    next
      case False
      with True have idle: "\<not> rc_secure_transport_active ?n"
        by (simp add: rpc_session_plaintext_allowed_def split: if_split_asm)
      have "returns_handled ?n (handler request i ?n)"
      proof (cases "?tag \<in> {''poison_pairing_hello'', ''poison_pairing_confirm''}")
        case True
        with h have "handler \<in> {rpc_poison_pairing_hello_process env, rpc_poison_pairing_confirm_process env}"
          by (auto simp: rpc_handler_def)
        with hello_handled [OF n(1) idle] confirm_handled [OF n(1) idle] show ?thesis by blast
      next
        case other: False
        with False h have "inner_handler env ?tag = Some handler" by (simp add: rpc_handler_def)
        from inner_handled [OF this n(1)] n(2) idle show ?thesis by blast
      qed
      with run have "handled ?n c'" by (blast dest: returns_handledD)
      moreover have "rc_owner ?n = owner" using own by simp
      ultimately show ?thesis using handled_ok n(2) ntrace by blast
    qed
  qed
qed

lemma free_ok:
  assumes "connection_ok owner c" "\<not> rc_terminated c"
  shows "connection_ok owner ((rpc_system_poison_free env now c) \<lparr> rc_terminated := True \<rparr>)"
proof -
  have "session_typed (rc_session c)" "\<forall>slot \<in> set (rc_resume_slots c). resumable_slot slot"
    using assms by (simp_all add: connection_ok_def connection_typed_def)
  from store_resumable [OF this(2,1)] assms(1) show ?thesis
    by (simp add: rpc_system_poison_free_def Let_def connection_ok_def)
qed

fun shared_ok :: "RpcEvent \<Rightarrow> bool" where
  "shared_ok (SharedChanged reg slots chain) = (\<forall>slot \<in> set slots. resumable_slot slot)"
| "shared_ok _ = True"

lemma halted_or_ok:
  assumes "connection_ok owner c" "\<And>c'. r = Some c' \<Longrightarrow> connection_ok owner c'"
  shows "connection_ok owner (halted_or c r)"
  using assms by (cases r) (simp_all add: halted_or_def connection_ok_def)

lemma rpc_step_ok:
  assumes "connection_ok owner c" "shared_ok e"
  shows "connection_ok owner (fst (rpc_step env e c))"
proof (cases "rc_halted c \<or> rc_terminated c")
  case True
  with assms(1) show ?thesis by (simp add: rpc_step_def)
next
  case False
  then have live: "\<not> rc_terminated c" and typed: "connection_typed c"
    using assms(1) by (simp_all add: connection_ok_def)
  have sent: "connection_ok owner c'" if "returns_handled c r" "r = Some c'" for r c'
    using handled_ok [OF returns_handledD [OF that]] assms(1) by (simp add: connection_ok_def)
  show ?thesis
  proof (cases e)
    case (Received request i)
    with False assms(1) worker_ok [OF _ assms(1) live] show ?thesis
      by (simp add: rpc_step_def halted_or_ok)
  next
    case Undecodable
    have "connection_typed (c \<lparr> rc_decode_error := True \<rparr>)" using typed by simp
    then have "returns_handled c (message_decode_failed env c)"
      using live by (simp add: message_decode_failed_def handled_def steady_def)
    from Undecodable False assms(1) sent [OF this] show ?thesis
      by (simp add: rpc_step_def halted_or_ok)
  next
    case (ServiceActs as)
    with False assms(1) sent [OF service_actions_handled [OF typed]] show ?thesis
      by (simp add: rpc_step_def halted_or_ok)
  next
    case (Disconnected now)
    with False free_ok [OF assms(1) live] show ?thesis by (simp add: rpc_step_def)
  next
    case (SharedChanged reg slots chain)
    with False assms show ?thesis
      by (simp add: rpc_step_def connection_ok_def connection_typed_def)
  qed
qed

lemma open_ok:
  assumes "\<forall>slot \<in> set slots. resumable_slot slot"
  shows "connection_ok owner (rpc_session_open env owner reg slots chain)"
  using assms
  by (simp add: rpc_session_open_def connection_ok_def connection_typed_def cancellations_typed_def
      tbl_unique_def cancellation_zero_def session_typed_def session_inv_def handshake_zero_def
      poison_session_init_def eval_nat_numeral split: prod.split)

section \<open>Reachable connections\<close>

inductive rpc_reachable :: "RpcEnv \<Rightarrow> RpcOwner \<Rightarrow> Connection \<Rightarrow> bool" for env owner where
  opened: "\<forall>slot \<in> set slots. resumable_slot slot \<Longrightarrow>
     rpc_reachable env owner (rpc_session_open env owner reg slots chain)"
| stepped: "rpc_reachable env owner c \<Longrightarrow> shared_ok e \<Longrightarrow>
     rpc_reachable env owner (fst (rpc_step env e c))"

lemma reachable_ok: "rpc_reachable env owner c \<Longrightarrow> connection_ok owner c"
  by (induction rule: rpc_reachable.induct) (simp_all add: open_ok rpc_step_ok)

lemma reachable_run:
  "rpc_reachable env owner c \<Longrightarrow> \<forall>e \<in> set es. shared_ok e \<Longrightarrow>
   rpc_reachable env owner (run_state (rpc_step env) c es)"
  by (induction es arbitrary: c) (simp_all add: rpc_reachable.stepped)

section \<open>Sample messages\<close>

definition blank_message :: PB_Main where
  "blank_message = \<lparr> mn_command_id = 1, mn_has_next = False, mn_which_content = '''',
     mn_pairing_hello = sample_hello, mn_pairing_confirm = sample_confirm,
     mn_session_envelope = \<lparr> se_protocol_version = 2, se_session_id = 1, se_sequence = 0,
       se_acknowledgement = 0, se_channel = ''rpc'', se_payload = [], se_authentication_tag = [] \<rparr>,
     mn_resume_request = \<lparr> rq_session_id = 1, rq_resume_token = [], rq_last_received_sequence = 0 \<rparr>,
     mn_channel_open = \<lparr> co_channel = ''rpc'', co_initial_credits = 4, co_resume_sequence = 0 \<rparr>,
     mn_credit_update = \<lparr> cd_channel = ''rpc'', cd_credits = 1 \<rparr>,
     mn_policy_request = \<lparr> pq_policy_version = 1, pq_role = 0, pq_requested_capabilities = 1,
       pq_device_locked = False, pq_physical_confirmation = True \<rparr>,
     mn_cancel_command_id = 0 \<rparr>"

definition message :: "Tag \<Rightarrow> PB_Main" where
  "message tag = blank_message \<lparr> mn_which_content := tag \<rparr>"

text \<open>An inner message is one byte here; the sample cipher takes the first 16 bytes of the
  associated data for the tag.\<close>

definition sample_inner :: "bytes \<Rightarrow> PB_Main option" where
  "sample_inner p =
     (if p = [1] then Some (message ''poison_channel_open'')
      else if p = [2] then Some (message ''system_ping_request'')
      else if p = [3] then Some (message ''stop_session'') else None)"

definition sample_env :: RpcEnv where
  "sample_env = \<lparr> en_crypto = sample_crypto, en_auth = sample_auth,
     en_event_bytes = (\<lambda>e. ae_actor_digest e), en_decode = sample_inner,
     en_encode = (\<lambda>r. Some [9]), en_registered = (\<lambda>tag. tag = ''system_ping_request'') \<rparr>"

definition envelope_message :: "u64 \<Rightarrow> u8 \<Rightarrow> PB_Main" where
  "envelope_message q b = (message ''poison_session_envelope'')
     \<lparr> mn_session_envelope := \<lparr> se_protocol_version = 2, se_session_id = 1, se_sequence = q,
         se_acknowledgement = 0, se_channel = ''rpc'', se_payload = [b],
         se_authentication_tag = take 16 (be_bytes 4 (2 :: u32) @ be_bytes 8 (1 :: u64) @ be_bytes 8 q) \<rparr> \<rparr>"

definition sample_input :: RpcInput where
  "sample_input = \<lparr> in_now_ms = 500, in_audit_now_ms = 501, in_pairing = sample_random,
     in_token_fills = [replicate 32 8], in_approved = True, in_save = good_io,
     in_cancel_accepted = True, in_service = [] \<rparr>"

section \<open>One envelope\<close>

text \<open>What the arrival of an envelope comes to when the connection is up.\<close>

definition envelope_arrives :: "PB_Main \<Rightarrow> Connection \<Rightarrow> bool" where
  "envelope_arrives request c \<longleftrightarrow> mn_which_content request = ''poison_session_envelope'' \<and>
     \<not> mn_has_next request \<and> \<not> rc_decode_error c \<and> \<not> rc_halted c \<and> \<not> rc_terminated c"

lemma envelope_step:
  assumes "envelope_arrives request c"
  shows "fst (rpc_step env (Received request i) c) =
    halted_or c (rpc_poison_session_envelope_process env request i
      (note_call ''poison_session_envelope'' c))"
  using assms
  by (simp add: envelope_arrives_def rpc_step_def rpc_session_worker_message_def Let_def
      rpc_session_plaintext_allowed_def rpc_handler_def)

lemma identity_refused:
  assumes "rpc_poison_identity_allowed env c = (c1, False)"
    and "mn_which_content request = ''poison_session_envelope''" "\<not> mn_has_next request"
    and "ps_state (rc_session c) = PoisonSessionActive"
  shows "rpc_poison_session_envelope_process env request i c =
    Some (rpc_session_revoke_secure_transport c1)"
  using assms by (simp add: rpc_poison_session_envelope_process_def)

definition secure_calls :: "Connection \<Rightarrow> Executed list" where
  "secure_calls c = filter ex_secure (rc_trace c)"

lemma revoked_transport:
  assumes "rc_secure_session c" "ps_session_id (rc_session c) \<noteq> 0"
  shows "rpc_session_revoke_secure_transport c =
    (set_session (fst (poison_session_revoke (rc_session c))) c)
     \<lparr> rc_secure_dispatch_active := False, rc_secure_transport_active := False,
       rc_secure_session := False, rc_secure_channel := '''', rc_secure_acknowledgement := 0,
       rc_secure_channels := poison_channel_table_init,
       rc_resume_slots := rpc_session_revoke_resume (rc_resume_slots c) (ps_session_id (rc_session c)) \<rparr>"
  using assms by (simp add: rpc_session_revoke_secure_transport_def Let_def)

text \<open>An identity the registry does not hold is refused.\<close>

lemma identity_unknown:
  assumes "snd (poison_pairing_registry_find (en_auth env) (rc_registry c)
      (Some (ps_client_identity_digest (rc_session c)))) = None"
  shows "\<exists>reg. rpc_poison_identity_allowed env c = (c \<lparr> rc_registry := reg \<rparr>, False)"
proof (cases "rc_pairing_store_ready c")
  case True
  with assms show ?thesis
    by (auto simp: rpc_poison_identity_allowed_def split: prod.split)
next
  case False
  then have "rpc_poison_identity_allowed env c = (c \<lparr> rc_registry := rc_registry c \<rparr>, False)"
    by (simp add: rpc_poison_identity_allowed_def)
  then show ?thesis by blast
qed

text \<open>C2: once a client is no longer in the registry, the next envelope of its running session
  executes no command: the session is revoked with its keys erased, the secure transport and
  its channels are shut, no stored session of that number can be resumed.\<close>

theorem removed_client_cut_off:
  fixes env c request i
  defines "c' \<equiv> fst (rpc_step env (Received request i) c)"
  assumes "rpc_reachable env owner c" "envelope_arrives request c"
    and "rc_secure_transport_active c"
    and "snd (poison_pairing_registry_find (en_auth env) (rc_registry c)
          (Some (ps_client_identity_digest (rc_session c)))) = None"
  shows "secure_calls c' = secure_calls c \<and> ps_state (rc_session c') = PoisonSessionRevoked \<and>
    ps_receive_key (rc_session c') = zeros 32 \<and> ps_transmit_key (rc_session c') = zeros 32 \<and>
    \<not> rc_secure_transport_active c' \<and> rc_secure_channels c' = poison_channel_table_init \<and>
    (\<forall>slot \<in> set (rc_resume_slots c'). rs_active slot \<longrightarrow>
       ps_session_id (rs_session slot) \<noteq> ps_session_id (rc_session c))"
proof -
  have ok: "connection_ok owner c" by (rule reachable_ok [OF assms(2)])
  have live: "\<not> rc_terminated c" using assms(3) by (simp add: envelope_arrives_def)
  with ok have typed: "connection_typed c" and off: "\<not> rc_secure_dispatch_active c"
    by (simp_all add: connection_ok_def)
  then have act: "ps_state (rc_session c) = PoisonSessionActive" "rc_secure_session c"
    "ps_session_id (rc_session c) \<noteq> 0"
    using assms(4) by (simp_all add: connection_typed_def session_typed_def session_inv_def)
  let ?n = "note_call ''poison_session_envelope'' c"
  have "rc_registry ?n = rc_registry c" by (simp add: note_call_def)
  with assms(5) obtain reg where r: "rpc_poison_identity_allowed env ?n = (?n \<lparr> rc_registry := reg \<rparr>, False)"
    using identity_unknown [of env ?n] by auto
  have m: "mn_which_content request = ''poison_session_envelope''" "\<not> mn_has_next request"
    using assms(3) by (simp_all add: envelope_arrives_def)
  have "ps_state (rc_session ?n) = PoisonSessionActive" using act(1) by simp
  from identity_refused [OF r m this, of i] envelope_step [OF assms(3), of env i]
  have c': "c' = rpc_session_revoke_secure_transport (?n \<lparr> rc_registry := reg \<rparr>)"
    by (simp add: c'_def halted_or_def)
  have n: "rc_secure_session (?n \<lparr> rc_registry := reg \<rparr>)"
    "ps_session_id (rc_session (?n \<lparr> rc_registry := reg \<rparr>)) \<noteq> 0"
    using act by (simp_all add: note_call_def)
  show ?thesis
    unfolding c' revoked_transport [OF n]
    using off
    by (auto simp: secure_calls_def note_call_def poison_session_revoke_def
        rpc_session_revoke_resume_def poison_session_resume_revoke_def
        poison_session_resume_slot_init_def)
qed

section \<open>A repeated envelope\<close>

text \<open>A handler inside the dispatch moves at most the send counter of the session, or ends it.\<close>

definition rx_kept :: "Connection \<Rightarrow> Connection option \<Rightarrow> bool" where
  "rx_kept c r \<longleftrightarrow> (\<forall>c'. r = Some c' \<longrightarrow>
     (\<exists>n. rc_session c' = (rc_session c) \<lparr> ps_next_tx_sequence := n \<rparr>) \<or>
     ps_state (rc_session c') \<noteq> PoisonSessionActive)"

lemma same_session_tx: "\<exists>n. s = s \<lparr> ps_next_tx_sequence := n \<rparr>"
  by (metis PoisonSession.surjective PoisonSession.update_convs(4))

lemma rpc_send_session:
  "rpc_send env m c = Some c' \<Longrightarrow> \<exists>n. rc_session c' = (rc_session c) \<lparr> ps_next_tx_sequence := n \<rparr>"
  "rpc_send_and_release_empty env k st c = Some c' \<Longrightarrow>
     \<exists>n. rc_session c' = (rc_session c) \<lparr> ps_next_tx_sequence := n \<rparr>"
  unfolding rpc_send_and_release_empty_def by (drule rpc_send_only, force)+

lemma rx_kept_send [simp]:
  "rc_session c1 = rc_session c \<Longrightarrow> rx_kept c (rpc_send env m c1)"
  "rc_session c1 = rc_session c \<Longrightarrow> rx_kept c (rpc_send_and_release_empty env k st c1)"
  using rpc_send_session(1) [of env m c1] rpc_send_session(2) [of env k st c1]
  by (simp_all only: rx_kept_def) (metis+)

lemma rx_kept_Some: "rc_session c1 = rc_session c \<Longrightarrow> rx_kept c (Some c1)"
  using same_session_tx [of "rc_session c"] by (simp add: rx_kept_def)

lemma service_action_session:
  "service_action env a c = Some c' \<Longrightarrow> \<exists>n. rc_session c' = (rc_session c) \<lparr> ps_next_tx_sequence := n \<rparr>"
  using same_session_tx [of "rc_session c"] rpc_send_session(1) [of env _ c c'] by (cases a) auto

lemma service_actions_session:
  "service_actions env as c = Some c' \<Longrightarrow> \<exists>n. rc_session c' = (rc_session c) \<lparr> ps_next_tx_sequence := n \<rparr>"
proof (induction as arbitrary: c)
  case Nil
  then show ?case using same_session_tx [of "rc_session c"] by simp
next
  case (Cons a as)
  then obtain d where d: "service_action env a c = Some d" "service_actions env as d = Some c'"
    by (auto simp: bind_eq_Some_conv)
  with service_action_session [OF d(1)] Cons.IH [OF d(2)] show ?case by auto
qed

lemma open_channel_session:
  "rc_session (fst (rpc_session_open_secure_channel ch n q c)) = rc_session c"
  "rc_session (fst (rpc_session_add_secure_channel_credits ch n c)) = rc_session c"
  by (simp_all add: rpc_session_open_secure_channel_def rpc_session_add_secure_channel_credits_def
      Let_def split: prod.split option.split)

lemma rx_kept_close: "rx_kept c (rpc_close_session_process env request i c)"
proof -
  have "rx_kept c (Some (if rc_secure_dispatch_active d then rpc_session_revoke_secure_transport d else d))"
    if sent: "rpc_send_and_release_empty env k st c = Some d" for d k st
  proof -
    obtain n where n: "rc_session d = (rc_session c) \<lparr> ps_next_tx_sequence := n \<rparr>"
      using rpc_send_session(2) [OF sent] ..
    have "rc_session (rpc_session_revoke_secure_transport d) = rc_session d \<or>
        ps_state (rc_session (rpc_session_revoke_secure_transport d)) = PoisonSessionRevoked"
      by (simp add: rpc_session_revoke_secure_transport_def Let_def)
    with n show ?thesis by (auto simp: rx_kept_def)
  qed
  then show ?thesis
    unfolding rpc_close_session_process_def
    by (cases "rpc_send_and_release_empty env (mn_command_id request) CommandStatus_OK c")
      (simp_all add: rx_kept_def)
qed

lemma inner_rx_kept:
  assumes "inner_handler env tag = Some handler" "rc_secure_dispatch_active c"
  shows "rx_kept c (handler request i c)"
proof -
  have "handler \<in> {rpc_close_session_process env, rpc_cancel_request_process env,
      rpc_poison_policy_request_process env, rpc_poison_resume_request_process env,
      rpc_poison_channel_open_process env, rpc_poison_credit_update_process env,
      service_process env}"
    using assms(1) by (simp add: inner_handler_def split: if_split_asm)
  moreover have "rx_kept c (service_process env request i c)"
    using service_actions_session by (auto simp: service_process_def rx_kept_def)
  moreover have "rx_kept c (rpc_cancel_request_process env request i c)"
    "rx_kept c (rpc_poison_policy_request_process env request i c)"
    by (simp_all add: rpc_cancel_request_process_def rpc_poison_policy_request_process_def Let_def
        del: find_index_None)
  moreover have "rx_kept c (rpc_poison_resume_request_process env request i c)"
  proof -
    obtain c1 ok where a: "rpc_poison_identity_allowed env c = (c1, ok)" by fastforce
    with identity_allowed_only [OF a] have "rc_session c1 = rc_session c" by auto
    with a show ?thesis
      using assms(2) by (simp add: rpc_poison_resume_request_process_def resume_issue_def Let_def
          split: option.split)
  qed
  moreover have "rx_kept c (rpc_poison_channel_open_process env request i c)"
  proof -
    let ?w = "mn_channel_open request"
    obtain c1 r where o: "rpc_session_open_secure_channel ''rpc'' (co_initial_credits ?w)
        (co_resume_sequence ?w) c = (c1, r)" by fastforce
    then have "rc_session c1 = rc_session c"
      using open_channel_session(1) [of "''rpc''" "co_initial_credits ?w" "co_resume_sequence ?w" c]
      by simp
    with o show ?thesis
      by (cases "co_channel ?w = ''rpc''"; cases r)
        (simp_all add: rpc_poison_channel_open_process_def Let_def split: prod.split)
  qed
  moreover have "rx_kept c (rpc_poison_credit_update_process env request i c)"
  proof -
    let ?w = "mn_credit_update request"
    obtain c1 ok where o: "rpc_session_add_secure_channel_credits (cd_channel ?w) (cd_credits ?w) c = (c1, ok)"
      by fastforce
    then have "rc_session c1 = rc_session c"
      using open_channel_session(2) [of "cd_channel ?w" "cd_credits ?w" c] by simp
    with o show ?thesis by (simp add: rpc_poison_credit_update_process_def Let_def)
  qed
  ultimately show ?thesis using rx_kept_close by blast
qed

lemma dispatch_session:
  assumes "rpc_session_dispatch_secure_payload env channel ack payload i c = Some c'"
  shows "(\<exists>n. rc_session c' = (rc_session c) \<lparr> ps_next_tx_sequence := n \<rparr>) \<or>
    ps_state (rc_session c') \<noteq> PoisonSessionActive"
proof (cases "channel \<noteq> ''rpc'' \<or> payload = [] \<or> length payload > RPC_SECURE_REQUEST_PAYLOAD_MAX \<or>
    en_decode env payload = None \<or> inner_refused (mn_which_content (the (en_decode env payload)))")
  case True
  with assms have "c' = c"
    by (cases "en_decode env payload")
      (simp_all add: rpc_session_dispatch_secure_payload_def Let_def split: if_split_asm)
  then show ?thesis using same_session_tx [of "rc_session c"] by simp
next
  case False
  then obtain inner where inner: "en_decode env payload = Some inner" by auto
  let ?tag = "mn_which_content inner"
  let ?c1 = "enter_dispatch channel ack c"
  have s1: "rc_session ?c1 = rc_session c" "rc_session (note_call ?tag ?c1) = rc_session c"
    "rc_secure_dispatch_active (note_call ?tag ?c1)"
    by (simp_all add: enter_dispatch_def)
  let ?r = "if \<not> secure_authorized ?c1 channel ?tag then refuse env inner ?c1
      else case inner_handler env ?tag of
             Some handler \<Rightarrow> handler inner i (note_call ?tag ?c1)
           | None \<Rightarrow> rpc_send_and_release_empty env (mn_command_id inner)
                       CommandStatus_ERROR_NOT_IMPLEMENTED ?c1"
  obtain c2 where c2: "?r = Some c2" and c': "c' = c2 \<lparr> rc_secure_dispatch_active := False \<rparr>"
    using assms False inner
    by (auto simp: rpc_session_dispatch_secure_payload_def Let_def bind_eq_Some_conv)
  have "rx_kept c ?r"
  proof (cases "secure_authorized ?c1 channel ?tag \<and> inner_handler env ?tag \<noteq> None")
    case True
    then obtain handler where h: "inner_handler env ?tag = Some handler" by auto
    from inner_rx_kept [OF this s1(3), of inner i] s1(2) True h show ?thesis
      by (simp add: rx_kept_def)
  next
    case False
    then have "\<exists>st. ?r = rpc_send_and_release_empty env (mn_command_id inner) st ?c1"
      by (cases "secure_authorized ?c1 channel ?tag"; cases "inner_handler env ?tag") auto
    then obtain st where "?r = rpc_send_and_release_empty env (mn_command_id inner) st ?c1" ..
    then show ?thesis by (simp only: rx_kept_send(2) [OF s1(1)])
  qed
  with c2 c' show ?thesis by (simp add: rx_kept_def)
qed

lemma envelope_declined:
  assumes "rpc_poison_session_envelope_process env request i c = Some c'" "envelope_arrives request d"
    and "\<And>c1. rpc_poison_identity_allowed env c = (c1, True) \<Longrightarrow>
      ps_state (rc_session c) = PoisonSessionActive \<Longrightarrow>
      snd (snd (poison_session_decrypt_rx (en_crypto env) (rc_session c)
        (se_sequence (mn_session_envelope request)) (se_acknowledgement (mn_session_envelope request))
        (Some (se_channel (mn_session_envelope request))) (Some (se_payload (mn_session_envelope request)))
        (length (se_payload (mn_session_envelope request)))
        (Some (se_authentication_tag (mn_session_envelope request))))) \<noteq> PoisonSessionResultOk \<or>
      se_session_id (mn_session_envelope request) \<noteq> ps_session_id (rc_session c) \<or>
      length (se_authentication_tag (mn_session_envelope request)) \<noteq> POISON_SESSION_AUTH_TAG_BYTES \<or>
      se_payload (mn_session_envelope request) = []"
  shows "rc_trace c' = rc_trace c"
proof (cases "ps_state (rc_session c) = PoisonSessionActive")
  case True
  let ?e = "mn_session_envelope request"
  obtain c1 ok where a: "rpc_poison_identity_allowed env c = (c1, ok)" by fastforce
  obtain reg where c1: "c1 = c \<lparr> rc_registry := reg \<rparr>" using identity_allowed_only [OF a] ..
  obtain s p r where dec: "poison_session_decrypt_rx (en_crypto env) (rc_session c) (se_sequence ?e)
      (se_acknowledgement ?e) (Some (se_channel ?e)) (Some (se_payload ?e))
      (length (se_payload ?e)) (Some (se_authentication_tag ?e)) = (s, p, r)"
    by (metis prod_cases3)
  have m: "mn_which_content request = ''poison_session_envelope''" "\<not> mn_has_next request"
    using assms(2) by (simp_all add: envelope_arrives_def)
  show ?thesis
  proof (cases ok)
    case False
    with assms(1) a m True have "c' = rpc_session_revoke_secure_transport c1"
      by (simp add: rpc_poison_session_envelope_process_def)
    then show ?thesis using c1 by (simp add: rpc_session_revoke_secure_transport_def Let_def)
  next
    case ok: True
    with assms(3) a True dec have "r \<noteq> PoisonSessionResultOk \<or> se_session_id ?e \<noteq> ps_session_id (rc_session c) \<or>
        length (se_authentication_tag ?e) \<noteq> POISON_SESSION_AUTH_TAG_BYTES \<or> se_payload ?e = []"
      by simp
    with assms(1) a m True ok c1 dec have "c' = c1 \<or> c' = set_session s c1"
      by (simp add: rpc_poison_session_envelope_process_def Let_def split: if_split_asm)
    then show ?thesis using c1 by auto
  qed
next
  case False
  with assms(1) show ?thesis by (simp add: rpc_poison_session_envelope_process_def)
qed

lemma decrypt_rejected:
  "snd (snd (poison_session_decrypt_rx cr s q ack ch ct n tag)) \<noteq> PoisonSessionResultOk \<Longrightarrow>
   fst (poison_session_decrypt_rx cr s q ack ch ct n tag) = s"
  using accept_rx_ok(3) [of s q]
  by (auto simp: poison_session_decrypt_rx_def split: if_splits option.splits prod.splits)

lemma decrypt_accepted:
  assumes "poison_session_decrypt_rx cr s q ack ch ct n tag = (s', p, PoisonSessionResultOk)"
  shows "ps_next_rx_sequence s' = q + 1 \<and> q < q + 1"
proof -
  have "poison_session_accept_rx s q = (s', PoisonSessionResultOk)"
    using assms by (auto simp: poison_session_decrypt_rx_def split: if_splits option.splits prod.splits)
  then have "s' = s \<lparr> ps_next_rx_sequence := q + 1 \<rparr>" "q \<noteq> UINT64_MAX"
    using accept_rx_ok(1,2) [of s q] by (metis fst_conv snd_conv)+
  then show ?thesis using inc_no_wrap [of q] by (simp add: word_less_nat_alt)
qed

lemma decrypt_replay:
  "q < ps_next_rx_sequence s \<Longrightarrow>
   snd (snd (poison_session_decrypt_rx cr s q ack ch ct n tag)) \<noteq> PoisonSessionResultOk"
  by (simp add: poison_session_decrypt_rx_def)

text \<open>What an envelope does to the session it arrives in: none, the end of it, or a step of the
  receive counter past its number.\<close>

lemma envelope_session:
  assumes "rpc_poison_session_envelope_process env request i c = Some c'" "envelope_arrives request d"
    and "connection_typed c"
  shows "ps_state (rc_session c') \<noteq> PoisonSessionActive \<or>
    se_sequence (mn_session_envelope request) < ps_next_rx_sequence (rc_session c') \<or>
    rc_session c' = rc_session c \<and>
      (se_session_id (mn_session_envelope request) \<noteq> ps_session_id (rc_session c) \<or>
       length (se_authentication_tag (mn_session_envelope request)) \<noteq> POISON_SESSION_AUTH_TAG_BYTES \<or>
       se_payload (mn_session_envelope request) = [] \<or>
       snd (snd (poison_session_decrypt_rx (en_crypto env) (rc_session c)
        (se_sequence (mn_session_envelope request)) (se_acknowledgement (mn_session_envelope request))
        (Some (se_channel (mn_session_envelope request))) (Some (se_payload (mn_session_envelope request)))
        (length (se_payload (mn_session_envelope request)))
        (Some (se_authentication_tag (mn_session_envelope request))))) \<noteq> PoisonSessionResultOk)"
proof (cases "ps_state (rc_session c) = PoisonSessionActive")
  case True
  let ?e = "mn_session_envelope request"
  obtain c1 ok where a: "rpc_poison_identity_allowed env c = (c1, ok)" by fastforce
  obtain reg where c1: "c1 = c \<lparr> rc_registry := reg \<rparr>" using identity_allowed_only [OF a] ..
  obtain s p r where dec: "poison_session_decrypt_rx (en_crypto env) (rc_session c) (se_sequence ?e)
      (se_acknowledgement ?e) (Some (se_channel ?e)) (Some (se_payload ?e))
      (length (se_payload ?e)) (Some (se_authentication_tag ?e)) = (s, p, r)"
    by (metis prod_cases3)
  have m: "mn_which_content request = ''poison_session_envelope''" "\<not> mn_has_next request"
    using assms(2) by (simp_all add: envelope_arrives_def)
  show ?thesis
  proof (cases ok)
    case False
    with assms(1) a m True have "c' = rpc_session_revoke_secure_transport c1"
      by (simp add: rpc_poison_session_envelope_process_def)
    then show ?thesis
      using c1 assms(3) True
      by (simp add: rpc_session_revoke_secure_transport_def Let_def connection_typed_def)
  next
    case ok: True
    let ?bad = "se_session_id ?e \<noteq> ps_session_id (rc_session c) \<or>
      length (se_authentication_tag ?e) \<noteq> POISON_SESSION_AUTH_TAG_BYTES \<or> se_payload ?e = []"
    have run: "(if ?bad then Some c1
        else if r \<noteq> PoisonSessionResultOk then Some (set_session s c1)
        else rpc_session_dispatch_secure_payload env (se_channel ?e) (se_sequence ?e) (the p) i
               (set_session s c1)) = Some c'"
      using assms(1) a m True ok c1 dec
      by (simp add: rpc_poison_session_envelope_process_def Let_def cong: if_cong)
    show ?thesis
    proof (cases "?bad \<or> r \<noteq> PoisonSessionResultOk")
      case True
      with run c1 dec decrypt_rejected [of "en_crypto env" "rc_session c" "se_sequence ?e"
          "se_acknowledgement ?e" "Some (se_channel ?e)" "Some (se_payload ?e)"
          "length (se_payload ?e)" "Some (se_authentication_tag ?e)"]
      show ?thesis by (auto split: if_splits)
    next
      case False
      with run have d: "rpc_session_dispatch_secure_payload env (se_channel ?e) (se_sequence ?e) (the p) i
          (set_session s c1) = Some c'" by simp
      from False dec have "se_sequence ?e < ps_next_rx_sequence s"
        using decrypt_accepted [of "en_crypto env" "rc_session c"] by force
      with dispatch_session [OF d] show ?thesis by auto
    qed
  qed
next
  case False
  with assms(1) show ?thesis by (simp add: rpc_poison_session_envelope_process_def)
qed

lemma step_arrives:
  assumes "envelope_arrives request (fst (rpc_step env (Received request i) c))"
  shows "envelope_arrives request c"
    and "rpc_poison_session_envelope_process env request i (note_call ''poison_session_envelope'' c) =
      Some (fst (rpc_step env (Received request i) c))"
proof -
  show c: "envelope_arrives request c"
  proof (cases "rc_halted c \<or> rc_terminated c \<or> rc_decode_error c")
    case True
    with assms show ?thesis by (auto simp: rpc_step_def envelope_arrives_def split: if_splits)
  next
    case False
    with assms show ?thesis by (simp add: envelope_arrives_def)
  qed
  from assms envelope_step [OF c, of env i]
  show "rpc_poison_session_envelope_process env request i (note_call ''poison_session_envelope'' c) =
      Some (fst (rpc_step env (Received request i) c))"
    by (cases "rpc_poison_session_envelope_process env request i (note_call ''poison_session_envelope'' c)")
      (simp_all add: halted_or_def envelope_arrives_def)
qed

text \<open>As long as a session stays active its receive counter never goes back.\<close>

definition rx_grows :: "Connection \<Rightarrow> Connection \<Rightarrow> bool" where
  "rx_grows c d \<longleftrightarrow> ps_state (rc_session d) \<noteq> PoisonSessionActive \<or>
     ps_next_rx_sequence (rc_session c) \<le> ps_next_rx_sequence (rc_session d)"

lemma rx_grows_tx: "rc_session d = (rc_session c) \<lparr> ps_next_tx_sequence := n \<rparr> \<Longrightarrow> rx_grows c d"
  by (simp add: rx_grows_def)

lemma envelope_rx_grows:
  assumes "rpc_poison_session_envelope_process env request i c = Some c'" "connection_typed c"
  shows "rx_grows c c'"
proof (cases "mn_which_content request \<noteq> ''poison_session_envelope'' \<or> mn_has_next request \<or>
    ps_state (rc_session c) \<noteq> PoisonSessionActive")
  case True
  with assms(1) have "c' = c" by (auto simp: rpc_poison_session_envelope_process_def)
  then show ?thesis by (simp add: rx_grows_def)
next
  case m: False
  let ?e = "mn_session_envelope request"
  obtain c1 ok where a: "rpc_poison_identity_allowed env c = (c1, ok)" by fastforce
  obtain reg where c1: "c1 = c \<lparr> rc_registry := reg \<rparr>" using identity_allowed_only [OF a] ..
  obtain s p r where dec: "poison_session_decrypt_rx (en_crypto env) (rc_session c) (se_sequence ?e)
      (se_acknowledgement ?e) (Some (se_channel ?e)) (Some (se_payload ?e))
      (length (se_payload ?e)) (Some (se_authentication_tag ?e)) = (s, p, r)"
    by (metis prod_cases3)
  show ?thesis
  proof (cases ok)
    case False
    with assms(1) a m have "c' = rpc_session_revoke_secure_transport c1"
      by (simp add: rpc_poison_session_envelope_process_def)
    then show ?thesis
      using c1 assms(2) m
      by (simp add: rpc_session_revoke_secure_transport_def Let_def connection_typed_def rx_grows_def)
  next
    case ok: True
    let ?bad = "se_session_id ?e \<noteq> ps_session_id (rc_session c) \<or>
      length (se_authentication_tag ?e) \<noteq> POISON_SESSION_AUTH_TAG_BYTES \<or> se_payload ?e = []"
    have run: "(if ?bad then Some c1
        else if r \<noteq> PoisonSessionResultOk then Some (set_session s c1)
        else rpc_session_dispatch_secure_payload env (se_channel ?e) (se_sequence ?e) (the p) i
               (set_session s c1)) = Some c'"
      using assms(1) a m ok c1 dec
      by (simp add: rpc_poison_session_envelope_process_def Let_def cong: if_cong)
    show ?thesis
    proof (cases "?bad \<or> r \<noteq> PoisonSessionResultOk")
      case True
      with run c1 dec decrypt_rejected [of "en_crypto env" "rc_session c" "se_sequence ?e"
          "se_acknowledgement ?e" "Some (se_channel ?e)" "Some (se_payload ?e)"
          "length (se_payload ?e)" "Some (se_authentication_tag ?e)"]
      show ?thesis by (auto simp: rx_grows_def split: if_splits)
    next
      case False
      with run have d: "rpc_session_dispatch_secure_payload env (se_channel ?e) (se_sequence ?e) (the p) i
          (set_session s c1) = Some c'" by simp
      have accept: "poison_session_accept_rx (rc_session c) (se_sequence ?e) = (s, PoisonSessionResultOk)"
        using dec False by (auto simp: poison_session_decrypt_rx_def split: if_splits option.splits prod.splits)
      then have "se_sequence ?e = ps_next_rx_sequence (rc_session c)"
        using accept_rx_ok(1) [of "rc_session c" "se_sequence ?e"] by simp
      moreover have "se_sequence ?e < ps_next_rx_sequence s"
        using False dec decrypt_accepted [of "en_crypto env" "rc_session c"] by force
      ultimately have "ps_next_rx_sequence (rc_session c) \<le> ps_next_rx_sequence s" by simp
      with dispatch_session [OF d] show ?thesis by (auto simp: rx_grows_def)
    qed
  qed
qed

lemma step_rx_grows:
  assumes "connection_ok owner c" "ps_state (rc_session c) = PoisonSessionActive"
  shows "rx_grows c (fst (rpc_step env e c))"
proof (cases "rc_halted c \<or> rc_terminated c \<or> (rc_decode_error c \<and> (\<exists>request i. e = Received request i)) \<or>
    (rc_decode_error c \<and> e = Undecodable)")
  case True
  then show ?thesis by (auto simp: rpc_step_def rx_grows_def)
next
  case False
  have typed: "connection_typed c" "rc_secure_transport_active c"
    using assms False by (simp_all add: connection_ok_def connection_typed_def)
  have sent: "rx_grows c (halted_or c r)" if "rx_kept c r" for r
    using that by (cases r) (auto simp: halted_or_def rx_kept_def rx_grows_def)
  show ?thesis
  proof (cases e)
    case (Received request i)
    have "rx_grows c (halted_or c (rpc_session_worker_message env request i c))"
    proof (cases "mn_which_content request = ''poison_session_envelope''")
      case True
      let ?n = "note_call ''poison_session_envelope'' c"
      have w: "rpc_session_worker_message env request i c = rpc_poison_session_envelope_process env request i ?n"
        using True by (simp add: rpc_session_worker_message_def Let_def rpc_session_plaintext_allowed_def rpc_handler_def)
      have "connection_typed ?n" using typed(1) by simp
      then show ?thesis
        unfolding w using envelope_rx_grows [of env request i ?n]
        by (cases "rpc_poison_session_envelope_process env request i ?n")
          (auto simp: halted_or_def rx_grows_def note_call_def)
    next
      case envelope: False
      then have "rpc_session_worker_message env request i c = refuse env request c"
        using typed(2) by (simp add: rpc_session_worker_message_def Let_def rpc_session_plaintext_allowed_def)
      then show ?thesis using sent by simp
    qed
    then show ?thesis using False Received by (simp add: rpc_step_def)
  next
    case Undecodable
    have "rx_kept c (message_decode_failed env c)"
      using False by (simp add: message_decode_failed_def)
    from sent [OF this] show ?thesis using False Undecodable by (simp add: rpc_step_def)
  next
    case (ServiceActs as)
    have "rx_kept c (service_actions env as c)" using service_actions_session by (auto simp: rx_kept_def)
    from sent [OF this] show ?thesis using False ServiceActs by (simp add: rpc_step_def)
  next
    case (Disconnected now)
    then show ?thesis
      using False by (simp add: rpc_step_def rpc_system_poison_free_def Let_def rx_grows_def handshake_zero_def poison_session_init_def)
  next
    case (SharedChanged reg slots chain)
    then show ?thesis using False by (simp add: rpc_step_def rx_grows_def)
  qed
qed

text \<open>The number of an envelope is used up: the session is over or counts from a later number.\<close>

definition used_up :: "u64 \<Rightarrow> Connection \<Rightarrow> bool" where
  "used_up q c \<longleftrightarrow> ps_state (rc_session c) \<noteq> PoisonSessionActive \<or> q < ps_next_rx_sequence (rc_session c)"

text \<open>A session that is not active becomes so in this step: a client paired or resumed.\<close>

definition session_begins :: "RpcEnv \<Rightarrow> RpcEvent \<Rightarrow> Connection \<Rightarrow> bool" where
  "session_begins env e c \<longleftrightarrow> ps_state (rc_session c) \<noteq> PoisonSessionActive \<and>
     ps_state (rc_session (fst (rpc_step env e c))) = PoisonSessionActive"

lemma used_up_run:
  assumes "rpc_reachable env owner c" "used_up q c" "\<forall>e \<in> set es. shared_ok e"
    and "\<forall>n < length es. \<not> session_begins env (es ! n) (run_state (rpc_step env) c (take n es))"
  shows "used_up q (run_state (rpc_step env) c es)"
  using assms
proof (induction es arbitrary: c)
  case (Cons e es)
  let ?d = "fst (rpc_step env e c)"
  have "\<not> session_begins env e c" using Cons.prems(4) by (metis length_Cons nth_Cons_0 run_state_simps(1) take0 zero_less_Suc)
  moreover have "rx_grows c ?d" if "ps_state (rc_session c) = PoisonSessionActive"
    using step_rx_grows [OF reachable_ok [OF Cons.prems(1)] that] .
  ultimately have d: "used_up q ?d"
    using Cons.prems(2) by (auto simp: used_up_def session_begins_def rx_grows_def)
  have later: "\<forall>n < length es. \<not> session_begins env (es ! n) (run_state (rpc_step env) ?d (take n es))"
  proof (intro allI impI)
    fix n assume "n < length es"
    then show "\<not> session_begins env (es ! n) (run_state (rpc_step env) ?d (take n es))"
      using Cons.prems(4) [rule_format, of "Suc n"] by simp
  qed
  have "rpc_reachable env owner ?d" using Cons.prems(1,3) by (simp add: rpc_reachable.stepped)
  from Cons.IH [OF this d _ later] show ?case using Cons.prems(3) by simp
qed simp

lemma redelivered:
  assumes "connection_ok owner c" "mn_which_content request = ''poison_session_envelope''"
    and "envelope_arrives request c \<Longrightarrow> used_up (se_sequence (mn_session_envelope request)) c \<or>
      (se_session_id (mn_session_envelope request) \<noteq> ps_session_id (rc_session c) \<or>
       length (se_authentication_tag (mn_session_envelope request)) \<noteq> POISON_SESSION_AUTH_TAG_BYTES \<or>
       se_payload (mn_session_envelope request) = [] \<or>
       snd (snd (poison_session_decrypt_rx (en_crypto env) (rc_session c)
        (se_sequence (mn_session_envelope request)) (se_acknowledgement (mn_session_envelope request))
        (Some (se_channel (mn_session_envelope request))) (Some (se_payload (mn_session_envelope request)))
        (length (se_payload (mn_session_envelope request)))
        (Some (se_authentication_tag (mn_session_envelope request))))) \<noteq> PoisonSessionResultOk)"
  shows "secure_calls (fst (rpc_step env (Received request i) c)) = secure_calls c"
proof -
  let ?e = "mn_session_envelope request"
  let ?n = "note_call ''poison_session_envelope'' c"
  have noted: "secure_calls ?n = secure_calls c"
    using assms(1) by (simp add: secure_calls_def note_call_def connection_ok_def)
  show ?thesis
  proof (cases "envelope_arrives request c")
    case True
    show ?thesis
    proof (cases "rpc_poison_session_envelope_process env request i ?n")
      case None
      then show ?thesis
        using envelope_step [OF True, of env i] by (simp add: halted_or_def secure_calls_def)
    next
      case (Some c2)
      have "rc_trace c2 = rc_trace ?n"
      proof (rule envelope_declined [OF Some True])
        assume "ps_state (rc_session ?n) = PoisonSessionActive"
        with assms(3) [OF True] show "snd (snd (poison_session_decrypt_rx (en_crypto env) (rc_session ?n)
            (se_sequence ?e) (se_acknowledgement ?e) (Some (se_channel ?e)) (Some (se_payload ?e))
            (length (se_payload ?e)) (Some (se_authentication_tag ?e)))) \<noteq> PoisonSessionResultOk \<or>
          se_session_id ?e \<noteq> ps_session_id (rc_session ?n) \<or>
          length (se_authentication_tag ?e) \<noteq> POISON_SESSION_AUTH_TAG_BYTES \<or> se_payload ?e = []"
          using decrypt_replay [of "se_sequence ?e" "rc_session ?n"] by (auto simp: used_up_def)
      qed
      then show ?thesis
        using noted Some envelope_step [OF True, of env i] by (simp add: halted_or_def secure_calls_def)
    qed
  next
    case False
    have "fst (rpc_step env (Received request i) c) \<in> {c, ?n}"
      using False assms(2)
      by (cases "mn_has_next request")
        (auto simp: rpc_step_def envelope_arrives_def rpc_session_worker_message_def Let_def
          rpc_session_plaintext_allowed_def rpc_handler_def rpc_poison_session_envelope_process_def
          halted_or_def)
    with noted show ?thesis by auto
  qed
qed

lemma ran_used_up:
  assumes "rpc_reachable env owner c" "mn_which_content request = ''poison_session_envelope''"
    and "secure_calls (fst (rpc_step env (Received request i) c)) \<noteq> secure_calls c"
  shows "used_up (se_sequence (mn_session_envelope request)) (fst (rpc_step env (Received request i) c))"
proof -
  let ?n = "note_call ''poison_session_envelope'' c"
  have ok: "connection_ok owner c" using reachable_ok assms(1) .
  have arrives: "envelope_arrives request c"
    and bad: "\<not> (se_session_id (mn_session_envelope request) \<noteq> ps_session_id (rc_session c) \<or>
       length (se_authentication_tag (mn_session_envelope request)) \<noteq> POISON_SESSION_AUTH_TAG_BYTES \<or>
       se_payload (mn_session_envelope request) = [] \<or>
       snd (snd (poison_session_decrypt_rx (en_crypto env) (rc_session c)
        (se_sequence (mn_session_envelope request)) (se_acknowledgement (mn_session_envelope request))
        (Some (se_channel (mn_session_envelope request))) (Some (se_payload (mn_session_envelope request)))
        (length (se_payload (mn_session_envelope request)))
        (Some (se_authentication_tag (mn_session_envelope request))))) \<noteq> PoisonSessionResultOk)"
    using redelivered [OF ok assms(2), of env i] assms(3) by blast+
  have typed: "connection_typed ?n"
    using ok arrives by (simp add: connection_ok_def envelope_arrives_def)
  show ?thesis
  proof (cases "rpc_poison_session_envelope_process env request i ?n")
    case None
    then show ?thesis
      using envelope_step [OF arrives, of env i] assms(3) by (simp add: halted_or_def secure_calls_def)
  next
    case (Some c2)
    from envelope_session [OF Some arrives typed] bad show ?thesis
      using envelope_step [OF arrives, of env i] Some by (auto simp: halted_or_def used_up_def)
  qed
qed


text \<open>C1: on every connection that can be reached, whatever the messages, the other connections,
  the settings, the storage, the clock and the other services do: a handler that runs inside
  the secure dispatch runs for an active, physically confirmed session with keys, whose client
  is in the registry at that moment, whose granted capabilities lie within its role and
  contain the non-empty set the command requires, and over an open channel unless it opens
  it; and on a UART connection a handler runs outside the secure dispatch only for a hello, a
  confirmation, a resumption or an envelope.\<close>

theorem commands_run_only_authorised:
  assumes "rpc_reachable env owner c" "e \<in> set (rc_trace c)"
  shows "(ex_secure e \<longrightarrow>
       ps_state (ex_session e) = PoisonSessionActive \<and> ps_physical_confirmation (ex_session e) \<and>
       ps_directional_keys_set (ex_session e) \<and> ps_session_id (ex_session e) \<noteq> 0 \<and>
       (\<exists>r \<in> set (ex_records e). pp_active r \<and>
          same_key (pp_key_digest r) (ps_client_identity_digest (ex_session e))) \<and>
       rpc_secure_required_capabilities (ex_tag e) \<noteq> 0 \<and>
       ps_granted_capabilities (ex_session e) AND rpc_secure_required_capabilities (ex_tag e) =
         rpc_secure_required_capabilities (ex_tag e) \<and>
       ps_granted_capabilities (ex_session e) AND
         poison_policy_role_capabilities (ps_role (ex_session e)) =
         ps_granted_capabilities (ex_session e) \<and>
       (ex_tag e = ''poison_channel_open'' \<or>
        poison_channel_find (ex_channels e) (Some ''rpc'') \<noteq> None)) \<and>
    (\<not> ex_secure e \<and> owner = RpcOwnerUart \<longrightarrow>
       ex_tag e \<in> {''poison_pairing_hello'', ''poison_pairing_confirm'',
                   ''poison_resume_request'', ''poison_session_envelope''})"
proof -
  have "permitted owner e"
    using reachable_ok [OF assms(1)] assms(2) by (simp add: connection_ok_def)
  then show ?thesis by (simp add: permitted_def del: not_None_eq split: if_split_asm)
qed

text \<open>C5: every connection that can be reached and has not ended is well typed: the secure
  transport is on exactly while the session is active, a session's granted capabilities stay
  within its role, the only open channel is the one named rpc with a bounded credit and only
  while the transport is on, the cancellation table has four slots with distinct commands, and
  every session kept for resumption is an active one with keys.\<close>

theorem connection_stays_typed:
  assumes "rpc_reachable env owner c" "\<not> rc_terminated c"
  shows "(rc_secure_transport_active c \<longleftrightarrow> ps_state (rc_session c) = PoisonSessionActive) \<and>
    (rc_secure_transport_active c \<longrightarrow> ps_directional_keys_set (rc_session c) \<and>
       ps_granted_capabilities (rc_session c) AND poison_policy_role_capabilities (ps_role (rc_session c))
         = ps_granted_capabilities (rc_session c)) \<and>
    \<not> rc_secure_dispatch_active c \<and>
    length (rc_secure_channels c) = POISON_CHANNEL_MAX_CHANNELS \<and>
    (\<forall>ch \<in> set (rc_secure_channels c). ch_active ch \<longrightarrow> rc_secure_transport_active c \<and>
       ch_name ch = ''rpc'' \<and> ch_credits ch \<le> POISON_CHANNEL_MAX_CREDITS) \<and>
    length (rc_cancellations c) = RPC_CANCELLATION_SLOT_COUNT \<and>
    distinct (map cs_command_id (filter cs_active (rc_cancellations c))) \<and>
    (\<forall>slot \<in> set (rc_resume_slots c). rs_active slot \<longrightarrow>
       ps_state (rs_session slot) = PoisonSessionActive \<and> ps_directional_keys_set (rs_session slot))"
proof -
  have t: "connection_typed c" "\<not> rc_secure_dispatch_active c"
    using reachable_ok [OF assms(1)] assms(2) by (simp_all add: connection_ok_def)
  have free: "\<not> ch_active ch" if "ch \<in> set poison_channel_table_init" for ch
    using that by (simp add: channel_table_init_list channel_zero_def)
  have tr: "rc_secure_transport_active c \<longleftrightarrow> ps_state (rc_session c) = PoisonSessionActive"
    and ses: "session_typed (rc_session c)" and chs: "channels_typed (rc_secure_channels c)"
    and idle: "\<not> rc_secure_transport_active c \<Longrightarrow> rc_secure_channels c = poison_channel_table_init"
    and can: "cancellations_typed (rc_cancellations c)"
    and slots: "\<forall>slot \<in> set (rc_resume_slots c). resumable_slot slot"
    using t(1) by (simp_all add: connection_typed_def)
  have "rc_secure_transport_active c" if "ch \<in> set (rc_secure_channels c)" "ch_active ch" for ch
    using idle free that by (cases "rc_secure_transport_active c") auto
  moreover have "ch_name ch = ''rpc'' \<and> ch_credits ch \<le> POISON_CHANNEL_MAX_CREDITS"
    if "ch \<in> set (rc_secure_channels c)" "ch_active ch" for ch
    using chs that by (simp add: channels_typed_def rpc_channel_typed_def)
  moreover have "ps_state (rs_session slot) = PoisonSessionActive \<and> ps_directional_keys_set (rs_session slot)"
    if "slot \<in> set (rc_resume_slots c)" "rs_active slot" for slot
    using slots that by (simp add: resumable_slot_def session_typed_def)
  ultimately show ?thesis
    using tr ses chs can t(2)
    by (simp add: session_typed_def channels_typed_def cancellations_typed_def tbl_unique_def)
qed

section \<open>An authorised command runs\<close>

lemma identity_allowed_same:
  assumes "rpc_poison_identity_allowed env c = (c1, ok)" "rc_registry d = rc_registry c"
    and "rc_pairing_store_ready d = rc_pairing_store_ready c" "rc_session d = rc_session c"
  shows "rpc_poison_identity_allowed env d = (d \<lparr> rc_registry := rc_registry c1 \<rparr>, ok)"
proof (cases "rc_pairing_store_ready c")
  case True
  with assms show ?thesis
    by (cases "poison_pairing_registry_find (en_auth env) (rc_registry c)
        (Some (ps_client_identity_digest (rc_session c)))")
      (auto simp: rpc_poison_identity_allowed_def)
next
  case False
  with assms show ?thesis by (auto simp: rpc_poison_identity_allowed_def)
qed

definition dispatched :: "PB_Main \<Rightarrow> PoisonSession \<Rightarrow> Tag \<Rightarrow> PairingRegistry \<Rightarrow> Connection \<Rightarrow> Connection" where
  "dispatched request s tag reg c =
     note_call tag (enter_dispatch ''rpc'' (se_sequence (mn_session_envelope request))
       (set_session s ((note_call ''poison_session_envelope'' c) \<lparr> rc_registry := reg \<rparr>)))"

lemma authorised_envelope:
  fixes env :: RpcEnv and c :: Connection and request :: PB_Main and i :: RpcInput
  assumes e_def: "e = mn_session_envelope request"
    and arrives: "envelope_arrives request c" and act: "ps_state (rc_session c) = PoisonSessionActive"
    and identity: "rpc_poison_identity_allowed env c = (c1, True)"
    and envelope: "se_session_id e = ps_session_id (rc_session c)" "length (se_authentication_tag e) = 16"
      "se_channel e = ''rpc''" "se_payload e \<noteq> []"
    and decrypt: "poison_session_decrypt_rx (en_crypto env) (rc_session c) (se_sequence e)
          (se_acknowledgement e) (Some ''rpc'') (Some (se_payload e)) (length (se_payload e))
          (Some (se_authentication_tag e)) = (s, Some p, PoisonSessionResultOk)"
    and inner: "p \<noteq> []" "length p \<le> 768" "en_decode env p = Some inner"
      "\<not> inner_refused (mn_which_content inner)"
    and auth: "rpc_secure_required_capabilities (mn_which_content inner) \<noteq> 0"
      "ps_granted_capabilities (rc_session c) AND rpc_secure_required_capabilities (mn_which_content inner)
          = rpc_secure_required_capabilities (mn_which_content inner)"
      "mn_which_content inner = ''poison_channel_open'' \<or>
          poison_channel_find (rc_secure_channels c) (Some ''rpc'') \<noteq> None"
    and handler: "inner_handler env (mn_which_content inner) = Some handler"
  shows "fst (rpc_step env (Received request i) c) = halted_or c
    (map_option (\<lambda>d. d \<lparr> rc_secure_dispatch_active := False \<rparr>)
       (handler inner i (dispatched request s (mn_which_content inner) (rc_registry c1) c)))"
proof -
  let ?tag = "mn_which_content inner"
  let ?n = "note_call ''poison_session_envelope'' c"
  let ?reg = "rc_registry c1"
  have a: "rpc_poison_identity_allowed env ?n = (?n \<lparr> rc_registry := ?reg \<rparr>, True)"
    using identity_allowed_same [OF identity, of ?n] by (auto simp: note_call_def)
  obtain k where s: "s = (rc_session c) \<lparr> ps_next_rx_sequence := k \<rparr>"
    using decrypt_ok_session(1) [OF decrypt] ..
  let ?c2 = "set_session s (?n \<lparr> rc_registry := ?reg \<rparr>)"
  have "secure_authorized (enter_dispatch ''rpc'' (se_sequence e) ?c2) ''rpc'' ?tag"
    using auth s
    by (auto simp: secure_authorized_def enter_dispatch_def rpc_session_secure_channel_is_open_def
        note_call_def)
  then have disp: "rpc_session_dispatch_secure_payload env ''rpc'' (se_sequence e) p i ?c2 =
      map_option (\<lambda>d. d \<lparr> rc_secure_dispatch_active := False \<rparr>) (handler inner i (dispatched request s ?tag ?reg c))"
    using inner handler
    by (cases "handler inner i (dispatched request s ?tag ?reg c)")
      (simp_all add: rpc_session_dispatch_secure_payload_def Let_def dispatched_def e_def)
  show ?thesis
    using envelope_step [OF arrives, of env i] arrives envelope decrypt act a disp
    by (simp add: rpc_poison_session_envelope_process_def envelope_arrives_def e_def)
qed

lemma authorised_trace:
  fixes env :: RpcEnv
  assumes "fst (rpc_step env (Received request i) c) = halted_or c
      (map_option (\<lambda>d. d \<lparr> rc_secure_dispatch_active := False \<rparr>)
         (handler inner i (dispatched request s tag reg c)))"
    and "\<not> rc_halted (fst (rpc_step env (Received request i) c))" "connection_ok owner c"
    and "\<not> rc_terminated c" "ps_state (rc_session c) = PoisonSessionActive"
    and "s = (rc_session c) \<lparr> ps_next_rx_sequence := k \<rparr>" "inner_handler env tag = Some handler"
  shows "secure_calls (fst (rpc_step env (Received request i) c)) = secure_calls c @
      [\<lparr> ex_tag = tag, ex_secure = True, ex_session = s, ex_records = pst_records (reg_store reg),
         ex_channels = rc_secure_channels c \<rparr>]"
    and "ps_state (rc_session (fst (rpc_step env (Received request i) c))) = PoisonSessionActive \<Longrightarrow>
       ps_next_rx_sequence (rc_session (fst (rpc_step env (Received request i) c))) = k"
proof -
  let ?d = "dispatched request s tag reg c"
  have typed: "connection_typed c" and off: "\<not> rc_secure_dispatch_active c"
    using assms(3,4) by (simp_all add: connection_ok_def)
  obtain c5 where h: "handler inner i ?d = Some c5"
    and step: "fst (rpc_step env (Received request i) c) = c5 \<lparr> rc_secure_dispatch_active := False \<rparr>"
    using assms(1,2) by (cases "handler inner i ?d") (auto simp: halted_or_def)
  have d: "connection_typed ?d" "rc_secure_dispatch_active ?d" "rc_secure_transport_active ?d"
    "rc_session ?d = s"
    using typed assms(5,6)
    by (simp_all add: dispatched_def enter_dispatch_def connection_typed_def) (simp add: note_call_def)
  from returns_handledD [OF inner_handled [OF assms(7) d(1)] h] d(2,3)
  have "rc_trace c5 = rc_trace ?d" by (simp add: handled_def steady_def)
  with off show "secure_calls (fst (rpc_step env (Received request i) c)) = secure_calls c @
      [\<lparr> ex_tag = tag, ex_secure = True, ex_session = s, ex_records = pst_records (reg_store reg),
         ex_channels = rc_secure_channels c \<rparr>]"
    unfolding step by (simp add: secure_calls_def dispatched_def note_call_def enter_dispatch_def)
  from inner_rx_kept [OF assms(7) d(2), of inner i] h d(4)
  have "(\<exists>n. rc_session c5 = s \<lparr> ps_next_tx_sequence := n \<rparr>) \<or>
      ps_state (rc_session c5) \<noteq> PoisonSessionActive"
    by (simp add: rx_kept_def)
  then show "ps_next_rx_sequence (rc_session (fst (rpc_step env (Received request i) c))) = k"
    if "ps_state (rc_session (fst (rpc_step env (Received request i) c))) = PoisonSessionActive"
    using that assms(6) unfolding step by auto
qed

section \<open>A client that resumes, opens its channel and runs a command\<close>

definition lab_session :: PoisonSession where
  "lab_session = poison_session_init \<lparr> ps_state := PoisonSessionActive, ps_protocol_version := 2,
     ps_session_id := 1, ps_physical_confirmation := True, ps_receive_key := replicate 32 4,
     ps_transmit_key := replicate 32 4, ps_directional_keys_set := True,
     ps_role := PoisonRoleOwner, ps_granted_capabilities := 0xFF,
     ps_client_identity_digest := replicate 32 1 \<rparr>"

definition lab_registry :: "u32 \<Rightarrow> PairingRegistry" where
  "lab_registry n = fresh_registry \<lparr> reg_store := poison_pairing_store_init \<lparr> pst_records :=
     pairing_record_zero \<lparr> pp_active := True, pp_key_digest := replicate 32 1,
       pp_client_name := ''lab'', pp_active_sessions := n \<rparr> # replicate 7 pairing_record_zero \<rparr> \<rparr>"

definition lab_slots :: "PoisonSessionResumeSlot list" where
  "lab_slots = \<lparr> rs_active = True, rs_expires_at_ms = 1000, rs_token_digest = replicate 32 5,
     rs_session = lab_session \<rparr> # replicate 7 poison_session_resume_slot_init"

definition lab_opened :: Connection where
  "lab_opened = rpc_session_open sample_env RpcOwnerUart (lab_registry 0) lab_slots poison_audit_init"

definition lab_resume :: PB_Main where
  "lab_resume = (message ''poison_resume_request'') \<lparr> mn_resume_request :=
     \<lparr> rq_session_id = 1, rq_resume_token = replicate 32 5, rq_last_received_sequence = - 1 \<rparr> \<rparr>"

definition lab_connection :: Connection where
  "lab_connection = fst (rpc_step sample_env (Received lab_resume sample_input) lab_opened)"

lemma lab_reachable: "rpc_reachable sample_env RpcOwnerUart lab_connection"
proof -
  have "\<forall>slot \<in> set lab_slots. resumable_slot slot"
    by (simp add: lab_slots_def resumable_slot_def session_typed_def session_inv_def lab_session_def
        poison_session_init_def poison_session_resume_slot_init_def)
  then show ?thesis
    unfolding lab_connection_def lab_opened_def by (intro rpc_reachable.intros) simp_all
qed

lemma lab_find:
  "poison_pairing_registry_find sample_auth (lab_registry n) (Some (replicate 32 1)) =
     (lab_registry n, Some (pst_records (reg_store (lab_registry n)) ! 0, 0))"
  "poison_pairing_registry_session_open sample_auth (lab_registry 0) (Some (replicate 32 1)) =
     (lab_registry 1, True)"
  by (simp_all add: poison_pairing_registry_find_def poison_pairing_registry_session_open_def
      poison_pairing_registry_init_def lab_registry_def fresh_registry_def
      poison_pairing_key_valid_def pairing_record_zero_def word_less_nat_alt unat_UINT32_MAX)

lemma take_from_free:
  "rpc_session_take_resume cr (replicate n poison_session_resume_slot_init) k token q now =
     (replicate n poison_session_resume_slot_init, None)"
  by (induction n) (simp_all add: poison_session_resume_slot_init_def)

lemma lab_take:
  "rpc_session_take_resume sample_crypto lab_slots 1 (replicate 32 5) UINT64_MAX 500 =
     (poison_session_resume_slot_init # replicate 7 poison_session_resume_slot_init, Some lab_session)"
  by (simp add: lab_slots_def poison_session_resume_take_def lab_session_def resume_sequence_matches_def
      poison_session_init_def sample_crypto_def poison_session_resume_revoke_def)

lemma lab_init: "poison_pairing_registry_init sample_auth (lab_registry n) = (lab_registry n, True)"
  by (simp add: poison_pairing_registry_init_def lab_registry_def fresh_registry_def)

lemma lab_opened_fields:
  "rc_owner lab_opened = RpcOwnerUart" "\<not> rc_decode_error lab_opened" "\<not> rc_terminated lab_opened"
  "\<not> rc_halted lab_opened" "\<not> rc_secure_dispatch_active lab_opened"
  "\<not> rc_secure_transport_active lab_opened" "rc_pairing_store_ready lab_opened"
  "\<not> rc_identity_session_counted lab_opened" "rc_registry lab_opened = lab_registry 0"
  "rc_resume_slots lab_opened = lab_slots" "rc_trace lab_opened = []"
  "rc_secure_channels lab_opened = poison_channel_table_init"
  by (simp_all add: lab_opened_def rpc_session_open_def sample_env_def lab_init)

definition lab_taken :: Connection where
  "lab_taken = (set_session lab_session ((note_call ''poison_resume_request'' lab_opened)
     \<lparr> rc_resume_slots := poison_session_resume_slot_init # replicate 7 poison_session_resume_slot_init \<rparr>))
     \<lparr> rc_registry := lab_registry 1, rc_identity_session_counted := True \<rparr>"

lemma lab_take_over:
  "resume_take_over sample_env lab_resume sample_input (note_call ''poison_resume_request'' lab_opened) =
     (lab_taken, True)"
proof -
  let ?n = "note_call ''poison_resume_request'' lab_opened"
  let ?c = "set_session lab_session (?n \<lparr> rc_resume_slots :=
      poison_session_resume_slot_init # replicate 7 poison_session_resume_slot_init \<rparr>)"
  have fields: "rc_registry ?n = lab_registry 0" "rc_resume_slots ?n = lab_slots"
    "rc_pairing_store_ready ?n" "\<not> rc_identity_session_counted ?n"
    by (simp_all add: note_call_def lab_opened_fields)
  have id: "ps_client_identity_digest lab_session = replicate 32 1"
    by (simp add: lab_session_def)
  have "rpc_poison_identity_allowed sample_env ?c = (?c \<lparr> rc_registry := lab_registry 0 \<rparr>, True)"
    using fields lab_find(1) [of 0] id by (simp add: rpc_poison_identity_allowed_def sample_env_def)
  moreover have "rpc_poison_count_identity_session sample_env (?c \<lparr> rc_registry := lab_registry 0 \<rparr>) =
      (lab_taken, True)"
    using fields lab_find(2) id
    by (simp add: rpc_poison_count_identity_session_def sample_env_def lab_taken_def)
  ultimately show ?thesis
    using lab_take fields
    by (simp add: resume_take_over_def Let_def lab_resume_def sample_input_def sample_env_def)
qed

lemma lab_connection_eq:
  "lab_connection = (rpc_send_plain (resume_reply lab_resume True (replicate 32 8) 0)
      (lab_taken \<lparr> rc_resume_token := replicate 32 8, rc_resume_issued := True \<rparr>))
    \<lparr> rc_secure_transport_active := True, rc_secure_session := True, rc_secure_channel := ''rpc'',
      rc_secure_acknowledgement := 0 \<rparr>"
proof -
  let ?n = "note_call ''poison_resume_request'' lab_opened"
  have run: "lab_connection = halted_or lab_opened
      (rpc_poison_resume_request_process sample_env lab_resume sample_input ?n)"
    by (simp add: lab_connection_def rpc_step_def lab_opened_fields rpc_session_worker_message_def
        Let_def rpc_session_plaintext_allowed_def lab_resume_def message_def rpc_handler_def
        inner_handler_def)
  have token: "rpc_poison_random_resume_token (in_token_fills sample_input) = Some (replicate 32 8)"
    by (simp add: rpc_poison_random_resume_token_def sample_input_def)
  have "mn_which_content lab_resume = ''poison_resume_request''" "\<not> mn_has_next lab_resume"
    by (simp_all add: lab_resume_def message_def blank_message_def)
  then have "rpc_poison_resume_request_process sample_env lab_resume sample_input ?n =
      resume_restore sample_env lab_resume sample_input ?n"
    by (simp add: rpc_poison_resume_request_process_def lab_opened_fields)
  also have "\<dots> = Option.bind (rpc_send sample_env
        (resume_reply lab_resume True (replicate 32 8) (ps_next_tx_sequence lab_session))
        (lab_taken \<lparr> rc_resume_token := replicate 32 8, rc_resume_issued := True \<rparr>))
        rpc_session_activate_secure_transport"
    by (simp add: resume_restore_def token lab_take_over) (simp add: lab_taken_def)
  finally show ?thesis
    unfolding run
    by (simp add: rpc_send_def rpc_send_plain_def lab_taken_def note_call_def lab_opened_fields
        rpc_session_activate_secure_transport_def halted_or_def lab_session_def poison_session_init_def)
qed

lemma lab_fields:
  "rc_session lab_connection = lab_session" "rc_registry lab_connection = lab_registry 1"
  "rc_secure_transport_active lab_connection" "rc_pairing_store_ready lab_connection"
  "\<not> rc_decode_error lab_connection" "\<not> rc_terminated lab_connection" "\<not> rc_halted lab_connection"
  "secure_calls lab_connection = []" "rc_secure_channels lab_connection = poison_channel_table_init"
  by (simp_all add: lab_connection_eq rpc_send_plain_def lab_taken_def note_call_def secure_calls_def
      lab_opened_fields)

definition lab_ran :: Connection where
  "lab_ran = fst (rpc_step sample_env (Received (envelope_message 0 1) sample_input) lab_connection)"

lemma lab_arrives: "envelope_arrives (envelope_message q b) lab_connection"
  by (simp add: envelope_arrives_def envelope_message_def message_def blank_message_def lab_fields)

lemma lab_identity: "\<exists>c1. rpc_poison_identity_allowed sample_env lab_connection = (c1, True)"
  using lab_find(1) [of 1]
  by (simp add: rpc_poison_identity_allowed_def sample_env_def lab_fields lab_session_def)

lemma lab_decrypts:
  "poison_session_decrypt_rx sample_crypto lab_session 0 0 (Some ''rpc'') (Some [1]) 1
     (Some (se_authentication_tag (mn_session_envelope (envelope_message 0 1)))) =
   (lab_session \<lparr> ps_next_rx_sequence := 1 \<rparr>, Some [1], PoisonSessionResultOk)"
  by (simp add: poison_session_decrypt_rx_def lab_session_def poison_session_init_def sample_crypto_def
      poison_session_build_aad_def poison_session_accept_rx_def envelope_message_def encode_be
      frame_payload_def)

lemma lab_open_handler:
  "inner_handler sample_env ''poison_channel_open'' = Some (rpc_poison_channel_open_process sample_env)"
  by (simp add: inner_handler_def)

lemma sample_sends:
  assumes "ps_state (rc_session c) = PoisonSessionActive" "ps_directional_keys_set (rc_session c)"
    and "ps_next_tx_sequence (rc_session c) = 0" "rc_secure_channel c = ''rpc''"
  shows "rpc_send sample_env m c \<noteq> None"
  using assms
  by (simp add: rpc_send_def rpc_send_secure_def sample_env_def poison_session_encrypt_tx_def
      poison_session_reserve_tx_def poison_session_build_aad_def sample_crypto_def)

lemma lab_envelope:
  "\<exists>reg. lab_ran = halted_or lab_connection (map_option (\<lambda>d. d \<lparr> rc_secure_dispatch_active := False \<rparr>)
     (rpc_poison_channel_open_process sample_env (message ''poison_channel_open'') sample_input
        (dispatched (envelope_message 0 1) (lab_session \<lparr> ps_next_rx_sequence := 1 \<rparr>)
           ''poison_channel_open'' reg lab_connection)))"
proof -
  obtain c1 where "rpc_poison_identity_allowed sample_env lab_connection = (c1, True)"
    using lab_identity by blast
  moreover have "mn_which_content (message ''poison_channel_open'') = ''poison_channel_open''"
    by (simp add: message_def)
  ultimately have "lab_ran = halted_or lab_connection (map_option (\<lambda>d. d \<lparr> rc_secure_dispatch_active := False \<rparr>)
     (rpc_poison_channel_open_process sample_env (message ''poison_channel_open'') sample_input
        (dispatched (envelope_message 0 1) (lab_session \<lparr> ps_next_rx_sequence := 1 \<rparr>)
           ''poison_channel_open'' (rc_registry c1) lab_connection)))"
    using authorised_envelope [OF refl lab_arrives [of 0 1], of sample_env c1
        "lab_session \<lparr> ps_next_rx_sequence := 1 \<rparr>" "[1]" "message ''poison_channel_open''"
        "rpc_poison_channel_open_process sample_env" sample_input]
      lab_decrypts lab_open_handler
    by (simp add: lab_ran_def lab_fields envelope_message_def sample_env_def sample_inner_def
        inner_refused_def rpc_secure_required_capabilities_def lab_session_def)
  then show ?thesis by blast
qed

lemma lab_ran_alive: "\<not> rc_halted lab_ran \<and> ps_state (rc_session lab_ran) = PoisonSessionActive"
proof -
  obtain reg where ran: "lab_ran = halted_or lab_connection (map_option (\<lambda>d. d \<lparr> rc_secure_dispatch_active := False \<rparr>)
     (rpc_poison_channel_open_process sample_env (message ''poison_channel_open'') sample_input
        (dispatched (envelope_message 0 1) (lab_session \<lparr> ps_next_rx_sequence := 1 \<rparr>)
           ''poison_channel_open'' reg lab_connection)))"
    using lab_envelope ..
  let ?d = "dispatched (envelope_message 0 1) (lab_session \<lparr> ps_next_rx_sequence := 1 \<rparr>)
           ''poison_channel_open'' reg lab_connection"
  have d: "rc_secure_dispatch_active ?d" "rc_secure_channels ?d = poison_channel_table_init"
    "\<not> rc_halted ?d" "rc_session ?d = lab_session \<lparr> ps_next_rx_sequence := 1 \<rparr>"
    "rc_secure_channel ?d = ''rpc''"
    by (simp_all add: dispatched_def note_call_def enter_dispatch_def lab_fields)
  obtain table where o: "rpc_session_open_secure_channel ''rpc'' 4 0 ?d =
      (?d \<lparr> rc_secure_channels := table \<rparr>, Some (4, 0))"
    using d(2) by (simp add: rpc_session_open_secure_channel_def poison_channel_open_at_def
        channel_table_init_list channel_zero_def poison_channel_get_def poison_channel_at_def
        poison_channel_index_valid_def)
  have r: "rpc_poison_channel_open_process sample_env (message ''poison_channel_open'') sample_input ?d =
      rpc_send sample_env (answer (message ''poison_channel_open'') (ChannelOpenedReply ''rpc'' 4 0))
        (?d \<lparr> rc_secure_channels := table \<rparr>)"
    using o d(1) by (simp add: rpc_poison_channel_open_process_def Let_def message_def blank_message_def)
  obtain c' where c': "rpc_send sample_env (answer (message ''poison_channel_open'') (ChannelOpenedReply ''rpc'' 4 0))
        (?d \<lparr> rc_secure_channels := table \<rparr>) = Some c'"
    using sample_sends [of "?d \<lparr> rc_secure_channels := table \<rparr>"] d(4,5)
    by (auto simp: lab_session_def poison_session_init_def)
  from rpc_send_only [OF c'] d(3,4) have "\<not> rc_halted c' \<and> ps_state (rc_session c') = PoisonSessionActive"
    by (auto simp: lab_session_def)
  then show ?thesis by (simp add: ran r c' halted_or_def)
qed

lemmas lab_ran_not_halted = lab_ran_alive [THEN conjunct1]
lemmas lab_ran_active = lab_ran_alive [THEN conjunct2]

lemma lab_ran_reachable: "rpc_reachable sample_env RpcOwnerUart lab_ran"
  unfolding lab_ran_def by (rule rpc_reachable.stepped [OF lab_reachable]) simp

lemma lab_ran_calls: "map ex_tag (secure_calls lab_ran) = [''poison_channel_open'']"
proof -
  obtain reg where ran: "fst (rpc_step sample_env (Received (envelope_message 0 1) sample_input) lab_connection) =
      halted_or lab_connection (map_option (\<lambda>d. d \<lparr> rc_secure_dispatch_active := False \<rparr>)
     (rpc_poison_channel_open_process sample_env (message ''poison_channel_open'') sample_input
        (dispatched (envelope_message 0 1) (lab_session \<lparr> ps_next_rx_sequence := 1 \<rparr>)
           ''poison_channel_open'' reg lab_connection)))"
    using lab_envelope unfolding lab_ran_def ..
  have "lab_session \<lparr> ps_next_rx_sequence := 1 \<rparr> = (rc_session lab_connection) \<lparr> ps_next_rx_sequence := 1 \<rparr>"
    by (simp add: lab_fields)
  from authorised_trace(1) [OF ran _ reachable_ok [OF lab_reachable] _ _ this lab_open_handler]
  show ?thesis
    using lab_ran_not_halted by (simp add: lab_ran_def lab_fields lab_session_def)
qed

text \<open>C4: an envelope of the running session with the expected number, a valid tag and an
  authorised command of a registered client runs the handler of that command, once, on the decoded
  message and on the connection as the dispatch has set it up (the session as the decryption left it,
  the registry as the identity check left it, the secure dispatch entered for channel rpc and the number
  of the envelope); the connection after the step is the one the handler returns with the dispatch left
  again, the command is the only one the step adds to the trace, and the number is consumed.\<close>

theorem authorised_command_runs:
  fixes env c request i
  defines "e \<equiv> mn_session_envelope request"
    and "c' \<equiv> fst (rpc_step env (Received request i) c)"
  assumes "rpc_reachable env owner c" "envelope_arrives request c" "rc_secure_transport_active c"
    and "rpc_poison_identity_allowed env c = (c1, True)"
    and "se_session_id e = ps_session_id (rc_session c)" "length (se_authentication_tag e) = 16"
    and "se_channel e = ''rpc''" "se_payload e \<noteq> []"
    and "poison_session_decrypt_rx (en_crypto env) (rc_session c) (se_sequence e)
          (se_acknowledgement e) (Some ''rpc'') (Some (se_payload e)) (length (se_payload e))
          (Some (se_authentication_tag e)) = (s, Some p, PoisonSessionResultOk)"
    and "p \<noteq> []" "length p \<le> 768" "en_decode env p = Some inner"
    and "\<not> inner_refused (mn_which_content inner)"
    and "rpc_secure_required_capabilities (mn_which_content inner) \<noteq> 0"
    and "ps_granted_capabilities (rc_session c) AND rpc_secure_required_capabilities (mn_which_content inner)
          = rpc_secure_required_capabilities (mn_which_content inner)"
    and "mn_which_content inner = ''poison_channel_open'' \<or>
          poison_channel_find (rc_secure_channels c) (Some ''rpc'') \<noteq> None"
    and "inner_handler env (mn_which_content inner) = Some handler" "\<not> rc_halted c'"
  shows "(\<exists>d. handler inner i (dispatched request s (mn_which_content inner) (rc_registry c1) c) = Some d \<and>
       c' = d \<lparr> rc_secure_dispatch_active := False \<rparr>) \<and>
    map ex_tag (secure_calls c') = map ex_tag (secure_calls c) @ [mn_which_content inner] \<and>
    (ps_state (rc_session c') = PoisonSessionActive \<longrightarrow>
       ps_next_rx_sequence (rc_session c') = se_sequence e + 1)"
proof -
  have ok: "connection_ok owner c" "\<not> rc_terminated c"
    using reachable_ok [OF assms(3)] assms(4) by (simp_all add: envelope_arrives_def)
  then have act: "ps_state (rc_session c) = PoisonSessionActive"
    using assms(5) by (simp add: connection_ok_def connection_typed_def)
  have step: "c' = halted_or c (map_option (\<lambda>d. d \<lparr> rc_secure_dispatch_active := False \<rparr>)
      (handler inner i (dispatched request s (mn_which_content inner) (rc_registry c1) c)))"
    using authorised_envelope [OF e_def [THEN meta_eq_to_obj_eq] assms(4) act assms(6-19)]
    by (simp add: c'_def)
  have "\<exists>d. handler inner i (dispatched request s (mn_which_content inner) (rc_registry c1) c) = Some d \<and>
      c' = d \<lparr> rc_secure_dispatch_active := False \<rparr>"
    using step assms(20)
    by (cases "handler inner i (dispatched request s (mn_which_content inner) (rc_registry c1) c)")
      (simp_all add: halted_or_def)
  moreover
  have s: "s = (rc_session c) \<lparr> ps_next_rx_sequence := se_sequence e + 1 \<rparr>"
    using decrypt_ok_session(1) [OF assms(11)] decrypt_accepted [OF assms(11)] by auto
  note authorised_trace [OF step [unfolded c'_def] assms(20) [unfolded c'_def] ok act s assms(19)]
  ultimately show ?thesis by (simp add: c'_def)
qed

lemma authorised_command_runs_witness:
  "map ex_tag (secure_calls lab_ran) = [''poison_channel_open''] \<and>
   (\<exists>reg d. rpc_poison_channel_open_process sample_env (message ''poison_channel_open'') sample_input
      (dispatched (envelope_message 0 1) (lab_session \<lparr> ps_next_rx_sequence := 1 \<rparr>)
         ''poison_channel_open'' reg lab_connection) = Some d \<and>
      lab_ran = d \<lparr> rc_secure_dispatch_active := False \<rparr>)"
proof -
  obtain c1 where id: "rpc_poison_identity_allowed sample_env lab_connection = (c1, True)"
    using lab_identity by blast
  have tag: "mn_which_content (message ''poison_channel_open'') = ''poison_channel_open''"
    by (simp add: message_def)
  have e: "se_session_id (mn_session_envelope (envelope_message 0 1)) = ps_session_id (rc_session lab_connection)"
    "length (se_authentication_tag (mn_session_envelope (envelope_message 0 1))) = 16"
    "se_channel (mn_session_envelope (envelope_message 0 1)) = ''rpc''"
    "se_payload (mn_session_envelope (envelope_message 0 1)) \<noteq> []"
    by (simp_all add: envelope_message_def lab_fields lab_session_def)
  have dec: "poison_session_decrypt_rx (en_crypto sample_env) (rc_session lab_connection)
      (se_sequence (mn_session_envelope (envelope_message 0 1)))
      (se_acknowledgement (mn_session_envelope (envelope_message 0 1))) (Some ''rpc'')
      (Some (se_payload (mn_session_envelope (envelope_message 0 1))))
      (length (se_payload (mn_session_envelope (envelope_message 0 1))))
      (Some (se_authentication_tag (mn_session_envelope (envelope_message 0 1)))) =
      (lab_session \<lparr> ps_next_rx_sequence := 1 \<rparr>, Some [1], PoisonSessionResultOk)"
    using lab_decrypts by (simp add: lab_fields sample_env_def envelope_message_def)
  have inner: "en_decode sample_env [1] = Some (message ''poison_channel_open'')"
    by (simp add: sample_env_def sample_inner_def)
  show ?thesis
    using authorised_command_runs [OF lab_reachable lab_arrives lab_fields(3) id e dec _ _ inner,
        of "rpc_poison_channel_open_process sample_env" sample_input]
      lab_open_handler lab_ran_not_halted
    by (simp add: lab_ran_def [symmetric] lab_fields tag inner_refused_def rpc_secure_required_capabilities_def
        lab_session_def) blast
qed

lemma commands_run_only_authorised_witness:
  "\<exists>e \<in> set (rc_trace lab_ran). ex_tag e = ''poison_channel_open'' \<and>
     ps_state (ex_session e) = PoisonSessionActive \<and> ps_physical_confirmation (ex_session e)"
proof -
  have "''poison_channel_open'' \<in> ex_tag ` set (secure_calls lab_ran)"
    using lab_ran_calls by (metis list.set_intros(1) set_map)
  then obtain e where "e \<in> set (rc_trace lab_ran)" "ex_secure e" "ex_tag e = ''poison_channel_open''"
    by (auto simp: secure_calls_def)
  with commands_run_only_authorised [OF lab_ran_reachable, of e] show ?thesis by blast
qed

lemma connection_stays_typed_witness:
  "ps_granted_capabilities (rc_session lab_connection) AND
     poison_policy_role_capabilities (ps_role (rc_session lab_connection)) =
     ps_granted_capabilities (rc_session lab_connection)"
  using connection_stays_typed [OF lab_reachable] by (simp add: lab_fields)


definition lab_removed :: Connection where
  "lab_removed = fst (rpc_step sample_env
     (SharedChanged fresh_registry [] poison_audit_init) lab_connection)"

lemma removed_client_cut_off_witness:
  "ps_state (rc_session (fst (rpc_step sample_env (Received (envelope_message 0 1) sample_input) lab_removed)))
     = PoisonSessionRevoked"
proof -
  have removed: "lab_removed = lab_connection \<lparr> rc_registry := fresh_registry, rc_resume_slots := [],
      rc_audit := poison_audit_init \<rparr>"
    by (simp add: lab_removed_def rpc_step_def lab_fields)
  have "rpc_reachable sample_env RpcOwnerUart lab_removed"
    unfolding lab_removed_def by (rule rpc_reachable.stepped [OF lab_reachable]) simp
  moreover have "envelope_arrives (envelope_message 0 1) lab_removed" "rc_secure_transport_active lab_removed"
    using lab_arrives [of 0 1] by (simp_all add: removed envelope_arrives_def lab_fields)
  moreover have "snd (poison_pairing_registry_find (en_auth sample_env) (rc_registry lab_removed)
      (Some (ps_client_identity_digest (rc_session lab_removed)))) = None"
    by (simp add: removed fresh_registry_def poison_pairing_registry_find_def
        poison_pairing_registry_init_def poison_pairing_store_init_def pairing_record_zero_def)
  ultimately show ?thesis by (rule removed_client_cut_off [THEN conjunct2, THEN conjunct1])
qed

section \<open>Pairing again on the same connection\<close>

text \<open>A connection counts a client once: after its session has been revoked, a second pairing on
  the same connection is refused even when every check succeeds.\<close>

lemma second_pairing_refused:
  assumes "rc_identity_session_counted c"
  shows "\<not> snd (pairing_confirm_outcome env request i c)"
proof -
  obtain h ok where comp: "poison_pairing_complete (en_crypto env) (rc_handshake c)
      (mn_pairing_confirm request) (in_now_ms i) (rc_trusted_identity c \<or> in_approved i) = (h, ok)"
    by fastforce
  obtain reg stored where add: "poison_pairing_registry_add (en_auth env) (in_save i)
      (rc_registry c) (Some (ph_client_identity_digest h)) (Some (ph_client_name h))
      (ph_requested_role h) = (reg, stored)" by fastforce
  show ?thesis
    using assms comp add
    by (cases ok; cases stored; cases "rc_trusted_identity c")
      (simp_all add: pairing_confirm_outcome_def Let_def rpc_poison_count_identity_session_def)
qed

text \<open>And the hello that starts it replaces the identity the connection would give back when it
  ends, so the count of open sessions of the first client is never lowered.\<close>

lemma hello_forgets_counted_identity:
  assumes "poison_pairing_begin cr rnd h hello now = (h', Some ch)"
  shows "poison_pairing_registry_session_close auth reg (Some (ps_client_identity_digest (ph_session h'))) = reg"
proof -
  have "ps_client_identity_digest (ph_session h') = ps_client_identity_digest negotiating_session"
    using assms
    by (auto simp: poison_pairing_begin_def Let_def split: if_splits option.splits)
  then have "ps_client_identity_digest (ph_session h') = zeros 32"
    by (simp add: negotiating_session_def poison_session_init_def)
  then show ?thesis
    by (simp add: poison_pairing_registry_session_close_def poison_pairing_key_valid_def)
       (auto dest: set_zeros)
qed

end
