(* ===== verification/Files.thy ===== *)
theory Files
  imports Prelude
begin

text \<open>The file operations of the storage service as the services of the system use them
  (\<open>storage/storage_external_api.c\<close>): a file holds an image, is absent, or holds damaged bytes.
  The outcome of every call is an input of the model, with what a failing call leaves behind.\<close>

section \<open>Files\<close>

datatype 'a FileState = Absent | Damaged | Holds 'a

type_synonym 'a Disk = "string \<Rightarrow> 'a FileState"

text \<open>Opening a file with \<open>FSOM_CREATE_ALWAYS\<close> truncates it; an image is on disk when the write, the
  sync and the close have all succeeded.\<close>

record 'a WriteIo =
  wi_open :: bool
  wi_write :: bool
  wi_sync :: bool
  wi_close :: bool
  wi_left :: "'a FileState"

definition write_ok :: "'a WriteIo \<Rightarrow> bool" where
  "write_ok io \<longleftrightarrow> wi_open io \<and> wi_write io \<and> wi_sync io \<and> wi_close io"

definition write_file :: "'a WriteIo \<Rightarrow> string \<Rightarrow> 'a \<Rightarrow> 'a Disk \<Rightarrow> 'a Disk \<times> bool" where
  "write_file io path img disk =
    (if \<not> wi_open io then (disk, False)
     else if wi_write io \<and> wi_sync io \<and> wi_close io then (disk(path := Holds img), True)
     else (disk(path := wi_left io), False))"

text \<open>Whether a file is there: a status call that fails (\<open>stat\<close> is false) counts as no.\<close>

definition storage_file_exists :: "bool \<Rightarrow> 'a Disk \<Rightarrow> string \<Rightarrow> bool" where
  "storage_file_exists stat disk path \<longleftrightarrow> stat \<and> disk path \<noteq> Absent"

text \<open>\<open>storage_common_rename\<close> of a regular file removes the destination, copies, and then removes
  the source. The copy may fail and leave the destination in any state, also untouched; the removal may
  fail and leave both files. The number of bytes that were copied is not looked at, and the error of
  the destination is read before it is closed: a write that stops on a full volume, or a close that fails,
  is reported as success, with a shorter destination and the source removed (\<open>RenameShort\<close>).\<close>

datatype 'a RenameIo = RenameDone | RenameShort "'a FileState" | CopyFails "'a FileState" | SourceStays

definition storage_common_rename :: "'a RenameIo \<Rightarrow> string \<Rightarrow> string \<Rightarrow> 'a Disk \<Rightarrow> 'a Disk \<times> bool" where
  "storage_common_rename io old_path new_path disk =
    (if disk old_path = Absent then (disk, False)
     else if old_path = new_path then (disk, True)
     else case io of
            RenameDone \<Rightarrow> (disk(new_path := disk old_path, old_path := Absent), True)
          | RenameShort left \<Rightarrow> (disk(new_path := left, old_path := Absent), True)
          | CopyFails left \<Rightarrow> (disk(new_path := left), False)
          | SourceStays \<Rightarrow> (disk(new_path := disk old_path), False))"

text \<open>A rename that does not report success for less than the whole file.\<close>

fun whole_rename :: "'a RenameIo \<Rightarrow> bool" where
  "whole_rename (RenameShort left) = False" | "whole_rename _ = True"

definition storage_simply_remove :: "bool \<Rightarrow> string \<Rightarrow> 'a Disk \<Rightarrow> 'a Disk \<times> bool" where
  "storage_simply_remove io path disk =
     (if disk path = Absent then (disk, True)
      else if io then (disk(path := Absent), True) else (disk, False))"

lemma write_file_ok [simp]:
  "write_ok io \<Longrightarrow> write_file io path img disk = (disk(path := Holds img), True)"
  by (simp add: write_ok_def write_file_def)

lemma write_file_success [simp]: "snd (write_file io path img disk) \<longleftrightarrow> write_ok io"
  by (simp add: write_ok_def write_file_def)

lemma write_file_other [simp]:
  "p \<noteq> path \<Longrightarrow> fst (write_file io path img disk) p = disk p"
  by (simp add: write_file_def)

lemma remove_file_other [simp]:
  "p \<noteq> path \<Longrightarrow> fst (storage_simply_remove io path disk) p = disk p"
  by (simp add: storage_simply_remove_def)

section \<open>Replacing a file through a partial copy\<close>

text \<open>The services write \<open>path.partial\<close> first and rename it over the old file.\<close>

definition partial_path :: "string \<Rightarrow> string" where
  "partial_path path = path @ ''.partial''"

lemma partial_path_differs [simp]: "partial_path path \<noteq> path" "path \<noteq> partial_path path"
  by (simp_all add: partial_path_def)

lemma length_partial_path [simp]: "length (partial_path path) = length path + 8"
  by (simp add: partial_path_def)

text \<open>What a sequence of such calls needs from the storage: the outcomes of its calls, in the order
  write, removal of the old file, rename, removal of the partial file.\<close>

record 'a ReplaceIo =
  ri_write :: "'a WriteIo"
  ri_remove :: bool
  ri_rename :: "'a RenameIo"
  ri_clean :: bool

definition replace_ok :: "'a ReplaceIo \<Rightarrow> bool" where
  "replace_ok io \<longleftrightarrow> write_ok (ri_write io) \<and> ri_rename io = RenameDone"

end
