(* ===== verification/ContentUpdate.thy ===== *)
theory ContentUpdate
  imports Files
begin

text \<open>Content updates (\<open>poison_packages/poison_content_update.c\<close>): admission of a manifest, the
  state machine of an update from discovery to health or rollback, and the health markers that
  survive a restart.\<close>

section \<open>State\<close>

abbreviation "POISON_CONTENT_UPDATE_MAX_ID \<equiv> (64 :: nat)"
abbreviation "POISON_CONTENT_UPDATE_MAX_DIGEST \<equiv> (65 :: nat)"

datatype PoisonContentUpdateState =
    PoisonContentUpdateDiscovered | PoisonContentUpdateReceiving | PoisonContentUpdateStaged
  | PoisonContentUpdateVerified | PoisonContentUpdateAwaitingConfirmation
  | PoisonContentUpdateActivating | PoisonContentUpdateHealthy | PoisonContentUpdateRolledBack
  | PoisonContentUpdateQuarantined

fun update_state_index :: "PoisonContentUpdateState \<Rightarrow> nat" where
  "update_state_index PoisonContentUpdateDiscovered = 0"
| "update_state_index PoisonContentUpdateReceiving = 1"
| "update_state_index PoisonContentUpdateStaged = 2"
| "update_state_index PoisonContentUpdateVerified = 3"
| "update_state_index PoisonContentUpdateAwaitingConfirmation = 4"
| "update_state_index PoisonContentUpdateActivating = 5"
| "update_state_index PoisonContentUpdateHealthy = 6"
| "update_state_index PoisonContentUpdateRolledBack = 7"
| "update_state_index PoisonContentUpdateQuarantined = 8"

lemma update_state_index_inj [simp]: "update_state_index a = update_state_index b \<longleftrightarrow> a = b"
  by (cases a; cases b) simp_all

instantiation PoisonContentUpdateState :: linorder
begin

definition less_eq_PoisonContentUpdateState ::
    "PoisonContentUpdateState \<Rightarrow> PoisonContentUpdateState \<Rightarrow> bool" where
  [enum_ord]: "less_eq_PoisonContentUpdateState a b \<longleftrightarrow> update_state_index a \<le> update_state_index b"

definition less_PoisonContentUpdateState ::
    "PoisonContentUpdateState \<Rightarrow> PoisonContentUpdateState \<Rightarrow> bool" where
  [enum_ord]: "less_PoisonContentUpdateState a b \<longleftrightarrow> update_state_index a < update_state_index b"

instance by standard (auto simp: enum_ord)

end

datatype PoisonContentUpdateType =
    PoisonContentUpdateApplication | PoisonContentUpdateFirmware | PoisonContentUpdateLesson
  | PoisonContentUpdateToolData | PoisonContentUpdateTheme | PoisonContentUpdateFontIcon
  | PoisonContentUpdateMenu | PoisonContentUpdateResource | PoisonContentUpdateUiPack
  | PoisonContentUpdateTypeCount

datatype PoisonContentUpdateAdmission =
    PoisonContentUpdateAdmissionOk | PoisonContentUpdateAdmissionInvalid
  | PoisonContentUpdateAdmissionTampered | PoisonContentUpdateAdmissionWrongTarget
  | PoisonContentUpdateAdmissionIncompatibleApi | PoisonContentUpdateAdmissionDowngrade
  | PoisonContentUpdateAdmissionRevokedSigner | PoisonContentUpdateAdmissionInsufficientStorage
  | PoisonContentUpdateAdmissionMissingRollback

record PoisonContentUpdateManifest =
  um_content_type :: PoisonContentUpdateType
  um_update_id :: "string option"
  um_candidate_digest :: "string option"
  um_previous_digest :: "string option"
  um_hardware_target :: u32
  um_minimum_api :: u32
  um_maximum_api :: u32
  um_release_sequence :: u32
  um_content_bytes :: u32
  um_signature_valid :: bool
  um_signer_revoked :: bool
  um_rollback_available :: bool
  um_protected_target :: bool

record PoisonContentUpdateEnvironment =
  ue_hardware_target :: u32
  ue_firmware_api :: u32
  ue_highest_release_sequence :: u32
  ue_available_storage_bytes :: u32

record PoisonContentUpdate =
  cu_update_id :: string
  cu_candidate_digest :: string
  cu_previous_digest :: string
  cu_state :: PoisonContentUpdateState
  cu_content_type :: PoisonContentUpdateType
  cu_sequence :: u32
  cu_content_bytes :: u32
  cu_received_bytes :: u32
  cu_rollback_available :: bool
  cu_confirmation_required :: bool
  cu_confirmation_authorized :: bool
  cu_payload_verified :: bool
  cu_health_reported :: bool

definition content_update_zero :: PoisonContentUpdate where
  "content_update_zero = \<lparr> cu_update_id = '''', cu_candidate_digest = '''', cu_previous_digest = '''',
     cu_state = PoisonContentUpdateDiscovered, cu_content_type = PoisonContentUpdateApplication,
     cu_sequence = 0, cu_content_bytes = 0, cu_received_bytes = 0, cu_rollback_available = False,
     cu_confirmation_required = False, cu_confirmation_authorized = False,
     cu_payload_verified = False, cu_health_reported = False \<rparr>"

section \<open>Text checks\<close>

definition lower_or_digit :: "char \<Rightarrow> bool" where
  "lower_or_digit c \<longleftrightarrow>
     (char_code (CHR ''a'') \<le> char_code c \<and> char_code c \<le> char_code (CHR ''z'')) \<or>
     (char_code (CHR ''0'') \<le> char_code c \<and> char_code c \<le> char_code (CHR ''9''))"

definition lower_hex :: "char \<Rightarrow> bool" where
  "lower_hex c \<longleftrightarrow>
     (char_code (CHR ''0'') \<le> char_code c \<and> char_code c \<le> char_code (CHR ''9'')) \<or>
     (char_code (CHR ''a'') \<le> char_code c \<and> char_code c \<le> char_code (CHR ''f''))"

definition bounded_digest :: "string option \<Rightarrow> bool" where
  "bounded_digest value =
    (case value of
       None \<Rightarrow> False
     | Some v \<Rightarrow>
         if length v \<noteq> POISON_CONTENT_UPDATE_MAX_DIGEST - 1 then False
         else list_all lower_hex (take (POISON_CONTENT_UPDATE_MAX_DIGEST - 1) v))"

definition bounded_id :: "string option \<Rightarrow> bool" where
  "bounded_id value =
    (case value of
       None \<Rightarrow> False
     | Some v \<Rightarrow>
         if v = '''' \<or> length v \<ge> POISON_CONTENT_UPDATE_MAX_ID then False
         else if \<not> lower_or_digit (v ! 0) then False
         else list_all (\<lambda>c. lower_or_digit c \<or> c \<in> set ''.-_'') (drop 1 v))"

section \<open>Operations\<close>

definition poison_content_update_requires_confirmation :: "PoisonContentUpdateType \<Rightarrow> bool \<Rightarrow> bool" where
  "poison_content_update_requires_confirmation content_type protected_target \<longleftrightarrow>
     protected_target \<or> content_type = PoisonContentUpdateFirmware \<or>
     content_type = PoisonContentUpdateResource"

definition poison_content_update_begin ::
    "PoisonContentUpdate \<Rightarrow> string option \<Rightarrow> string option \<Rightarrow> string option \<Rightarrow> u32 \<Rightarrow>
     PoisonContentUpdate \<times> bool" where
  "poison_content_update_begin update update_id candidate_digest previous_digest sequence =
    (if \<not> bounded_id update_id \<or> \<not> bounded_digest candidate_digest \<or>
        \<not> bounded_digest previous_digest \<or> sequence = 0
     then (update, False)
     else (content_update_zero
             \<lparr> cu_update_id := take (POISON_CONTENT_UPDATE_MAX_ID - 1) (the update_id),
               cu_candidate_digest := take (POISON_CONTENT_UPDATE_MAX_DIGEST - 1) (the candidate_digest),
               cu_previous_digest := take (POISON_CONTENT_UPDATE_MAX_DIGEST - 1) (the previous_digest),
               cu_state := PoisonContentUpdateDiscovered, cu_sequence := sequence,
               cu_rollback_available := True \<rparr>, True))"

definition poison_content_update_admit ::
    "PoisonContentUpdate \<Rightarrow> PoisonContentUpdateManifest \<Rightarrow> PoisonContentUpdateEnvironment \<Rightarrow>
     PoisonContentUpdate \<times> PoisonContentUpdateAdmission" where
  "poison_content_update_admit update manifest environment =
    (if um_content_type manifest = PoisonContentUpdateTypeCount \<or> um_hardware_target manifest = 0 \<or>
        um_minimum_api manifest = 0 \<or> um_maximum_api manifest < um_minimum_api manifest \<or>
        um_content_bytes manifest = 0 \<or> ue_hardware_target environment = 0 \<or>
        ue_firmware_api environment = 0 \<or> \<not> bounded_id (um_update_id manifest) \<or>
        \<not> bounded_digest (um_candidate_digest manifest) \<or>
        \<not> bounded_digest (um_previous_digest manifest) \<or>
        um_candidate_digest manifest = um_previous_digest manifest
     then (update, PoisonContentUpdateAdmissionInvalid)
     else if \<not> um_signature_valid manifest then (update, PoisonContentUpdateAdmissionTampered)
     else if um_signer_revoked manifest then (update, PoisonContentUpdateAdmissionRevokedSigner)
     else if um_hardware_target manifest \<noteq> ue_hardware_target environment
     then (update, PoisonContentUpdateAdmissionWrongTarget)
     else if ue_firmware_api environment < um_minimum_api manifest \<or>
             ue_firmware_api environment > um_maximum_api manifest
     then (update, PoisonContentUpdateAdmissionIncompatibleApi)
     else if um_release_sequence manifest \<le> ue_highest_release_sequence environment
     then (update, PoisonContentUpdateAdmissionDowngrade)
     else if um_content_bytes manifest > ue_available_storage_bytes environment
     then (update, PoisonContentUpdateAdmissionInsufficientStorage)
     else if \<not> um_rollback_available manifest
     then (update, PoisonContentUpdateAdmissionMissingRollback)
     else case poison_content_update_begin update (um_update_id manifest)
                 (um_candidate_digest manifest) (um_previous_digest manifest)
                 (um_release_sequence manifest) of
            (update', begun) \<Rightarrow>
              if \<not> begun then (update', PoisonContentUpdateAdmissionInvalid)
              else (update' \<lparr> cu_content_type := um_content_type manifest,
                      cu_content_bytes := um_content_bytes manifest,
                      cu_rollback_available := um_rollback_available manifest,
                      cu_confirmation_required := poison_content_update_requires_confirmation
                        (um_content_type manifest) (um_protected_target manifest) \<rparr>,
                    PoisonContentUpdateAdmissionOk))"

definition poison_content_update_can_activate :: "PoisonContentUpdate \<Rightarrow> bool" where
  "poison_content_update_can_activate update \<longleftrightarrow>
     cu_state update = PoisonContentUpdateAwaitingConfirmation \<and> cu_candidate_digest update \<noteq> '''' \<and>
     cu_rollback_available update \<and>
     (\<not> cu_confirmation_required update \<or> cu_confirmation_authorized update)"

definition update_transition_allowed :: "PoisonContentUpdate \<Rightarrow> PoisonContentUpdateState \<Rightarrow> bool" where
  "update_transition_allowed update next_state \<longleftrightarrow>
     (let current = cu_state update in
      (current = PoisonContentUpdateDiscovered \<and> next_state = PoisonContentUpdateReceiving) \<or>
      (current = PoisonContentUpdateReceiving \<and>
        ((next_state = PoisonContentUpdateStaged \<and>
           (cu_content_bytes update = 0 \<or> cu_received_bytes update = cu_content_bytes update)) \<or>
         next_state = PoisonContentUpdateQuarantined)) \<or>
      (current = PoisonContentUpdateStaged \<and>
        ((next_state = PoisonContentUpdateVerified \<and>
           (cu_content_bytes update = 0 \<or> cu_payload_verified update)) \<or>
         next_state = PoisonContentUpdateQuarantined)) \<or>
      (current = PoisonContentUpdateVerified \<and>
        next_state = PoisonContentUpdateAwaitingConfirmation) \<or>
      (current = PoisonContentUpdateAwaitingConfirmation \<and>
        next_state = PoisonContentUpdateActivating \<and> poison_content_update_can_activate update) \<or>
      (current = PoisonContentUpdateActivating \<and>
        ((next_state = PoisonContentUpdateHealthy \<and> cu_health_reported update) \<or>
         next_state = PoisonContentUpdateRolledBack)))"

definition poison_content_update_transition ::
    "PoisonContentUpdate \<Rightarrow> PoisonContentUpdateState \<Rightarrow> PoisonContentUpdate \<times> bool" where
  "poison_content_update_transition update next_state =
    (if \<not> update_transition_allowed update next_state then (update, False)
     else (update \<lparr> cu_state := next_state \<rparr>, True))"

definition poison_content_update_receive :: "PoisonContentUpdate \<Rightarrow> u32 \<Rightarrow> PoisonContentUpdate \<times> bool" where
  "poison_content_update_receive update bytes =
    (if cu_state update \<noteq> PoisonContentUpdateReceiving \<or> bytes = 0 \<or> cu_content_bytes update = 0 \<or>
        cu_received_bytes update > cu_content_bytes update \<or>
        bytes > cu_content_bytes update - cu_received_bytes update
     then (update, False)
     else (update \<lparr> cu_received_bytes := cu_received_bytes update + bytes \<rparr>, True))"

definition poison_content_update_verify_payload ::
    "PoisonContentUpdate \<Rightarrow> string option \<Rightarrow> PoisonContentUpdate \<times> bool" where
  "poison_content_update_verify_payload update actual_digest =
    (if cu_state update \<noteq> PoisonContentUpdateStaged \<or> \<not> bounded_digest actual_digest
     then (update, False)
     else if Some (cu_candidate_digest update) \<noteq> actual_digest
     then (fst (poison_content_update_transition update PoisonContentUpdateQuarantined), False)
     else poison_content_update_transition (update \<lparr> cu_payload_verified := True \<rparr>)
            PoisonContentUpdateVerified)"

definition poison_content_update_confirm :: "PoisonContentUpdate \<Rightarrow> bool \<Rightarrow> PoisonContentUpdate \<times> bool" where
  "poison_content_update_confirm update exact_confirmation =
    (if cu_state update \<noteq> PoisonContentUpdateAwaitingConfirmation \<or>
        (cu_confirmation_required update \<and> \<not> exact_confirmation)
     then (update, False)
     else (update \<lparr> cu_confirmation_authorized := True \<rparr>, True))"

definition poison_content_update_rollback :: "PoisonContentUpdate \<Rightarrow> PoisonContentUpdate \<times> bool" where
  "poison_content_update_rollback update =
    (if \<not> cu_rollback_available update \<or> cu_previous_digest update = '''' then (update, False)
     else if cu_state update \<noteq> PoisonContentUpdateActivating \<and>
             cu_state update \<noteq> PoisonContentUpdateHealthy
     then (update, False)
     else (update \<lparr> cu_state := PoisonContentUpdateRolledBack \<rparr>, True))"

definition poison_content_update_report_health ::
    "PoisonContentUpdate \<Rightarrow> bool \<Rightarrow> PoisonContentUpdate \<times> bool" where
  "poison_content_update_report_health update healthy =
    (if cu_state update \<noteq> PoisonContentUpdateActivating then (update, False)
     else let update' = update \<lparr> cu_health_reported := True \<rparr>
     in if healthy then poison_content_update_transition update' PoisonContentUpdateHealthy
        else poison_content_update_rollback update')"

definition poison_content_update_recover ::
    "PoisonContentUpdate \<Rightarrow> bool \<Rightarrow> PoisonContentUpdate \<times> bool" where
  "poison_content_update_recover update rollback_artifact_valid =
    (if cu_state update < PoisonContentUpdateReceiving \<or>
        cu_state update > PoisonContentUpdateActivating
     then (update, False)
     else if \<not> cu_rollback_available update \<or> \<not> rollback_artifact_valid
     then (update \<lparr> cu_state := PoisonContentUpdateQuarantined \<rparr>, False)
     else (update \<lparr> cu_state := PoisonContentUpdateRolledBack \<rparr>, True))"

definition poison_content_update_cancel :: "PoisonContentUpdate \<Rightarrow> PoisonContentUpdate \<times> bool" where
  "poison_content_update_cancel update =
    (if cu_state update > PoisonContentUpdateAwaitingConfirmation then (update, False)
     else if \<not> cu_rollback_available update
     then (update \<lparr> cu_state := PoisonContentUpdateQuarantined \<rparr>, False)
     else (update \<lparr> cu_state := PoisonContentUpdateRolledBack \<rparr>, True))"

section \<open>The update as a machine\<close>

datatype UpdateOp =
    UpTransition PoisonContentUpdateState | UpReceive u32 | UpVerify "string option"
  | UpConfirm bool | UpReport bool | UpRecover bool | UpCancel | UpRollback

fun update_step :: "UpdateOp \<Rightarrow> PoisonContentUpdate \<Rightarrow> PoisonContentUpdate \<times> bool" where
  "update_step (UpTransition s) u = poison_content_update_transition u s"
| "update_step (UpReceive n) u = poison_content_update_receive u n"
| "update_step (UpVerify d) u = poison_content_update_verify_payload u d"
| "update_step (UpConfirm e) u = poison_content_update_confirm u e"
| "update_step (UpReport h) u = poison_content_update_report_health u h"
| "update_step (UpRecover v) u = poison_content_update_recover u v"
| "update_step UpCancel u = poison_content_update_cancel u"
| "update_step UpRollback u = poison_content_update_rollback u"

lemmas update_ops = poison_content_update_transition_def update_transition_allowed_def
  poison_content_update_receive_def poison_content_update_verify_payload_def
  poison_content_update_confirm_def poison_content_update_report_health_def
  poison_content_update_recover_def poison_content_update_cancel_def
  poison_content_update_rollback_def poison_content_update_can_activate_def Let_def

lemma lower_hex_not_empty: "bounded_digest d \<Longrightarrow> d \<noteq> None \<and> the d \<noteq> '''' \<and> length (the d) = 64"
  by (auto simp: bounded_digest_def split: option.splits if_splits)

lemma bounded_id_some: "bounded_id i \<Longrightarrow> i \<noteq> None \<and> the i \<noteq> '''' \<and> length (the i) < 64"
  by (auto simp: bounded_id_def split: option.splits if_splits)

text \<open>What is true of an update from its admission on: bytes are counted within the announced size;
  past the receiving stage all of them are there; past verification the payload has been
  compared with the digest; past the confirmation stage it was confirmed, if it had to be.\<close>

definition update_inv :: "PoisonContentUpdate \<Rightarrow> bool" where
  "update_inv u \<longleftrightarrow>
     cu_content_bytes u \<noteq> 0 \<and> cu_received_bytes u \<le> cu_content_bytes u \<and> cu_rollback_available u \<and>
     bounded_id (Some (cu_update_id u)) \<and> bounded_digest (Some (cu_candidate_digest u)) \<and>
     bounded_digest (Some (cu_previous_digest u)) \<and> cu_sequence u \<noteq> 0 \<and>
     (cu_state u = PoisonContentUpdateDiscovered \<longrightarrow> cu_received_bytes u = 0) \<and>
     (cu_state u < PoisonContentUpdateVerified \<longrightarrow> \<not> cu_payload_verified u) \<and>
     (cu_state u < PoisonContentUpdateAwaitingConfirmation \<longrightarrow> \<not> cu_confirmation_authorized u) \<and>
     (cu_state u < PoisonContentUpdateHealthy \<longrightarrow> \<not> cu_health_reported u) \<and>
     (PoisonContentUpdateStaged \<le> cu_state u \<and> cu_state u \<le> PoisonContentUpdateHealthy \<longrightarrow>
        cu_received_bytes u = cu_content_bytes u) \<and>
     (PoisonContentUpdateVerified \<le> cu_state u \<and> cu_state u \<le> PoisonContentUpdateHealthy \<longrightarrow>
        cu_payload_verified u) \<and>
     (PoisonContentUpdateActivating \<le> cu_state u \<and> cu_state u \<le> PoisonContentUpdateHealthy \<and>
        cu_confirmation_required u \<longrightarrow> cu_confirmation_authorized u)"

lemma received_no_wrap:
  fixes received content more :: u32
  assumes "received \<le> content" "\<not> more > content - received"
  shows "received + more \<le> content" "unat (received + more) = unat received + unat more"
proof -
  have "unat (content - received) = unat content - unat received"
    using assms(1) by (simp add: unat_sub)
  then have *: "unat received + unat more \<le> unat content"
    using assms by (simp add: word_less_nat_alt word_le_nat_alt)
  moreover have "unat content < 2 ^ 32"
    using unat_bounds(3) [of content] by simp
  ultimately show "unat (received + more) = unat received + unat more"
    by (simp add: unat_word_ariths)
  with * show "received + more \<le> content"
    by (simp add: word_le_nat_alt)
qed

lemma update_inv_digests:
  "update_inv u \<Longrightarrow> cu_candidate_digest u \<noteq> '''' \<and> cu_previous_digest u \<noteq> ''''"
  using lower_hex_not_empty [of "Some (cu_candidate_digest u)"]
    lower_hex_not_empty [of "Some (cu_previous_digest u)"]
  by (simp add: update_inv_def)

lemma update_transition_inv:
  assumes "update_inv u" shows "update_inv (fst (poison_content_update_transition u s))"
  using assms
  by (cases "cu_state u"; cases s) (auto simp: update_ops update_inv_def enum_ord)

lemma update_receive_inv:
  assumes "update_inv u" shows "update_inv (fst (poison_content_update_receive u n))"
  using assms received_no_wrap(1) [of "cu_received_bytes u" "cu_content_bytes u" n]
  by (auto simp: poison_content_update_receive_def update_inv_def enum_ord)

lemma update_verify_inv:
  assumes "update_inv u" shows "update_inv (fst (poison_content_update_verify_payload u d))"
  using assms by (cases "cu_state u") (auto simp: update_ops update_inv_def enum_ord)

lemma update_report_inv:
  assumes "update_inv u" shows "update_inv (fst (poison_content_update_report_health u h))"
  using assms update_inv_digests [OF assms]
  by (cases "cu_state u") (auto simp: update_ops update_inv_def enum_ord)

lemma update_end_inv:
  assumes "update_inv u"
  shows "update_inv (fst (poison_content_update_confirm u e))"
    "update_inv (fst (poison_content_update_recover u v))"
    "update_inv (fst (poison_content_update_cancel u))"
    "update_inv (fst (poison_content_update_rollback u))"
  using assms by (cases "cu_state u"; auto simp: update_ops update_inv_def enum_ord)+

lemma update_step_inv [inv_intros]: "update_inv u \<Longrightarrow> update_inv (fst (update_step op u))"
  by (cases op)
    (simp_all add: update_transition_inv update_receive_inv update_verify_inv update_report_inv update_end_inv)

text \<open>The calls an update remembers: the comparison of the digest, the confirmation where one is
  needed, and the report of health.\<close>

definition update_history :: "PoisonContentUpdate \<Rightarrow> UpdateOp list" where
  "update_history u =
     (if cu_payload_verified u then [UpVerify (Some (cu_candidate_digest u))] else []) @
     (if cu_confirmation_required u \<and> cu_confirmation_authorized u then [UpConfirm True] else []) @
     (if cu_state u = PoisonContentUpdateHealthy then [UpReport True] else [])"

lemma update_history_step:
  assumes "update_inv u"
  shows "subseq (update_history (fst (update_step op u))) (update_history u @ [op])"
  using assms
  by (cases op; cases "cu_state u")
    (auto simp: update_history_def update_ops update_inv_def enum_ord)

interpretation updates: history_machine update_step update_inv update_history
  by unfold_locales (simp_all add: update_step_inv update_history_step)

text \<open>What a call cannot change, and the bytes it counts.\<close>

lemma update_fixed:
  "cu_candidate_digest (fst (update_step op u)) = cu_candidate_digest u"
  "cu_confirmation_required (fst (update_step op u)) = cu_confirmation_required u"
  "cu_content_bytes (fst (update_step op u)) = cu_content_bytes u"
  by (cases op; simp add: update_ops)+

lemma update_fixed_run [simp]:
  "cu_candidate_digest (run_state update_step u ops) = cu_candidate_digest u"
  "cu_confirmation_required (run_state update_step u ops) = cu_confirmation_required u"
  "cu_content_bytes (run_state update_step u ops) = cu_content_bytes u"
  by (induction ops arbitrary: u) (simp_all add: update_fixed)

fun receive_amount :: "UpdateOp \<Rightarrow> nat" where
  "receive_amount (UpReceive n) = unat n"
| "receive_amount _ = 0"

definition bytes_received :: "PoisonContentUpdate \<Rightarrow> UpdateOp list \<Rightarrow> nat" where
  "bytes_received u ops =
     sum_list (map (receive_amount \<circ> fst) (accepted update_step (\<lambda>r. r) u ops))"

lemma received_step:
  assumes "update_inv u"
  shows "unat (cu_received_bytes (fst (update_step op u))) =
    unat (cu_received_bytes u) + (if snd (update_step op u) then receive_amount op else 0)"
  using assms received_no_wrap(2) [of "cu_received_bytes u" "cu_content_bytes u"]
  by (cases op) (auto simp: update_ops update_inv_def)

lemma received_run:
  "update_inv u \<Longrightarrow> unat (cu_received_bytes (run_state update_step u ops)) =
     unat (cu_received_bytes u) + bytes_received u ops"
  by (induction ops arbitrary: u) (simp_all add: received_step update_step_inv bytes_received_def)

section \<open>Correctness of the update\<close>

text \<open>A manifest is admitted exactly when it is well formed, signed by a signer that is not
  revoked, made for this hardware and firmware, newer than what is installed, small enough for the
  storage and reversible; the update then starts with nothing received and a confirmation
  required for protected targets, firmware and resources. A refusal leaves the update alone.\<close>

theorem update_admission_exact:
  "(poison_content_update_admit u m e = (u', PoisonContentUpdateAdmissionOk)) =
     (um_content_type m \<noteq> PoisonContentUpdateTypeCount \<and> um_hardware_target m \<noteq> 0 \<and>
      um_hardware_target m = ue_hardware_target e \<and>
      um_minimum_api m \<noteq> 0 \<and> um_minimum_api m \<le> ue_firmware_api e \<and>
      ue_firmware_api e \<le> um_maximum_api m \<and>
      ue_highest_release_sequence e < um_release_sequence m \<and>
      um_content_bytes m \<noteq> 0 \<and> um_content_bytes m \<le> ue_available_storage_bytes e \<and>
      um_signature_valid m \<and> \<not> um_signer_revoked m \<and> um_rollback_available m \<and>
      bounded_id (um_update_id m) \<and> bounded_digest (um_candidate_digest m) \<and>
      bounded_digest (um_previous_digest m) \<and> um_candidate_digest m \<noteq> um_previous_digest m \<and>
      u' = \<lparr> cu_update_id = the (um_update_id m), cu_candidate_digest = the (um_candidate_digest m),
             cu_previous_digest = the (um_previous_digest m),
             cu_state = PoisonContentUpdateDiscovered, cu_content_type = um_content_type m,
             cu_sequence = um_release_sequence m, cu_content_bytes = um_content_bytes m,
             cu_received_bytes = 0, cu_rollback_available = True,
             cu_confirmation_required = (um_protected_target m \<or>
               um_content_type m = PoisonContentUpdateFirmware \<or>
               um_content_type m = PoisonContentUpdateResource),
             cu_confirmation_authorized = False, cu_payload_verified = False,
             cu_health_reported = False \<rparr>) \<and>
   fst (poison_content_update_admit u m e) =
     (if snd (poison_content_update_admit u m e) = PoisonContentUpdateAdmissionOk
      then fst (poison_content_update_admit u m e) else u)"
  (is "(_ = ?cond) \<and> (_ = ?rest)")
proof (intro conjI)
  have begin_ok: "poison_content_update_begin u i c p q = (u1, b) \<longleftrightarrow>
      (if \<not> bounded_id i \<or> \<not> bounded_digest c \<or> \<not> bounded_digest p \<or> q = 0 then u1 = u \<and> \<not> b
       else b \<and> u1 = content_update_zero \<lparr> cu_update_id := the i, cu_candidate_digest := the c,
         cu_previous_digest := the p, cu_state := PoisonContentUpdateDiscovered, cu_sequence := q,
         cu_rollback_available := True \<rparr>)" for i c p q u1 b
    using bounded_id_some [of i] lower_hex_not_empty [of c] lower_hex_not_empty [of p]
    by (auto simp: poison_content_update_begin_def)
  show "(poison_content_update_admit u m e = (u', PoisonContentUpdateAdmissionOk)) = ?cond"
    unfolding poison_content_update_admit_def
    by (auto simp: begin_ok content_update_zero_def not_less not_le
        poison_content_update_requires_confirmation_def split: prod.splits if_splits)
  show "fst (poison_content_update_admit u m e) = ?rest"
    unfolding poison_content_update_admit_def poison_content_update_begin_def by simp
qed

lemma admitted_inv:
  assumes "poison_content_update_admit u m e = (u', PoisonContentUpdateAdmissionOk)"
  shows "update_inv u'" "update_history u' = []" "cu_received_bytes u' = 0"
    "Some (cu_candidate_digest u') = um_candidate_digest m"
    "cu_content_bytes u' = um_content_bytes m"
    "cu_confirmation_required u' = poison_content_update_requires_confirmation
       (um_content_type m) (um_protected_target m)"
    "Some (cu_update_id u') = um_update_id m" "Some (cu_previous_digest u') = um_previous_digest m"
    "cu_content_type u' = um_content_type m" "cu_state u' = PoisonContentUpdateDiscovered"
    "cu_sequence u' = um_release_sequence m" "cu_candidate_digest u' \<noteq> cu_previous_digest u'"
  using assms lower_hex_not_empty [of "um_candidate_digest m"] lower_hex_not_empty [of "um_previous_digest m"]
    bounded_id_some [of "um_update_id m"]
  by (auto simp: poison_content_update_admit_def poison_content_update_begin_def
      content_update_zero_def update_inv_def update_history_def enum_ord split: if_splits)

text \<open>The call that verifies a payload: everything announced was received before it, and nothing is confirmed yet.\<close>

lemma verified_by:
  assumes "update_inv u" "\<not> cu_payload_verified u" "cu_payload_verified (fst (update_step op u))"
  shows "op = UpVerify (Some (cu_candidate_digest u)) \<and> snd (update_step op u) \<and>
    cu_received_bytes u = cu_content_bytes u \<and>
    update_history (fst (update_step op u)) = [UpVerify (Some (cu_candidate_digest u))]"
  using assms
  by (cases op; cases "cu_state u")
    (auto simp: update_ops update_inv_def update_history_def enum_ord split: if_splits)

lemma verified_split:
  assumes "update_inv u" "\<not> cu_payload_verified u" "cu_payload_verified (run_state update_step u ops)"
  shows "\<exists>before rest. ops = before @ UpVerify (Some (cu_candidate_digest u)) # rest \<and>
    (let v = run_state update_step u before; op = UpVerify (Some (cu_candidate_digest u)) in
      snd (update_step op v) \<and> cu_received_bytes v = cu_content_bytes v \<and>
      update_history (fst (update_step op v)) = [op])"
  using assms
proof (induction ops arbitrary: u)
  case (Cons op ops)
  let ?d = "fst (update_step op u)"
  show ?case
  proof (cases "cu_payload_verified ?d")
    case True
    from verified_by [OF Cons.prems(1,2) True] show ?thesis
      by - (rule exI [of _ "[]"], rule exI [of _ ops], clarsimp simp: Let_def)
  next
    case False
    from Cons.IH [OF update_step_inv [OF Cons.prems(1)] False] Cons.prems(3) obtain before rest where
      "ops = before @ UpVerify (Some (cu_candidate_digest u)) # rest"
      "let v = run_state update_step ?d before; op = UpVerify (Some (cu_candidate_digest u)) in
        snd (update_step op v) \<and> cu_received_bytes v = cu_content_bytes v \<and>
        update_history (fst (update_step op v)) = [op]"
      by (auto simp: update_fixed)
    then show ?thesis by - (rule exI [of _ "op # before"], rule exI [of _ rest], simp)
  qed
qed simp

text \<open>C20: whatever calls are made on an admitted update, in whatever order, it is healthy only when exactly
  the announced number of bytes was received before a call compared the digest of the payload with the
  candidate's and accepted it, nothing was received from then on, and after that call the user confirmed, if
  the content needs it, and then the new content reported healthy.\<close>

theorem update_healthy_only_by_protocol:
  fixes ops
  assumes "poison_content_update_admit u m e = (u0, PoisonContentUpdateAdmissionOk)"
    and "cu_state (run_state update_step u0 ops) = PoisonContentUpdateHealthy"
  shows "\<exists>before rest. ops = before @ UpVerify (um_candidate_digest m) # rest \<and>
    snd (update_step (UpVerify (um_candidate_digest m)) (run_state update_step u0 before)) \<and>
    bytes_received u0 before = unat (um_content_bytes m) \<and> bytes_received u0 ops = unat (um_content_bytes m) \<and>
    subseq ((if poison_content_update_requires_confirmation (um_content_type m) (um_protected_target m)
       then [UpConfirm True] else []) @ [UpReport True]) rest"
proof -
  let ?u = "run_state update_step u0 ops" and ?op = "UpVerify (um_candidate_digest m)"
  note start = admitted_inv [OF assms(1)]
  have inv: "update_inv ?u"
    by (rule updates.run_keeps) (rule start(1))
  with assms(2) have healthy: "cu_payload_verified ?u" "cu_received_bytes ?u = cu_content_bytes ?u"
    "cu_confirmation_required ?u \<longrightarrow> cu_confirmation_authorized ?u"
    by (simp_all add: update_inv_def enum_ord)
  have "\<not> cu_payload_verified u0" using start(1,10) by (simp add: update_inv_def enum_ord)
  from verified_split [OF start(1) this healthy(1)] obtain before rest where
    split: "ops = before @ ?op # rest"
    and verify: "snd (update_step ?op (run_state update_step u0 before))"
      "cu_received_bytes (run_state update_step u0 before) = cu_content_bytes (run_state update_step u0 before)"
      "update_history (fst (update_step ?op (run_state update_step u0 before))) = [?op]"
    by (auto simp: start(4) Let_def)
  have "bytes_received u0 before = unat (um_content_bytes m)" "bytes_received u0 ops = unat (um_content_bytes m)"
    using received_run [OF start(1), of before] received_run [OF start(1), of ops] verify(2) healthy(2) start(3,5)
    by simp_all
  moreover have kept: "update_inv (fst (update_step ?op (run_state update_step u0 before)))"
    by (rule update_step_inv, rule updates.run_keeps, rule start(1))
  have "subseq (update_history ?u) ([?op] @ rest)"
    using updates.traced_run [OF kept, of "[?op]" rest] verify(3) by (simp add: split run_state_append)
  then have "subseq ((if poison_content_update_requires_confirmation (um_content_type m) (um_protected_target m)
      then [UpConfirm True] else []) @ [UpReport True]) rest"
    using healthy assms(2) start(4,6) by (auto simp: update_history_def split: if_splits)
  ultimately show ?thesis using split verify(1) by blast
qed

lemma ended_step:
  "cu_state u \<in> {PoisonContentUpdateRolledBack, PoisonContentUpdateQuarantined} \<Longrightarrow>
     update_step op u = (u, False)"
  by (cases op) (auto simp: update_ops enum_ord)

text \<open>An update that was rolled back or quarantined never changes again, and every call on it
  fails.\<close>

theorem update_ended_is_final:
  assumes "cu_state u \<in> {PoisonContentUpdateRolledBack, PoisonContentUpdateQuarantined}"
  shows "run_state update_step u ops = u \<and> accepted update_step (\<lambda>r. r) u ops = []"
  using ended_step [OF assms] by (induction ops) simp_all

definition sample_manifest :: PoisonContentUpdateManifest where
  "sample_manifest = \<lparr> um_content_type = PoisonContentUpdateResource, um_update_id = Some ''maps'',
     um_candidate_digest = Some (replicate 64 (CHR ''a'')),
     um_previous_digest = Some (replicate 64 (CHR ''0'')), um_hardware_target = 7,
     um_minimum_api = 1, um_maximum_api = 9, um_release_sequence = 5, um_content_bytes = 3,
     um_signature_valid = True, um_signer_revoked = False, um_rollback_available = True,
     um_protected_target = False \<rparr>"

definition sample_environment :: PoisonContentUpdateEnvironment where
  "sample_environment = \<lparr> ue_hardware_target = 7, ue_firmware_api = 4,
     ue_highest_release_sequence = 4, ue_available_storage_bytes = 100 \<rparr>"

definition sample_update :: PoisonContentUpdate where
  "sample_update = \<lparr> cu_update_id = ''maps'', cu_candidate_digest = replicate 64 (CHR ''a''),
     cu_previous_digest = replicate 64 (CHR ''0''), cu_state = PoisonContentUpdateDiscovered,
     cu_content_type = PoisonContentUpdateResource, cu_sequence = 5, cu_content_bytes = 3,
     cu_received_bytes = 0, cu_rollback_available = True, cu_confirmation_required = True,
     cu_confirmation_authorized = False, cu_payload_verified = False, cu_health_reported = False \<rparr>"

definition sample_calls :: "UpdateOp list" where
  "sample_calls = [UpTransition PoisonContentUpdateReceiving, UpReceive 1, UpReceive 2,
     UpTransition PoisonContentUpdateStaged, UpVerify (Some (replicate 64 (CHR ''a''))),
     UpTransition PoisonContentUpdateAwaitingConfirmation, UpConfirm True,
     UpTransition PoisonContentUpdateActivating, UpReport True]"

lemma sample_texts:
  "bounded_digest (Some (replicate 64 (CHR ''a'')))" "bounded_digest (Some (replicate 64 (CHR ''0'')))"
  "bounded_id (Some ''maps'')" "replicate 64 (CHR ''a'') \<noteq> replicate 64 (CHR ''0'')"
  by (simp_all add: bounded_digest_def bounded_id_def lower_hex_def lower_or_digit_def of_char_def
      list_all_iff)

lemma sample_admitted:
  "poison_content_update_admit content_update_zero sample_manifest sample_environment =
     (sample_update, PoisonContentUpdateAdmissionOk)"
  using sample_texts
  by (simp add: poison_content_update_admit_def poison_content_update_begin_def sample_manifest_def
      sample_environment_def sample_update_def content_update_zero_def
      poison_content_update_requires_confirmation_def)

lemma sample_healthy: "cu_state (run_state update_step sample_update sample_calls) = PoisonContentUpdateHealthy"
  using sample_texts by (simp add: sample_calls_def sample_update_def update_ops)

lemma update_healthy_only_by_protocol_witness:
  "\<exists>before rest. sample_calls = before @ UpVerify (Some (replicate 64 (CHR ''a''))) # rest \<and>
     bytes_received sample_update before = 3 \<and> subseq [UpConfirm True, UpReport True] rest"
  using update_healthy_only_by_protocol [OF sample_admitted sample_healthy]
  by (auto simp: sample_manifest_def poison_content_update_requires_confirmation_def)

lemma update_ended_is_final_witness:
  "run_state update_step (sample_update \<lparr> cu_state := PoisonContentUpdateRolledBack \<rparr>) sample_calls
     = sample_update \<lparr> cu_state := PoisonContentUpdateRolledBack \<rparr>"
  using update_ended_is_final [of "sample_update \<lparr> cu_state := PoisonContentUpdateRolledBack \<rparr>" sample_calls]
  by simp

section \<open>Health markers\<close>

record PoisonContentUpdateHealthMarker =
  hm_magic :: string
  hm_version :: u32
  hm_update_id :: string
  hm_candidate_digest :: string
  hm_sequence :: u32
  hm_checksum :: bytes

type_synonym MarkerDisk = "PoisonContentUpdateHealthMarker Disk"

text \<open>The parameter \<open>hash\<close> is SHA-256 over the bytes of a marker before its checksum; it gets the
  marker with a zero checksum.\<close>

type_synonym MarkerHash = "PoisonContentUpdateHealthMarker \<Rightarrow> bytes option"

abbreviation "POISON_CONTENT_UPDATE_HEALTH_PENDING_PATH \<equiv> ''/int/.poison/content_update.pending''"
abbreviation "POISON_CONTENT_UPDATE_HEALTH_COMPLETE_PATH \<equiv> ''/int/.poison/content_update.complete''"

definition poison_content_update_marker_path_valid :: "string \<Rightarrow> bool" where
  "poison_content_update_marker_path_valid path \<longleftrightarrow>
     path \<noteq> '''' \<and> path ! 0 = CHR ''/'' \<and> \<not> strstr path ''..'' \<and> length path < 224"

definition poison_content_update_marker_checksum ::
    "MarkerHash \<Rightarrow> PoisonContentUpdateHealthMarker \<Rightarrow> bytes option" where
  "poison_content_update_marker_checksum hash marker = hash (marker \<lparr> hm_checksum := zeros 32 \<rparr>)"

definition poison_content_update_marker_valid ::
    "MarkerHash \<Rightarrow> PoisonContentUpdateHealthMarker \<Rightarrow> string \<Rightarrow> bool" where
  "poison_content_update_marker_valid hash marker expected_magic \<longleftrightarrow>
     hm_magic marker = expected_magic \<and> hm_version marker = 1 \<and>
     bounded_id (Some (hm_update_id marker)) \<and> bounded_digest (Some (hm_candidate_digest marker)) \<and>
     hm_sequence marker > 0 \<and>
     poison_content_update_marker_checksum hash marker = Some (hm_checksum marker)"

definition poison_content_update_marker_read ::
    "MarkerHash \<Rightarrow> MarkerDisk \<Rightarrow> string \<Rightarrow> string \<Rightarrow> PoisonContentUpdateHealthMarker option" where
  "poison_content_update_marker_read hash disk path expected_magic =
    (if \<not> poison_content_update_marker_path_valid path then None
     else case disk path of
            Holds marker \<Rightarrow>
              if poison_content_update_marker_valid hash marker expected_magic then Some marker else None
          | _ \<Rightarrow> None)"

definition poison_content_update_marker_write ::
    "MarkerHash \<Rightarrow> PoisonContentUpdateHealthMarker ReplaceIo \<Rightarrow> MarkerDisk \<Rightarrow> string \<Rightarrow>
     PoisonContentUpdateHealthMarker \<Rightarrow> MarkerDisk \<times> bool" where
  "poison_content_update_marker_write hash io disk path marker =
    (if \<not> poison_content_update_marker_path_valid path then (disk, False)
     else case poison_content_update_marker_checksum hash marker of
       None \<Rightarrow> (disk, False)
     | Some checksum \<Rightarrow>
         let partial = partial_path path in
         if length partial \<ge> 256 then (disk, False)
         else case write_file (ri_write io) partial (marker \<lparr> hm_checksum := checksum \<rparr>) disk of
           (disk1, written) \<Rightarrow>
             let (disk2, written') =
               (if written
                then storage_common_rename (ri_rename io) partial path
                       (fst (storage_simply_remove (ri_remove io) path disk1))
                else (disk1, False))
             in (if written' then (disk2, True)
                 else (fst (storage_simply_remove (ri_clean io) partial disk2), False)))"

definition poison_content_update_health_arm_at ::
    "MarkerHash \<Rightarrow> PoisonContentUpdateHealthMarker ReplaceIo \<Rightarrow> PoisonContentUpdate \<Rightarrow> string \<Rightarrow>
     MarkerDisk \<Rightarrow> MarkerDisk \<times> bool" where
  "poison_content_update_health_arm_at hash io update pending_path disk =
    (if cu_state update \<noteq> PoisonContentUpdateAwaitingConfirmation \<or>
        \<not> cu_confirmation_authorized update \<or> \<not> bounded_id (Some (cu_update_id update)) \<or>
        \<not> bounded_digest (Some (cu_candidate_digest update)) \<or> cu_sequence update = 0
     then (disk, False)
     else poison_content_update_marker_write hash io disk pending_path
            \<lparr> hm_magic = ''PCUP'', hm_version = 1, hm_update_id = cu_update_id update,
              hm_candidate_digest = cu_candidate_digest update, hm_sequence = cu_sequence update,
              hm_checksum = zeros 32 \<rparr>)"

text \<open>\<open>stat_ok\<close> is false when the status of the pending marker cannot be read.\<close>

definition poison_content_update_health_mark_complete_at ::
    "MarkerHash \<Rightarrow> bool \<Rightarrow> PoisonContentUpdateHealthMarker ReplaceIo \<Rightarrow> bool \<Rightarrow> string \<Rightarrow> string \<Rightarrow>
     MarkerDisk \<Rightarrow> MarkerDisk \<times> bool" where
  "poison_content_update_health_mark_complete_at hash stat_ok io remove_pending pending_path complete_path disk =
    (if \<not> poison_content_update_marker_path_valid pending_path \<or>
        \<not> poison_content_update_marker_path_valid complete_path
     then (disk, False)
     else if \<not> stat_ok then (disk, False)
     else if disk pending_path = Absent then (disk, True)
     else case poison_content_update_marker_read hash disk pending_path ''PCUP'' of
            None \<Rightarrow> (disk, False)
          | Some marker \<Rightarrow>
              (case poison_content_update_marker_write hash io disk complete_path
                      (marker \<lparr> hm_magic := ''PCUH'' \<rparr>) of
                 (disk', written) \<Rightarrow>
                   (if written then fst (storage_simply_remove remove_pending pending_path disk')
                    else disk', written)))"

definition poison_content_update_health_completed_at ::
    "MarkerHash \<Rightarrow> PoisonContentUpdate \<Rightarrow> string \<Rightarrow> MarkerDisk \<Rightarrow> bool" where
  "poison_content_update_health_completed_at hash update complete_path disk =
    (cu_state update = PoisonContentUpdateActivating \<and>
     (case poison_content_update_marker_read hash disk complete_path ''PCUH'' of
        None \<Rightarrow> False
      | Some marker \<Rightarrow>
          hm_update_id marker = cu_update_id update \<and>
          hm_candidate_digest marker = cu_candidate_digest update \<and>
          hm_sequence marker = cu_sequence update))"

definition poison_content_update_health_clear_at ::
    "bool \<Rightarrow> bool \<Rightarrow> string \<Rightarrow> string \<Rightarrow> MarkerDisk \<Rightarrow> MarkerDisk" where
  "poison_content_update_health_clear_at remove_pending remove_complete pending_path complete_path disk =
    (if \<not> poison_content_update_marker_path_valid pending_path \<or>
        \<not> poison_content_update_marker_path_valid complete_path
     then disk
     else fst (storage_simply_remove remove_complete complete_path
            (fst (storage_simply_remove remove_pending pending_path disk))))"

lemma marker_write_ok:
  assumes "poison_content_update_marker_write hash io disk path marker = (disk', True)"
    and "whole_rename (ri_rename io)"
  shows "\<exists>checksum. hash (marker \<lparr> hm_checksum := zeros 32 \<rparr>) = Some checksum \<and>
    disk' path = Holds (marker \<lparr> hm_checksum := checksum \<rparr>) \<and>
    (\<forall>p. p \<noteq> path \<longrightarrow> p \<noteq> partial_path path \<longrightarrow> disk' p = disk p)"
  using assms
  by (auto simp: poison_content_update_marker_write_def poison_content_update_marker_checksum_def
      write_file_def storage_common_rename_def storage_simply_remove_def Let_def
      split: option.splits if_splits RenameIo.splits)

text \<open>The health handshake across a restart. When an update awaiting activation has armed its
  marker and the restarted system has marked it complete, and no rename reported success for less than
  the whole marker, then an update is taken for completed
  exactly when it is activating and has the identifier, the digest and the release sequence of
  the one that was armed.\<close>

theorem update_health_handshake:
  assumes "poison_content_update_health_arm_at hash io armed
             POISON_CONTENT_UPDATE_HEALTH_PENDING_PATH disk = (disk1, True)"
    and "poison_content_update_health_mark_complete_at hash stat_ok io' remove_pending
             POISON_CONTENT_UPDATE_HEALTH_PENDING_PATH POISON_CONTENT_UPDATE_HEALTH_COMPLETE_PATH
             disk1 = (disk2, True)"
    and "whole_rename (ri_rename io)" "whole_rename (ri_rename io')"
  shows "poison_content_update_health_completed_at hash update
             POISON_CONTENT_UPDATE_HEALTH_COMPLETE_PATH disk2 =
    (cu_state update = PoisonContentUpdateActivating \<and> cu_update_id update = cu_update_id armed \<and>
     cu_candidate_digest update = cu_candidate_digest armed \<and>
     cu_sequence update = cu_sequence armed)"
proof -
  let ?m = "\<lparr> hm_magic = ''PCUP'', hm_version = 1, hm_update_id = cu_update_id armed,
    hm_candidate_digest = cu_candidate_digest armed, hm_sequence = cu_sequence armed,
    hm_checksum = zeros 32 \<rparr>"
  have armed: "bounded_id (Some (cu_update_id armed))" "bounded_digest (Some (cu_candidate_digest armed))"
    "cu_sequence armed \<noteq> 0"
    "poison_content_update_marker_write hash io disk POISON_CONTENT_UPDATE_HEALTH_PENDING_PATH ?m
       = (disk1, True)"
    using assms(1) by (simp_all add: poison_content_update_health_arm_at_def split: if_splits)
  obtain c1 where pending: "disk1 POISON_CONTENT_UPDATE_HEALTH_PENDING_PATH = Holds (?m \<lparr> hm_checksum := c1 \<rparr>)"
    using marker_write_ok [OF armed(4) assms(3)] by blast
  obtain disk3 where disk3: "poison_content_update_marker_write hash io' disk1
      POISON_CONTENT_UPDATE_HEALTH_COMPLETE_PATH (?m \<lparr> hm_magic := ''PCUH'', hm_checksum := c1 \<rparr>) = (disk3, True)"
    and disk2: "disk2 = fst (storage_simply_remove remove_pending POISON_CONTENT_UPDATE_HEALTH_PENDING_PATH disk3)"
    using assms(2) pending
    by (auto simp: poison_content_update_health_mark_complete_at_def poison_content_update_marker_read_def
        split: if_splits prod.splits)
  obtain c2 where "hash (?m \<lparr> hm_magic := ''PCUH'' \<rparr>) = Some c2"
    "disk3 POISON_CONTENT_UPDATE_HEALTH_COMPLETE_PATH = Holds (?m \<lparr> hm_magic := ''PCUH'', hm_checksum := c2 \<rparr>)"
    using marker_write_ok [OF disk3 assms(4)] by auto
  then show ?thesis
    using armed(1-3)
    by (auto simp: disk2 poison_content_update_health_completed_at_def poison_content_update_marker_read_def
        poison_content_update_marker_valid_def poison_content_update_marker_checksum_def
        poison_content_update_marker_path_valid_def word_neq_0_conv)
qed

definition good_write :: "'a WriteIo" where
  "good_write = \<lparr> wi_open = True, wi_write = True, wi_sync = True, wi_close = True, wi_left = Damaged \<rparr>"

definition good_replace :: "'a ReplaceIo" where
  "good_replace = \<lparr> ri_write = good_write, ri_remove = True, ri_rename = RenameDone, ri_clean = True \<rparr>"

lemma good_replace_whole: "whole_rename (ri_rename good_replace)"
  by (simp add: good_replace_def)

definition armed_update :: PoisonContentUpdate where
  "armed_update = sample_update \<lparr> cu_state := PoisonContentUpdateAwaitingConfirmation,
     cu_confirmation_authorized := True \<rparr>"

lemma marker_write_good:
  assumes "poison_content_update_marker_path_valid path" "hash (m \<lparr> hm_checksum := zeros 32 \<rparr>) = Some c"
  shows "snd (poison_content_update_marker_write hash good_replace disk path m)"
  using assms
  by (auto simp: poison_content_update_marker_write_def poison_content_update_marker_checksum_def
      poison_content_update_marker_path_valid_def good_replace_def good_write_def write_file_def
      storage_common_rename_def storage_simply_remove_def Let_def)

lemma update_health_handshake_witness:
  "\<exists>disk2. poison_content_update_health_completed_at (\<lambda>m. Some (zeros 32))
     (armed_update \<lparr> cu_state := PoisonContentUpdateActivating \<rparr>)
     POISON_CONTENT_UPDATE_HEALTH_COMPLETE_PATH disk2"
proof -
  let ?hash = "\<lambda>m. Some (zeros 32)"
  obtain disk1 where armed: "poison_content_update_health_arm_at ?hash good_replace armed_update
      POISON_CONTENT_UPDATE_HEALTH_PENDING_PATH (\<lambda>p. Absent) = (disk1, True)"
    using marker_write_good [of POISON_CONTENT_UPDATE_HEALTH_PENDING_PATH ?hash] sample_texts
    by (simp add: poison_content_update_health_arm_at_def armed_update_def sample_update_def
        poison_content_update_marker_path_valid_def prod_eq_iff)
  obtain disk2 where "poison_content_update_health_mark_complete_at ?hash True good_replace True
      POISON_CONTENT_UPDATE_HEALTH_PENDING_PATH POISON_CONTENT_UPDATE_HEALTH_COMPLETE_PATH disk1 = (disk2, True)"
    using marker_write_good [of POISON_CONTENT_UPDATE_HEALTH_COMPLETE_PATH ?hash] sample_texts
      marker_write_ok [of ?hash good_replace "\<lambda>p. Absent" POISON_CONTENT_UPDATE_HEALTH_PENDING_PATH _ disk1]
      armed
    by (simp add: good_replace_whole poison_content_update_health_mark_complete_at_def poison_content_update_marker_read_def
        poison_content_update_marker_valid_def poison_content_update_health_arm_at_def
        armed_update_def sample_update_def
        poison_content_update_marker_checksum_def poison_content_update_marker_path_valid_def split_beta prod_eq_iff)
  from update_health_handshake [OF armed this good_replace_whole good_replace_whole, of "armed_update \<lparr> cu_state := PoisonContentUpdateActivating \<rparr>"]
  show ?thesis by auto
qed

end
