(* ===== verification/PackageManager.thy ===== *)
theory PackageManager
  imports ContentUpdate Tables
begin

text \<open>Packages (\<open>poison_packages/poison_package_transaction.c\<close> and the records of
  \<open>poison_packages/poison_packages.c\<close>): the transaction that wraps a content update, and the
  manager with its eight records.\<close>

section \<open>The transaction of a package\<close>

datatype PoisonPackageState =
    PoisonPackageInstalled | PoisonPackageStaged | PoisonPackageVerified | PoisonPackageActive
  | PoisonPackageDisabled | PoisonPackageQuarantined | PoisonPackageRemoved

record PoisonPackageTransaction =
  pt_state :: PoisonPackageState
  pt_rollback_state :: PoisonPackageState
  pt_protected_package :: bool
  pt_initialized :: bool
  pt_content_update :: PoisonContentUpdate

definition transaction_zero :: PoisonPackageTransaction where
  "transaction_zero = \<lparr> pt_state = PoisonPackageInstalled, pt_rollback_state = PoisonPackageInstalled,
     pt_protected_package = False, pt_initialized = False, pt_content_update = content_update_zero \<rparr>"

definition package_allowed :: "PoisonPackageState \<Rightarrow> PoisonPackageState \<Rightarrow> bool" where
  "package_allowed current next_state \<longleftrightarrow>
     ((current = PoisonPackageInstalled \<or> current = PoisonPackageRemoved) \<and>
        next_state = PoisonPackageStaged) \<or>
     (current = PoisonPackageStaged \<and>
        (next_state = PoisonPackageVerified \<or> next_state = PoisonPackageQuarantined)) \<or>
     (current = PoisonPackageVerified \<and> next_state = PoisonPackageActive) \<or>
     (current = PoisonPackageActive \<and>
        (next_state = PoisonPackageDisabled \<or> next_state = PoisonPackageRemoved)) \<or>
     (current = PoisonPackageDisabled \<and>
        (next_state = PoisonPackageActive \<or> next_state = PoisonPackageRemoved)) \<or>
     (current = PoisonPackageQuarantined \<and> next_state = PoisonPackageRemoved)"

definition poison_package_transaction_begin ::
    "PoisonPackageTransaction \<Rightarrow> PoisonContentUpdateManifest \<Rightarrow> PoisonContentUpdateEnvironment \<Rightarrow>
     PoisonPackageState \<Rightarrow> bool \<Rightarrow> PoisonPackageTransaction \<times> PoisonContentUpdateAdmission" where
  "poison_package_transaction_begin transaction manifest environment previous_state protected_package =
    (if um_content_type manifest = PoisonContentUpdateTypeCount \<or>
        um_content_type manifest = PoisonContentUpdateFirmware \<or>
        (previous_state \<noteq> PoisonPackageInstalled \<and> previous_state \<noteq> PoisonPackageActive \<and>
         previous_state \<noteq> PoisonPackageDisabled \<and> previous_state \<noteq> PoisonPackageRemoved)
     then (transaction, PoisonContentUpdateAdmissionInvalid)
     else case poison_content_update_admit content_update_zero manifest environment of
            (update, admission) \<Rightarrow>
              if admission \<noteq> PoisonContentUpdateAdmissionOk
              then (transaction_zero \<lparr> pt_content_update := update \<rparr>, admission)
              else (\<lparr> pt_state = previous_state, pt_rollback_state = previous_state,
                      pt_protected_package = protected_package, pt_initialized = True,
                      pt_content_update = update \<rparr>, PoisonContentUpdateAdmissionOk))"

definition poison_package_receive ::
    "PoisonPackageTransaction \<Rightarrow> u32 \<Rightarrow> PoisonPackageTransaction \<times> bool" where
  "poison_package_receive transaction bytes =
    (if \<not> pt_initialized transaction then (transaction, False)
     else case (if cu_state (pt_content_update transaction) = PoisonContentUpdateDiscovered
                then poison_content_update_transition (pt_content_update transaction)
                       PoisonContentUpdateReceiving
                else (pt_content_update transaction, True)) of
       (update1, receiving) \<Rightarrow>
         if \<not> receiving then (transaction \<lparr> pt_content_update := update1 \<rparr>, False)
         else case poison_content_update_receive update1 bytes of
           (update2, received) \<Rightarrow>
             if \<not> received then (transaction \<lparr> pt_content_update := update2 \<rparr>, False)
             else if cu_received_bytes update2 = cu_content_bytes update2
             then case poison_content_update_transition update2 PoisonContentUpdateStaged of
                    (update3, staged) \<Rightarrow>
                      if \<not> staged then (transaction \<lparr> pt_content_update := update3 \<rparr>, False)
                      else (transaction \<lparr> pt_content_update := update3,
                              pt_state := PoisonPackageStaged \<rparr>, True)
             else (transaction \<lparr> pt_content_update := update2 \<rparr>, True))"

definition poison_package_verify_payload ::
    "PoisonPackageTransaction \<Rightarrow> string option \<Rightarrow> PoisonPackageTransaction \<times> bool" where
  "poison_package_verify_payload transaction digest =
    (if \<not> pt_initialized transaction \<or> pt_state transaction \<noteq> PoisonPackageStaged
     then (transaction, False)
     else case poison_content_update_verify_payload (pt_content_update transaction) digest of
       (update, verified) \<Rightarrow>
         (transaction \<lparr> pt_content_update := update,
            pt_state := (if verified then PoisonPackageVerified else PoisonPackageQuarantined) \<rparr>,
          verified))"

definition poison_package_activate ::
    "PoisonPackageTransaction \<Rightarrow> bool \<Rightarrow> PoisonPackageTransaction \<times> bool" where
  "poison_package_activate transaction exact_confirmation =
    (if \<not> pt_initialized transaction \<or> pt_state transaction \<noteq> PoisonPackageVerified
     then (transaction, False)
     else case (if cu_state (pt_content_update transaction) = PoisonContentUpdateVerified
                then poison_content_update_transition (pt_content_update transaction)
                       PoisonContentUpdateAwaitingConfirmation
                else (pt_content_update transaction, True)) of
       (update1, awaiting) \<Rightarrow>
         if \<not> awaiting then (transaction \<lparr> pt_content_update := update1 \<rparr>, False)
         else if cu_state update1 \<noteq> PoisonContentUpdateAwaitingConfirmation
         then (transaction \<lparr> pt_content_update := update1 \<rparr>, False)
         else case poison_content_update_confirm update1 exact_confirmation of
           (update2, confirmed) \<Rightarrow>
             if \<not> confirmed then (transaction \<lparr> pt_content_update := update2 \<rparr>, False)
             else case poison_content_update_transition update2 PoisonContentUpdateActivating of
               (update3, activating) \<Rightarrow> (transaction \<lparr> pt_content_update := update3 \<rparr>, activating))"

definition poison_package_report_health ::
    "PoisonPackageTransaction \<Rightarrow> bool \<Rightarrow> PoisonPackageTransaction \<times> bool" where
  "poison_package_report_health transaction healthy =
    (if \<not> pt_initialized transaction then (transaction, False)
     else case poison_content_update_report_health (pt_content_update transaction) healthy of
       (update, reported) \<Rightarrow>
         if \<not> reported then (transaction \<lparr> pt_content_update := update \<rparr>, False)
         else (transaction \<lparr> pt_content_update := update,
                 pt_state := (if healthy then PoisonPackageActive else pt_rollback_state transaction) \<rparr>,
               True))"

definition poison_package_transition ::
    "PoisonPackageTransaction \<Rightarrow> PoisonPackageState \<Rightarrow> PoisonPackageTransaction \<times> bool" where
  "poison_package_transition transaction next_state =
    (if (pt_protected_package transaction \<and> next_state = PoisonPackageRemoved) \<or>
        \<not> package_allowed (pt_state transaction) next_state \<or>
        ((next_state = PoisonPackageStaged \<or> next_state = PoisonPackageVerified \<or>
          next_state = PoisonPackageActive) \<and>
         (\<not> pt_initialized transaction \<or>
          (next_state = PoisonPackageStaged \<and>
             cu_state (pt_content_update transaction) \<noteq> PoisonContentUpdateStaged) \<or>
          (next_state = PoisonPackageVerified \<and>
             cu_state (pt_content_update transaction) \<noteq> PoisonContentUpdateVerified) \<or>
          (next_state = PoisonPackageActive \<and>
             cu_state (pt_content_update transaction) \<noteq> PoisonContentUpdateHealthy)))
     then (transaction, False)
     else (transaction \<lparr> pt_rollback_state := pt_state transaction, pt_state := next_state \<rparr>, True))"

definition poison_package_rollback ::
    "PoisonPackageTransaction \<Rightarrow> PoisonPackageTransaction \<times> bool" where
  "poison_package_rollback transaction =
    (if pt_rollback_state transaction = pt_state transaction \<or>
        pt_state transaction = PoisonPackageRemoved
     then (transaction, False)
     else case (if pt_initialized transaction \<and>
                   cu_state (pt_content_update transaction) \<noteq> PoisonContentUpdateRolledBack
                then poison_content_update_rollback (pt_content_update transaction)
                else (pt_content_update transaction, True)) of
       (update, rolled_back) \<Rightarrow>
         if \<not> rolled_back then (transaction \<lparr> pt_content_update := update \<rparr>, False)
         else (transaction \<lparr> pt_content_update := update,
                 pt_state := pt_rollback_state transaction \<rparr>, True))"

section \<open>Records\<close>

abbreviation "POISON_PACKAGE_MAX_RECORDS \<equiv> (8 :: nat)"
abbreviation "POISON_PACKAGE_ID_MAX \<equiv> (64 :: nat)"
abbreviation "POISON_PACKAGE_VERSION_MAX \<equiv> (32 :: nat)"
abbreviation "POISON_PACKAGE_SIGNING_KEY_MAX \<equiv> (64 :: nat)"
abbreviation "POISON_PACKAGE_MANIFEST_PATH_MAX \<equiv> (256 :: nat)"

record PoisonPackageImport =
  pi_content_type :: "string option"
  pi_package_id :: "string option"
  pi_version :: "string option"
  pi_previous_version :: "string option"
  pi_candidate_digest :: "string option"
  pi_previous_digest :: "string option"
  pi_signing_key_id :: "string option"
  pi_manifest_path :: "string option"
  pi_entrypoint :: "string option"
  pi_capability_mask :: u64
  pi_release_sequence :: u32
  pi_content_bytes :: u32
  pi_hardware_target :: u32
  pi_firmware_api :: u32
  pi_highest_release_sequence :: u32
  pi_available_storage_bytes :: u64
  pi_previous_state :: PoisonPackageState
  pi_protected_package :: bool
  pi_confirmation_required :: bool
  pi_manifest_verified :: bool

record PoisonPackageRecord =
  pr_occupied :: bool
  pr_content_type :: string
  pr_package_id :: string
  pr_version :: string
  pr_previous_version :: string
  pr_digest :: string
  pr_previous_digest :: string
  pr_signing_key_id :: string
  pr_manifest_path :: string
  pr_entrypoint :: string
  pr_capability_mask :: u64
  pr_confirmation_required :: bool
  pr_transaction :: PoisonPackageTransaction

record PoisonPackageManager =
  pm_records :: "PoisonPackageRecord list"
  pm_generation :: u32

definition package_record_zero :: PoisonPackageRecord where
  "package_record_zero = \<lparr> pr_occupied = False, pr_content_type = '''', pr_package_id = '''',
     pr_version = '''', pr_previous_version = '''', pr_digest = '''', pr_previous_digest = '''',
     pr_signing_key_id = '''', pr_manifest_path = '''', pr_entrypoint = '''', pr_capability_mask = 0,
     pr_confirmation_required = False, pr_transaction = transaction_zero \<rparr>"

section \<open>Checks\<close>

definition poison_package_text_valid :: "string option \<Rightarrow> nat \<Rightarrow> bool" where
  "poison_package_text_valid value maximum \<longleftrightarrow>
     value \<noteq> None \<and> the value \<noteq> '''' \<and> strnlen (the value) (maximum + 1) \<le> maximum"

definition isalnum :: "char \<Rightarrow> bool" where
  "isalnum c \<longleftrightarrow> lower_or_digit c \<or>
     (char_code (CHR ''A'') \<le> char_code c \<and> char_code c \<le> char_code (CHR ''Z''))"

definition poison_package_id_valid :: "string option \<Rightarrow> bool" where
  "poison_package_id_valid value =
    (if \<not> poison_package_text_valid value POISON_PACKAGE_ID_MAX then False
     else list_all (\<lambda>c. isalnum c \<or> c = CHR ''.'' \<or> c = CHR ''-'' \<or> c = CHR ''_'') (the value))"

definition poison_package_digest_valid :: "string option \<Rightarrow> bool \<Rightarrow> bool" where
  "poison_package_digest_valid value optional =
    (if optional \<and> (value = None \<or> the value = '''') then True
     else if value = None \<or> length (the value) \<noteq> POISON_CONTENT_UPDATE_MAX_DIGEST - 1 then False
     else list_all lower_hex (take (POISON_CONTENT_UPDATE_MAX_DIGEST - 1) (the value)))"

definition poison_package_manifest_path_valid :: "string option \<Rightarrow> bool" where
  "poison_package_manifest_path_valid value \<longleftrightarrow>
     poison_package_text_valid value POISON_PACKAGE_MANIFEST_PATH_MAX \<and>
     prefix ''/ext/apps/.staging/'' (the value) \<and> \<not> strstr (the value) ''..'' \<and>
     CHR 0x5C \<notin> set (the value)"

definition poison_package_content_type_parse :: "string option \<Rightarrow> PoisonContentUpdateType option" where
  "poison_package_content_type_parse content_type =
    (case content_type of
       None \<Rightarrow> None
     | Some c \<Rightarrow> map_of
         [(''application'', PoisonContentUpdateApplication),
          (''lesson'', PoisonContentUpdateLesson),
          (''tool-data'', PoisonContentUpdateToolData),
          (''theme'', PoisonContentUpdateTheme),
          (''font'', PoisonContentUpdateFontIcon),
          (''icon'', PoisonContentUpdateFontIcon),
          (''font-icon'', PoisonContentUpdateFontIcon),
          (''menu'', PoisonContentUpdateMenu),
          (''resource'', PoisonContentUpdateResource),
          (''ui-pack'', PoisonContentUpdateUiPack)] c)"

section \<open>The manager\<close>

definition poison_package_manager_init :: PoisonPackageManager where
  "poison_package_manager_init = \<lparr> pm_records = replicate POISON_PACKAGE_MAX_RECORDS package_record_zero,
     pm_generation = 0 \<rparr>"

text \<open>Pointers into the record array are indices.\<close>

definition poison_package_manager_find_mutable :: "PoisonPackageManager \<Rightarrow> string option \<Rightarrow> nat option" where
  "poison_package_manager_find_mutable manager package_id =
    (case package_id of
       None \<Rightarrow> None
     | Some i \<Rightarrow> find_index (\<lambda>record. pr_occupied record \<and> pr_package_id record = i) (pm_records manager))"

definition poison_package_manager_find :: "PoisonPackageManager \<Rightarrow> string option \<Rightarrow> PoisonPackageRecord option" where
  "poison_package_manager_find manager package_id =
     map_option ((!) (pm_records manager)) (poison_package_manager_find_mutable manager package_id)"

definition put_record :: "PoisonPackageManager \<Rightarrow> nat \<Rightarrow> PoisonPackageRecord \<Rightarrow> bool \<Rightarrow> PoisonPackageManager" where
  "put_record manager index record changed =
     \<lparr> pm_records = (pm_records manager)[index := record],
       pm_generation = (if changed then pm_generation manager + 1 else pm_generation manager) \<rparr>"

definition absent_digest :: string where
  "absent_digest = replicate 64 (CHR ''0'')"

definition package_import_valid :: "PoisonPackageImport \<Rightarrow> bool" where
  "package_import_valid package \<longleftrightarrow>
     \<not> (\<not> pi_manifest_verified package \<or>
        poison_package_content_type_parse (pi_content_type package) = None \<or>
        \<not> poison_package_id_valid (pi_package_id package) \<or>
        \<not> poison_package_text_valid (pi_version package) POISON_PACKAGE_VERSION_MAX \<or>
        \<not> poison_package_text_valid (pi_signing_key_id package) POISON_PACKAGE_SIGNING_KEY_MAX \<or>
        \<not> poison_package_digest_valid (pi_candidate_digest package) False \<or>
        \<not> poison_package_digest_valid (pi_previous_digest package) True \<or>
        \<not> poison_package_manifest_path_valid (pi_manifest_path package) \<or>
        \<not> poison_package_text_valid (pi_entrypoint package) POISON_PACKAGE_MANIFEST_PATH_MAX \<or>
        the (pi_entrypoint package) ! 0 = CHR ''/'' \<or> strstr (the (pi_entrypoint package)) ''..'' \<or>
        CHR 0x5C \<in> set (the (pi_entrypoint package)) \<or> pi_content_bytes package = 0 \<or>
        pi_hardware_target package = 0 \<or> pi_firmware_api package = 0 \<or>
        pi_available_storage_bytes package = 0 \<or>
        (pi_previous_state package \<noteq> PoisonPackageRemoved \<and>
         \<not> poison_package_text_valid (pi_previous_version package) POISON_PACKAGE_VERSION_MAX))"

text \<open>The record an import goes to: the package's own, or the first free one, or the first one whose
  package counts as removed; the flag says whether it updates an installed package. The previous
  digest of an update is compared as a string, so it must not be NULL there; the model refuses.\<close>

definition package_import_slot :: "PoisonPackageManager \<Rightarrow> PoisonPackageImport \<Rightarrow> (nat \<times> bool) option" where
  "package_import_slot manager package =
    (let own = poison_package_manager_find_mutable manager (pi_package_id package) in
     case own of
       Some index \<Rightarrow>
         let record = pm_records manager ! index in
         if pt_state (pr_transaction record) \<noteq> PoisonPackageRemoved
         then (if Some (pr_content_type record) \<noteq> pi_content_type package \<or>
                  pt_state (pr_transaction record) \<noteq> pi_previous_state package \<or>
                  Some (pr_version record) \<noteq> pi_previous_version package \<or>
                  Some (pr_digest record) \<noteq> pi_previous_digest package \<or>
                  Some (pr_digest record) = pi_candidate_digest package
               then None else Some (index, True))
         else (if pi_previous_state package \<noteq> PoisonPackageRemoved \<or>
                  (pi_previous_version package \<noteq> None \<and> the (pi_previous_version package) \<noteq> '''') \<or>
                  (pi_previous_digest package \<noteq> None \<and> the (pi_previous_digest package) \<noteq> '''')
               then None else Some (index, False))
     | None \<Rightarrow>
         if pi_previous_state package \<noteq> PoisonPackageRemoved \<or>
            (pi_previous_version package \<noteq> None \<and> the (pi_previous_version package) \<noteq> '''') \<or>
            (pi_previous_digest package \<noteq> None \<and> the (pi_previous_digest package) \<noteq> '''')
         then None
         else (case find_index (\<lambda>r. \<not> pr_occupied r) (pm_records manager) of
                 Some index \<Rightarrow> Some (index, False)
               | None \<Rightarrow>
                   map_option (\<lambda>index. (index, False))
                     (find_index (\<lambda>r. pt_state (pr_transaction r) = PoisonPackageRemoved)
                        (pm_records manager))))"

definition package_import_manifest :: "PoisonPackageImport \<Rightarrow> string \<Rightarrow> PoisonContentUpdateManifest" where
  "package_import_manifest package previous_digest =
    \<lparr> um_content_type = the (poison_package_content_type_parse (pi_content_type package)),
      um_update_id = pi_package_id package, um_candidate_digest = pi_candidate_digest package,
      um_previous_digest = Some previous_digest, um_hardware_target = pi_hardware_target package,
      um_minimum_api = pi_firmware_api package, um_maximum_api = - 1,
      um_release_sequence = pi_release_sequence package, um_content_bytes = pi_content_bytes package,
      um_signature_valid = True, um_signer_revoked = False, um_rollback_available = True,
      um_protected_target = pi_protected_package package \<rparr>"

text \<open>The storage figure is narrowed from 64 to 32 bits.\<close>

definition package_import_environment :: "PoisonPackageImport \<Rightarrow> u32 \<Rightarrow> PoisonContentUpdateEnvironment" where
  "package_import_environment package highest_release_sequence =
    \<lparr> ue_hardware_target = pi_hardware_target package, ue_firmware_api = pi_firmware_api package,
      ue_highest_release_sequence = highest_release_sequence,
      ue_available_storage_bytes = ucast (pi_available_storage_bytes package) \<rparr>"

definition poison_package_manager_import ::
    "PoisonPackageManager \<Rightarrow> PoisonPackageImport \<Rightarrow> PoisonPackageManager \<times> bool" where
  "poison_package_manager_import manager package =
    (if \<not> package_import_valid package then (manager, False)
     else case package_import_slot manager package of
       None \<Rightarrow> (manager, False)
     | Some (index, updating) \<Rightarrow>
         let record = pm_records manager ! index;
             previous_digest = (if updating then pr_digest record else absent_digest);
             (transaction, admission) = poison_package_transaction_begin transaction_zero
               (package_import_manifest package previous_digest)
               (package_import_environment package
                  (if updating then cu_sequence (pt_content_update (pr_transaction record)) else 0))
               (pi_previous_state package) (pi_protected_package package)
         in if admission \<noteq> PoisonContentUpdateAdmissionOk then (manager, False)
            else (put_record manager index
                    \<lparr> pr_occupied = True, pr_content_type = the (pi_content_type package),
                      pr_package_id = the (pi_package_id package),
                      pr_version = the (pi_version package),
                      pr_previous_version = (if updating then pr_version record else ''''),
                      pr_digest = the (pi_candidate_digest package),
                      pr_previous_digest = previous_digest,
                      pr_signing_key_id = the (pi_signing_key_id package),
                      pr_manifest_path = the (pi_manifest_path package),
                      pr_entrypoint = the (pi_entrypoint package),
                      pr_capability_mask = pi_capability_mask package,
                      pr_confirmation_required = pi_confirmation_required package,
                      pr_transaction = transaction \<rparr> True, True))"

definition poison_package_manager_receive ::
    "PoisonPackageManager \<Rightarrow> string option \<Rightarrow> u32 \<Rightarrow> PoisonPackageManager \<times> bool" where
  "poison_package_manager_receive manager package_id bytes =
    (case poison_package_manager_find_mutable manager package_id of
       None \<Rightarrow> (manager, False)
     | Some index \<Rightarrow>
         let record = pm_records manager ! index;
             (transaction, received) = poison_package_receive (pr_transaction record) bytes
         in (put_record manager index (record \<lparr> pr_transaction := transaction \<rparr>) received, received))"

definition quarantine_transaction :: "PoisonPackageTransaction \<Rightarrow> PoisonPackageTransaction" where
  "quarantine_transaction transaction =
     transaction \<lparr> pt_state := PoisonPackageQuarantined,
       pt_content_update := (pt_content_update transaction)
         \<lparr> cu_state := PoisonContentUpdateQuarantined \<rparr> \<rparr>"

definition poison_package_manager_verify ::
    "PoisonPackageManager \<Rightarrow> string option \<Rightarrow> string option \<Rightarrow> bool \<Rightarrow> PoisonPackageManager \<times> bool" where
  "poison_package_manager_verify manager package_id digest payload_verified =
    (case poison_package_manager_find_mutable manager package_id of
       None \<Rightarrow> (manager, False)
     | Some index \<Rightarrow>
         let record = pm_records manager ! index in
         if \<not> payload_verified
         then (put_record manager index
                 (record \<lparr> pr_transaction := quarantine_transaction (pr_transaction record) \<rparr>) True, False)
         else let (transaction, verified) = poison_package_verify_payload (pr_transaction record) digest
              in (put_record manager index (record \<lparr> pr_transaction := transaction \<rparr>) True, verified))"

definition poison_package_manager_activate ::
    "PoisonPackageManager \<Rightarrow> string option \<Rightarrow> bool \<Rightarrow> PoisonPackageManager \<times> bool" where
  "poison_package_manager_activate manager package_id exact_confirmation =
    (case poison_package_manager_find_mutable manager package_id of
       None \<Rightarrow> (manager, False)
     | Some index \<Rightarrow>
         let record = pm_records manager ! index in
         if pr_confirmation_required record \<and> \<not> exact_confirmation then (manager, False)
         else let (transaction, activated) = poison_package_activate (pr_transaction record) True
              in (put_record manager index (record \<lparr> pr_transaction := transaction \<rparr>) activated, activated))"

definition poison_package_manager_report_health ::
    "PoisonPackageManager \<Rightarrow> string option \<Rightarrow> bool \<Rightarrow> PoisonPackageManager \<times> bool" where
  "poison_package_manager_report_health manager package_id healthy =
    (case poison_package_manager_find_mutable manager package_id of
       None \<Rightarrow> (manager, False)
     | Some index \<Rightarrow>
         let record = pm_records manager ! index;
             (transaction, reported) = poison_package_report_health (pr_transaction record) healthy;
             record' = record \<lparr> pr_transaction := transaction \<rparr>
         in if \<not> reported then (put_record manager index record' False, False)
            else (put_record manager index
                    (if healthy then record'
                     else record' \<lparr> pr_version := (if pr_previous_version record \<noteq> ''''
                                                    then pr_previous_version record else pr_version record),
                                    pr_digest := (if pr_previous_digest record \<noteq> ''''
                                                  then pr_previous_digest record else pr_digest record) \<rparr>)
                    True, True))"

definition poison_package_manager_set_enabled ::
    "PoisonPackageManager \<Rightarrow> string option \<Rightarrow> bool \<Rightarrow> bool \<Rightarrow> PoisonPackageManager \<times> bool" where
  "poison_package_manager_set_enabled manager package_id enabled exact_confirmation =
    (case poison_package_manager_find_mutable manager package_id of
       None \<Rightarrow> (manager, False)
     | Some index \<Rightarrow>
         let record = pm_records manager ! index in
         if enabled \<and> pr_confirmation_required record \<and> \<not> exact_confirmation then (manager, False)
         else let (transaction, changed) = poison_package_transition (pr_transaction record)
                    (if enabled then PoisonPackageActive else PoisonPackageDisabled)
              in (put_record manager index (record \<lparr> pr_transaction := transaction \<rparr>) changed, changed))"

definition poison_package_manager_remove ::
    "PoisonPackageManager \<Rightarrow> string option \<Rightarrow> bool \<Rightarrow> PoisonPackageManager \<times> bool" where
  "poison_package_manager_remove manager package_id exact_confirmation =
    (case poison_package_manager_find_mutable manager package_id of
       None \<Rightarrow> (manager, False)
     | Some index \<Rightarrow>
         let record = pm_records manager ! index in
         if \<not> exact_confirmation \<or> pt_protected_package (pr_transaction record) then (manager, False)
         else let (transaction, removed) =
                    poison_package_transition (pr_transaction record) PoisonPackageRemoved
              in (put_record manager index (record \<lparr> pr_transaction := transaction \<rparr>) removed, removed))"

definition poison_package_manager_rollback ::
    "PoisonPackageManager \<Rightarrow> string option \<Rightarrow> bool \<Rightarrow> PoisonPackageManager \<times> bool" where
  "poison_package_manager_rollback manager package_id exact_confirmation =
    (case poison_package_manager_find_mutable manager package_id of
       None \<Rightarrow> (manager, False)
     | Some index \<Rightarrow>
         let record = pm_records manager ! index; transaction = pr_transaction record in
         if \<not> exact_confirmation \<or> pr_previous_version record = '''' \<or>
            \<not> poison_package_digest_valid (Some (pr_previous_digest record)) False \<or>
            (pt_state transaction \<noteq> PoisonPackageActive \<and> pt_state transaction \<noteq> PoisonPackageDisabled)
         then (manager, False)
         else let (update, rolled_back) = poison_content_update_rollback (pt_content_update transaction)
              in if \<not> rolled_back then (manager, False)
                 else (put_record manager index
                         (record \<lparr> pr_version := pr_previous_version record,
                            pr_digest := pr_previous_digest record,
                            pr_previous_version := pr_version record,
                            pr_previous_digest := pr_digest record,
                            pr_transaction := transaction \<lparr> pt_state := PoisonPackageActive,
                              pt_content_update := update \<rparr> \<rparr>) True, True))"

definition poison_package_manager_quarantine ::
    "PoisonPackageManager \<Rightarrow> string option \<Rightarrow> PoisonPackageManager \<times> bool" where
  "poison_package_manager_quarantine manager package_id =
    (case poison_package_manager_find_mutable manager package_id of
       None \<Rightarrow> (manager, False)
     | Some index \<Rightarrow>
         let record = pm_records manager ! index in
         if pt_state (pr_transaction record) = PoisonPackageRemoved then (manager, False)
         else (put_record manager index
                 (record \<lparr> pr_transaction := (pr_transaction record)
                    \<lparr> pt_state := PoisonPackageQuarantined \<rparr> \<rparr>) True, True))"

definition poison_package_manager_active_content ::
    "PoisonPackageManager \<Rightarrow> string option \<Rightarrow> string option \<Rightarrow> bool" where
  "poison_package_manager_active_content manager package_id content_type =
    (case poison_package_manager_find manager package_id of
       None \<Rightarrow> False
     | Some record \<Rightarrow>
         content_type = Some (pr_content_type record) \<and>
         pt_state (pr_transaction record) = PoisonPackageActive \<and>
         (cu_state (pt_content_update (pr_transaction record)) = PoisonContentUpdateHealthy \<or>
          cu_state (pt_content_update (pr_transaction record)) = PoisonContentUpdateRolledBack))"

definition poison_package_manager_count :: "PoisonPackageManager \<Rightarrow> nat" where
  "poison_package_manager_count manager = length (filter pr_occupied (pm_records manager))"

section \<open>What may be saved\<close>

definition poison_package_record_persisted_valid :: "PoisonPackageRecord \<Rightarrow> bool" where
  "poison_package_record_persisted_valid record =
    (let transaction = pr_transaction record; update = pt_content_update transaction in
     if \<not> pr_occupied record \<or>
        poison_package_content_type_parse (Some (pr_content_type record)) = None \<or>
        \<not> poison_package_id_valid (Some (pr_package_id record)) \<or>
        \<not> poison_package_text_valid (Some (pr_version record)) POISON_PACKAGE_VERSION_MAX \<or>
        \<not> poison_package_digest_valid (Some (pr_digest record)) False \<or>
        \<not> poison_package_digest_valid (Some (pr_previous_digest record)) False \<or>
        \<not> poison_package_text_valid (Some (pr_signing_key_id record)) POISON_PACKAGE_SIGNING_KEY_MAX \<or>
        \<not> poison_package_manifest_path_valid (Some (pr_manifest_path record)) \<or>
        \<not> poison_package_text_valid (Some (pr_entrypoint record)) POISON_PACKAGE_MANIFEST_PATH_MAX \<or>
        pr_entrypoint record ! 0 = CHR ''/'' \<or> strstr (pr_entrypoint record) ''..'' \<or>
        CHR 0x5C \<in> set (pr_entrypoint record) \<or> \<not> pt_initialized transaction \<or>
        cu_update_id update \<noteq> pr_package_id record \<or>
        ((cu_state update = PoisonContentUpdateRolledBack \<and> cu_previous_digest update \<noteq> pr_digest record) \<or>
         (cu_state update \<noteq> PoisonContentUpdateRolledBack \<and> cu_candidate_digest update \<noteq> pr_digest record)) \<or>
        Some (cu_content_type update) \<noteq> poison_package_content_type_parse (Some (pr_content_type record)) \<or>
        cu_sequence update = 0 \<or> cu_content_bytes update = 0 \<or>
        cu_received_bytes update > cu_content_bytes update
     then False
     else pr_previous_version record = '''' \<or>
          poison_package_text_valid (Some (pr_previous_version record)) POISON_PACKAGE_VERSION_MAX)"

definition poison_package_manager_persisted_valid :: "PoisonPackageManager \<Rightarrow> bool" where
  "poison_package_manager_persisted_valid manager \<longleftrightarrow>
     (let records = pm_records manager in
      (\<forall>index < length records. pr_occupied (records ! index) \<longrightarrow>
         poison_package_record_persisted_valid (records ! index) \<and>
         (\<forall>prior < index. \<not> (pr_occupied (records ! prior) \<and>
            pr_package_id (records ! prior) = pr_package_id (records ! index)))) \<and>
      length (filter pr_occupied records) \<le> POISON_PACKAGE_MAX_RECORDS)"

section \<open>The manager as a machine\<close>

datatype PackageOp =
    PkImport PoisonPackageImport | PkReceive string u32 | PkVerify string "string option" bool
  | PkActivate string bool | PkReport string bool | PkEnable string bool bool
  | PkRemove string bool | PkRollback string bool | PkQuarantine string

fun package_step :: "PackageOp \<Rightarrow> PoisonPackageManager \<Rightarrow> PoisonPackageManager \<times> bool" where
  "package_step (PkImport p) m = poison_package_manager_import m p"
| "package_step (PkReceive i n) m = poison_package_manager_receive m (Some i) n"
| "package_step (PkVerify i d v) m = poison_package_manager_verify m (Some i) d v"
| "package_step (PkActivate i e) m = poison_package_manager_activate m (Some i) e"
| "package_step (PkReport i h) m = poison_package_manager_report_health m (Some i) h"
| "package_step (PkEnable i b e) m = poison_package_manager_set_enabled m (Some i) b e"
| "package_step (PkRemove i e) m = poison_package_manager_remove m (Some i) e"
| "package_step (PkRollback i e) m = poison_package_manager_rollback m (Some i) e"
| "package_step (PkQuarantine i) m = poison_package_manager_quarantine m (Some i)"

text \<open>Every call but an import finds the record of its package and replaces it; \<open>record_step\<close> is the
  change it makes to that record.\<close>

fun op_package :: "PackageOp \<Rightarrow> string" where
  "op_package (PkImport p) = the (pi_package_id p)"
| "op_package (PkReceive i n) = i"
| "op_package (PkVerify i d v) = i"
| "op_package (PkActivate i e) = i"
| "op_package (PkReport i h) = i"
| "op_package (PkEnable i b e) = i"
| "op_package (PkRemove i e) = i"
| "op_package (PkRollback i e) = i"
| "op_package (PkQuarantine i) = i"

fun is_import :: "PackageOp \<Rightarrow> bool" where
  "is_import (PkImport p) = True" | "is_import _ = False"

definition with_transaction :: "PoisonPackageRecord \<Rightarrow> PoisonPackageTransaction \<times> bool \<Rightarrow>
    PoisonPackageRecord \<times> bool" where
  "with_transaction r tb = (r \<lparr> pr_transaction := fst tb \<rparr>, snd tb)"

fun record_step :: "PackageOp \<Rightarrow> PoisonPackageRecord \<Rightarrow> PoisonPackageRecord \<times> bool" where
  "record_step (PkImport p) r = (r, False)"
| "record_step (PkReceive i n) r = with_transaction r (poison_package_receive (pr_transaction r) n)"
| "record_step (PkVerify i d v) r =
     (if \<not> v then with_transaction r (quarantine_transaction (pr_transaction r), False)
      else with_transaction r (poison_package_verify_payload (pr_transaction r) d))"
| "record_step (PkActivate i e) r =
     (if pr_confirmation_required r \<and> \<not> e then (r, False)
      else with_transaction r (poison_package_activate (pr_transaction r) True))"
| "record_step (PkReport i h) r =
     (case with_transaction r (poison_package_report_health (pr_transaction r) h) of
        (r', reported) \<Rightarrow>
          (if \<not> reported \<or> h then r'
           else r' \<lparr> pr_version := (if pr_previous_version r \<noteq> '''' then pr_previous_version r
                                    else pr_version r),
                     pr_digest := (if pr_previous_digest r \<noteq> '''' then pr_previous_digest r
                                   else pr_digest r) \<rparr>, reported))"
| "record_step (PkEnable i b e) r =
     (if b \<and> pr_confirmation_required r \<and> \<not> e then (r, False)
      else with_transaction r (poison_package_transition (pr_transaction r)
             (if b then PoisonPackageActive else PoisonPackageDisabled)))"
| "record_step (PkRemove i e) r =
     (if \<not> e \<or> pt_protected_package (pr_transaction r) then (r, False)
      else with_transaction r (poison_package_transition (pr_transaction r) PoisonPackageRemoved))"
| "record_step (PkRollback i e) r =
     (if \<not> e \<or> pr_previous_version r = '''' \<or>
         \<not> poison_package_digest_valid (Some (pr_previous_digest r)) False \<or>
         (pt_state (pr_transaction r) \<noteq> PoisonPackageActive \<and>
          pt_state (pr_transaction r) \<noteq> PoisonPackageDisabled) \<or>
         \<not> snd (poison_content_update_rollback (pt_content_update (pr_transaction r)))
      then (r, False)
      else (r \<lparr> pr_version := pr_previous_version r, pr_digest := pr_previous_digest r,
                pr_previous_version := pr_version r, pr_previous_digest := pr_digest r,
                pr_transaction := (pr_transaction r) \<lparr> pt_state := PoisonPackageActive,
                  pt_content_update :=
                    fst (poison_content_update_rollback (pt_content_update (pr_transaction r))) \<rparr> \<rparr>, True))"
| "record_step (PkQuarantine i) r =
     (if pt_state (pr_transaction r) = PoisonPackageRemoved then (r, False)
      else (r \<lparr> pr_transaction := (pr_transaction r) \<lparr> pt_state := PoisonPackageQuarantined \<rparr> \<rparr>, True))"

lemmas manager_calls = poison_package_manager_receive_def poison_package_manager_verify_def
  poison_package_manager_activate_def poison_package_manager_report_health_def
  poison_package_manager_set_enabled_def poison_package_manager_remove_def
  poison_package_manager_rollback_def poison_package_manager_quarantine_def

lemma put_record_records [simp]: "pm_records (put_record m i r c) = (pm_records m)[i := r]"
  by (simp add: put_record_def)

lemma package_step_record:
  "\<not> is_import op \<Longrightarrow> pm_records (fst (package_step op m)) =
      (case poison_package_manager_find_mutable m (Some (op_package op)) of
         None \<Rightarrow> pm_records m
       | Some i \<Rightarrow> (pm_records m)[i := fst (record_step op (pm_records m ! i))])"
  by (cases op) (auto simp: manager_calls with_transaction_def Let_def split_beta split: option.split)

lemma package_step_result:
  "\<not> is_import op \<Longrightarrow> snd (package_step op m) =
      (case poison_package_manager_find_mutable m (Some (op_package op)) of
         None \<Rightarrow> False | Some i \<Rightarrow> snd (record_step op (pm_records m ! i)))"
  by (cases op) (auto simp: manager_calls with_transaction_def Let_def split_beta split: option.split)

section \<open>Invariant\<close>

text \<open>What is true of every record the manager keeps: its texts are well formed, it describes the
  update it carries, the state of the package agrees with that of the update, and its two digests
  are the two the update moves between.\<close>

definition record_texts :: "PoisonPackageRecord \<Rightarrow> bool" where
  "record_texts r \<longleftrightarrow>
     poison_package_content_type_parse (Some (pr_content_type r)) =
       Some (cu_content_type (pt_content_update (pr_transaction r))) \<and>
     poison_package_id_valid (Some (pr_package_id r)) \<and>
     poison_package_text_valid (Some (pr_version r)) POISON_PACKAGE_VERSION_MAX \<and>
     poison_package_text_valid (Some (pr_signing_key_id r)) POISON_PACKAGE_SIGNING_KEY_MAX \<and>
     poison_package_manifest_path_valid (Some (pr_manifest_path r)) \<and>
     poison_package_text_valid (Some (pr_entrypoint r)) POISON_PACKAGE_MANIFEST_PATH_MAX \<and>
     pr_entrypoint r ! 0 \<noteq> CHR ''/'' \<and> \<not> strstr (pr_entrypoint r) ''..'' \<and>
     CHR 0x5C \<notin> set (pr_entrypoint r) \<and>
     (pr_previous_version r = '''' \<or>
      poison_package_text_valid (Some (pr_previous_version r)) POISON_PACKAGE_VERSION_MAX)"

definition record_digests :: "PoisonPackageRecord \<Rightarrow> bool" where
  "record_digests r \<longleftrightarrow>
     (let u = pt_content_update (pr_transaction r) in
      pr_digest r \<in> {cu_candidate_digest u, cu_previous_digest u} \<and>
      pr_previous_digest r \<in> {cu_candidate_digest u, cu_previous_digest u} \<and>
      (cu_state u = PoisonContentUpdateRolledBack \<longrightarrow> pr_digest r = cu_previous_digest u) \<and>
      (cu_state u < PoisonContentUpdateRolledBack \<longrightarrow>
         pr_digest r = cu_candidate_digest u \<and> pr_previous_digest r = cu_previous_digest u))"

text \<open>The state of the package follows the state of the update.\<close>

definition states_agree :: "PoisonPackageTransaction \<Rightarrow> bool" where
  "states_agree t \<longleftrightarrow>
     (pt_state t = PoisonPackageStaged \<longrightarrow>
        cu_state (pt_content_update t) = PoisonContentUpdateStaged) \<and>
     (pt_state t = PoisonPackageVerified \<longrightarrow>
        PoisonContentUpdateVerified \<le> cu_state (pt_content_update t) \<and>
        cu_state (pt_content_update t) \<le> PoisonContentUpdateActivating) \<and>
     (PoisonContentUpdateActivating \<le> cu_state (pt_content_update t) \<and>
        cu_state (pt_content_update t) \<le> PoisonContentUpdateHealthy \<longrightarrow>
        cu_confirmation_authorized (pt_content_update t)) \<and>
     pt_rollback_state t \<noteq> PoisonPackageStaged \<and> pt_rollback_state t \<noteq> PoisonPackageVerified"

definition record_inv :: "PoisonPackageRecord \<Rightarrow> bool" where
  "record_inv r \<longleftrightarrow>
     (let t = pr_transaction r; u = pt_content_update t in
      pr_occupied r \<and> record_texts r \<and> record_digests r \<and> pt_initialized t \<and>
      update_inv u \<and> cu_update_id u = pr_package_id r \<and> states_agree t)"

definition package_inv :: "PoisonPackageManager \<Rightarrow> bool" where
  "package_inv m \<longleftrightarrow>
     length (pm_records m) = 8 \<and> tbl_unique pr_occupied pr_package_id (pm_records m) \<and>
     (\<forall>r \<in> set (pm_records m). if pr_occupied r then record_inv r else r = package_record_zero)"

lemma package_digest_bounded: "poison_package_digest_valid d False \<longleftrightarrow> bounded_digest d"
  by (auto simp: poison_package_digest_valid_def bounded_digest_def split: option.splits)

lemma package_digest_optional:
  "poison_package_digest_valid d True \<longleftrightarrow> d = None \<or> d = Some '''' \<or> bounded_digest d"
  by (cases d) (auto simp: poison_package_digest_valid_def bounded_digest_def)

lemma package_find_lookup:
  "poison_package_manager_find m (Some i) = tbl_lookup pr_occupied pr_package_id (pm_records m) i"
  by (simp add: poison_package_manager_find_def poison_package_manager_find_mutable_def tbl_lookup_def)

lemma package_find_index:
  assumes "poison_package_manager_find_mutable m (Some k) = Some i"
  shows "poison_package_manager_find m (Some k) = Some (pm_records m ! i)" "i < length (pm_records m)"
    "pr_occupied (pm_records m ! i)" "pr_package_id (pm_records m ! i) = k"
  using assms tbl_lookup_index [of pr_occupied pr_package_id k "pm_records m" i]
  by (simp_all add: poison_package_manager_find_mutable_def package_find_lookup)

lemma package_find_none:
  "poison_package_manager_find_mutable m (Some k) = None \<longleftrightarrow> poison_package_manager_find m (Some k) = None"
  by (simp add: poison_package_manager_find_def)

lemma find_record_inv:
  assumes "package_inv m" "poison_package_manager_find m (Some k) = Some r"
  shows "record_inv r" "pr_package_id r = k" "pr_occupied r"
  using assms tbl_lookup_SomeD [of pr_occupied pr_package_id "pm_records m" k r]
  by (auto simp: package_inv_def package_find_lookup)

text \<open>What each call does to the record it acts on, by cases on the transaction.\<close>

lemmas package_ops = poison_package_receive_def poison_package_verify_payload_def
  poison_package_activate_def poison_package_report_health_def poison_package_transition_def
  package_allowed_def with_transaction_def quarantine_transaction_def

lemma record_step_fixed:
  "pr_occupied (fst (record_step op r)) = pr_occupied r"
  "pr_package_id (fst (record_step op r)) = pr_package_id r"
  "pr_content_type (fst (record_step op r)) = pr_content_type r"
  "pr_signing_key_id (fst (record_step op r)) = pr_signing_key_id r"
  "pr_manifest_path (fst (record_step op r)) = pr_manifest_path r"
  "pr_entrypoint (fst (record_step op r)) = pr_entrypoint r"
  "pr_confirmation_required (fst (record_step op r)) = pr_confirmation_required r"
  by (cases op; simp add: with_transaction_def split_beta)+

text \<open>The transaction calls with the calls of the update written out.\<close>

lemma package_receive_form:
  "poison_package_receive t n =
    (let u = pt_content_update t;
         u1 = (if cu_state u = PoisonContentUpdateDiscovered
               then u \<lparr> cu_state := PoisonContentUpdateReceiving \<rparr> else u) in
     if \<not> pt_initialized t then (t, False)
     else if cu_state u1 \<noteq> PoisonContentUpdateReceiving \<or> n = 0 \<or> cu_content_bytes u = 0 \<or>
             cu_received_bytes u > cu_content_bytes u \<or> n > cu_content_bytes u - cu_received_bytes u
     then (t \<lparr> pt_content_update := u1 \<rparr>, False)
     else if cu_received_bytes u + n = cu_content_bytes u
     then (t \<lparr> pt_state := PoisonPackageStaged,
             pt_content_update := u1 \<lparr> cu_received_bytes := cu_received_bytes u + n,
               cu_state := PoisonContentUpdateStaged \<rparr> \<rparr>, True)
     else (t \<lparr> pt_content_update := u1 \<lparr> cu_received_bytes := cu_received_bytes u + n \<rparr> \<rparr>, True))"
  by (simp add: poison_package_receive_def update_ops)

lemma package_activate_form:
  "poison_package_activate t e =
    (let u = pt_content_update t;
         u1 = (if cu_state u = PoisonContentUpdateVerified
               then u \<lparr> cu_state := PoisonContentUpdateAwaitingConfirmation \<rparr> else u) in
     if \<not> pt_initialized t \<or> pt_state t \<noteq> PoisonPackageVerified then (t, False)
     else if cu_state u1 \<noteq> PoisonContentUpdateAwaitingConfirmation \<or>
             (cu_confirmation_required u \<and> \<not> e)
     then (t \<lparr> pt_content_update := u1 \<rparr>, False)
     else if cu_candidate_digest u = '''' \<or> \<not> cu_rollback_available u
     then (t \<lparr> pt_content_update := u1 \<lparr> cu_confirmation_authorized := True \<rparr> \<rparr>, False)
     else (t \<lparr> pt_content_update := u1 \<lparr> cu_confirmation_authorized := True,
             cu_state := PoisonContentUpdateActivating \<rparr> \<rparr>, True))"
  by (simp add: poison_package_activate_def update_ops)

lemma package_report_form:
  assumes "update_inv (pt_content_update t)"
  shows "poison_package_report_health t h =
    (if \<not> pt_initialized t \<or> cu_state (pt_content_update t) \<noteq> PoisonContentUpdateActivating
     then (t, False)
     else (t \<lparr> pt_state := (if h then PoisonPackageActive else pt_rollback_state t),
             pt_content_update := (pt_content_update t) \<lparr> cu_health_reported := True,
               cu_state := (if h then PoisonContentUpdateHealthy else PoisonContentUpdateRolledBack) \<rparr> \<rparr>,
           True))"
  using assms update_inv_digests [OF assms]
  by (simp add: poison_package_report_health_def update_ops update_inv_def)

lemma package_verify_form:
  "poison_package_verify_payload t d =
    (let u = pt_content_update t in
     if \<not> pt_initialized t \<or> pt_state t \<noteq> PoisonPackageStaged then (t, False)
     else if cu_state u \<noteq> PoisonContentUpdateStaged \<or> \<not> bounded_digest d
     then (t \<lparr> pt_state := PoisonPackageQuarantined \<rparr>, False)
     else if Some (cu_candidate_digest u) \<noteq> d
     then (t \<lparr> pt_state := PoisonPackageQuarantined,
             pt_content_update := u \<lparr> cu_state := PoisonContentUpdateQuarantined \<rparr> \<rparr>, False)
     else (t \<lparr> pt_state := PoisonPackageVerified,
             pt_content_update := u \<lparr> cu_payload_verified := True,
               cu_state := PoisonContentUpdateVerified \<rparr> \<rparr>, True))"
  by (simp add: poison_package_verify_payload_def update_ops)

lemma update_rollback_form:
  "update_inv u \<Longrightarrow> poison_content_update_rollback u =
     (if cu_state u = PoisonContentUpdateActivating \<or> cu_state u = PoisonContentUpdateHealthy
      then (u \<lparr> cu_state := PoisonContentUpdateRolledBack \<rparr>, True) else (u, False))"
  using update_inv_digests [of u] by (simp add: poison_content_update_rollback_def update_inv_def)

lemmas record_inv_defs = record_inv_def record_texts_def record_digests_def Let_def

definition same_texts :: "PoisonContentUpdate \<Rightarrow> PoisonContentUpdate \<Rightarrow> bool" where
  "same_texts u u' \<longleftrightarrow> cu_content_type u' = cu_content_type u \<and> cu_update_id u' = cu_update_id u \<and>
     cu_candidate_digest u' = cu_candidate_digest u \<and> cu_previous_digest u' = cu_previous_digest u"

lemma record_inv_transaction:
  assumes "record_inv r" "pt_initialized t'" "update_inv (pt_content_update t')" "states_agree t'"
    and "same_texts (pt_content_update (pr_transaction r)) (pt_content_update t')"
    and "cu_state (pt_content_update t') = cu_state (pt_content_update (pr_transaction r)) \<or>
         cu_state (pt_content_update t') = PoisonContentUpdateQuarantined \<or>
         (cu_state (pt_content_update (pr_transaction r)) < PoisonContentUpdateRolledBack \<and>
          cu_state (pt_content_update t') < PoisonContentUpdateRolledBack)"
  shows "record_inv (r \<lparr> pr_transaction := t' \<rparr>)"
proof -
  have "record_texts (r \<lparr> pr_transaction := t' \<rparr>)"
    using assms(1,5) by (simp add: record_inv_defs same_texts_def)
  moreover have "record_digests (r \<lparr> pr_transaction := t' \<rparr>)"
    using assms(1,5,6) by (auto simp: record_inv_def record_digests_def Let_def same_texts_def enum_ord)
  ultimately show ?thesis
    using assms(1-5) by (simp add: record_inv_def Let_def same_texts_def)
qed

lemma record_inv_parts:
  assumes "record_inv r"
  shows "update_inv (pt_content_update (pr_transaction r))" "pt_initialized (pr_transaction r)"
    "states_agree (pr_transaction r)"
  using assms by (simp_all add: record_inv_def Let_def)

lemma record_receive_inv:
  assumes "record_inv r" shows "record_inv (r \<lparr> pr_transaction := fst (poison_package_receive (pr_transaction r) n) \<rparr>)"
proof (rule record_inv_transaction [OF assms])
  let ?t = "pr_transaction r" and ?t' = "fst (poison_package_receive (pr_transaction r) n)"
  let ?u = "pt_content_update (pr_transaction r)"
  note parts = record_inv_parts [OF assms]
  show "pt_initialized ?t'"
    using parts by (simp add: package_receive_form Let_def)
  show "update_inv (pt_content_update ?t')"
    using parts(1) update_transition_inv [OF parts(1), of PoisonContentUpdateReceiving]
      update_receive_inv update_transition_inv
    by (simp add: poison_package_receive_def split_beta)
  show "states_agree ?t'"
    using parts(3) by (auto simp: package_receive_form states_agree_def Let_def enum_ord)
  show "same_texts ?u (pt_content_update ?t')"
    by (simp add: package_receive_form same_texts_def Let_def)
  show "cu_state (pt_content_update ?t') = cu_state ?u \<or>
      cu_state (pt_content_update ?t') = PoisonContentUpdateQuarantined \<or>
      (cu_state ?u < PoisonContentUpdateRolledBack \<and>
       cu_state (pt_content_update ?t') < PoisonContentUpdateRolledBack)"
    by (auto simp: package_receive_form Let_def enum_ord)
qed

lemma record_verify_inv:
  assumes "record_inv r"
  shows "record_inv (r \<lparr> pr_transaction := fst (poison_package_verify_payload (pr_transaction r) d) \<rparr>)"
proof (rule record_inv_transaction [OF assms])
  let ?t = "pr_transaction r" and ?t' = "fst (poison_package_verify_payload (pr_transaction r) d)"
  let ?u = "pt_content_update (pr_transaction r)"
  note parts = record_inv_parts [OF assms]
  show "pt_initialized ?t'"
    using parts by (simp add: package_verify_form Let_def)
  show "update_inv (pt_content_update ?t')"
    using parts(1) update_verify_inv [OF parts(1)]
    by (simp add: poison_package_verify_payload_def split_beta)
  show "states_agree ?t'"
    using parts(3) by (auto simp: package_verify_form states_agree_def Let_def enum_ord)
  show "same_texts ?u (pt_content_update ?t')"
    by (simp add: package_verify_form same_texts_def Let_def)
  show "cu_state (pt_content_update ?t') = cu_state ?u \<or>
      cu_state (pt_content_update ?t') = PoisonContentUpdateQuarantined \<or>
      (cu_state ?u < PoisonContentUpdateRolledBack \<and>
       cu_state (pt_content_update ?t') < PoisonContentUpdateRolledBack)"
    by (auto simp: package_verify_form Let_def enum_ord)
qed

lemma record_activate_inv:
  assumes "record_inv r"
  shows "record_inv (r \<lparr> pr_transaction := fst (poison_package_activate (pr_transaction r) e) \<rparr>)"
proof (rule record_inv_transaction [OF assms])
  let ?t = "pr_transaction r" and ?t' = "fst (poison_package_activate (pr_transaction r) e)"
  let ?u = "pt_content_update (pr_transaction r)"
  note parts = record_inv_parts [OF assms]
  show "pt_initialized ?t'"
    using parts by (simp add: package_activate_form Let_def)
  show "update_inv (pt_content_update ?t')"
    using parts(1) update_transition_inv update_end_inv(1)
    by (simp add: poison_package_activate_def split_beta)
  show "states_agree ?t'"
    using parts(3) by (auto simp: package_activate_form states_agree_def Let_def enum_ord)
  show "same_texts ?u (pt_content_update ?t')"
    by (simp add: package_activate_form same_texts_def Let_def)
  show "cu_state (pt_content_update ?t') = cu_state ?u \<or>
      cu_state (pt_content_update ?t') = PoisonContentUpdateQuarantined \<or>
      (cu_state ?u < PoisonContentUpdateRolledBack \<and>
       cu_state (pt_content_update ?t') < PoisonContentUpdateRolledBack)"
    by (auto simp: package_activate_form Let_def enum_ord)
qed

lemma states_agree_moves:
  assumes "states_agree t" "s \<noteq> PoisonPackageStaged" "s \<noteq> PoisonPackageVerified"
    and "pt_state t \<noteq> PoisonPackageStaged"
    and "pt_state t = PoisonPackageVerified \<Longrightarrow> cu_state (pt_content_update t) = PoisonContentUpdateHealthy"
  shows "states_agree (t \<lparr> pt_rollback_state := pt_state t, pt_state := s \<rparr>)"
  using assms by (cases "pt_state t = PoisonPackageVerified") (simp_all add: states_agree_def enum_ord)

lemma record_transition_inv:
  assumes "record_inv r" "s \<in> {PoisonPackageActive, PoisonPackageDisabled, PoisonPackageRemoved}"
  shows "record_inv (r \<lparr> pr_transaction := fst (poison_package_transition (pr_transaction r) s) \<rparr>)"
proof (rule record_inv_transaction [OF assms(1)])
  let ?t' = "fst (poison_package_transition (pr_transaction r) s)"
  note parts = record_inv_parts [OF assms(1)]
  show "pt_initialized ?t'" "update_inv (pt_content_update ?t')"
    using parts by (simp_all add: poison_package_transition_def)
  show "states_agree ?t'"
    using parts(3) assms(2) states_agree_moves [OF parts(3), of s]
    by (auto simp: poison_package_transition_def package_allowed_def)
qed (simp_all add: poison_package_transition_def same_texts_def)

lemma update_quarantine_inv:
  "update_inv u \<Longrightarrow> update_inv (u \<lparr> cu_state := PoisonContentUpdateQuarantined \<rparr>)"
  by (simp add: update_inv_def enum_ord)

lemma record_quarantine_inv:
  assumes "record_inv r"
  shows "record_inv (r \<lparr> pr_transaction := quarantine_transaction (pr_transaction r) \<rparr>)"
    and "record_inv (r \<lparr> pr_transaction := (pr_transaction r) \<lparr> pt_state := PoisonPackageQuarantined \<rparr> \<rparr>)"
  using record_inv_parts [OF assms]
  by (auto intro!: record_inv_transaction [OF assms] update_quarantine_inv
      simp: quarantine_transaction_def states_agree_def same_texts_def enum_ord)

lemma record_report_inv:
  assumes "record_inv r" shows "record_inv (fst (record_step (PkReport i h) r))"
proof -
  let ?t = "pr_transaction r" and ?u = "pt_content_update (pr_transaction r)"
  note parts = record_inv_parts [OF assms]
  have prev: "pr_previous_digest r \<noteq> ''''"
    using assms update_inv_digests [OF parts(1)] by (auto simp: record_inv_def record_digests_def Let_def)
  show ?thesis
  proof (cases "cu_state ?u = PoisonContentUpdateActivating")
    case False
    with assms parts show ?thesis by (simp add: package_report_form with_transaction_def)
  next
    case True
    let ?t' = "fst (poison_package_report_health ?t h)"
    have t': "pt_content_update ?t' = ?u \<lparr> cu_health_reported := True,
        cu_state := (if h then PoisonContentUpdateHealthy else PoisonContentUpdateRolledBack) \<rparr>"
      "pt_state ?t' = (if h then PoisonPackageActive else pt_rollback_state ?t)" "pt_initialized ?t'" "pt_rollback_state ?t' = pt_rollback_state ?t"
      using True parts by (simp_all add: package_report_form)
    have upd: "update_inv (pt_content_update ?t')"
      unfolding t' using parts(1) True by (simp add: update_inv_def enum_ord)
    have agree: "states_agree ?t'"
      using parts(3) True by (auto simp: states_agree_def t' enum_ord)
    show ?thesis
      using assms upd agree prev parts True
      by (auto simp: record_inv_defs t' with_transaction_def split_beta package_report_form enum_ord)
  qed
qed

lemma record_rollback_inv:
  assumes "record_inv r" shows "record_inv (fst (record_step (PkRollback i e) r))"
proof (cases "snd (record_step (PkRollback i e) r)")
  case False
  then show ?thesis using assms by (auto split: if_splits)
next
  case True
  note parts = record_inv_parts [OF assms]
  let ?u = "pt_content_update (pr_transaction r)"
  have u: "cu_state ?u = PoisonContentUpdateActivating \<or> cu_state ?u = PoisonContentUpdateHealthy"
    using True parts(1) by (auto simp: update_rollback_form split: if_splits)
  have upd: "update_inv (?u \<lparr> cu_state := PoisonContentUpdateRolledBack \<rparr>)"
    using parts(1) u by (auto simp: update_inv_def enum_ord)
  from True have valid: "pr_previous_version r \<noteq> ''''"
    by (auto split: if_splits)
  show ?thesis
    using True assms parts upd u valid
    by (auto simp: update_rollback_form record_inv_defs states_agree_def enum_ord split: if_splits)
qed

lemma record_step_inv:
  assumes "record_inv r" shows "record_inv (fst (record_step op r))"
proof (cases op)
  case (PkReport i h)
  then show ?thesis using record_report_inv [OF assms] by simp
next
  case (PkRollback i e)
  then show ?thesis using record_rollback_inv [OF assms] by simp
qed (use assms in \<open>auto simp: with_transaction_def record_receive_inv record_verify_inv
       record_activate_inv record_transition_inv record_quarantine_inv\<close>)

lemma import_slot_cases:
  assumes "package_import_slot m p = Some (i, updating)" "pi_package_id p \<noteq> None"
  shows "if updating
    then poison_package_manager_find_mutable m (pi_package_id p) = Some i \<and>
      pt_state (pr_transaction (pm_records m ! i)) \<noteq> PoisonPackageRemoved \<and>
      pt_state (pr_transaction (pm_records m ! i)) = pi_previous_state p \<and>
      Some (pr_content_type (pm_records m ! i)) = pi_content_type p \<and>
      Some (pr_version (pm_records m ! i)) = pi_previous_version p \<and>
      Some (pr_digest (pm_records m ! i)) = pi_previous_digest p \<and>
      Some (pr_digest (pm_records m ! i)) \<noteq> pi_candidate_digest p
    else pi_previous_state p = PoisonPackageRemoved \<and>
      ((poison_package_manager_find_mutable m (pi_package_id p) = Some i \<and>
        pt_state (pr_transaction (pm_records m ! i)) = PoisonPackageRemoved) \<or>
       (poison_package_manager_find_mutable m (pi_package_id p) = None \<and>
        (find_index (\<lambda>r. \<not> pr_occupied r) (pm_records m) = Some i \<or>
         (find_index (\<lambda>r. \<not> pr_occupied r) (pm_records m) = None \<and>
          find_index (\<lambda>r. pt_state (pr_transaction r) = PoisonPackageRemoved) (pm_records m) = Some i))))"
  using assms
  by (auto simp: package_import_slot_def Let_def simp del: find_index_None split: option.splits if_splits)

text \<open>A successful import writes a record that describes the package and carries a fresh update.\<close>

definition describes_import :: "PoisonPackageImport \<Rightarrow> PoisonPackageRecord \<Rightarrow> bool" where
  "describes_import p r \<longleftrightarrow>
     pi_package_id p = Some (pr_package_id r) \<and>
     pi_candidate_digest p = Some (cu_candidate_digest (pt_content_update (pr_transaction r))) \<and>
     pi_content_bytes p = cu_content_bytes (pt_content_update (pr_transaction r)) \<and>
     pi_content_type p = Some (pr_content_type r) \<and>
     pi_confirmation_required p = pr_confirmation_required r \<and> pi_manifest_verified p \<and>
     cu_candidate_digest (pt_content_update (pr_transaction r)) \<noteq>
       cu_previous_digest (pt_content_update (pr_transaction r))"

lemma import_ok:
  assumes "poison_package_manager_import m p = (m', True)"
  obtains i updating r where
    "package_import_slot m p = Some (i, updating)" "package_import_valid p"
    "pm_records m' = (pm_records m)[i := r]" "record_inv r" "describes_import p r"
    "update_history (pt_content_update (pr_transaction r)) = []"
    "cu_state (pt_content_update (pr_transaction r)) = PoisonContentUpdateDiscovered"
    "cu_received_bytes (pt_content_update (pr_transaction r)) = 0"
    "pt_state (pr_transaction r) = pi_previous_state p \<and> pt_rollback_state (pr_transaction r) = pi_previous_state p"
    "pr_previous_version r = (if updating then pr_version (pm_records m ! i) else '''')"
    "pr_previous_digest r = (if updating then pr_digest (pm_records m ! i) else absent_digest)"
    "pt_protected_package (pr_transaction r) = pi_protected_package p"
proof -
  from assms obtain i updating where slot: "package_import_slot m p = Some (i, updating)"
    and valid: "package_import_valid p"
    by (auto simp: poison_package_manager_import_def split: if_splits option.splits)
  let ?old = "pm_records m ! i"
  let ?prev = "if updating then pr_digest ?old else absent_digest"
  let ?man = "package_import_manifest p ?prev"
  let ?env = "package_import_environment p
     (if updating then cu_sequence (pt_content_update (pr_transaction ?old)) else 0)"
  from assms slot valid obtain t where
    begun: "poison_package_transaction_begin transaction_zero ?man ?env (pi_previous_state p)
              (pi_protected_package p) = (t, PoisonContentUpdateAdmissionOk)"
    and m': "pm_records m' = (pm_records m)[i := \<lparr> pr_occupied = True, pr_content_type = the (pi_content_type p),
       pr_package_id = the (pi_package_id p), pr_version = the (pi_version p),
       pr_previous_version = (if updating then pr_version ?old else ''''),
       pr_digest = the (pi_candidate_digest p), pr_previous_digest = ?prev,
       pr_signing_key_id = the (pi_signing_key_id p), pr_manifest_path = the (pi_manifest_path p),
       pr_entrypoint = the (pi_entrypoint p), pr_capability_mask = pi_capability_mask p,
       pr_confirmation_required = pi_confirmation_required p, pr_transaction = t \<rparr>]"
    by (auto simp: poison_package_manager_import_def Let_def split: if_splits prod.splits)
  from begun obtain u where adm: "poison_content_update_admit content_update_zero ?man ?env = (u, PoisonContentUpdateAdmissionOk)"
    and t: "t = \<lparr> pt_state = pi_previous_state p, pt_rollback_state = pi_previous_state p,
       pt_protected_package = pi_protected_package p, pt_initialized = True, pt_content_update = u \<rparr>"
    and prev: "pi_previous_state p \<in> {PoisonPackageInstalled, PoisonPackageActive, PoisonPackageDisabled, PoisonPackageRemoved}"
    by (auto simp: poison_package_transaction_begin_def split: if_splits prod.splits)
  note u = admitted_inv [OF adm]
  have some: "poison_package_content_type_parse (pi_content_type p) \<noteq> None"
    "pi_package_id p \<noteq> None" "pi_version p \<noteq> None" "pi_candidate_digest p \<noteq> None"
    "pi_signing_key_id p \<noteq> None" "pi_manifest_path p \<noteq> None" "pi_entrypoint p \<noteq> None"
    using valid u(4) [symmetric] u(7) [symmetric]
    by (auto simp: package_import_valid_def poison_package_text_valid_def
        poison_package_manifest_path_valid_def package_import_manifest_def)
  then have ctype: "pi_content_type p \<noteq> None"
    by (cases "pi_content_type p") (auto simp: poison_package_content_type_parse_def)
  have old: "updating \<Longrightarrow> pi_previous_state p \<noteq> PoisonPackageRemoved \<and>
      pi_previous_version p = Some (pr_version ?old)"
    using import_slot_cases [OF slot some(2)] by auto
  show ?thesis
  proof (rule that [OF slot valid m'], goal_cases)
    case 1
    have upd: "update_inv u" "cu_update_id u = the (pi_package_id p)"
      "cu_candidate_digest u = the (pi_candidate_digest p)" "cu_previous_digest u = ?prev"
      "cu_state u = PoisonContentUpdateDiscovered"
      "Some (cu_content_type u) = poison_package_content_type_parse (pi_content_type p)"
      using u some by (auto simp: package_import_manifest_def)
    show ?case
      unfolding record_inv_def Let_def
    proof (intro conjI, goal_cases)
      case 2
      show ?case
        unfolding record_texts_def using valid some ctype upd
          old by (cases updating) (simp_all add: t package_import_valid_def)
    next
      case 3
      show ?case
        unfolding record_digests_def using upd by (simp add: t Let_def enum_ord)
    next
      case 7
      show ?case using prev upd(5) by (auto simp: t states_agree_def enum_ord)
    qed (simp_all add: t upd)
  next
    case 2
    show ?case
      using valid some ctype u by (simp add: describes_import_def t package_import_valid_def package_import_manifest_def)
  qed (use u in \<open>simp_all add: t\<close>)
qed

section \<open>The manager as a finite map\<close>

definition packages :: "PoisonPackageManager \<Rightarrow> string \<Rightarrow> PoisonPackageRecord option" where
  "packages m k = poison_package_manager_find m (Some k)"

lemma packages_lookup: "packages m = tbl_lookup pr_occupied pr_package_id (pm_records m)"
  by (rule ext) (simp add: packages_def package_find_lookup)

lemma packages_inv:
  "package_inv m \<Longrightarrow> packages m k = Some r \<Longrightarrow> record_inv r \<and> pr_package_id r = k"
  using find_record_inv [of m k r] by (simp add: packages_def)

lemma package_put_inv:
  assumes "package_inv m" "i < 8" "record_inv r"
    and "packages m (pr_package_id r) = None \<or>
      (pr_occupied (pm_records m ! i) \<and> pr_package_id (pm_records m ! i) = pr_package_id r)"
    and "pm_records m' = (pm_records m)[i := r]"
  shows "package_inv m'"
    and "packages m' = (if pr_occupied (pm_records m ! i)
      then (packages m)(pr_package_id (pm_records m ! i) := None) else packages m)(pr_package_id r \<mapsto> r)"
proof -
  have r: "pr_occupied r" using assms(3) by (simp add: record_inv_def Let_def)
  have m: "length (pm_records m) = 8" "tbl_unique pr_occupied pr_package_id (pm_records m)"
    "\<forall>r \<in> set (pm_records m). if pr_occupied r then record_inv r else r = package_record_zero"
    using assms(1) by (simp_all add: package_inv_def)
  note put = tbl_put [OF m(2), of i r] m(1) assms(2,4) r
  have "\<forall>r \<in> set ((pm_records m)[i := r]). if pr_occupied r then record_inv r else r = package_record_zero"
    by (rule all_list_update) (use m(3) r assms(3) in simp_all)
  then show "package_inv m'"
    using put assms(5) by (simp add: package_inv_def packages_lookup)
  show "packages m' = (if pr_occupied (pm_records m ! i)
      then (packages m)(pr_package_id (pm_records m ! i) := None) else packages m)(pr_package_id r \<mapsto> r)"
    using put assms(5) by (simp add: packages_lookup)
qed

lemma package_call:
  assumes "package_inv m" "\<not> is_import op"
  shows "package_inv (fst (package_step op m))"
    and "packages (fst (package_step op m)) =
      (case packages m (op_package op) of
         None \<Rightarrow> packages m | Some r \<Rightarrow> (packages m)(op_package op \<mapsto> fst (record_step op r)))"
    and "snd (package_step op m) =
      (case packages m (op_package op) of None \<Rightarrow> False | Some r \<Rightarrow> snd (record_step op r))"
proof -
  let ?m = "fst (package_step op m)" and ?k = "op_package op"
  have "package_inv ?m \<and> packages ?m = (case packages m ?k of
      None \<Rightarrow> packages m | Some r \<Rightarrow> (packages m)(?k \<mapsto> fst (record_step op r))) \<and>
    snd (package_step op m) = (case packages m ?k of None \<Rightarrow> False | Some r \<Rightarrow> snd (record_step op r))"
  proof (cases "poison_package_manager_find_mutable m (Some ?k)")
    case None
    then have "packages m ?k = None" by (simp add: packages_def package_find_none del: find_index_None)
    then show ?thesis
      using assms None
      by (simp add: package_step_record package_step_result package_inv_def packages_lookup)
  next
    case (Some i)
    note i = package_find_index [OF Some]
    let ?r = "pm_records m ! i"
    have r: "packages m ?k = Some ?r" using i by (simp add: packages_def)
    then have "record_inv ?r" using packages_inv [OF assms(1)] by blast
    then have inv: "record_inv (fst (record_step op ?r))" by (rule record_step_inv)
    have "i < 8" using i(2) assms(1) by (simp add: package_inv_def)
    note put = package_put_inv [OF assms(1) this inv, of ?m]
    show ?thesis
      using put i r assms(2) Some
      by (simp add: package_step_record package_step_result record_step_fixed)
  qed
  then show "package_inv ?m" "packages ?m = (case packages m ?k of
      None \<Rightarrow> packages m | Some r \<Rightarrow> (packages m)(?k \<mapsto> fst (record_step op r)))"
    "snd (package_step op m) = (case packages m ?k of None \<Rightarrow> False | Some r \<Rightarrow> snd (record_step op r))"
    by simp_all
qed

lemma import_refused: "\<not> snd (poison_package_manager_import m p) \<Longrightarrow> fst (poison_package_manager_import m p) = m"
  by (auto simp: poison_package_manager_import_def Let_def split: option.splits prod.splits if_splits)

lemma import_packages:
  assumes "package_inv m" "poison_package_manager_import m p = (m', True)"
  obtains k r where "pi_package_id p = Some k" "package_inv m'" "packages m' k = Some r" "describes_import p r"
    "record_inv r" "update_history (pt_content_update (pr_transaction r)) = []"
    "cu_state (pt_content_update (pr_transaction r)) = PoisonContentUpdateDiscovered"
    "cu_received_bytes (pt_content_update (pr_transaction r)) = 0"
    "pt_protected_package (pr_transaction r) = pi_protected_package p"
    "pt_state (pr_transaction r) = pi_previous_state p \<and> pt_rollback_state (pr_transaction r) = pi_previous_state p"
    "case packages m k of
       None \<Rightarrow> pi_previous_state p = PoisonPackageRemoved
     | Some old \<Rightarrow> pt_state (pr_transaction old) = pi_previous_state p \<and>
         (pi_previous_state p \<noteq> PoisonPackageRemoved \<longrightarrow>
            pr_previous_version r = pr_version old \<and> pr_previous_digest r = pr_digest old)"
    "\<And>k'. k' \<noteq> k \<Longrightarrow> packages m' k' = packages m k' \<or>
       (packages m' k' = None \<and>
        (\<exists>old. packages m k' = Some old \<and> pt_state (pr_transaction old) = PoisonPackageRemoved))"
proof -
  from import_ok [OF assms(2)] obtain i updating r where
    slot: "package_import_slot m p = Some (i, updating)" and valid: "package_import_valid p"
    and m': "pm_records m' = (pm_records m)[i := r]" and r: "record_inv r" "describes_import p r"
    "update_history (pt_content_update (pr_transaction r)) = []"
    "cu_state (pt_content_update (pr_transaction r)) = PoisonContentUpdateDiscovered"
    "cu_received_bytes (pt_content_update (pr_transaction r)) = 0"
    "pr_previous_version r = (if updating then pr_version (pm_records m ! i) else '''')"
    "pr_previous_digest r = (if updating then pr_digest (pm_records m ! i) else absent_digest)"
    "pt_protected_package (pr_transaction r) = pi_protected_package p"
    "pt_state (pr_transaction r) = pi_previous_state p \<and> pt_rollback_state (pr_transaction r) = pi_previous_state p"
    by metis
  let ?old = "pm_records m ! i" and ?k = "pr_package_id r"
  have k: "pi_package_id p = Some ?k" using r(2) by (simp add: describes_import_def)
  have "pi_package_id p \<noteq> None" using k by simp
  note cases = import_slot_cases [OF slot this]
  have len: "length (pm_records m) = 8" using assms(1) by (simp add: package_inv_def)
  have i: "i < 8"
    using cases len by (auto simp: k simp del: find_index_None split: if_splits
        dest: package_find_index(2) find_index_lt)
  have own: "(packages m ?k = Some ?old \<and> pr_occupied ?old \<and> pr_package_id ?old = ?k \<and>
        pt_state (pr_transaction ?old) = pi_previous_state p \<and>
        (updating \<longleftrightarrow> pi_previous_state p \<noteq> PoisonPackageRemoved)) \<or>
      (packages m ?k = None \<and> pi_previous_state p = PoisonPackageRemoved \<and>
        (pr_occupied ?old \<longrightarrow> pt_state (pr_transaction ?old) = PoisonPackageRemoved))"
    using cases package_find_index [of m ?k i] find_index_sat
    by (auto simp: k packages_def package_find_none simp del: find_index_None split: if_splits
        dest!: find_index_sat)
  then have "packages m ?k = None \<or> (pr_occupied ?old \<and> pr_package_id ?old = ?k)" by auto
  note put = package_put_inv [OF assms(1) i r(1) this m']
  have old: "packages m (pr_package_id ?old) = Some ?old" if "pr_occupied ?old"
    using that assms(1) i len
    by (simp add: packages_lookup package_inv_def tbl_lookup_unique)
  show ?thesis
  proof (rule that [OF k put(1) _ r(2,1,3-5,8,9)])
    show "packages m' ?k = Some r" using put(2) by simp
    show "case packages m ?k of
       None \<Rightarrow> pi_previous_state p = PoisonPackageRemoved
     | Some old \<Rightarrow> pt_state (pr_transaction old) = pi_previous_state p \<and>
         (pi_previous_state p \<noteq> PoisonPackageRemoved \<longrightarrow>
            pr_previous_version r = pr_version old \<and> pr_previous_digest r = pr_digest old)"
      using own r(6,7) by auto
    show "packages m' k' = packages m k' \<or> (packages m' k' = None \<and>
        (\<exists>old. packages m k' = Some old \<and> pt_state (pr_transaction old) = PoisonPackageRemoved))"
      if "k' \<noteq> ?k" for k'
      using put(2) own old that by (cases "k' = pr_package_id ?old") auto
  qed
qed

lemma import_fresh:
  assumes "package_inv m" "poison_package_manager_import m p = (m', True)"
  shows "\<exists>k r. pi_package_id p = Some k \<and> package_inv m' \<and> packages m' k = Some r \<and>
    describes_import p r \<and> record_inv r \<and>
    cu_state (pt_content_update (pr_transaction r)) = PoisonContentUpdateDiscovered \<and>
    pt_state (pr_transaction r) = pi_previous_state p \<and> pt_rollback_state (pr_transaction r) = pi_previous_state p \<and>
    (\<forall>k'. k' \<noteq> k \<longrightarrow> packages m' k' = packages m k' \<or> packages m' k' = None)"
proof (rule import_packages [OF assms], goal_cases)
  case (1 k r)
  have others: "\<forall>k'. k' \<noteq> k \<longrightarrow> packages m' k' = packages m k' \<or> packages m' k' = None"
  proof (intro allI impI)
    fix k' assume "k' \<noteq> k"
    from 1(12) [OF this] show "packages m' k' = packages m k' \<or> packages m' k' = None"
      by (elim disjE conjE) simp_all
  qed
  show ?case
    by (intro exI [of _ k] exI [of _ r] conjI) (fact 1 others 1(10) [THEN conjunct1] 1(10) [THEN conjunct2])+
qed

lemma package_init_inv [inv_intros]: "package_inv poison_package_manager_init"
  by (simp add: package_inv_def poison_package_manager_init_def tbl_unique_free package_record_zero_def)

lemma package_step_inv [inv_intros]:
  assumes "package_inv m" shows "package_inv (fst (package_step op m))"
proof (cases op)
  case (PkImport p)
  then show ?thesis
    using assms import_refused [of m p] import_packages [OF assms, of p "fst (package_step op m)"]
    by (cases "snd (poison_package_manager_import m p)") (auto simp: prod_eq_iff)
qed (use package_call(1) [OF assms, of op] in simp_all)

interpretation package_calls: invariant_machine package_step package_inv
  by unfold_locales (rule package_step_inv)

section \<open>What an active package went through\<close>

definition package_history :: "string \<Rightarrow> PoisonPackageImport \<Rightarrow> PoisonPackageRecord \<Rightarrow> PackageOp list" where
  "package_history k p r =
     (let u = pt_content_update (pr_transaction r) in
      [PkImport p] @
      (if cu_payload_verified u then [PkVerify k (Some (cu_candidate_digest u)) True] else []) @
      (if pr_confirmation_required r \<and> cu_confirmation_authorized u then [PkActivate k True] else []) @
      (if cu_state u = PoisonContentUpdateHealthy then [PkReport k True] else []))"

lemma describes_step:
  "record_inv r \<Longrightarrow> describes_import p (fst (record_step op r)) = describes_import p r"
  by (cases op) (auto simp: describes_import_def with_transaction_def quarantine_transaction_def
      package_receive_form package_verify_form package_activate_form package_report_form
      poison_package_transition_def update_rollback_form Let_def record_inv_parts)

lemma record_history_step:
  assumes "record_inv r" "\<not> is_import op" "op_package op = k"
  shows "subseq (package_history k p (fst (record_step op r))) (package_history k p r @ [op])"
proof -
  note parts = record_inv_parts [OF assms(1)]
  have flags: "cu_state u < PoisonContentUpdateVerified \<Longrightarrow> \<not> cu_payload_verified u"
    "cu_state u < PoisonContentUpdateAwaitingConfirmation \<Longrightarrow> \<not> cu_confirmation_authorized u"
    if "update_inv u" for u
    using that by (simp_all add: update_inv_def)
  note now = flags [OF parts(1)]
  let ?u = "pt_content_update (pr_transaction r)"
  show ?thesis
  proof (cases op)
    case (PkReceive i n)
    then show ?thesis
      by (simp add: package_history_def with_transaction_def package_receive_form Let_def)
  next
    case (PkVerify i d v)
    then show ?thesis
      using assms(3) now
      by (auto simp: package_history_def with_transaction_def quarantine_transaction_def
          package_verify_form Let_def enum_ord)
  next
    case (PkActivate i e)
    then show ?thesis
      using assms(3) now
      by (auto simp: package_history_def with_transaction_def package_activate_form Let_def enum_ord)
  next
    case (PkReport i h)
    then show ?thesis
      using assms(3)
      by (auto simp: package_history_def with_transaction_def package_report_form [OF parts(1)] Let_def)
  qed (use assms(2) in \<open>auto simp: package_history_def with_transaction_def
    poison_package_transition_def update_rollback_form [OF parts(1)] Let_def\<close>)
qed

text \<open>How a package comes to be active with an update that was rolled back: the new content reported ill over a
  package that was active when it was imported, or the user went back from new content that was healthy.\<close>

definition import_chain :: "string \<Rightarrow> PoisonPackageImport \<Rightarrow> PackageOp list" where
  "import_chain k p = [PkImport p, PkVerify k (pi_candidate_digest p) True] @
     (if pi_confirmation_required p then [PkActivate k True] else [])"

definition went_back :: "string \<Rightarrow> PoisonPackageImport \<Rightarrow> PackageOp list \<Rightarrow> bool" where
  "went_back k p ops \<longleftrightarrow>
     pi_previous_state p = PoisonPackageActive \<and> subseq (import_chain k p @ [PkReport k False]) ops \<or>
     subseq (import_chain k p @ [PkReport k True, PkRollback k True]) ops"

definition package_origin :: "string \<Rightarrow> PoisonPackageImport \<Rightarrow> PackageOp list \<Rightarrow> PoisonPackageRecord \<Rightarrow> bool" where
  "package_origin k p ops r \<longleftrightarrow>
     (let t = pr_transaction r; s = cu_state (pt_content_update t) in
      (PoisonContentUpdateStaged \<le> s \<and> s \<le> PoisonContentUpdateActivating \<longrightarrow>
         pt_state t \<noteq> PoisonPackageActive \<and> pt_state t \<noteq> PoisonPackageDisabled) \<and>
      (s < PoisonContentUpdateHealthy \<and> (pt_state t = PoisonPackageActive \<or> pt_rollback_state t = PoisonPackageActive) \<longrightarrow>
         pi_previous_state p = PoisonPackageActive) \<and>
      (s = PoisonContentUpdateRolledBack \<and> pt_state t = PoisonPackageActive \<longrightarrow> went_back k p ops))"

lemma went_back_longer: "went_back k p ops \<Longrightarrow> went_back k p (ops @ later)"
  unfolding went_back_def using subseq_longer by blast

lemma package_origin_longer: "package_origin k p ops r \<Longrightarrow> package_origin k p (ops @ later) r"
  unfolding package_origin_def Let_def using went_back_longer by blast

lemma package_history_chain:
  assumes "record_inv r" "describes_import p r"
  shows "cu_state (pt_content_update (pr_transaction r)) = PoisonContentUpdateActivating \<Longrightarrow>
      package_history k p r = import_chain k p"
    and "cu_state (pt_content_update (pr_transaction r)) = PoisonContentUpdateHealthy \<Longrightarrow>
      package_history k p r = import_chain k p @ [PkReport k True]"
  using assms record_inv_parts [OF assms(1)]
  by (auto simp: package_history_def import_chain_def describes_import_def update_inv_def states_agree_def enum_ord Let_def)

lemma record_origin_step:
  assumes "record_inv r" "describes_import p r" "subseq (package_history k p r) ops" "package_origin k p ops r"
    and "\<not> is_import op" "op_package op = k"
  shows "package_origin k p (ops @ [op]) (fst (record_step op r))"
proof -
  note parts = record_inv_parts [OF assms(1)]
  note chain = package_history_chain [OF assms(1,2), of k]
  note old = package_origin_longer [OF assms(4), of "[op]", unfolded package_origin_def Let_def]
  let ?u = "pt_content_update (pr_transaction r)"
  show ?thesis
  proof (cases op)
    case (PkReceive i n)
    then show ?thesis
      using old by (auto simp: package_origin_def with_transaction_def package_receive_form Let_def enum_ord)
  next
    case (PkVerify i d v)
    then show ?thesis
      using old parts(3)
      by (auto simp: package_origin_def with_transaction_def quarantine_transaction_def package_verify_form
          states_agree_def Let_def enum_ord)
  next
    case (PkActivate i e)
    then show ?thesis
      using old by (auto simp: package_origin_def with_transaction_def package_activate_form Let_def enum_ord)
  next
    case (PkReport i h)
    have "went_back k p (ops @ [PkReport k False])"
      if "cu_state ?u = PoisonContentUpdateActivating" "pi_previous_state p = PoisonPackageActive"
      using assms(3) chain(1) [OF that(1)] that(2) by (auto simp: went_back_def list_emb_append_mono)
    then show ?thesis
      using old PkReport assms(6)
      by (auto simp: package_origin_def with_transaction_def package_report_form [OF parts(1)] Let_def enum_ord)
  next
    case (PkEnable i b e)
    then show ?thesis
      using old by (auto simp: package_origin_def with_transaction_def poison_package_transition_def
          package_allowed_def Let_def enum_ord)
  next
    case (PkRemove i e)
    then show ?thesis
      using old by (auto simp: package_origin_def with_transaction_def poison_package_transition_def
          package_allowed_def Let_def enum_ord)
  next
    case (PkRollback i e)
    have "went_back k p (ops @ [PkRollback k True])" if "cu_state ?u = PoisonContentUpdateHealthy"
    proof -
      have "subseq ((import_chain k p @ [PkReport k True]) @ [PkRollback k True]) (ops @ [PkRollback k True])"
        by (rule list_emb_append_mono) (use assms(3) chain(2) [OF that] in simp_all)
      then show ?thesis by (simp add: went_back_def)
    qed
    then show ?thesis
      using old PkRollback assms(6)
      by (auto simp: package_origin_def update_rollback_form [OF parts(1)] Let_def enum_ord)
  qed (use assms(5) old in \<open>auto simp: package_origin_def with_transaction_def Let_def enum_ord\<close>)
qed

definition package_traced :: "PackageOp list \<Rightarrow> PoisonPackageManager \<Rightarrow> bool" where
  "package_traced ops m \<longleftrightarrow>
     (\<forall>k r. packages m k = Some r \<longrightarrow>
        (\<exists>p. describes_import p r \<and> subseq (package_history k p r) ops \<and> package_origin k p ops r))"

lemma package_trail_longer:
  "subseq xs ops \<and> package_origin k p ops r \<Longrightarrow> subseq xs (ops @ later) \<and> package_origin k p (ops @ later) r"
  using subseq_longer package_origin_longer by blast

lemma package_traced_call:
  assumes "package_inv m" "package_traced ops m" "\<not> is_import op"
  shows "package_traced (ops @ [op]) (fst (package_step op m))"
  unfolding package_traced_def
proof (intro allI impI)
  fix k r'
  assume r': "packages (fst (package_step op m)) k = Some r'"
  note call = package_call(2) [OF assms(1,3)]
  show "\<exists>p. describes_import p r' \<and> subseq (package_history k p r') (ops @ [op]) \<and>
      package_origin k p (ops @ [op]) r'"
  proof (cases "op_package op = k \<and> packages m k \<noteq> None")
    case True
    then obtain r where r: "packages m k = Some r" by auto
    with True r' call have "r' = fst (record_step op r)" by simp
    moreover have inv: "record_inv r" using packages_inv [OF assms(1) r] by simp
    moreover obtain p where "describes_import p r" "subseq (package_history k p r) ops" "package_origin k p ops r"
      using assms(2) r by (auto simp: package_traced_def)
    moreover from this(2) have "subseq (package_history k p r @ [op]) (ops @ [op])"
      by (simp add: list_emb_append_mono)
    ultimately show ?thesis
      using record_history_step [OF inv assms(3), of k p] record_origin_step [OF inv _ _ _ assms(3), of p k ops] True
      by (auto simp: describes_step intro!: exI [of _ p] intro: subseq_order.order_trans)
  next
    case False
    then have "packages m k = Some r'" using call r' by (auto split: option.splits if_splits)
    then show ?thesis using assms(2) package_trail_longer unfolding package_traced_def by blast
  qed
qed

lemma package_traced_import:
  assumes "package_inv m" "package_traced ops m"
  shows "package_traced (ops @ [PkImport p]) (fst (package_step (PkImport p) m))"
proof (cases "snd (poison_package_manager_import m p)")
  case False
  then have "fst (package_step (PkImport p) m) = m" by (simp add: import_refused)
  then show ?thesis using assms(2) package_trail_longer unfolding package_traced_def by (simp only:) blast
next
  case True
  let ?m = "fst (poison_package_manager_import m p)"
  have "poison_package_manager_import m p = (?m, True)" using True by (simp add: prod_eq_iff)
  from import_fresh [OF assms(1) this] obtain i r where
    r: "packages ?m i = Some r" "describes_import p r" "record_inv r"
      "cu_state (pt_content_update (pr_transaction r)) = PoisonContentUpdateDiscovered"
      "pt_state (pr_transaction r) = pi_previous_state p" "pt_rollback_state (pr_transaction r) = pi_previous_state p"
    and others: "\<And>k'. k' \<noteq> i \<Longrightarrow> packages ?m k' = packages m k' \<or> packages ?m k' = None"
    by blast
  have "package_history i p r = [PkImport p]"
    using r(4) record_inv_parts(1) [OF r(3)] by (simp add: package_history_def update_inv_def Let_def enum_ord)
  then have fresh: "subseq (package_history i p r) (ops @ [PkImport p])"
    by (simp add: subseq_singleton_left)
  have origin: "package_origin i p (ops @ [PkImport p]) r"
    using r(4-6) by (simp add: package_origin_def Let_def enum_ord)
  show ?thesis
    unfolding package_traced_def
  proof (intro allI impI)
    fix k r'
    assume r': "packages (fst (package_step (PkImport p) m)) k = Some r'"
    show "\<exists>q. describes_import q r' \<and> subseq (package_history k q r') (ops @ [PkImport p]) \<and>
        package_origin k q (ops @ [PkImport p]) r'"
    proof (cases "k = i")
      case True
      with r' r(1) have "r' = r" by simp
      with True r(2) fresh origin show ?thesis by blast
    next
      case False
      with r' others [of k] have "packages m k = Some r'" by auto
      then show ?thesis using assms(2) package_trail_longer unfolding package_traced_def by blast
    qed
  qed
qed

interpretation packages: traced_machine package_step package_inv package_traced
proof
  fix m ops op
  assume "package_inv m" "package_traced ops m"
  then show "package_traced (ops @ [op]) (fst (package_step op m))"
  proof (cases "is_import op")
    case False
    show ?thesis by (rule package_traced_call) fact+
  next
    case True
    then obtain p where "op = PkImport p" by (cases op) auto
    then show ?thesis using package_traced_import [OF \<open>package_inv m\<close> \<open>package_traced ops m\<close>] by simp
  qed
qed


section \<open>Saving\<close>

lemma record_persisted:
  assumes "record_inv r"
  shows "poison_package_record_persisted_valid r \<longleftrightarrow>
    \<not> (cu_state (pt_content_update (pr_transaction r)) = PoisonContentUpdateQuarantined \<and>
       pr_digest r \<noteq> cu_candidate_digest (pt_content_update (pr_transaction r)))"
proof -
  let ?u = "pt_content_update (pr_transaction r)"
  have texts: "record_texts r" and digests: "record_digests r" and u: "update_inv ?u"
    and rest: "pr_occupied r" "pt_initialized (pr_transaction r)" "cu_update_id ?u = pr_package_id r"
    using assms by (simp_all add: record_inv_def Let_def)
  have "bounded_digest (Some (cu_candidate_digest ?u))" "bounded_digest (Some (cu_previous_digest ?u))"
    using u by (simp_all add: update_inv_def)
  moreover have "pr_digest r \<in> {cu_candidate_digest ?u, cu_previous_digest ?u}"
    "pr_previous_digest r \<in> {cu_candidate_digest ?u, cu_previous_digest ?u}"
    using digests by (simp_all add: record_digests_def Let_def)
  ultimately have valid: "poison_package_digest_valid (Some (pr_digest r)) False"
    "poison_package_digest_valid (Some (pr_previous_digest r)) False"
    unfolding package_digest_bounded by auto
  have bytes: "cu_content_bytes ?u \<noteq> 0" "\<not> cu_content_bytes ?u < cu_received_bytes ?u" "cu_sequence ?u \<noteq> 0"
    using u by (simp_all add: update_inv_def not_less)
  have digest: "cu_state ?u = PoisonContentUpdateRolledBack \<longrightarrow> pr_digest r = cu_previous_digest ?u"
    "cu_state ?u < PoisonContentUpdateRolledBack \<longrightarrow> pr_digest r = cu_candidate_digest ?u"
    using digests by (simp_all add: record_digests_def Let_def)
  note texts = texts [unfolded record_texts_def]
  have "poison_package_record_persisted_valid r \<longleftrightarrow>
      \<not> ((cu_state ?u = PoisonContentUpdateRolledBack \<and> cu_previous_digest ?u \<noteq> pr_digest r) \<or>
         (cu_state ?u \<noteq> PoisonContentUpdateRolledBack \<and> cu_candidate_digest ?u \<noteq> pr_digest r))"
    unfolding poison_package_record_persisted_valid_def Let_def
    using texts valid bytes rest by simp
  then show ?thesis
    using digest by (cases "cu_state ?u") (auto simp: enum_ord)
qed

lemma package_init_run: "package_inv (run_state package_step poison_package_manager_init ops)"
  by (rule package_calls.run_keeps) (rule package_init_inv)

text \<open>What can make a record unfit for saving: the quarantine after a payload that does not verify, when the
  update of the package had been rolled back before.\<close>

definition unsaveable :: "PoisonPackageRecord \<Rightarrow> bool" where
  "unsaveable r \<longleftrightarrow> cu_state (pt_content_update (pr_transaction r)) = PoisonContentUpdateQuarantined \<and>
     pr_digest r \<noteq> cu_candidate_digest (pt_content_update (pr_transaction r))"

lemma becomes_unsaveable:
  assumes "record_inv r" "\<not> is_import op" "unsaveable (fst (record_step op r))" "\<not> unsaveable r"
  shows "(\<exists>d. op = PkVerify (op_package op) d False) \<and>
    cu_state (pt_content_update (pr_transaction r)) = PoisonContentUpdateRolledBack"
proof -
  note parts = record_inv_parts [OF assms(1)]
  have digests: "cu_state (pt_content_update (pr_transaction r)) < PoisonContentUpdateRolledBack \<Longrightarrow>
      pr_digest r = cu_candidate_digest (pt_content_update (pr_transaction r))"
    using assms(1) by (simp add: record_inv_def record_digests_def Let_def)
  show ?thesis
  proof (cases op)
    case (PkVerify i d v)
    then show ?thesis
      using assms(3,4) digests
      by (cases "cu_state (pt_content_update (pr_transaction r))")
        (auto simp: unsaveable_def with_transaction_def quarantine_transaction_def package_verify_form
          Let_def enum_ord split: if_splits)
  qed (use assms(2-4) in \<open>auto simp: unsaveable_def with_transaction_def package_receive_form package_activate_form
      package_report_form [OF parts(1)] poison_package_transition_def update_rollback_form [OF parts(1)]
      Let_def enum_ord split: if_splits\<close>)
qed

lemma unsaveable_cause:
  assumes "packages (run_state package_step poison_package_manager_init ops) k = Some r" "unsaveable r"
  shows "\<exists>before d after old. ops = before @ PkVerify k d False # after \<and>
    packages (run_state package_step poison_package_manager_init before) k = Some old \<and>
    cu_state (pt_content_update (pr_transaction old)) = PoisonContentUpdateRolledBack"
  using assms
proof (induction ops arbitrary: r rule: rev_induct)
  case Nil
  then show ?case
    by (simp add: packages_lookup poison_package_manager_init_def package_record_zero_def tbl_lookup_free)
next
  case (snoc op ops)
  let ?m = "run_state package_step poison_package_manager_init ops"
  have inv: "package_inv ?m" by (rule package_calls.run_keeps) (rule package_init_inv)
  have r: "packages (fst (package_step op ?m)) k = Some r"
    using snoc.prems(1) by (simp add: run_state_append)
  have earlier: ?case if "packages ?m k = Some old" "unsaveable old" for old
    using snoc.IH [OF that] by (metis append.assoc append_Cons)
  show ?case
  proof (cases "is_import op")
    case True
    then obtain p where op: "op = PkImport p" by (cases op) auto
    show ?thesis
    proof (cases "snd (poison_package_manager_import ?m p)")
      case False
      then show ?thesis using earlier r op snoc.prems(2) by (simp add: import_refused)
    next
      case True
      then have "poison_package_manager_import ?m p = (fst (package_step op ?m), True)"
        by (simp add: op prod_eq_iff)
      from import_fresh [OF inv this] obtain i q where
        q: "packages (fst (package_step op ?m)) i = Some q"
          "cu_state (pt_content_update (pr_transaction q)) = PoisonContentUpdateDiscovered"
        and others: "\<And>k'. k' \<noteq> i \<Longrightarrow>
          packages (fst (package_step op ?m)) k' = packages ?m k' \<or> packages (fst (package_step op ?m)) k' = None"
        by blast
      have "k \<noteq> i" using r q snoc.prems(2) by (auto simp: unsaveable_def)
      then have "packages ?m k = Some r" using others [of k] r by auto
      then show ?thesis using earlier snoc.prems(2) by blast
    qed
  next
    case False
    note call = package_call(2) [OF inv False]
    show ?thesis
    proof (cases "op_package op = k \<and> packages ?m k \<noteq> None")
      case True
      then obtain old where old: "packages ?m k = Some old" by auto
      then have new: "r = fst (record_step op old)" using True r call by simp
      have rinv: "record_inv old" using packages_inv [OF inv old] by simp
      show ?thesis
      proof (cases "unsaveable old")
        case True
        then show ?thesis using earlier old by blast
      next
        case unsafe: False
        from becomes_unsaveable [OF rinv False snoc.prems(2) [unfolded new] unsafe] obtain d where
          "op = PkVerify k d False" "cu_state (pt_content_update (pr_transaction old)) = PoisonContentUpdateRolledBack"
          using True by auto
        with old show ?thesis by blast
      qed
    next
      case other: False
      then have "packages ?m k = Some r" using call r by (auto split: option.splits if_splits)
      then show ?thesis using earlier snoc.prems(2) by blast
    qed
  qed
qed


text \<open>The exception is reached: verification may be called in any state of the package.\<close>

lemma failed_verification_unsaveable:
  assumes "package_inv m" "packages m k = Some r"
    and "cu_state (pt_content_update (pr_transaction r)) = PoisonContentUpdateRolledBack"
    and "cu_candidate_digest (pt_content_update (pr_transaction r)) \<noteq>
         cu_previous_digest (pt_content_update (pr_transaction r))"
  shows "\<exists>r'. packages (fst (package_step (PkVerify k d False) m)) k = Some r' \<and>
    \<not> poison_package_record_persisted_valid r'"
proof -
  have inv: "record_inv r" using packages_inv [OF assms(1,2)] by simp
  then have inv': "record_inv (fst (record_step (PkVerify k d False) r))" by (rule record_step_inv)
  have "pr_digest r \<noteq> cu_candidate_digest (pt_content_update (pr_transaction r))"
    using inv assms(3,4) by (auto simp: record_inv_def record_digests_def Let_def)
  then have "\<not> poison_package_record_persisted_valid (fst (record_step (PkVerify k d False) r))"
    unfolding record_persisted [OF inv'] by (simp add: with_transaction_def quarantine_transaction_def)
  moreover have "packages (fst (package_step (PkVerify k d False) m)) k =
      Some (fst (record_step (PkVerify k d False) r))"
    using package_call(2) [OF assms(1), of "PkVerify k d False"] assms(2) by simp
  ultimately show ?thesis by blast
qed

section \<open>Going back to the previous version\<close>

definition came_from :: "string \<Rightarrow> string \<Rightarrow> PoisonPackageRecord \<Rightarrow> bool" where
  "came_from v d r \<longleftrightarrow>
     (let state = cu_state (pt_content_update (pr_transaction r)) in
      (state < PoisonContentUpdateRolledBack \<longrightarrow> pr_previous_version r = v \<and> pr_previous_digest r = d) \<and>
      (state = PoisonContentUpdateRolledBack \<longrightarrow> pr_version r = v \<and> pr_digest r = d))"

lemma came_from_step:
  assumes "record_inv r" "came_from v d r" "v \<noteq> ''''"
  shows "came_from v d (fst (record_step op r))"
proof -
  note parts = record_inv_parts [OF assms(1)]
  let ?u = "pt_content_update (pr_transaction r)"
  have d: "pr_previous_digest r \<noteq> ''''"
    using assms(1) update_inv_digests [OF parts(1)]
    by (auto simp: record_inv_def record_digests_def Let_def)
  show ?thesis
  proof (cases op)
    case (PkReport i h)
    then show ?thesis
      using assms(2,3) d
      by (simp add: came_from_def with_transaction_def package_report_form [OF parts(1)] Let_def enum_ord)
  next
    case (PkRollback i e)
    then show ?thesis
      using assms(2)
      by (auto simp: came_from_def update_rollback_form [OF parts(1)] Let_def enum_ord)
  next
    case (PkReceive i n)
    then show ?thesis
      using assms(2)
      by (simp add: came_from_def with_transaction_def package_receive_form Let_def enum_ord)
  next
    case (PkVerify i dg v)
    then show ?thesis
      using assms(2)
      by (simp add: came_from_def with_transaction_def quarantine_transaction_def package_verify_form
          Let_def enum_ord)
  next
    case (PkActivate i e)
    then show ?thesis
      using assms(2)
      by (simp add: came_from_def with_transaction_def package_activate_form Let_def enum_ord)
  qed (use assms(2) in \<open>simp_all add: came_from_def with_transaction_def poison_package_transition_def Let_def\<close>)
qed

definition back_to :: "string \<Rightarrow> string \<Rightarrow> string \<Rightarrow> PoisonPackageManager \<Rightarrow> bool" where
  "back_to k v d m \<longleftrightarrow> (case packages m k of None \<Rightarrow> True | Some r \<Rightarrow> came_from v d r)"

lemma back_to_step:
  assumes "package_inv m" "back_to k v d m" "v \<noteq> ''''" "\<not> (is_import op \<and> op_package op = k)"
  shows "back_to k v d (fst (package_step op m))"
proof (cases "is_import op")
  case False
  then show ?thesis
    using assms(2,3) package_call(2) [OF assms(1) False] packages_inv [OF assms(1), of k]
    by (auto simp: back_to_def came_from_step split: option.splits)
next
  case True
  then obtain p where op: "op = PkImport p" by (cases op) auto
  show ?thesis
  proof (cases "snd (poison_package_manager_import m p)")
    case False
    then show ?thesis using assms(2) by (simp add: op import_refused)
  next
    case True
    then have "poison_package_manager_import m p = (fst (package_step op m), True)"
      by (simp add: op prod_eq_iff)
    from import_fresh [OF assms(1) this] obtain i where i: "pi_package_id p = Some i"
      and others: "\<forall>k'. k' \<noteq> i \<longrightarrow> packages (fst (package_step op m)) k' = packages m k' \<or>
        packages (fst (package_step op m)) k' = None"
      by blast
    have "k \<noteq> i" using assms(4) i by (auto simp: op)
    then have "packages (fst (package_step op m)) k = packages m k \<or> packages (fst (package_step op m)) k = None"
      by (rule others [rule_format])
    then show ?thesis using assms(2) by (elim disjE) (simp_all add: back_to_def)
  qed
qed

lemma back_to_run:
  assumes "v \<noteq> ''''" "\<forall>op \<in> set ops. \<not> (is_import op \<and> op_package op = k)"
  shows "package_inv m \<Longrightarrow> back_to k v d m \<Longrightarrow> back_to k v d (run_state package_step m ops)"
  using assms(2)
proof (induction ops arbitrary: m)
  case (Cons op ops)
  then show ?case
    using back_to_step [OF Cons.prems(1,2) assms(1), of op] package_step_inv [OF Cons.prems(1), of op]
    by simp
qed simp

text \<open>When an installed package is updated, and nothing else is imported over it, then whenever
  its record says that the update was rolled back - because the new content reported unhealthy,
  or on request - the record names the version and the digest the package had before the update.\<close>

theorem package_rollback_restores:
  fixes before later
  defines "m \<equiv> run_state package_step poison_package_manager_init before"
  assumes "poison_package_manager_find m (Some k) = Some old"
    and "pi_package_id p = Some k" "pi_previous_state p \<noteq> PoisonPackageRemoved"
    and "poison_package_manager_import m p = (m1, True)"
    and "\<forall>op \<in> set later. \<not> (is_import op \<and> op_package op = k)"
    and "poison_package_manager_find (run_state package_step m1 later) (Some k) = Some r"
    and "cu_state (pt_content_update (pr_transaction r)) = PoisonContentUpdateRolledBack"
  shows "pr_version r = pr_version old \<and> pr_digest r = pr_digest old"
proof -
  have inv: "package_inv m" unfolding m_def by (rule package_init_run)
  have old: "packages m k = Some old" using assms(2) by (simp add: packages_def)
  then have "record_inv old" using packages_inv [OF inv] by blast
  then have v: "pr_version old \<noteq> ''''"
    by (simp add: record_inv_def record_texts_def poison_package_text_valid_def Let_def)
  have "package_inv m1 \<and> back_to k (pr_version old) (pr_digest old) m1"
    by (rule import_packages [OF inv assms(5)])
      (use assms(3,4) old in \<open>simp add: back_to_def came_from_def enum_ord\<close>)
  then have "back_to k (pr_version old) (pr_digest old) (run_state package_step m1 later)"
    using back_to_run [OF v assms(6)] by blast
  then show ?thesis
    using assms(7,8) by (simp add: back_to_def came_from_def packages_def)
qed

text \<open>An import only ever touches the record of its package, except that it may take over the
  record of one package that counts as removed; every other package is found as before.\<close>

theorem package_import_touches_own_record:
  fixes before
  defines "m \<equiv> run_state package_step poison_package_manager_init before"
  assumes "poison_package_manager_import m p = (m', True)" and "pi_package_id p \<noteq> Some k"
    and "poison_package_manager_find m (Some k) = Some r"
    and "pt_state (pr_transaction r) \<noteq> PoisonPackageRemoved"
  shows "poison_package_manager_find m' (Some k) = Some r"
proof -
  have inv: "package_inv m" unfolding m_def by (rule package_init_run)
  show ?thesis
  proof (rule import_packages [OF inv assms(2)], goal_cases)
    case (1 i q)
    have "k \<noteq> i" using 1(1) assms(3) by auto
    from 1(12) [OF this] assms(4,5) show ?case by (auto simp: packages_def)
  qed
qed

section \<open>An installation goes through\<close>

lemma calls_run:
  assumes "package_inv m" "packages m k = Some r" "\<forall>op \<in> set ops. \<not> is_import op \<and> op_package op = k"
  shows "packages (run_state package_step m ops) k = Some (run_state record_step r ops) \<and>
    package_inv (run_state package_step m ops)"
  using assms
proof (induction ops arbitrary: m r)
  case (Cons op ops)
  have op: "\<not> is_import op" "op_package op = k" using Cons.prems(3) by simp_all
  note call = package_call [OF Cons.prems(1) op(1)]
  show ?case
    using Cons.IH [OF call(1), of "fst (record_step op r)"] call(2) Cons.prems(2,3) op(2) by simp
qed simp

lemma receive_chunks:
  assumes "record_inv r" "cu_state (pt_content_update (pr_transaction r)) \<le> PoisonContentUpdateReceiving"
    and "cs \<noteq> []" "\<forall>c \<in> set cs. c \<noteq> 0"
    and "unat (cu_received_bytes (pt_content_update (pr_transaction r))) + sum_list (map unat cs) =
         unat (cu_content_bytes (pt_content_update (pr_transaction r)))"
  shows "\<exists>t. run_state record_step r (map (PkReceive k) cs) = r \<lparr> pr_transaction := t \<rparr> \<and>
    pt_state t = PoisonPackageStaged \<and> cu_state (pt_content_update t) = PoisonContentUpdateStaged \<and>
    pt_initialized t \<and> same_texts (pt_content_update (pr_transaction r)) (pt_content_update t)"
  using assms
proof (induction cs arbitrary: r)
  case (Cons c cs)
  let ?t = "pr_transaction r" and ?u = "pt_content_update (pr_transaction r)"
  note parts = record_inv_parts [OF Cons.prems(1)]
  have "cu_received_bytes ?u \<le> cu_content_bytes ?u" using parts(1) by (simp add: update_inv_def)
  moreover have "unat (cu_received_bytes ?u) + unat c \<le> unat (cu_content_bytes ?u)"
    using Cons.prems(5) by simp
  ultimately have fits: "\<not> c > cu_content_bytes ?u - cu_received_bytes ?u"
    "unat (cu_received_bytes ?u + c) = unat (cu_received_bytes ?u) + unat c"
    using received_no_wrap(2) [of "cu_received_bytes ?u" "cu_content_bytes ?u" c]
    by (auto simp: word_less_nat_alt word_le_nat_alt unat_sub)
  let ?r = "fst (record_step (PkReceive k c) r)"
  have state: "cu_state ?u = PoisonContentUpdateDiscovered \<or> cu_state ?u = PoisonContentUpdateReceiving"
    using Cons.prems(2) by (cases "cu_state ?u") (simp_all add: enum_ord)
  have c: "c \<noteq> 0" "cu_content_bytes ?u \<noteq> 0" "\<not> cu_received_bytes ?u > cu_content_bytes ?u"
    using Cons.prems(4) parts(1) by (auto simp: update_inv_def not_less)
  show ?case
  proof (cases "cs = []")
    case True
    then have "cu_received_bytes ?u + c = cu_content_bytes ?u"
      using fits(2) Cons.prems(5) by (simp add: word_unat_eq_iff)
    then show ?thesis
      using True state fits(1) c parts(2)
      by (intro exI [of _ "pr_transaction ?r"])
        (auto simp: with_transaction_def package_receive_form same_texts_def Let_def)
  next
    case False
    then obtain d ds where cs: "cs = d # ds" by (cases cs) auto
    then have "0 < sum_list (map unat cs)" using Cons.prems(4) by (simp add: unat_gt_0)
    then have neq: "cu_received_bytes ?u + c \<noteq> cu_content_bytes ?u"
      using fits(2) Cons.prems(5) by auto
    have r: "?r = r \<lparr> pr_transaction := pr_transaction ?r \<rparr>"
      "cu_state (pt_content_update (pr_transaction ?r)) = PoisonContentUpdateReceiving"
      "cu_received_bytes (pt_content_update (pr_transaction ?r)) = cu_received_bytes ?u + c"
      "cu_content_bytes (pt_content_update (pr_transaction ?r)) = cu_content_bytes ?u"
      "same_texts ?u (pt_content_update (pr_transaction ?r))"
      using neq state fits(1) c parts(2)
      by (auto simp: with_transaction_def package_receive_form same_texts_def Let_def)
    have "record_inv ?r" by (rule record_step_inv) (rule Cons.prems(1))
    from Cons.IH [OF this _ False] r Cons.prems(4,5) fits(2) obtain t where
      t: "run_state record_step ?r (map (PkReceive k) cs) = ?r \<lparr> pr_transaction := t \<rparr>"
        "pt_state t = PoisonPackageStaged" "cu_state (pt_content_update t) = PoisonContentUpdateStaged"
        "pt_initialized t" "same_texts (pt_content_update (pr_transaction ?r)) (pt_content_update t)"
      by auto
    have "?r \<lparr> pr_transaction := t \<rparr> = r \<lparr> pr_transaction := t \<rparr>"
      by (subst r(1)) simp
    then show ?thesis
      using t r(5) by (intro exI [of _ t]) (simp add: same_texts_def)
  qed
qed simp

text \<open>A new package with a valid manifest finds a record as long as one is free.\<close>

definition new_package_ok :: "PoisonPackageImport \<Rightarrow> bool" where
  "new_package_ok p \<longleftrightarrow>
     package_import_valid p \<and> bounded_id (pi_package_id p) \<and>
     pi_previous_state p = PoisonPackageRemoved \<and> pi_previous_version p = Some '''' \<and>
     pi_previous_digest p = Some '''' \<and> pi_candidate_digest p \<noteq> Some absent_digest \<and>
     pi_release_sequence p \<noteq> 0 \<and> pi_content_bytes p \<le> ucast (pi_available_storage_bytes p)"

lemma parse_range: "poison_package_content_type_parse c = Some ty \<Longrightarrow>
    ty \<noteq> PoisonContentUpdateTypeCount \<and> ty \<noteq> PoisonContentUpdateFirmware"
  by (auto simp: poison_package_content_type_parse_def split: option.splits if_splits)

lemma absent_digest_bounded: "bounded_digest (Some absent_digest)"
  by (simp add: absent_digest_def sample_texts)

lemma import_new:
  assumes "new_package_ok p" "pi_package_id p = Some k"
    and "poison_package_manager_find m (Some k) = None" "\<exists>r \<in> set (pm_records m). \<not> pr_occupied r"
  shows "snd (poison_package_manager_import m p)"
proof -
  from assms(4) obtain i where i: "find_index (\<lambda>r. \<not> pr_occupied r) (pm_records m) = Some i"
    unfolding find_index_ex by blast
  have "poison_package_manager_find_mutable m (Some k) = None"
    using assms(3) by (simp add: package_find_none)
  then have slot: "package_import_slot m p = Some (i, False)"
    using assms(1,2) i by (simp add: package_import_slot_def new_package_ok_def Let_def)
  have valid: "package_import_valid p" using assms(1) by (simp add: new_package_ok_def)
  obtain ty where ty: "poison_package_content_type_parse (pi_content_type p) = Some ty"
    using valid by (auto simp: package_import_valid_def)
  have digests: "bounded_digest (pi_candidate_digest p)"
    using valid by (simp add: package_import_valid_def package_digest_bounded)
  have "snd (poison_content_update_admit content_update_zero (package_import_manifest p absent_digest)
      (package_import_environment p 0)) = PoisonContentUpdateAdmissionOk"
    using assms(1) valid ty parse_range [OF ty] digests absent_digest_bounded
    by (simp add: poison_content_update_admit_def poison_content_update_begin_def
        package_import_manifest_def package_import_environment_def new_package_ok_def
        package_import_valid_def not_less word_gt_0)
  then have "snd (poison_package_transaction_begin transaction_zero (package_import_manifest p absent_digest)
      (package_import_environment p 0) (pi_previous_state p) (pi_protected_package p)) =
      PoisonContentUpdateAdmissionOk"
    using assms(1) ty parse_range [OF ty]
    by (simp add: poison_package_transaction_begin_def package_import_manifest_def new_package_ok_def split_beta)
  then show ?thesis
    using slot valid by (simp add: poison_package_manager_import_def split_beta Let_def)
qed

text \<open>A candidate that was just imported reaches the point where only its health report is missing.\<close>

definition install_calls :: "string \<Rightarrow> u32 list \<Rightarrow> string \<Rightarrow> PackageOp list" where
  "install_calls k chunks d = map (PkReceive k) chunks @ [PkVerify k (Some d) True, PkActivate k True]"

lemma activation_run:
  assumes "package_inv m" "packages m k = Some r"
    and "cu_state (pt_content_update (pr_transaction r)) = PoisonContentUpdateDiscovered"
    and "cu_received_bytes (pt_content_update (pr_transaction r)) = 0"
    and "cu_candidate_digest (pt_content_update (pr_transaction r)) = d"
    and "\<forall>c \<in> set chunks. c \<noteq> 0" "chunks \<noteq> []"
    and "sum_list (map unat chunks) = unat (cu_content_bytes (pt_content_update (pr_transaction r)))"
  shows "\<exists>t. packages (run_state package_step m (install_calls k chunks d)) k = Some (r \<lparr> pr_transaction := t \<rparr>) \<and>
    package_inv (run_state package_step m (install_calls k chunks d)) \<and> pt_initialized t \<and>
    cu_state (pt_content_update t) = PoisonContentUpdateActivating"
proof -
  let ?u = "pt_content_update (pr_transaction r)"
  have "record_inv r" using packages_inv [OF assms(1,2)] by blast
  from receive_chunks [OF this _ assms(7,6), of k] assms(3,4,8) obtain t where
    t: "run_state record_step r (map (PkReceive k) chunks) = r \<lparr> pr_transaction := t \<rparr>"
      "pt_state t = PoisonPackageStaged" "cu_state (pt_content_update t) = PoisonContentUpdateStaged"
      "pt_initialized t" "same_texts ?u (pt_content_update t)"
    by (auto simp: enum_ord)
  let ?r = "r \<lparr> pr_transaction := t \<rparr>"
  have run: "packages (run_state package_step m (map (PkReceive k) chunks)) k = Some ?r"
    "package_inv (run_state package_step m (map (PkReceive k) chunks))"
    using calls_run [OF assms(1,2), of "map (PkReceive k) chunks"] t(1) by auto
  then have rinv: "record_inv ?r" using packages_inv by blast
  have d: "cu_candidate_digest (pt_content_update t) = d" "bounded_digest (Some d)"
    using t(5) assms(5) record_inv_parts(1) [OF rinv] by (auto simp: same_texts_def update_inv_def)
  let ?v = "fst (record_step (PkVerify k (Some d) True) ?r)"
  have v: "?v = r \<lparr> pr_transaction := t \<lparr> pt_state := PoisonPackageVerified,
      pt_content_update := (pt_content_update t) \<lparr> cu_payload_verified := True,
        cu_state := PoisonContentUpdateVerified \<rparr> \<rparr> \<rparr>"
    using t(2-4) d by (simp add: with_transaction_def package_verify_form Let_def)
  let ?a = "fst (record_step (PkActivate k True) ?v)"
  have a: "?a = r \<lparr> pr_transaction := t \<lparr> pt_state := PoisonPackageVerified,
      pt_content_update := (pt_content_update t) \<lparr> cu_payload_verified := True,
        cu_confirmation_authorized := True, cu_state := PoisonContentUpdateActivating \<rparr> \<rparr> \<rparr>"
    using t(4) record_inv_parts(1) [OF rinv] update_inv_digests [OF record_inv_parts(1) [OF rinv]]
    unfolding v by (simp add: with_transaction_def package_activate_form Let_def update_inv_def)
  have "packages (run_state package_step m (install_calls k chunks d)) k = Some ?a \<and>
      package_inv (run_state package_step m (install_calls k chunks d))"
    using calls_run [OF run(2,1), of "[PkVerify k (Some d) True, PkActivate k True]"]
    by (simp add: install_calls_def run_state_append del: record_step.simps package_step.simps)
  then show ?thesis
    using t(4) by (intro exI [of _ "pr_transaction ?a"]) (simp only: a, simp)
qed

lemma install_run:
  fixes before chunks
  defines "m \<equiv> run_state package_step poison_package_manager_init before"
  assumes "new_package_ok p" and "pi_package_id p = Some k" and "pi_candidate_digest p = Some d"
    and "poison_package_manager_find m (Some k) = None" and "\<exists>r \<in> set (pm_records m). \<not> pr_occupied r"
    and "\<forall>c \<in> set chunks. c \<noteq> 0" and "sum_list (map unat chunks) = unat (pi_content_bytes p)"
  shows "\<exists>r. packages (run_state package_step m ([PkImport p] @ map (PkReceive k) chunks @
       [PkVerify k (Some d) True, PkActivate k True, PkReport k True])) k = Some r \<and>
     pi_content_type p = Some (pr_content_type r) \<and> pt_state (pr_transaction r) = PoisonPackageActive \<and>
     cu_state (pt_content_update (pr_transaction r)) = PoisonContentUpdateHealthy"
proof -
  have inv: "package_inv m" unfolding m_def by (rule package_init_run)
  let ?m1 = "fst (package_step (PkImport p) m)"
  have imported: "poison_package_manager_import m p = (?m1, True)"
    using import_new [OF assms(2,3,5,6)] by (simp add: prod_eq_iff)
  obtain r where r: "package_inv ?m1" "packages ?m1 k = Some r" "describes_import p r"
    "cu_state (pt_content_update (pr_transaction r)) = PoisonContentUpdateDiscovered"
    "cu_received_bytes (pt_content_update (pr_transaction r)) = 0"
    by (rule import_packages [OF inv imported]) (use assms(3) that in auto)
  have nonzero: "pi_content_bytes p \<noteq> 0"
    using assms(2) by (simp add: new_package_ok_def package_import_valid_def)
  then have "chunks \<noteq> []" using assms(8) by (auto simp: unat_eq_0)
  from activation_run [OF r(1,2,4,5) _ assms(7) this, of d] r(3) assms(4,8) obtain t where
    t: "packages (run_state package_step ?m1 (install_calls k chunks d)) k = Some (r \<lparr> pr_transaction := t \<rparr>)"
    "package_inv (run_state package_step ?m1 (install_calls k chunks d))" "pt_initialized t"
    "cu_state (pt_content_update t) = PoisonContentUpdateActivating"
    by (auto simp: describes_import_def)
  let ?r = "r \<lparr> pr_transaction := t \<rparr>"
  have "packages (run_state package_step m ([PkImport p] @ map (PkReceive k) chunks @
       [PkVerify k (Some d) True, PkActivate k True, PkReport k True])) k =
      Some (fst (record_step (PkReport k True) ?r))"
    using calls_run [OF t(2,1), of "[PkReport k True]"]
    by (simp add: install_calls_def run_state_append del: record_step.simps package_step.simps)
  moreover have "update_inv (pt_content_update t)"
    using packages_inv [OF t(2,1)] record_inv_parts(1) [of ?r] by simp
  ultimately show ?thesis
    using t(3,4) r(3) by (simp add: with_transaction_def package_report_form describes_import_def)
qed

text \<open>C23: an installation goes through: in any reachable state with a free record, a new package
  with a valid manifest is imported, received in any non-empty chunks that add up to its size,
  verified, activated on confirmation and, once it reports healthy, active.\<close>

theorem package_install_goes_through:
  fixes before chunks
  defines "m \<equiv> run_state package_step poison_package_manager_init before"
  assumes "new_package_ok p" and "pi_package_id p = Some k" and "pi_candidate_digest p = Some d"
    and "poison_package_manager_find m (Some k) = None" and "\<exists>r \<in> set (pm_records m). \<not> pr_occupied r"
    and "\<forall>c \<in> set chunks. c \<noteq> 0" and "sum_list (map unat chunks) = unat (pi_content_bytes p)"
  shows "poison_package_manager_active_content
    (run_state package_step m ([PkImport p] @ map (PkReceive k) chunks @
       [PkVerify k (Some d) True, PkActivate k True, PkReport k True])) (Some k) (pi_content_type p)"
proof -
  from install_run [OF assms(2-5) [unfolded m_def] assms(6) [unfolded m_def] assms(7,8)]
  show ?thesis
    by (auto simp: m_def poison_package_manager_active_content_def packages_def)
qed

section \<open>A sample package\<close>

definition sample_import :: PoisonPackageImport where
  "sample_import = \<lparr> pi_content_type = Some ''application'', pi_package_id = Some ''maps'',
     pi_version = Some ''1'', pi_previous_version = Some '''',
     pi_candidate_digest = Some (replicate 64 (CHR ''a'')), pi_previous_digest = Some '''',
     pi_signing_key_id = Some ''key'', pi_manifest_path = Some ''/ext/apps/.staging/maps'',
     pi_entrypoint = Some ''main.js'', pi_capability_mask = 0, pi_release_sequence = 1,
     pi_content_bytes = 3, pi_hardware_target = 7, pi_firmware_api = 1,
     pi_highest_release_sequence = 0, pi_available_storage_bytes = 100, pi_previous_state = PoisonPackageRemoved,
     pi_protected_package = False, pi_confirmation_required = True, pi_manifest_verified = True \<rparr>"

definition sample_upgrade :: PoisonPackageImport where
  "sample_upgrade = sample_import \<lparr> pi_version := Some ''2'', pi_previous_version := Some ''1'',
     pi_candidate_digest := Some (replicate 64 (CHR ''0'')),
     pi_previous_digest := Some (replicate 64 (CHR ''a'')), pi_release_sequence := 2,
     pi_previous_state := PoisonPackageActive \<rparr>"

definition sample_install :: "PackageOp list" where
  "sample_install = [PkImport sample_import, PkReceive ''maps'' 1, PkReceive ''maps'' 2,
     PkVerify ''maps'' (Some (replicate 64 (CHR ''a''))) True, PkActivate ''maps'' True,
     PkReport ''maps'' True]"

lemma sample_valid: "package_import_valid sample_import" "package_import_valid sample_upgrade"
  "new_package_ok sample_import"
  "new_package_ok (sample_import \<lparr> pi_package_id := Some ''notes'' \<rparr>)"
  using sample_texts
  by (simp_all add: package_import_valid_def sample_import_def sample_upgrade_def new_package_ok_def
      poison_package_content_type_parse_def poison_package_id_valid_def poison_package_text_valid_def
      poison_package_manifest_path_valid_def package_digest_bounded package_digest_optional
      isalnum_def lower_or_digit_def of_char_def absent_digest_def bounded_id_def)

lemma sample_start:
  "poison_package_manager_find poison_package_manager_init (Some k) = None"
  "\<exists>r \<in> set (pm_records poison_package_manager_init). \<not> pr_occupied r"
  by (simp_all add: package_find_lookup poison_package_manager_init_def package_record_zero_def
      tbl_lookup_free)

lemma sample_fields:
  "pi_package_id sample_import = Some ''maps''" "pi_content_type sample_import = Some ''application''"
  "pi_candidate_digest sample_import = Some (replicate 64 (CHR ''a''))" "pi_content_bytes sample_import = 3"
  "pi_confirmation_required sample_import"
  by (simp_all add: sample_import_def)

lemma sample_install_list:
  "sample_install = [PkImport sample_import] @ map (PkReceive ''maps'') [1, 2] @
     [PkVerify ''maps'' (Some (replicate 64 (CHR ''a''))) True, PkActivate ''maps'' True, PkReport ''maps'' True]"
  by (simp add: sample_install_def)

lemma package_install_goes_through_witness:
  "poison_package_manager_active_content
     (run_state package_step poison_package_manager_init sample_install) (Some ''maps'') (Some ''application'')"
proof -
  have "sum_list (map unat [1 :: u32, 2]) = unat (pi_content_bytes sample_import)"
    by (simp add: sample_fields)
  from package_install_goes_through [OF sample_valid(3) sample_fields(1,3), of "[]" "[1, 2]", OF _ _ _ this]
  show ?thesis
    unfolding sample_install_list using sample_start
    by (simp add: sample_fields(2) del: package_step.simps)
qed

lemma sample_installed:
  "\<exists>r. packages (run_state package_step poison_package_manager_init sample_install) ''maps'' = Some r \<and>
     ''application'' = pr_content_type r \<and> pt_state (pr_transaction r) = PoisonPackageActive \<and>
     cu_state (pt_content_update (pr_transaction r)) = PoisonContentUpdateHealthy"
proof -
  have "sum_list (map unat [1 :: u32, 2]) = unat (pi_content_bytes sample_import)"
    by (simp add: sample_fields)
  from install_run [OF sample_valid(3) sample_fields(1,3), of "[]" "[1, 2]", OF _ _ _ this]
  show ?thesis
    unfolding sample_install_list using sample_start
    by (simp add: sample_fields(2) del: package_step.simps)
qed


text \<open>The record of the sample package as imported and as installed.\<close>

definition sample_record :: "PoisonPackageState \<Rightarrow> PoisonContentUpdate \<Rightarrow> PoisonPackageRecord" where
  "sample_record s u = \<lparr> pr_occupied = True, pr_content_type = ''application'', pr_package_id = ''maps'',
     pr_version = ''1'', pr_previous_version = '''', pr_digest = replicate 64 (CHR ''a''),
     pr_previous_digest = replicate 64 (CHR ''0''), pr_signing_key_id = ''key'',
     pr_manifest_path = ''/ext/apps/.staging/maps'', pr_entrypoint = ''main.js'',
     pr_capability_mask = 0, pr_confirmation_required = True,
     pr_transaction = \<lparr> pt_state = s, pt_rollback_state = PoisonPackageRemoved,
       pt_protected_package = False, pt_initialized = True, pt_content_update = u \<rparr> \<rparr>"

definition sample_app_update :: PoisonContentUpdate where
  "sample_app_update = \<lparr> cu_update_id = ''maps'', cu_candidate_digest = replicate 64 (CHR ''a''),
     cu_previous_digest = replicate 64 (CHR ''0''), cu_state = PoisonContentUpdateDiscovered,
     cu_content_type = PoisonContentUpdateApplication, cu_sequence = 1, cu_content_bytes = 3,
     cu_received_bytes = 0, cu_rollback_available = True, cu_confirmation_required = False,
     cu_confirmation_authorized = False, cu_payload_verified = False, cu_health_reported = False \<rparr>"

lemma sample_import_records:
  "pm_records (fst (package_step (PkImport sample_import) poison_package_manager_init)) =
     sample_record PoisonPackageRemoved sample_app_update # replicate 7 package_record_zero"
proof -
  have init: "pm_records poison_package_manager_init = package_record_zero # replicate 7 package_record_zero"
    by (simp add: poison_package_manager_init_def eval_nat_numeral)
  have none: "poison_package_manager_find_mutable poison_package_manager_init (Some ''maps'') = None"
    using sample_start(1) by (simp add: package_find_none)
  have parse: "poison_package_content_type_parse (Some ''application'') = Some PoisonContentUpdateApplication"
    by (simp add: poison_package_content_type_parse_def)
  have "package_import_slot poison_package_manager_init sample_import = Some (0, False)"
    using none by (simp add: package_import_slot_def sample_import_def init package_record_zero_def Let_def)
  then show ?thesis
    using sample_valid(1) sample_texts
    by (simp add: poison_package_manager_import_def poison_package_transaction_begin_def init parse
        poison_content_update_admit_def poison_content_update_begin_def content_update_zero_def
        package_import_manifest_def package_import_environment_def sample_import_def absent_digest_def
        poison_content_update_requires_confirmation_def sample_record_def sample_app_update_def Let_def)
qed

lemma sample_calls_record:
  "run_state record_step (sample_record PoisonPackageRemoved sample_app_update) (tl sample_install) =
     sample_record PoisonPackageActive (sample_app_update \<lparr> cu_state := PoisonContentUpdateHealthy,
       cu_received_bytes := 3, cu_confirmation_authorized := True, cu_payload_verified := True,
       cu_health_reported := True \<rparr>)"
  using sample_texts
  by (simp add: sample_install_def sample_record_def sample_app_update_def with_transaction_def
      package_receive_form package_verify_form package_activate_form poison_package_report_health_def
      update_ops Let_def)

lemma sample_packages:
  "packages (run_state package_step poison_package_manager_init sample_install) ''maps'' =
     Some (sample_record PoisonPackageActive (sample_app_update \<lparr> cu_state := PoisonContentUpdateHealthy,
       cu_received_bytes := 3, cu_confirmation_authorized := True, cu_payload_verified := True,
       cu_health_reported := True \<rparr>))"
proof -
  let ?m = "fst (package_step (PkImport sample_import) poison_package_manager_init)"
  have "package_inv ?m" by (rule package_step_inv) (rule package_init_inv)
  moreover have "packages ?m ''maps'' = Some (sample_record PoisonPackageRemoved sample_app_update)"
    by (simp add: packages_lookup sample_import_records del: package_step.simps)
      (simp add: sample_record_def)
  moreover have "\<forall>op \<in> set (tl sample_install). \<not> is_import op \<and> op_package op = ''maps''"
    by (simp add: sample_install_def)
  moreover have "run_state package_step poison_package_manager_init sample_install =
      run_state package_step ?m (tl sample_install)"
    by (simp add: sample_install_def)
  ultimately show ?thesis
    using calls_run [of ?m "''maps''" "sample_record PoisonPackageRemoved sample_app_update" "tl sample_install"]
    by (simp add: sample_calls_record del: package_step.simps)
qed

text \<open>The record an upgrade of an installed package writes.\<close>

lemma import_over:
  assumes "packages m k = Some old" "pi_package_id p = Some k" "package_import_valid p"
    and "pt_state (pr_transaction old) \<noteq> PoisonPackageRemoved"
    and "pt_state (pr_transaction old) = pi_previous_state p"
    and "Some (pr_content_type old) = pi_content_type p" "Some (pr_version old) = pi_previous_version p"
    and "Some (pr_digest old) = pi_previous_digest p" "Some (pr_digest old) \<noteq> pi_candidate_digest p"
    and "snd (poison_package_transaction_begin transaction_zero (package_import_manifest p (pr_digest old))
      (package_import_environment p (cu_sequence (pt_content_update (pr_transaction old))))
      (pi_previous_state p) (pi_protected_package p)) = PoisonContentUpdateAdmissionOk"
  shows "snd (poison_package_manager_import m p)"
proof -
  obtain i where i: "poison_package_manager_find_mutable m (Some k) = Some i"
    using assms(1) package_find_none [of m k]
    by (cases "poison_package_manager_find_mutable m (Some k)") (simp_all add: packages_def)
  then have old: "pm_records m ! i = old"
    using package_find_index(1) [OF i] assms(1) by (simp add: packages_def)
  then have "package_import_slot m p = Some (i, True)"
    using i assms(2,4-9) by (simp add: package_import_slot_def Let_def)
  then show ?thesis
    using assms(3,10) old by (simp add: poison_package_manager_import_def split_beta Let_def)
qed

lemma sample_upgrade_ok:
  "snd (poison_package_manager_import (run_state package_step poison_package_manager_init sample_install)
     sample_upgrade)"
proof -
  have parse: "poison_package_content_type_parse (Some ''application'') = Some PoisonContentUpdateApplication"
    by (simp add: poison_package_content_type_parse_def)
  show ?thesis
    by (rule import_over [OF sample_packages])
      (use sample_valid(2) sample_texts in \<open>simp_all add: sample_upgrade_def sample_import_def sample_record_def
        sample_app_update_def poison_package_transaction_begin_def parse poison_content_update_admit_def
        poison_content_update_begin_def package_import_manifest_def package_import_environment_def
        word_le_nat_alt\<close>)
qed

text \<open>The package is upgraded, the new version reports unhealthy and the update is rolled back.\<close>

lemma sample_rolled_back:
  defines "m \<equiv> run_state package_step poison_package_manager_init sample_install"
  shows "\<exists>r. packages (run_state package_step (fst (poison_package_manager_import m sample_upgrade))
      (install_calls ''maps'' [3] (replicate 64 (CHR ''0'')) @ [PkReport ''maps'' False])) ''maps'' = Some r \<and>
    cu_state (pt_content_update (pr_transaction r)) = PoisonContentUpdateRolledBack"
proof -
  let ?m1 = "fst (poison_package_manager_import m sample_upgrade)" and ?d = "replicate 64 (CHR ''0'')"
  have fields: "pi_package_id sample_upgrade = Some ''maps''" "pi_candidate_digest sample_upgrade = Some ?d"
    "pi_content_bytes sample_upgrade = 3" "pi_previous_digest sample_upgrade = Some (replicate 64 (CHR ''a''))"
    by (simp_all add: sample_upgrade_def sample_import_def)
  have "package_inv m" unfolding m_def by (rule package_init_run)
  moreover have "poison_package_manager_import m sample_upgrade = (?m1, True)"
    using sample_upgrade_ok by (simp add: prod_eq_iff m_def)
  ultimately obtain r where r: "package_inv ?m1" "packages ?m1 ''maps'' = Some r" "describes_import sample_upgrade r"
    "cu_state (pt_content_update (pr_transaction r)) = PoisonContentUpdateDiscovered"
    "cu_received_bytes (pt_content_update (pr_transaction r)) = 0"
    by (rule import_packages) (use fields(1) that in auto)
  from activation_run [OF r(1,2,4,5), of ?d "[3]"] r(3) fields obtain t where
    t: "packages (run_state package_step ?m1 (install_calls ''maps'' [3] ?d)) ''maps'' =
      Some (r \<lparr> pr_transaction := t \<rparr>)"
    "package_inv (run_state package_step ?m1 (install_calls ''maps'' [3] ?d))" "pt_initialized t"
    "cu_state (pt_content_update t) = PoisonContentUpdateActivating"
    by (auto simp: describes_import_def)
  have inv: "update_inv (pt_content_update t)"
    using packages_inv [OF t(2,1)] record_inv_parts(1) [of "r \<lparr> pr_transaction := t \<rparr>"] by simp
  from calls_run [OF t(2,1), of "[PkReport ''maps'' False]"]
  have "packages (run_state package_step ?m1 (install_calls ''maps'' [3] ?d @ [PkReport ''maps'' False])) ''maps'' =
      Some (fst (record_step (PkReport ''maps'' False) (r \<lparr> pr_transaction := t \<rparr>)))"
    by (simp add: run_state_append del: record_step.simps package_step.simps)
  then show ?thesis
    using t(3,4) package_report_form [OF inv] by (simp add: with_transaction_def)
qed

lemma package_rollback_restores_witness:
  "\<exists>old r ops. packages (run_state package_step poison_package_manager_init sample_install) ''maps'' = Some old \<and>
     packages (run_state package_step poison_package_manager_init (sample_install @ PkImport sample_upgrade # ops))
       ''maps'' = Some r \<and>
     cu_state (pt_content_update (pr_transaction r)) = PoisonContentUpdateRolledBack \<and>
     pr_version r = pr_version old \<and> pr_digest r = pr_digest old"
proof -
  let ?m = "run_state package_step poison_package_manager_init sample_install"
  let ?m1 = "fst (poison_package_manager_import ?m sample_upgrade)"
  let ?ops = "install_calls ''maps'' [3] (replicate 64 (CHR ''0'')) @ [PkReport ''maps'' False]"
  obtain old where old: "packages ?m ''maps'' = Some old" using sample_packages by blast
  obtain r where r: "packages (run_state package_step ?m1 ?ops) ''maps'' = Some r"
    "cu_state (pt_content_update (pr_transaction r)) = PoisonContentUpdateRolledBack"
    using sample_rolled_back by blast
  have upgrade: "poison_package_manager_import ?m sample_upgrade = (?m1, True)"
    using sample_upgrade_ok by (simp add: prod_eq_iff)
  have "pi_package_id sample_upgrade = Some ''maps''" "pi_previous_state sample_upgrade \<noteq> PoisonPackageRemoved"
    by (simp_all add: sample_upgrade_def sample_import_def)
  moreover have "\<forall>op \<in> set ?ops. \<not> (is_import op \<and> op_package op = ''maps'')"
    by (simp add: install_calls_def)
  ultimately have "pr_version r = pr_version old \<and> pr_digest r = pr_digest old"
    using package_rollback_restores [OF old [unfolded packages_def] _ _ upgrade _ r(1) [unfolded packages_def] r(2)]
    by blast
  then show ?thesis
    using old r by (intro exI [of _ old] exI [of _ r] exI [of _ ?ops]) (simp add: run_state_append)
qed

text \<open>Another package is imported while the sample package is staged.\<close>

lemma sample_staged:
  defines "m \<equiv> run_state package_step poison_package_manager_init [PkImport sample_import, PkReceive ''maps'' 3]"
  shows "\<exists>r. poison_package_manager_find m (Some ''maps'') = Some r \<and>
      pt_state (pr_transaction r) = PoisonPackageStaged"
    "poison_package_manager_find m (Some ''notes'') = None"
    "\<exists>r \<in> set (pm_records m). \<not> pr_occupied r"
proof -
  let ?m1 = "fst (package_step (PkImport sample_import) poison_package_manager_init)"
  let ?R = "sample_record PoisonPackageRemoved sample_app_update"
  have "poison_package_manager_find_mutable ?m1 (Some ''maps'') = Some 0"
    using sample_texts
    by (simp add: poison_package_manager_find_mutable_def sample_import_records sample_record_def
        del: package_step.simps)
  then have "pm_records m = fst (record_step (PkReceive ''maps'' 3) ?R) # replicate 7 package_record_zero"
    unfolding m_def
    by (simp add: package_step_record sample_import_records del: package_step.simps record_step.simps)
  moreover have "fst (record_step (PkReceive ''maps'' 3) ?R) = sample_record PoisonPackageStaged
      (sample_app_update \<lparr> cu_state := PoisonContentUpdateStaged, cu_received_bytes := 3 \<rparr>)"
    by (simp add: sample_record_def sample_app_update_def with_transaction_def package_receive_form Let_def)
  ultimately have records: "pm_records m = sample_record PoisonPackageStaged
      (sample_app_update \<lparr> cu_state := PoisonContentUpdateStaged, cu_received_bytes := 3 \<rparr>) #
      replicate 7 package_record_zero"
    by simp
  show "\<exists>r. poison_package_manager_find m (Some ''maps'') = Some r \<and>
      pt_state (pr_transaction r) = PoisonPackageStaged"
    "poison_package_manager_find m (Some ''notes'') = None"
    "\<exists>r \<in> set (pm_records m). \<not> pr_occupied r"
    using sample_texts
    by (simp_all add: package_find_lookup records sample_record_def package_record_zero_def tbl_lookup_free)
qed

lemma package_import_touches_own_record_witness:
  "\<exists>r p m'. poison_package_manager_find
       (run_state package_step poison_package_manager_init [PkImport sample_import, PkReceive ''maps'' 3])
       (Some ''maps'') = Some r \<and>
     poison_package_manager_import
       (run_state package_step poison_package_manager_init [PkImport sample_import, PkReceive ''maps'' 3]) p =
       (m', True) \<and>
     pi_package_id p = Some ''notes'' \<and> poison_package_manager_find m' (Some ''maps'') = Some r"
proof -
  let ?m = "run_state package_step poison_package_manager_init [PkImport sample_import, PkReceive ''maps'' 3]"
  let ?p = "sample_import \<lparr> pi_package_id := Some ''notes'' \<rparr>"
  let ?m' = "fst (poison_package_manager_import ?m ?p)"
  obtain r where r: "poison_package_manager_find ?m (Some ''maps'') = Some r"
    "pt_state (pr_transaction r) = PoisonPackageStaged"
    using sample_staged(1) by blast
  have "snd (poison_package_manager_import ?m ?p)"
    by (rule import_new [OF sample_valid(4) _ sample_staged(2,3)]) simp
  then have imported: "poison_package_manager_import ?m ?p = (?m', True)" by (simp add: prod_eq_iff)
  have "pi_package_id ?p \<noteq> Some ''maps''" "pt_state (pr_transaction r) \<noteq> PoisonPackageRemoved"
    using r(2) by simp_all
  then have "poison_package_manager_find ?m' (Some ''maps'') = Some r"
    by (rule package_import_touches_own_record [OF imported _ r(1)])
  then show ?thesis
    using r(1) imported by (intro exI [of _ r] exI [of _ ?p] exI [of _ ?m']) simp
qed

end
