(* ===== verification/PackageAuthority.thy ===== *)
theory PackageAuthority
  imports PackageManager Tables
begin

text \<open>The authorities whose signatures packages and content updates must carry
  (\<open>poison_packages/poison_package_authority.c\<close>): eight named public keys, each of which can be
  revoked but never renamed or replaced, and the binary file they are loaded from. The check that
  a public key is a point of the curve is a parameter.\<close>

section \<open>The store\<close>

abbreviation "POISON_PACKAGE_AUTHORITY_MAX \<equiv> (8 :: nat)"
abbreviation "POISON_PACKAGE_KEY_ID_MAX \<equiv> (64 :: nat)"
abbreviation "POISON_PACKAGE_PUBLIC_KEY_BYTES \<equiv> (65 :: nat)"
abbreviation "POISON_PACKAGE_AUTHORITY_FILE_MAX \<equiv> (1200 :: nat)"

record PoisonPackageAuthority =
  pa_active :: bool
  pa_revoked :: bool
  pa_key_id :: string
  pa_public_key :: bytes

record PoisonPackageAuthorityStore =
  pas_authorities :: "PoisonPackageAuthority list"
  pas_generation :: u32

definition authority_zero :: PoisonPackageAuthority where
  "authority_zero = \<lparr> pa_active = False, pa_revoked = False, pa_key_id = '''',
     pa_public_key = zeros POISON_PACKAGE_PUBLIC_KEY_BYTES \<rparr>"

definition poison_package_authority_key_id_valid :: "string option \<Rightarrow> bool" where
  "poison_package_authority_key_id_valid key_id =
    (case key_id of
       None \<Rightarrow> False
     | Some k \<Rightarrow>
         if k = '''' \<or> strnlen k (POISON_PACKAGE_KEY_ID_MAX + 1) > POISON_PACKAGE_KEY_ID_MAX then False
         else list_all (\<lambda>c. isalnum c \<or> c = CHR ''.'' \<or> c = CHR ''-'' \<or> c = CHR ''_'') k)"

definition poison_package_authority_public_key_valid :: "(bytes \<Rightarrow> bool) \<Rightarrow> bytes option \<Rightarrow> bool" where
  "poison_package_authority_public_key_valid on_curve public_key =
    (case public_key of
       None \<Rightarrow> False
     | Some p \<Rightarrow> p ! 0 = 0x04 \<and> on_curve (take POISON_PACKAGE_PUBLIC_KEY_BYTES p))"

definition poison_package_authority_store_find_any ::
    "PoisonPackageAuthorityStore \<Rightarrow> string option \<Rightarrow> nat option" where
  "poison_package_authority_store_find_any store key_id =
    (if \<not> poison_package_authority_key_id_valid key_id then None
     else find_index (\<lambda>a. pa_active a \<and> pa_key_id a = the key_id) (pas_authorities store))"

definition poison_package_authority_store_init :: PoisonPackageAuthorityStore where
  "poison_package_authority_store_init = \<lparr> pas_authorities = replicate POISON_PACKAGE_AUTHORITY_MAX authority_zero,
     pas_generation = 0 \<rparr>"

definition poison_package_authority_store_add :: "(bytes \<Rightarrow> bool) \<Rightarrow> PoisonPackageAuthorityStore \<Rightarrow>
    string option \<Rightarrow> bytes option \<Rightarrow> bool \<Rightarrow> PoisonPackageAuthorityStore \<times> bool" where
  "poison_package_authority_store_add on_curve store key_id public_key revoked =
    (if \<not> poison_package_authority_key_id_valid key_id \<or>
        \<not> poison_package_authority_public_key_valid on_curve public_key \<or>
        poison_package_authority_store_find_any store key_id \<noteq> None
     then (store, False)
     else case find_index (\<lambda>a. \<not> pa_active a) (pas_authorities store) of
            None \<Rightarrow> (store, False)
          | Some index \<Rightarrow>
              (\<lparr> pas_authorities = (pas_authorities store)[index :=
                   \<lparr> pa_active = True, pa_revoked = revoked, pa_key_id = the key_id,
                     pa_public_key = take POISON_PACKAGE_PUBLIC_KEY_BYTES (the public_key) \<rparr>],
                 pas_generation = pas_generation store + 1 \<rparr>, True))"

definition poison_package_authority_store_revoke :: "PoisonPackageAuthorityStore \<Rightarrow> string option \<Rightarrow>
    PoisonPackageAuthorityStore \<times> bool" where
  "poison_package_authority_store_revoke store key_id =
    (case poison_package_authority_store_find_any store key_id of
       None \<Rightarrow> (store, False)
     | Some index \<Rightarrow>
         let authority = pas_authorities store ! index in
         if pa_revoked authority then (store, False)
         else (\<lparr> pas_authorities = (pas_authorities store)[index := authority \<lparr> pa_revoked := True \<rparr>],
                 pas_generation = pas_generation store + 1 \<rparr>, True))"

definition poison_package_authority_store_find :: "PoisonPackageAuthorityStore \<Rightarrow> string option \<Rightarrow>
    PoisonPackageAuthority option" where
  "poison_package_authority_store_find store key_id =
    (case poison_package_authority_store_find_any store key_id of
       None \<Rightarrow> None
     | Some index \<Rightarrow>
         let authority = pas_authorities store ! index in
         if \<not> pa_revoked authority then Some authority else None)"

definition poison_package_authority_store_count :: "PoisonPackageAuthorityStore \<Rightarrow> nat" where
  "poison_package_authority_store_count store =
     fold (\<lambda>a count. count + (if pa_active a \<and> \<not> pa_revoked a then 1 else 0)) (pas_authorities store) 0"

section \<open>The file\<close>

definition string_bytes :: "string \<Rightarrow> bytes" where
  "string_bytes s = map of_char s"

definition encode_authority :: "PoisonPackageAuthority \<Rightarrow> bytes" where
  "encode_authority authority =
     [of_nat (length (pa_key_id authority)), if pa_revoked authority then 1 else 0, 0, 0] @
     take POISON_PACKAGE_PUBLIC_KEY_BYTES (pa_public_key authority) @ string_bytes (pa_key_id authority)"

definition poison_package_authority_store_encode :: "PoisonPackageAuthorityStore \<Rightarrow> nat \<Rightarrow> bytes option" where
  "poison_package_authority_store_encode store output_capacity =
    (let active = filter pa_active (pas_authorities store);
         active_count = length active;
         required = 8 + sum_list (map (\<lambda>a. 4 + POISON_PACKAGE_PUBLIC_KEY_BYTES + length (pa_key_id a)) active)
     in if output_capacity < 8 then None
        else if active_count > 255 \<or> required > output_capacity \<or> required > POISON_PACKAGE_AUTHORITY_FILE_MAX
        then None
        else Some (string_bytes ''PPK1'' @ [1, of_nat active_count, 0, 0] @ concat (map encode_authority active)))"

text \<open>Reading from the input buffer: a read past its end is a result of its own, and the difference of
  two \<open>size_t\<close> wraps around.\<close>

datatype 'a Reading = Value 'a | Invalid | OutOfBounds

definition size_diff :: "nat \<Rightarrow> nat \<Rightarrow> nat" where
  "size_diff a b = nat ((int a - int b) mod 2 ^ 32)"

definition read_byte :: "bytes \<Rightarrow> nat \<Rightarrow> (u8 \<Rightarrow> 'a Reading) \<Rightarrow> 'a Reading" where
  "read_byte input i k = (if i < length input then k (input ! i) else OutOfBounds)"

definition read_bytes :: "bytes \<Rightarrow> nat \<Rightarrow> nat \<Rightarrow> (bytes \<Rightarrow> 'a Reading) \<Rightarrow> 'a Reading" where
  "read_bytes input i n k = (if i + n \<le> length input then k (take n (drop i input)) else OutOfBounds)"

definition c_string :: "bytes \<Rightarrow> string" where
  "c_string bs = map (\<lambda>b. char_of (unat b)) (takeWhile (\<lambda>b. b \<noteq> 0) bs)"

fun decode_authorities :: "(bytes \<Rightarrow> bool) \<Rightarrow> bytes \<Rightarrow> nat \<Rightarrow> nat \<Rightarrow> PoisonPackageAuthorityStore \<Rightarrow>
    (PoisonPackageAuthorityStore \<times> nat) Reading" where
  "decode_authorities on_curve input 0 cursor store = Value (store, cursor)"
| "decode_authorities on_curve input (Suc n) cursor store =
    (if size_diff (length input) cursor < 4 + POISON_PACKAGE_PUBLIC_KEY_BYTES then Invalid
     else read_byte input cursor (\<lambda>key_id_length.
          read_byte input (cursor + 1) (\<lambda>flags.
          read_byte input (cursor + 2) (\<lambda>reserved_a.
          read_byte input (cursor + 3) (\<lambda>reserved_b.
            if key_id_length = 0 \<or> unat key_id_length > POISON_PACKAGE_KEY_ID_MAX \<or> flags > 1 \<or>
               reserved_a \<noteq> 0 \<or> reserved_b \<noteq> 0 \<or>
               size_diff (length input) (cursor + 4) < POISON_PACKAGE_PUBLIC_KEY_BYTES + unat key_id_length
            then Invalid
            else read_bytes input (cursor + 4) POISON_PACKAGE_PUBLIC_KEY_BYTES (\<lambda>public_key.
                 read_bytes input (cursor + 4 + POISON_PACKAGE_PUBLIC_KEY_BYTES) (unat key_id_length) (\<lambda>key_id.
                   let (store, added) = poison_package_authority_store_add on_curve store
                         (Some (c_string key_id)) (Some public_key) (flags \<noteq> 0)
                   in if \<not> added then Invalid
                      else decode_authorities on_curve input n
                             (cursor + 4 + POISON_PACKAGE_PUBLIC_KEY_BYTES + unat key_id_length) store)))))))"

definition poison_package_authority_store_decode :: "(bytes \<Rightarrow> bool) \<Rightarrow> bytes \<Rightarrow>
    PoisonPackageAuthorityStore Reading" where
  "poison_package_authority_store_decode on_curve input =
    (if length input < 8 \<or> length input > POISON_PACKAGE_AUTHORITY_FILE_MAX then Invalid
     else read_bytes input 0 4 (\<lambda>magic.
       if magic \<noteq> string_bytes ''PPK1'' then Invalid
       else read_byte input 4 (\<lambda>version. if version \<noteq> 1 then Invalid
       else read_byte input 5 (\<lambda>count. if unat count > POISON_PACKAGE_AUTHORITY_MAX then Invalid
       else read_byte input 6 (\<lambda>reserved_a. if reserved_a \<noteq> 0 then Invalid
       else read_byte input 7 (\<lambda>reserved_b. if reserved_b \<noteq> 0 then Invalid
       else case decode_authorities on_curve input (unat count) 8 poison_package_authority_store_init of
              Value (store, cursor) \<Rightarrow> if cursor = length input then Value store else Invalid
            | Invalid \<Rightarrow> Invalid
            | OutOfBounds \<Rightarrow> OutOfBounds))))))"

text \<open>Loading: whatever goes wrong, the store is empty afterwards. The file's size and content are
  given, and whether the calls on it succeed.\<close>

record AuthorityFile =
  af_stat :: bool
  af_size :: nat
  af_open :: bool
  af_read :: bytes
  af_error :: bool

definition poison_package_authority_store_load :: "(bytes \<Rightarrow> bool) \<Rightarrow> AuthorityFile \<Rightarrow>
    PoisonPackageAuthorityStore \<times> bool" where
  "poison_package_authority_store_load on_curve f =
    (let loaded = (af_stat f \<and> af_size f \<ge> 8 \<and> af_size f \<le> POISON_PACKAGE_AUTHORITY_FILE_MAX \<and> af_open f);
         bytes_read = (if loaded then take (af_size f) (af_read f) else []);
         loaded = (loaded \<and> length bytes_read = af_size f \<and> \<not> af_error f)
     in if \<not> loaded then (poison_package_authority_store_init, False)
        else case poison_package_authority_store_decode on_curve bytes_read of
               Value store \<Rightarrow> (store, True)
             | _ \<Rightarrow> (poison_package_authority_store_init, False))"

section \<open>The store as a registry of trusted keys\<close>

abbreviation authorities :: "PoisonPackageAuthorityStore \<Rightarrow> string \<Rightarrow> PoisonPackageAuthority option" where
  "authorities s \<equiv> tbl_lookup pa_active pa_key_id (pas_authorities s)"

definition authority_ok :: "(bytes \<Rightarrow> bool) \<Rightarrow> PoisonPackageAuthority \<Rightarrow> bool" where
  "authority_ok on_curve a \<longleftrightarrow> poison_package_authority_key_id_valid (Some (pa_key_id a)) \<and>
     length (pa_public_key a) = POISON_PACKAGE_PUBLIC_KEY_BYTES \<and>
     poison_package_authority_public_key_valid on_curve (Some (pa_public_key a))"

definition authority_inv :: "(bytes \<Rightarrow> bool) \<Rightarrow> PoisonPackageAuthorityStore \<Rightarrow> bool" where
  "authority_inv on_curve s \<longleftrightarrow>
     length (pas_authorities s) = POISON_PACKAGE_AUTHORITY_MAX \<and>
     tbl_unique pa_active pa_key_id (pas_authorities s) \<and>
     (\<forall>a \<in> set (pas_authorities s). if pa_active a then authority_ok on_curve a else a = authority_zero)"

lemma find_any_lookup:
  "poison_package_authority_key_id_valid (Some k) \<Longrightarrow>
   (case poison_package_authority_store_find_any s (Some k) of
      None \<Rightarrow> authorities s k = None
    | Some i \<Rightarrow> authorities s k = Some (pas_authorities s ! i) \<and> i < length (pas_authorities s) \<and>
        pa_active (pas_authorities s ! i) \<and> pa_key_id (pas_authorities s ! i) = k)"
  unfolding poison_package_authority_store_find_any_def
  using tbl_lookup_index [of pa_active pa_key_id k "pas_authorities s"]
    tbl_lookup_index_None [of pa_active pa_key_id k "pas_authorities s"]
  by (simp split: option.split del: find_index_None)

lemma lookup_valid:
  assumes "authority_inv on_curve s" "authorities s k = Some a"
  shows "authority_ok on_curve a \<and> pa_active a \<and> pa_key_id a = k \<and> a \<in> set (pas_authorities s)"
  using assms tbl_lookup_SomeD [OF assms(2)] by (auto simp: authority_inv_def split: if_splits)

lemma store_find:
  assumes "authority_inv on_curve s"
  shows "poison_package_authority_store_find s (Some k) =
    (case authorities s k of None \<Rightarrow> None | Some a \<Rightarrow> if pa_revoked a then None else Some a)"
proof (cases "poison_package_authority_key_id_valid (Some k)")
  case True
  then show ?thesis
    using find_any_lookup [OF True, of s]
    by (auto simp: poison_package_authority_store_find_def Let_def split: option.splits)
next
  case False
  then have "authorities s k = None"
    using lookup_valid [OF assms, of k] by (cases "authorities s k") (auto simp: authority_ok_def)
  then show ?thesis
    using False by (simp add: poison_package_authority_store_find_def poison_package_authority_store_find_any_def)
qed

lemma add_ok:
  assumes "authority_inv on_curve s" "length p = POISON_PACKAGE_PUBLIC_KEY_BYTES"
    and "poison_package_authority_store_add on_curve s (Some k) (Some p) revoked = (s', True)"
  shows "authority_inv on_curve s'" "authorities s k = None"
    "authorities s' = (authorities s)(k \<mapsto> \<lparr> pa_active = True, pa_revoked = revoked, pa_key_id = k, pa_public_key = p \<rparr>)"
proof -
  let ?a = "\<lparr> pa_active = True, pa_revoked = revoked, pa_key_id = k, pa_public_key = p \<rparr>"
  have k: "poison_package_authority_key_id_valid (Some k)"
    and p: "poison_package_authority_public_key_valid on_curve (Some p)"
    and none: "poison_package_authority_store_find_any s (Some k) = None"
    using assms(3) by (auto simp: poison_package_authority_store_add_def split: if_splits)
  show free: "authorities s k = None" using find_any_lookup [OF k, of s] none by simp
  obtain i where i: "find_index (\<lambda>a. \<not> pa_active a) (pas_authorities s) = Some i"
    and s': "pas_authorities s' = (pas_authorities s)[i := ?a]"
    using assms(2,3) k p none by (auto simp: poison_package_authority_store_add_def split: option.splits)
  note slot = find_index_SomeD [OF i]
  have inv: "length (pas_authorities s) = 8" "tbl_unique pa_active pa_key_id (pas_authorities s)"
    "\<forall>a \<in> set (pas_authorities s). if pa_active a then authority_ok on_curve a else a = authority_zero"
    using assms(1) by (simp_all add: authority_inv_def)
  have "\<forall>a \<in> set ((pas_authorities s)[i := ?a]). if pa_active a then authority_ok on_curve a else a = authority_zero"
    by (rule all_list_update) (use inv(3) k p assms(2) in \<open>simp_all add: authority_ok_def\<close>)
  then show "authority_inv on_curve s'"
    "authorities s' = (authorities s)(k \<mapsto> ?a)"
    using tbl_insert [OF inv(2), of i ?a] slot free inv(1) s' by (simp_all add: authority_inv_def)
qed

lemma authority_add_refused:
  "\<not> snd (poison_package_authority_store_add on_curve s k p r) \<Longrightarrow>
   fst (poison_package_authority_store_add on_curve s k p r) = s"
  by (auto simp: poison_package_authority_store_add_def simp del: find_index_None split: option.splits)

lemma authority_add_inv:
  assumes "authority_inv on_curve s" "length p = POISON_PACKAGE_PUBLIC_KEY_BYTES"
  shows "authority_inv on_curve (fst (poison_package_authority_store_add on_curve s (Some k) (Some p) r))"
proof (cases "snd (poison_package_authority_store_add on_curve s (Some k) (Some p) r)")
  case True
  then have "poison_package_authority_store_add on_curve s (Some k) (Some p) r =
      (fst (poison_package_authority_store_add on_curve s (Some k) (Some p) r), True)"
    by (simp add: prod_eq_iff)
  then show ?thesis by (rule add_ok(1) [OF assms])
qed (simp add: authority_add_refused assms)

lemma revoke_ok:
  assumes "authority_inv on_curve s" "poison_package_authority_store_revoke s (Some k) = (s', True)"
  obtains a where "authority_inv on_curve s'" "authorities s k = Some a" "\<not> pa_revoked a"
    "authorities s' = (authorities s)(k \<mapsto> a \<lparr> pa_revoked := True \<rparr>)"
proof -
  obtain i where i: "poison_package_authority_store_find_any s (Some k) = Some i"
    and nr: "\<not> pa_revoked (pas_authorities s ! i)"
    and s': "pas_authorities s' = (pas_authorities s)[i := (pas_authorities s ! i) \<lparr> pa_revoked := True \<rparr>]"
    using assms(2)
    by (auto simp: poison_package_authority_store_revoke_def Let_def split: option.splits if_splits)
  have k: "poison_package_authority_key_id_valid (Some k)"
    using i by (simp add: poison_package_authority_store_find_any_def split: if_splits)
  let ?a = "pas_authorities s ! i"
  have a: "authorities s k = Some ?a" "i < length (pas_authorities s)" "pa_active ?a" "pa_key_id ?a = k"
    using find_any_lookup [OF k, of s] i by simp_all
  have inv: "length (pas_authorities s) = 8" "tbl_unique pa_active pa_key_id (pas_authorities s)"
    "\<forall>a \<in> set (pas_authorities s). if pa_active a then authority_ok on_curve a else a = authority_zero"
    using assms(1) by (simp_all add: authority_inv_def)
  have "authority_ok on_curve ?a" using inv(3) a(2,3) by (metis nth_mem)
  then have "\<forall>a \<in> set ((pas_authorities s)[i := ?a \<lparr> pa_revoked := True \<rparr>]).
      if pa_active a then authority_ok on_curve a else a = authority_zero"
    by (intro all_list_update) (use inv(3) a(3) in \<open>simp_all add: authority_ok_def\<close>)
  then have "authority_inv on_curve s'"
    "authorities s' = (authorities s)(k \<mapsto> ?a \<lparr> pa_revoked := True \<rparr>)"
    using tbl_replace [OF inv(2) a(2,3), of "?a \<lparr> pa_revoked := True \<rparr>"] inv(1) a(3,4) s'
    by (simp_all add: authority_inv_def)
  with a(1) nr that show ?thesis by blast
qed

lemma authority_revoke_refused:
  "\<not> snd (poison_package_authority_store_revoke s k) \<Longrightarrow> fst (poison_package_authority_store_revoke s k) = s"
  by (auto simp: poison_package_authority_store_revoke_def Let_def split: option.splits)

lemma authority_revoke_inv:
  assumes "authority_inv on_curve s"
  shows "authority_inv on_curve (fst (poison_package_authority_store_revoke s (Some k)))"
proof (cases "snd (poison_package_authority_store_revoke s (Some k))")
  case True
  then have "poison_package_authority_store_revoke s (Some k) =
      (fst (poison_package_authority_store_revoke s (Some k)), True)"
    by (simp add: prod_eq_iff)
  then show ?thesis by (rule revoke_ok [OF assms])
qed (simp add: authority_revoke_refused assms)

lemma authority_init_inv: "authority_inv on_curve poison_package_authority_store_init"
  by (simp add: authority_inv_def poison_package_authority_store_init_def authority_zero_def tbl_unique_free)

text \<open>A trusted key is an authority that is not revoked: keys are added and revoked as in the interface
  of a registry, with the pair of the name and the key as its entries.\<close>

definition trusted :: "PoisonPackageAuthorityStore \<Rightarrow> string \<Rightarrow> (string \<times> bytes) option" where
  "trusted s k = map_option (\<lambda>a. (pa_key_id a, pa_public_key a)) (poison_package_authority_store_find s (Some k))"

definition trust :: "(bytes \<Rightarrow> bool) \<Rightarrow> PoisonPackageAuthorityStore \<Rightarrow> string \<times> bytes \<Rightarrow>
    PoisonPackageAuthorityStore \<times> bool" where
  "trust on_curve s entry =
    (if length (snd entry) \<noteq> POISON_PACKAGE_PUBLIC_KEY_BYTES then (s, False)
     else poison_package_authority_store_add on_curve s (Some (fst entry)) (Some (snd entry)) False)"

definition distrust :: "PoisonPackageAuthorityStore \<Rightarrow> string \<Rightarrow> PoisonPackageAuthorityStore \<times> bool" where
  "distrust s k = poison_package_authority_store_revoke s (Some k)"

interpretation signers: registry trusted "trust on_curve" distrust fst "authority_inv on_curve" for on_curve
proof
  fix s :: PoisonPackageAuthorityStore and v :: "string \<times> bytes" and k :: string
  assume inv: "authority_inv on_curve s"
  show "authority_inv on_curve (fst (trust on_curve s v))"
    using authority_add_inv [OF inv] inv by (simp add: trust_def)
  show "authority_inv on_curve (fst (distrust s k))"
    using authority_revoke_inv [OF inv] by (simp add: distrust_def)
  show "trusted (fst (trust on_curve s v)) = (trusted s)(fst v \<mapsto> v)" if t: "snd (trust on_curve s v)"
  proof -
    obtain s' where s': "trust on_curve s v = (s', True)" using t by (cases "trust on_curve s v") simp
    then have "length (snd v) = 65"
      "poison_package_authority_store_add on_curve s (Some (fst v)) (Some (snd v)) False = (s', True)"
      by (simp_all add: trust_def split: if_splits)
    note ok = add_ok [OF inv this]
    show ?thesis
      using ok(3) by (auto simp: s' trusted_def store_find [OF ok(1)] store_find [OF inv] fun_eq_iff)
  qed
  show "fst (trust on_curve s v) = s" if "\<not> snd (trust on_curve s v)"
    using that authority_add_refused by (simp add: trust_def split: if_splits)
  show "trusted (fst (distrust s k)) = (trusted s)(k := None)" if t: "snd (distrust s k)"
  proof -
    obtain s' where s': "distrust s k = (s', True)" using t by (cases "distrust s k") simp
    then have "poison_package_authority_store_revoke s (Some k) = (s', True)" by (simp add: distrust_def)
    then obtain a where a: "authority_inv on_curve s'"
      "authorities s' = (authorities s)(k \<mapsto> a \<lparr> pa_revoked := True \<rparr>)"
      by (rule revoke_ok [OF inv])
    then show ?thesis
      by (auto simp: s' trusted_def store_find [OF a(1)] store_find [OF inv] fun_eq_iff)
  qed
  show "fst (distrust s k) = s" if "\<not> snd (distrust s k)"
    using that authority_revoke_refused by (simp add: distrust_def)
qed

section \<open>The file is read within its bounds\<close>

lemma size_diff_le: "b \<le> a \<Longrightarrow> a < 2 ^ 32 \<Longrightarrow> size_diff a b = a - b"
proof -
  assume "b \<le> a" "a < 2 ^ 32"
  then have "(int a - int b) mod 2 ^ 32 = int (a - b)"
    by (simp add: of_nat_diff)
  then show ?thesis by (simp add: size_diff_def)
qed

lemma decode_authorities_bounds:
  assumes "length input \<le> POISON_PACKAGE_AUTHORITY_FILE_MAX" "cursor \<le> length input"
  shows "decode_authorities on_curve input n cursor s \<noteq> OutOfBounds"
  using assms
proof (induction n arbitrary: cursor s)
  case (Suc n)
  show ?case
  proof (cases "size_diff (length input) cursor < 4 + 65")
    case False
    then have c: "cursor + 69 \<le> length input" using Suc.prems by (simp add: size_diff_le)
    then have d: "size_diff (length input) (cursor + 4) = length input - (cursor + 4)"
      using Suc.prems by (intro size_diff_le) simp_all
    show ?thesis
      using False c d Suc.IH [OF Suc.prems(1)]
      by (auto simp: read_byte_def read_bytes_def Let_def split_beta)
  qed simp
qed simp

lemma length_encode_authority:
  "length (encode_authority a) \<le> 4 + POISON_PACKAGE_PUBLIC_KEY_BYTES + length (pa_key_id a)"
  by (simp add: encode_authority_def string_bytes_def)

lemma length_encode_authorities:
  "length (concat (map encode_authority as)) \<le>
     sum_list (map (\<lambda>a. 4 + POISON_PACKAGE_PUBLIC_KEY_BYTES + length (pa_key_id a)) as)"
proof (induction as)
  case (Cons a as)
  then show ?case using length_encode_authority [of a] by simp
qed simp

text \<open>C27: the file format is handled within its bounds: decoding never reads outside the buffer,
  whatever the buffer holds, and an encoded store fits the buffer it is given and the limit of the
  file.\<close>

theorem authority_file_in_bounds:
  "poison_package_authority_store_decode on_curve input \<noteq> OutOfBounds \<and>
   (case poison_package_authority_store_encode s output_capacity of
      None \<Rightarrow> True
    | Some output \<Rightarrow> length output \<le> output_capacity \<and> length output \<le> POISON_PACKAGE_AUTHORITY_FILE_MAX)"
proof
  show "poison_package_authority_store_decode on_curve input \<noteq> OutOfBounds"
    using decode_authorities_bounds [of input 8 on_curve _ poison_package_authority_store_init]
    by (auto simp: poison_package_authority_store_decode_def read_byte_def read_bytes_def not_less
        split: Reading.split)
  show "case poison_package_authority_store_encode s output_capacity of
      None \<Rightarrow> True
    | Some output \<Rightarrow> length output \<le> output_capacity \<and> length output \<le> POISON_PACKAGE_AUTHORITY_FILE_MAX"
    using length_encode_authorities [of "filter pa_active (pas_authorities s)"]
    by (auto simp: poison_package_authority_store_encode_def Let_def string_bytes_def)
qed

section \<open>Encoding and decoding\<close>

definition compact :: "PoisonPackageAuthority list \<Rightarrow> PoisonPackageAuthorityStore" where
  "compact as = \<lparr> pas_authorities = as @ replicate (POISON_PACKAGE_AUTHORITY_MAX - length as) authority_zero,
     pas_generation = of_nat (length as) \<rparr>"

lemma compact_nil: "compact [] = poison_package_authority_store_init"
  by (simp add: compact_def poison_package_authority_store_init_def)

lemma unat_of_char: "unat (of_char c :: u8) = of_char c"
proof -
  have "(of_char c :: u8) = word_of_nat (of_char c)" by (simp add: of_char_def)
  moreover have "(of_char c :: nat) < 2 ^ LENGTH(8)" by simp
  ultimately show ?thesis by (simp only: unat_of_nat_small)
qed

lemma valid_char: "isalnum c \<or> c = CHR ''.'' \<or> c = CHR ''-'' \<or> c = CHR ''_'' \<Longrightarrow> (of_char c :: u8) \<noteq> 0"
proof -
  assume c: "isalnum c \<or> c = CHR ''.'' \<or> c = CHR ''-'' \<or> c = CHR ''_''"
  have "c \<noteq> CHR 0x00"
    using c by (auto simp: isalnum_def lower_or_digit_def of_char_def)
  moreover have "(of_char (CHR 0x00) :: u8) = 0" by (simp add: of_char_def)
  ultimately show ?thesis by (metis of_char_u8_eq)
qed

lemma c_string_bytes:
  assumes "poison_package_authority_key_id_valid (Some k)"
  shows "c_string (string_bytes k) = k"
proof -
  have "(of_char c :: u8) \<noteq> 0" if "c \<in> set k" for c
    using assms that valid_char
    by (auto simp: poison_package_authority_key_id_valid_def list_all_iff split: if_splits)
  then have all: "takeWhile (\<lambda>b. b \<noteq> 0) (string_bytes k) = string_bytes k"
    by (auto simp: string_bytes_def takeWhile_eq_all_conv)
  show ?thesis by (simp only: c_string_def all) (simp add: string_bytes_def comp_def unat_of_char)
qed

lemma find_index_append: "\<forall>x \<in> set xs. \<not> p x \<Longrightarrow> p y \<Longrightarrow> find_index p (xs @ y # ys) = Some (length xs)"
  by (induction xs) simp_all

lemma add_compact:
  assumes "authority_ok on_curve a" "pa_active a" "length as < 8" "distinct (map pa_key_id (as @ [a]))"
    "\<forall>b \<in> set as. pa_active b"
  shows "poison_package_authority_store_add on_curve (compact as) (Some (pa_key_id a)) (Some (pa_public_key a))
    (pa_revoked a) = (compact (as @ [a]), True)"
proof -
  obtain n where n: "8 - length as = Suc n" "8 - Suc (length as) = n" using assms(3) by (cases "8 - length as") auto
  have slots: "pas_authorities (compact as) = as @ authority_zero # replicate n authority_zero"
    by (simp add: compact_def n)
  have none: "poison_package_authority_store_find_any (compact as) (Some (pa_key_id a)) = None"
    using assms(4) by (auto simp: poison_package_authority_store_find_any_def slots authority_zero_def image_iff)
  have free: "find_index (\<lambda>b. \<not> pa_active b) (pas_authorities (compact as)) = Some (length as)"
    unfolding slots by (rule find_index_append) (use assms(5) in \<open>simp_all add: authority_zero_def\<close>)
  have "\<lparr> pa_active = True, pa_revoked = pa_revoked a, pa_key_id = pa_key_id a, pa_public_key = pa_public_key a \<rparr> = a"
    using assms(2) by simp
  then show ?thesis
    using assms(1) none free slots n
    by (simp add: poison_package_authority_store_add_def authority_ok_def compact_def del: find_index_None)
qed

lemma decode_encoded:
  assumes "\<forall>a \<in> set (as @ bs). authority_ok on_curve a \<and> pa_active a" "length (as @ bs) \<le> 8"
    and "distinct (map pa_key_id (as @ bs))"
    and "input = pre @ concat (map encode_authority bs)" "length input \<le> POISON_PACKAGE_AUTHORITY_FILE_MAX"
  shows "decode_authorities on_curve input (length bs) (length pre) (compact as) =
    Value (compact (as @ bs), length input)"
  using assms
proof (induction bs arbitrary: as pre)
  case (Cons b bs)
  let ?k = "pa_key_id b" and ?p = "pa_public_key b"
  have b: "authority_ok on_curve b" "pa_active b" using Cons.prems(1) by simp_all
  then have key: "?k \<noteq> ''''" "length ?k \<le> 64" "length ?p = 65" "c_string (string_bytes ?k) = ?k"
    using c_string_bytes [of ?k]
    by (auto simp: authority_ok_def poison_package_authority_key_id_valid_def split: if_splits)
  let ?n = "of_nat (length ?k) :: u8"
  have n: "unat ?n = length ?k" "?n \<noteq> 0"
    using key(1,2) unat_of_nat_small [of "length ?k", where 'a = 8] by (auto simp: unat_eq_0 [symmetric])
  let ?rest = "concat (map encode_authority bs)"
  let ?e = "[?n, if pa_revoked b then 1 else 0, 0, 0] @ ?p @ string_bytes ?k"
  have e: "encode_authority b = ?e" using key(3) by (simp add: encode_authority_def)
  have input: "input = pre @ ?e @ ?rest" using Cons.prems(4) e by simp
  have len: "length input = length pre + 69 + length ?k + length ?rest"
    using key(3) by (simp add: input string_bytes_def)
  have at: "input ! length pre = ?n" "input ! (length pre + 1) = (if pa_revoked b then 1 else 0)"
    "input ! (length pre + 2) = 0" "input ! (length pre + 3) = 0"
    by (simp_all add: input nth_append)
  have parts: "take 65 (drop (length pre + 4) input) = ?p"
    "take (length ?k) (drop (length pre + 4 + 65) input) = string_bytes ?k"
    using key(3) by (simp_all add: input string_bytes_def)
  have diff: "size_diff (length input) (length pre) = length input - length pre"
    "size_diff (length input) (length pre + 4) = length input - (length pre + 4)"
    using len Cons.prems(5) by (simp_all add: size_diff_le)
  have add: "poison_package_authority_store_add on_curve (compact as) (Some ?k) (Some ?p) (pa_revoked b) =
      (compact (as @ [b]), True)"
    by (rule add_compact [OF b]) (use Cons.prems in simp_all)
  have IH: "decode_authorities on_curve input (length bs) (length (pre @ ?e)) (compact (as @ [b])) =
      Value (compact ((as @ [b]) @ bs), length input)"
    by (rule Cons.IH) (use Cons.prems input in simp_all)
  have next_cursor: "length (pre @ ?e) = length pre + 4 + 65 + length ?k"
    using key(3) by (simp add: string_bytes_def)
  show ?case
    using at n key parts diff len add IH [unfolded next_cursor]
    by (cases "pa_revoked b") (simp_all add: read_byte_def read_bytes_def Let_def not_less add_ac)
qed simp

lemma actives_facts:
  assumes "authority_inv on_curve s"
  shows "\<forall>a \<in> set (filter pa_active (pas_authorities s)). authority_ok on_curve a \<and> pa_active a"
    "length (filter pa_active (pas_authorities s)) \<le> 8"
    "distinct (map pa_key_id (filter pa_active (pas_authorities s)))"
  using assms length_filter_le [of pa_active "pas_authorities s"]
  by (auto simp: authority_inv_def tbl_unique_def split: if_splits)

lemma encoded_length:
  assumes "\<forall>a \<in> set as. authority_ok on_curve a"
  shows "length (concat (map encode_authority as)) =
      sum_list (map (\<lambda>a. 4 + POISON_PACKAGE_PUBLIC_KEY_BYTES + length (pa_key_id a)) as)"
    and "sum_list (map (\<lambda>a. 4 + POISON_PACKAGE_PUBLIC_KEY_BYTES + length (pa_key_id a)) as) \<le> 133 * length as"
proof -
  have key: "length (pa_key_id a) \<le> 64" "length (pa_public_key a) = 65" if "a \<in> set as" for a
    using assms that by (auto simp: authority_ok_def poison_package_authority_key_id_valid_def split: if_splits)
  show "length (concat (map encode_authority as)) =
      sum_list (map (\<lambda>a. 4 + POISON_PACKAGE_PUBLIC_KEY_BYTES + length (pa_key_id a)) as)"
    using key by (induction as) (simp_all add: encode_authority_def string_bytes_def)
  show "sum_list (map (\<lambda>a. 4 + POISON_PACKAGE_PUBLIC_KEY_BYTES + length (pa_key_id a)) as) \<le> 133 * length as"
    using key(1) by (induction as) fastforce+
qed

lemma encode_decode:
  assumes "authority_inv on_curve s"
  shows "\<exists>output. poison_package_authority_store_encode s POISON_PACKAGE_AUTHORITY_FILE_MAX = Some output \<and>
    poison_package_authority_store_decode on_curve output = Value (compact (filter pa_active (pas_authorities s)))"
proof -
  let ?as = "filter pa_active (pas_authorities s)"
  note facts = actives_facts [OF assms]
  have "\<forall>a \<in> set ?as. authority_ok on_curve a" using facts(1) by blast
  note len = encoded_length [OF this]
  let ?pre = "string_bytes ''PPK1'' @ [1, of_nat (length ?as), 0, 0]"
  let ?out = "?pre @ concat (map encode_authority ?as)"
  have pre: "length ?pre = 8" by (simp add: string_bytes_def)
  have small: "length ?out \<le> POISON_PACKAGE_AUTHORITY_FILE_MAX" "length ?as < 2 ^ LENGTH(8)"
    using len facts(2) pre by simp_all
  have "poison_package_authority_store_encode s POISON_PACKAGE_AUTHORITY_FILE_MAX = Some ?out"
    using len(2) facts(2) by (simp add: poison_package_authority_store_encode_def Let_def)
  moreover have "poison_package_authority_store_decode on_curve ?out = Value (compact ?as)"
  proof -
    define out where "out = ?out"
    have out: "out ! 4 = 1" "out ! 5 = of_nat (length ?as)" "out ! 6 = 0" "out ! 7 = 0"
      "take 4 out = string_bytes ''PPK1''" "8 \<le> length out" "length out \<le> POISON_PACKAGE_AUTHORITY_FILE_MAX"
      using small(1) by (simp_all add: out_def string_bytes_def nth_Cons')
    have "decode_authorities on_curve out (length ?as) (length ?pre) (compact []) = Value (compact ([] @ ?as), length out)"
      by (rule decode_encoded) (use facts out(7) in \<open>simp_all add: out_def\<close>)
    then have "decode_authorities on_curve out (length ?as) 8 poison_package_authority_store_init =
        Value (compact ?as, length out)"
      by (simp only: pre compact_nil append_Nil)
    moreover have "unat (of_nat (length ?as) :: u8) = length ?as" by (rule unat_of_nat_small) (rule small(2))
    ultimately have "poison_package_authority_store_decode on_curve out = Value (compact ?as)"
      using out facts(2) by (simp add: poison_package_authority_store_decode_def read_byte_def read_bytes_def)
    then show ?thesis by (simp only: out_def)
  qed
  ultimately show ?thesis by blast
qed

section \<open>Calls on the store\<close>

text \<open>An authority is added or revoked, or the store is encoded and read back. A public key is an array of 65
  bytes; other lists are not calls of the program.\<close>

datatype AuthorityOp = AuAdd string bytes bool | AuRevoke string | AuThroughFile

fun authority_step :: "(bytes \<Rightarrow> bool) \<Rightarrow> AuthorityOp \<Rightarrow> PoisonPackageAuthorityStore \<Rightarrow>
    PoisonPackageAuthorityStore \<times> bool" where
  "authority_step on_curve (AuAdd k p r) s =
     (if length p \<noteq> POISON_PACKAGE_PUBLIC_KEY_BYTES then (s, False)
      else poison_package_authority_store_add on_curve s (Some k) (Some p) r)"
| "authority_step on_curve (AuRevoke k) s = poison_package_authority_store_revoke s (Some k)"
| "authority_step on_curve AuThroughFile s =
     (case poison_package_authority_store_encode s POISON_PACKAGE_AUTHORITY_FILE_MAX of
        None \<Rightarrow> (s, False)
      | Some output \<Rightarrow>
          (case poison_package_authority_store_decode on_curve output of Value s' \<Rightarrow> (s', True) | _ \<Rightarrow> (s, False)))"

lemma tbl_lookup_filter: "tbl_lookup live key (filter live xs) k = tbl_lookup live key xs k"
  by (induction xs) simp_all

lemma through_file:
  assumes "authority_inv on_curve s"
  shows "authority_step on_curve AuThroughFile s = (compact (filter pa_active (pas_authorities s)), True)"
  using encode_decode [OF assms] by auto

lemma compact_same: "authorities (compact (filter pa_active (pas_authorities s))) = authorities s"
  using tbl_lookup_filter [of pa_active pa_key_id "pas_authorities s"]
    tbl_lookup_filter [of pa_active pa_key_id "pas_authorities (compact (filter pa_active (pas_authorities s)))"]
  by (simp add: fun_eq_iff compact_def authority_zero_def)

lemma compact_inv:
  assumes "authority_inv on_curve s"
  shows "authority_inv on_curve (compact (filter pa_active (pas_authorities s)))"
proof -
  have "length (filter pa_active (pas_authorities s)) \<le> 8"
    using assms length_filter_le [of pa_active "pas_authorities s"] by (simp add: authority_inv_def)
  moreover have "\<forall>a \<in> set (filter pa_active (pas_authorities s)). authority_ok on_curve a"
    using assms by (auto simp: authority_inv_def split: if_splits)
  moreover have "tbl_unique pa_active pa_key_id (filter pa_active (pas_authorities s) @
      replicate (8 - length (filter pa_active (pas_authorities s))) authority_zero)"
    using assms by (simp add: authority_inv_def tbl_unique_def authority_zero_def)
  ultimately show ?thesis by (auto simp: authority_inv_def compact_def authority_zero_def)
qed

interpretation authority_calls: invariant_machine "authority_step on_curve" "authority_inv on_curve" for on_curve
proof
  fix s :: PoisonPackageAuthorityStore and op
  assume "authority_inv on_curve s"
  then show "authority_inv on_curve (fst (authority_step on_curve op s))"
    using through_file compact_inv
    by (cases op) (simp_all add: authority_add_inv authority_revoke_inv del: authority_step.simps(3))
qed

text \<open>The authority file keeps the store: for a store built by any calls, encoding succeeds within
  the limit of the file, and decoding the encoding gives back every authority - its name, its key
  and whether it is revoked - in their order, and nothing else.\<close>

theorem authority_file_round_trip:
  fixes on_curve ops
  defines "s \<equiv> run_state (authority_step on_curve) poison_package_authority_store_init ops"
  shows "\<exists>output s'. poison_package_authority_store_encode s POISON_PACKAGE_AUTHORITY_FILE_MAX = Some output \<and>
    poison_package_authority_store_decode on_curve output = Value s' \<and>
    filter pa_active (pas_authorities s') = filter pa_active (pas_authorities s) \<and>
    authorities s' = authorities s"
proof -
  have inv: "authority_inv on_curve s"
    unfolding s_def by (rule authority_calls.run_keeps) (rule authority_init_inv)
  let ?as = "filter pa_active (pas_authorities s)"
  have "filter pa_active (pas_authorities (compact ?as)) = ?as"
    by (simp add: compact_def authority_zero_def)
  moreover have "authorities (compact ?as) = authorities s" by (rule compact_same)
  ultimately show ?thesis using encode_decode [OF inv] by metis
qed

lemma stays_revoked:
  assumes "authority_inv on_curve s" "\<exists>a. authorities s k = Some a \<and> pa_revoked a"
  shows "\<exists>a. authorities (fst (authority_step on_curve op s)) k = Some a \<and> pa_revoked a"
proof (cases "snd (authority_step on_curve op s)")
  case False
  then have "fst (authority_step on_curve op s) = s"
    using through_file [OF assms(1)]
    by (cases op) (simp_all add: authority_add_refused authority_revoke_refused split: if_splits del: authority_step.simps(3))
  then show ?thesis using assms(2) by simp
next
  case True
  let ?s' = "fst (authority_step on_curve op s)"
  have step: "authority_step on_curve op s = (?s', True)" using True by (simp add: prod_eq_iff)
  show ?thesis
  proof (cases op)
    case (AuAdd j p r)
    with step have "length p = 65" "poison_package_authority_store_add on_curve s (Some j) (Some p) r = (?s', True)"
      by (simp_all split: if_splits)
    from add_ok [OF assms(1) this] assms(2) show ?thesis by auto
  next
    case (AuRevoke j)
    with step have "poison_package_authority_store_revoke s (Some j) = (?s', True)" by simp
    then show ?thesis by (rule revoke_ok [OF assms(1)]) (use assms(2) in auto)
  next
    case AuThroughFile
    then show ?thesis
      using through_file [OF assms(1)] compact_same [of s] assms(2) by (simp del: authority_step.simps(3))
  qed
qed

lemma run_stays_revoked:
  "authority_inv on_curve s \<Longrightarrow> \<exists>a. authorities s k = Some a \<and> pa_revoked a \<Longrightarrow>
   \<exists>a. authorities (run_state (authority_step on_curve) s ops) k = Some a \<and> pa_revoked a"
proof (induction ops arbitrary: s)
  case (Cons op ops)
  show ?case
    using Cons.IH [OF authority_calls.keeps [OF Cons.prems(1)] stays_revoked [OF Cons.prems]] by simp
qed simp


text \<open>A store with one authority, and the same after its revocation.\<close>

definition sample_key :: bytes where
  "sample_key = 4 # zeros 64"

lemma sample_key_added:
  "pas_authorities (run_state (authority_step (\<lambda>_. True)) poison_package_authority_store_init [AuAdd ''key-1'' sample_key False]) =
     \<lparr> pa_active = True, pa_revoked = False, pa_key_id = ''key-1'', pa_public_key = sample_key \<rparr> #
       replicate 7 authority_zero"
  and sample_ids: "poison_package_authority_key_id_valid (Some ''key-1'')" "poison_package_authority_key_id_valid (Some ''key-2'')"
proof -
  show key: "poison_package_authority_key_id_valid (Some ''key-1'')" "poison_package_authority_key_id_valid (Some ''key-2'')"
    by (simp_all add: poison_package_authority_key_id_valid_def isalnum_def lower_or_digit_def of_char_def)
  have slots: "pas_authorities poison_package_authority_store_init = authority_zero # replicate 7 authority_zero"
    by (simp add: poison_package_authority_store_init_def eval_nat_numeral)
  show "pas_authorities (run_state (authority_step (\<lambda>_. True)) poison_package_authority_store_init [AuAdd ''key-1'' sample_key False]) =
     \<lparr> pa_active = True, pa_revoked = False, pa_key_id = ''key-1'', pa_public_key = sample_key \<rparr> #
       replicate 7 authority_zero"
    using key by (simp add: poison_package_authority_store_add_def poison_package_authority_store_find_any_def slots
        poison_package_authority_public_key_valid_def sample_key_def authority_zero_def)
qed

lemma sample_revoked:
  "\<exists>s'. poison_package_authority_store_revoke
       (run_state (authority_step (\<lambda>_. True)) poison_package_authority_store_init [AuAdd ''key-1'' sample_key False])
       (Some ''key-1'') = (s', True) \<and>
     pas_authorities s' = \<lparr> pa_active = True, pa_revoked = True, pa_key_id = ''key-1'', pa_public_key = sample_key \<rparr> #
       replicate 7 authority_zero"
  using sample_ids sample_key_added
  by (auto simp: poison_package_authority_store_revoke_def poison_package_authority_store_find_any_def Let_def prod_eq_iff)


text \<open>The revoked key itself is accepted and trusted again under another name.\<close>

lemma revoked_key_other_name:
  "\<exists>s'. poison_package_authority_store_revoke
       (run_state (authority_step (\<lambda>_. True)) poison_package_authority_store_init [AuAdd ''key-1'' sample_key False])
       (Some ''key-1'') = (s', True) \<and>
     snd (authority_step (\<lambda>_. True) (AuAdd ''key-2'' sample_key False) s')"
proof -
  obtain s' where s': "poison_package_authority_store_revoke
       (run_state (authority_step (\<lambda>_. True)) poison_package_authority_store_init [AuAdd ''key-1'' sample_key False])
       (Some ''key-1'') = (s', True)"
    "pas_authorities s' = \<lparr> pa_active = True, pa_revoked = True, pa_key_id = ''key-1'', pa_public_key = sample_key \<rparr> #
       replicate 7 authority_zero"
    using sample_revoked by blast
  have "snd (authority_step (\<lambda>_. True) (AuAdd ''key-2'' sample_key False) s')"
    using sample_ids s'(2)
    by (simp add: poison_package_authority_store_add_def poison_package_authority_store_find_any_def
        poison_package_authority_public_key_valid_def sample_key_def authority_zero_def eval_nat_numeral)
  with s'(1) show ?thesis by blast
qed

end
