(* ===== verification/Vfs.thy ===== *)
theory Vfs
  imports Policy
begin

text \<open>The virtual file system (\<open>poison_vfs/\<close>): logical paths are brought into a normal form, resolved
  through a table of namespaces to paths of the storage, and checked against the role of the
  caller; the journal of an operation and its recovery, and the snapshots of workspaces. The loops
  over a path are modelled as loops that may not return; that they do is proved.\<close>

section \<open>Normalisation\<close>

abbreviation "POISON_VFS_PATH_MAX \<equiv> (256 :: nat)"

definition poison_vfs_is_valid_byte :: "char \<Rightarrow> bool" where
  "poison_vfs_is_valid_byte byte \<longleftrightarrow>
     char_code byte \<ge> 0x20 \<and> char_code byte \<noteq> 0x7F \<and> byte \<noteq> CHR 0x5C"

text \<open>The copying loop: repeated separators are written once.\<close>

fun normalize_copy :: "string \<Rightarrow> string \<Rightarrow> bool \<Rightarrow> string option" where
  "normalize_copy [] output previous_separator = Some output"
| "normalize_copy (byte # input) output previous_separator =
    (if \<not> poison_vfs_is_valid_byte byte then None
     else if byte = CHR ''/'' \<and> previous_separator then normalize_copy input output True
     else if length output \<ge> POISON_VFS_PATH_MAX then None
     else normalize_copy input (output @ [byte]) (byte = CHR ''/''))"

text \<open>The loop that drops trailing separators, and the loop over the segments.\<close>

partial_function (option) normalize_trim :: "string \<Rightarrow> string option" where
  "normalize_trim output =
    (if length output > 1 \<and> last output = CHR ''/'' then normalize_trim (butlast output) else Some output)"

partial_function (option) normalize_segments :: "string \<Rightarrow> bool option" where
  "normalize_segments segment =
    (if segment = [] then Some True
     else let this_segment = takeWhile (\<lambda>c. c \<noteq> CHR ''/'') segment;
              end_of = dropWhile (\<lambda>c. c \<noteq> CHR ''/'') segment
          in if length this_segment = 0 \<or> this_segment = ''.'' \<or> this_segment = ''..'' then Some False
             else normalize_segments (if end_of \<noteq> [] then tl end_of else []))"

text \<open>The outer option says whether the call returns, the inner one whether it accepts.\<close>

definition poison_vfs_normalize_path :: "string option \<Rightarrow> string option option" where
  "poison_vfs_normalize_path input =
    (case input of
       None \<Rightarrow> Some None
     | Some path \<Rightarrow>
         if path = [] \<or> hd path \<noteq> CHR ''/'' then Some None
         else let l = strnlen path (POISON_VFS_PATH_MAX + 1)
         in if l = 0 \<or> l > POISON_VFS_PATH_MAX then Some None
         else case normalize_copy path [] False of
                None \<Rightarrow> Some None
              | Some copied \<Rightarrow>
                  (case normalize_trim copied of
                     None \<Rightarrow> None
                   | Some output \<Rightarrow>
                       (case normalize_segments (tl output) of
                          None \<Rightarrow> None
                        | Some ok \<Rightarrow> Some (if ok then Some output else None))))"

section \<open>The normal form of a path\<close>

text \<open>The reference: a path is the list of its non-empty segments.\<close>

fun split_path :: "string \<Rightarrow> string list" where
  "split_path [] = [[]]"
| "split_path (c # cs) =
    (if c = CHR ''/'' then [] # split_path cs
     else case split_path cs of [] \<Rightarrow> [[c]] | s # ss \<Rightarrow> (c # s) # ss)"

definition segments :: "string \<Rightarrow> string list" where
  "segments path = filter (\<lambda>s. s \<noteq> []) (split_path path)"

definition join_path :: "string list \<Rightarrow> string" where
  "join_path ss = (if ss = [] then ''/'' else concat (map (\<lambda>s. CHR ''/'' # s) ss))"

definition normal_form :: "string option \<Rightarrow> string option" where
  "normal_form input =
    (case input of
       None \<Rightarrow> None
     | Some path \<Rightarrow>
         if path \<noteq> [] \<and> hd path = CHR ''/'' \<and> length path \<le> POISON_VFS_PATH_MAX \<and>
            list_all poison_vfs_is_valid_byte path \<and> ''.'' \<notin> set (segments path) \<and> ''..'' \<notin> set (segments path)
         then Some (join_path (segments path)) else None)"

lemma split_path_nonempty [simp]: "split_path cs \<noteq> []"
  by (induction cs) (auto split: list.splits)

lemma split_path_no_slash: "s \<in> set (split_path cs) \<Longrightarrow> CHR ''/'' \<notin> set s"
  by (induction cs arbitrary: s) (auto split: list.splits if_splits)

lemma segments_slash [simp]: "segments (CHR ''/'' # cs) = segments cs"
  by (simp add: segments_def)

text \<open>What the copying loop writes.\<close>

fun collapse :: "bool \<Rightarrow> string \<Rightarrow> string" where
  "collapse previous [] = []"
| "collapse previous (c # cs) =
    (if c = CHR ''/'' \<and> previous then collapse True cs else c # collapse (c = CHR ''/'') cs)"

lemma collapse_length: "length (collapse p cs) \<le> length cs"
  by (induction p cs rule: collapse.induct) (auto intro: le_SucI)

lemma normalize_copy_collapse:
  "length out + length cs \<le> POISON_VFS_PATH_MAX \<Longrightarrow>
   normalize_copy cs out p =
     (if list_all poison_vfs_is_valid_byte cs then Some (out @ collapse p cs) else None)"
  by (induction cs arbitrary: out p) auto

definition slashed :: "string list \<Rightarrow> string" where
  "slashed ss = concat (map (\<lambda>s. CHR ''/'' # s) ss)"

definition ends_with_slash :: "string \<Rightarrow> bool" where
  "ends_with_slash cs \<longleftrightarrow> cs \<noteq> [] \<and> last cs = CHR ''/''"

lemma slashed_Cons: "slashed (s # ss) = CHR ''/'' # s @ slashed ss"
  by (simp add: slashed_def)

lemma slashed_tl: "ss \<noteq> [] \<Longrightarrow> CHR ''/'' # tl (slashed ss) = slashed ss"
  by (cases ss) (simp_all add: slashed_Cons)

lemma only_separators: "segments cs = [] \<longleftrightarrow> (\<forall>c \<in> set cs. c = CHR ''/'')"
proof (induction cs)
  case (Cons c cs)
  then show ?case by (cases "c = CHR ''/''") (auto simp: segments_def split: list.split)
qed (simp add: segments_def)

lemma collapse_segments:
  "collapse True cs = tl (slashed (segments cs)) @
     (if ends_with_slash cs \<and> segments cs \<noteq> [] then ''/'' else [])"
  "collapse False cs = hd (split_path cs) @ slashed (filter (\<lambda>s. s \<noteq> []) (tl (split_path cs))) @
     (if ends_with_slash cs then ''/'' else [])"
proof (induction cs)
  case Nil
  { case 1 show ?case by (simp add: segments_def slashed_def ends_with_slash_def) }
  { case 2 show ?case by (simp add: slashed_def ends_with_slash_def) }
next
  case (Cons c cs)
  obtain s ss where split: "split_path cs = s # ss" by (cases "split_path cs") auto
  have segs: "segments cs = (if s = [] then filter (\<lambda>s. s \<noteq> []) ss else s # filter (\<lambda>s. s \<noteq> []) ss)"
    by (simp add: segments_def split)
  have last: "ends_with_slash (c # cs) = (if cs = [] then c = CHR ''/'' else ends_with_slash cs)"
    by (simp add: ends_with_slash_def)
  { case 1
    show ?case
    proof (cases "c = CHR ''/''")
      case True
      then show ?thesis using Cons.IH(1) by (cases "cs = []") (simp_all add: segments_def ends_with_slash_def)
    next
      case False
      then have "segments (c # cs) = (c # s) # filter (\<lambda>s. s \<noteq> []) ss"
        by (simp add: segments_def split)
      then show ?thesis
        using Cons.IH(2) False split by (auto simp: last slashed_Cons ends_with_slash_def)
    qed }
  { case 2
    show ?case
    proof (cases "c = CHR ''/''")
      case True
      have step: "collapse False (c # cs) = CHR ''/'' # collapse True cs" "hd (split_path (c # cs)) = []"
        "filter (\<lambda>s. s \<noteq> []) (tl (split_path (c # cs))) = segments cs"
        using True by (simp_all add: segments_def)
      show ?thesis
      proof (cases "segments cs = []")
        case True
        then have "ends_with_slash (c # cs)"
          using \<open>c = CHR ''/''\<close> by (auto simp: only_separators ends_with_slash_def)
        then show ?thesis unfolding step Cons.IH(1) by (simp add: True slashed_def)
      next
        case False
        then have "cs \<noteq> []" by (auto simp: segments_def)
        then show ?thesis
          unfolding step Cons.IH(1) last using False slashed_tl [OF False] by simp
      qed
    next
      case False
      then show ?thesis
        using Cons.IH(2) split by (auto simp: last ends_with_slash_def)
    qed }
qed

lemma normalize_copy_path:
  assumes "path = CHR ''/'' # cs" "length path \<le> POISON_VFS_PATH_MAX"
  shows "normalize_copy path [] False =
    (if list_all poison_vfs_is_valid_byte path
     then Some (CHR ''/'' # tl (slashed (segments path)) @
       (if ends_with_slash cs \<and> segments path \<noteq> [] then ''/'' else []))
     else None)"
  using normalize_copy_collapse [of "[]" path False] assms collapse_segments(1) [of cs] by simp

text \<open>Dropping the trailing separator.\<close>

lemma normalize_trim_done: "length out \<le> 1 \<or> last out \<noteq> CHR ''/'' \<Longrightarrow> normalize_trim out = Some out"
  by (subst normalize_trim.simps) auto

lemma normalize_trim_step:
  "out \<noteq> [] \<Longrightarrow> normalize_trim (out @ ''/'') = normalize_trim out"
  by (subst normalize_trim.simps) simp

lemma slashed_last: "ss \<noteq> [] \<Longrightarrow> \<forall>s \<in> set ss. s \<noteq> [] \<and> CHR ''/'' \<notin> set s \<Longrightarrow>
    slashed ss \<noteq> [] \<and> last (slashed ss) \<noteq> CHR ''/''"
proof (induction ss)
  case (Cons s ss)
  then show ?case
    by (cases "ss = []") (auto simp: slashed_Cons slashed_def [of "[]"] dest: last_in_set)
qed simp

text \<open>The check of the segments.\<close>

lemma takeWhile_no_slash: "CHR ''/'' \<notin> set s \<Longrightarrow> takeWhile (\<lambda>c. c \<noteq> CHR ''/'') s = s"
  by (auto simp: takeWhile_eq_all_conv)

lemma normalize_segments_slashed:
  assumes "\<forall>s \<in> set ss. s \<noteq> [] \<and> CHR ''/'' \<notin> set s"
  shows "normalize_segments (tl (slashed ss)) = Some (''.'' \<notin> set ss \<and> ''..'' \<notin> set ss)"
  using assms
proof (induction ss)
  case Nil
  then show ?case by (simp add: slashed_def normalize_segments.simps)
next
  case (Cons s ss)
  have s: "s \<noteq> []" "CHR ''/'' \<notin> set s" using Cons.prems by simp_all
  have all: "c \<noteq> CHR ''/''" if "c \<in> set s" for c using s(2) that by metis
  have empty: "takeWhile (\<lambda>c. c \<noteq> CHR ''/'') (slashed ss) = []"
    "dropWhile (\<lambda>c. c \<noteq> CHR ''/'') (slashed ss) = slashed ss"
    by (cases ss; simp add: slashed_def)+
  have parts: "takeWhile (\<lambda>c. c \<noteq> CHR ''/'') (s @ slashed ss) = s"
    "dropWhile (\<lambda>c. c \<noteq> CHR ''/'') (s @ slashed ss) = slashed ss"
    using all by (simp_all add: takeWhile_append2 dropWhile_append2 empty)
  have rest: "(if slashed ss \<noteq> [] then tl (slashed ss) else []) = tl (slashed ss)" by simp
  have "normalize_segments (s @ slashed ss) =
      (if s = ''.'' \<or> s = ''..'' then Some False else normalize_segments (tl (slashed ss)))"
    unfolding normalize_segments.simps [of "s @ slashed ss"] Let_def parts rest using s(1) by simp
  then show ?case
    using Cons.IH Cons.prems by (auto simp: slashed_Cons)
qed

lemma segments_members: "\<forall>s \<in> set (segments path). s \<noteq> [] \<and> CHR ''/'' \<notin> set s"
  using split_path_no_slash [of _ path] by (auto simp: segments_def)

lemma normalize_path_computes: "poison_vfs_normalize_path input = Some (normal_form input)"
proof (cases input)
  case (Some path)
  show ?thesis
  proof (cases "path \<noteq> [] \<and> hd path = CHR ''/'' \<and> length path \<le> POISON_VFS_PATH_MAX")
    case False
    then show ?thesis
      using Some by (auto simp: poison_vfs_normalize_path_def normal_form_def Let_def strnlen_def min_def)
  next
    case True
    then obtain cs where cs: "path = CHR ''/'' # cs" by (cases path) auto
    let ?ss = "segments path"
    let ?copied = "CHR ''/'' # tl (slashed ?ss) @ (if ends_with_slash cs \<and> ?ss \<noteq> [] then ''/'' else [])"
    note copy = normalize_copy_path [OF cs] True
    have trim: "normalize_trim ?copied = Some (join_path ?ss)"
    proof (cases "?ss = []")
      case True
      then show ?thesis by (simp add: slashed_def join_path_def normalize_trim_done)
    next
      case False
      then have "CHR ''/'' # tl (slashed ?ss) = join_path ?ss" "last (join_path ?ss) \<noteq> CHR ''/''"
        "join_path ?ss \<noteq> []"
        using slashed_tl [OF False] slashed_last [OF False segments_members]
        by (simp_all add: join_path_def slashed_def)
      then show ?thesis
        using False normalize_trim_done [of "join_path ?ss"] normalize_trim_step [of "join_path ?ss"]
        by (auto simp flip: append_Cons)
    qed
    have "tl (join_path ?ss) = tl (slashed ?ss)" by (simp add: join_path_def slashed_def)
    then have "normalize_segments (tl (join_path ?ss)) = Some (''.'' \<notin> set ?ss \<and> ''..'' \<notin> set ?ss)"
      using normalize_segments_slashed [OF segments_members] by simp
    then show ?thesis
      using copy trim True Some
      by (auto simp: poison_vfs_normalize_path_def normal_form_def Let_def strnlen_def min_def)
  qed
qed (simp add: poison_vfs_normalize_path_def normal_form_def)

text \<open>C29: the normalisation of paths always returns, and it computes the normal form: it accepts exactly
  the absolute paths of at most 256 valid bytes none of whose segments is \<open>.\<close> or \<open>..\<close>, and its
  result is the path made of the same non-empty segments, with single separators and no separator
  at the end.\<close>

theorem normalize_path_computes_normal_form:
  "poison_vfs_normalize_path input = Some (normal_form input)"
  by (rule normalize_path_computes)

section \<open>Resolution\<close>

datatype PoisonVfsNamespace =
    PoisonVfsNamespaceSystem | PoisonVfsNamespaceConfig | PoisonVfsNamespaceProfiles
  | PoisonVfsNamespaceApps | PoisonVfsNamespaceScripts | PoisonVfsNamespaceWorkloads
  | PoisonVfsNamespaceCases | PoisonVfsNamespaceEvidence | PoisonVfsNamespaceLessons
  | PoisonVfsNamespaceExports | PoisonVfsNamespaceInternal | PoisonVfsNamespaceExternal
  | PoisonVfsNamespaceCount

datatype PoisonVfsOperation = PoisonVfsOperationRead | PoisonVfsOperationWrite

record PoisonVfsNamespaceInfo =
  ns_name :: string
  ns_vfs_namespace :: PoisonVfsNamespace
  ns_backing_prefix :: string
  ns_read_only :: bool

record PoisonVfsResolvedPath =
  rp_vfs_namespace :: PoisonVfsNamespace
  rp_read_only :: bool
  rp_logical_path :: string
  rp_backing_path :: string

definition namespace_row :: "string \<Rightarrow> PoisonVfsNamespace \<Rightarrow> string \<Rightarrow> bool \<Rightarrow> PoisonVfsNamespaceInfo" where
  "namespace_row n s p r = \<lparr> ns_name = n, ns_vfs_namespace = s, ns_backing_prefix = p, ns_read_only = r \<rparr>"

definition namespace_info :: "PoisonVfsNamespaceInfo list" where
  "namespace_info =
    [namespace_row ''system'' PoisonVfsNamespaceSystem ''/int/system'' True,
     namespace_row ''config'' PoisonVfsNamespaceConfig ''/int/config'' False,
     namespace_row ''profiles'' PoisonVfsNamespaceProfiles ''/int/config/profiles'' False,
     namespace_row ''apps'' PoisonVfsNamespaceApps ''/ext/apps'' False,
     namespace_row ''scripts'' PoisonVfsNamespaceScripts ''/ext/scripts'' False,
     namespace_row ''workloads'' PoisonVfsNamespaceWorkloads ''/ext/workloads'' False,
     namespace_row ''cases'' PoisonVfsNamespaceCases ''/ext/cases'' False,
     namespace_row ''evidence'' PoisonVfsNamespaceEvidence ''/ext/evidence'' False,
     namespace_row ''lessons'' PoisonVfsNamespaceLessons ''/ext/lessons'' False,
     namespace_row ''exports'' PoisonVfsNamespaceExports ''/ext/exports'' False,
     namespace_row ''int'' PoisonVfsNamespaceInternal ''/int'' False,
     namespace_row ''ext'' PoisonVfsNamespaceExternal ''/ext'' False]"

definition poison_vfs_find_namespace :: "string \<Rightarrow> PoisonVfsNamespaceInfo option \<times> nat" where
  "poison_vfs_find_namespace normalized =
    (let start = tl normalized; name = takeWhile (\<lambda>c. c \<noteq> CHR ''/'') start
     in (List.find (\<lambda>info. length (ns_name info) = length name \<and> ns_name info = name) namespace_info,
         length name))"

definition poison_vfs_role_can_write :: "PoisonRole \<Rightarrow> PoisonVfsNamespace \<Rightarrow> bool" where
  "poison_vfs_role_can_write role vfs_namespace =
    (if role = PoisonRoleObserver \<or> role \<ge> PoisonRoleCount then False
     else if vfs_namespace = PoisonVfsNamespaceSystem \<or> vfs_namespace = PoisonVfsNamespaceInternal \<or>
             vfs_namespace = PoisonVfsNamespaceExternal
     then role = PoisonRoleOwner
     else True)"

definition poison_vfs_resolve_path :: "string option \<Rightarrow> PoisonRole \<Rightarrow> PoisonVfsOperation \<Rightarrow>
    PoisonVfsResolvedPath option option" where
  "poison_vfs_resolve_path logical_path role operation =
    (case poison_vfs_normalize_path logical_path of
       None \<Rightarrow> None
     | Some None \<Rightarrow> Some None
     | Some (Some normalized) \<Rightarrow>
         (case poison_vfs_find_namespace normalized of
            (None, _) \<Rightarrow> Some None
          | (Some info, namespace_length) \<Rightarrow>
              if operation = PoisonVfsOperationWrite \<and>
                 (ns_read_only info \<or> \<not> poison_vfs_role_can_write role (ns_vfs_namespace info))
              then Some None
              else
                let rest = drop (1 + namespace_length) normalized;
                    suffix = (if rest \<noteq> [] \<and> hd rest = CHR ''/'' then tl rest else rest)
                in if length (ns_backing_prefix info) + (if suffix \<noteq> [] then 1 + length suffix else 0) >
                      POISON_VFS_PATH_MAX
                   then Some None
                   else Some (Some \<lparr> rp_vfs_namespace = ns_vfs_namespace info, rp_read_only = ns_read_only info,
                     rp_logical_path = normalized,
                     rp_backing_path = ns_backing_prefix info @
                       (if suffix \<noteq> [] then ''/'' @ suffix else []) \<rparr>)))"

definition poison_vfs_policy_allows :: "PoisonRole \<Rightarrow> PoisonVfsNamespace \<Rightarrow> PoisonVfsOperation \<Rightarrow> bool" where
  "poison_vfs_policy_allows role vfs_namespace operation =
    (let name = (case vfs_namespace of
         PoisonVfsNamespaceSystem \<Rightarrow> ''system'' | PoisonVfsNamespaceConfig \<Rightarrow> ''config''
       | PoisonVfsNamespaceProfiles \<Rightarrow> ''profiles'' | PoisonVfsNamespaceApps \<Rightarrow> ''apps''
       | PoisonVfsNamespaceScripts \<Rightarrow> ''scripts'' | PoisonVfsNamespaceWorkloads \<Rightarrow> ''workloads''
       | PoisonVfsNamespaceCases \<Rightarrow> ''cases'' | PoisonVfsNamespaceEvidence \<Rightarrow> ''evidence''
       | PoisonVfsNamespaceLessons \<Rightarrow> ''lessons'' | PoisonVfsNamespaceExports \<Rightarrow> ''exports''
       | PoisonVfsNamespaceInternal \<Rightarrow> ''int'' | PoisonVfsNamespaceExternal \<Rightarrow> ''ext''
       | PoisonVfsNamespaceCount \<Rightarrow> '''')
     in if vfs_namespace = PoisonVfsNamespaceCount then False
        else case poison_vfs_resolve_path (Some (''/'' @ name)) role operation of
               Some (Some _) \<Rightarrow> True | _ \<Rightarrow> False)"

section \<open>The journal of an operation\<close>

datatype PoisonVfsJournalState =
    PoisonVfsJournalPrepared | PoisonVfsJournalDataSynced | PoisonVfsJournalMetadataCommitted
  | PoisonVfsJournalComplete

fun journal_index :: "PoisonVfsJournalState \<Rightarrow> nat" where
  "journal_index PoisonVfsJournalPrepared = 0"
| "journal_index PoisonVfsJournalDataSynced = 1"
| "journal_index PoisonVfsJournalMetadataCommitted = 2"
| "journal_index PoisonVfsJournalComplete = 3"

abbreviation "POISON_VFS_OPERATION_ID_MAX \<equiv> (64 :: nat)"

record PoisonVfsJournalRecord =
  vj_active :: bool
  vj_operation_id :: string
  vj_path :: string
  vj_state :: PoisonVfsJournalState
  vj_expected_size :: u64
  vj_old_digest :: bytes
  vj_new_digest :: bytes

definition poison_vfs_journal_init :: PoisonVfsJournalRecord where
  "poison_vfs_journal_init = \<lparr> vj_active = False, vj_operation_id = '''', vj_path = '''',
     vj_state = PoisonVfsJournalPrepared, vj_expected_size = 0, vj_old_digest = zeros 32, vj_new_digest = zeros 32 \<rparr>"

text \<open>The path is normalised into the record before the last check; a path that is refused leaves bytes
  of its own in the record (\<open>left\<close>).\<close>

definition poison_vfs_journal_prepare :: "string \<Rightarrow> PoisonVfsJournalRecord \<Rightarrow> string option \<Rightarrow> string option \<Rightarrow>
    u64 \<Rightarrow> bytes option \<Rightarrow> bytes option \<Rightarrow> (PoisonVfsJournalRecord \<times> bool) option" where
  "poison_vfs_journal_prepare left record operation_id path expected_size old_digest new_digest =
    (if operation_id = None \<or> path = None \<or> old_digest = None \<or> new_digest = None \<or> vj_active record \<or>
        strnlen (the operation_id) (POISON_VFS_OPERATION_ID_MAX + 1) > POISON_VFS_OPERATION_ID_MAX
     then Some (record, False)
     else case poison_vfs_normalize_path path of
            None \<Rightarrow> None
          | Some None \<Rightarrow> Some (record \<lparr> vj_path := left \<rparr>, False)
          | Some (Some normalized) \<Rightarrow>
              if length (the operation_id) = 0 \<or> length (the operation_id) > POISON_VFS_OPERATION_ID_MAX
              then Some (record \<lparr> vj_path := normalized \<rparr>, False)
              else Some (\<lparr> vj_active = True, vj_operation_id = the operation_id, vj_path = normalized,
                vj_state = PoisonVfsJournalPrepared, vj_expected_size = expected_size,
                vj_old_digest = take 32 (the old_digest), vj_new_digest = take 32 (the new_digest) \<rparr>, True))"

definition poison_vfs_journal_advance :: "PoisonVfsJournalRecord \<Rightarrow> PoisonVfsJournalState \<Rightarrow>
    PoisonVfsJournalRecord \<times> bool" where
  "poison_vfs_journal_advance record next_state =
    (if \<not> vj_active record \<or> journal_index next_state \<noteq> journal_index (vj_state record) + 1 then (record, False)
     else (record \<lparr> vj_state := next_state,
             vj_active := (if next_state = PoisonVfsJournalComplete then False else vj_active record) \<rparr>, True))"

definition poison_vfs_journal_validate :: "PoisonVfsJournalRecord \<Rightarrow> bool option" where
  "poison_vfs_journal_validate record =
    (if \<not> vj_active record \<or> journal_index (vj_state record) > journal_index PoisonVfsJournalComplete \<or>
        vj_operation_id record = ''''
     then Some False
     else map_option (\<lambda>r. r = Some (vj_path record)) (poison_vfs_normalize_path (Some (vj_path record))))"

datatype PoisonVfsRecoveryResult = PoisonVfsRecoveryNoop | PoisonVfsRecoveryRollback | PoisonVfsRecoveryComplete

definition poison_vfs_recover :: "PoisonVfsJournalRecord \<Rightarrow> PoisonVfsJournalRecord \<times> PoisonVfsRecoveryResult" where
  "poison_vfs_recover record =
    (if journal_index (vj_state record) > journal_index PoisonVfsJournalComplete
     then (record, PoisonVfsRecoveryRollback)
     else if \<not> vj_active record then (record, PoisonVfsRecoveryNoop)
     else if vj_state record = PoisonVfsJournalMetadataCommitted
     then (record \<lparr> vj_state := PoisonVfsJournalComplete, vj_active := False \<rparr>, PoisonVfsRecoveryComplete)
     else (record \<lparr> vj_active := False \<rparr>, PoisonVfsRecoveryRollback))"

section \<open>Snapshots of workspaces\<close>

record PoisonWorkspaceSnapshot =
  ws_active :: bool
  ws_snapshot_id :: string
  ws_workspace_path :: string

definition poison_workspace_snapshot_create :: "PoisonWorkspaceSnapshot \<Rightarrow> string option \<Rightarrow> string option \<Rightarrow>
    (PoisonWorkspaceSnapshot \<times> bool) option" where
  "poison_workspace_snapshot_create snapshot snapshot_id workspace_path =
    (if snapshot_id = None \<or> workspace_path = None \<or> ws_active snapshot \<or> the snapshot_id = '''' \<or>
        strnlen (the snapshot_id) 65 \<ge> 65
     then Some (snapshot, False)
     else case poison_vfs_normalize_path workspace_path of
            None \<Rightarrow> None
          | Some None \<Rightarrow> Some (snapshot, False)
          | Some (Some normalized) \<Rightarrow>
              if \<not> prefix ''/cases/'' normalized then Some (snapshot, False)
              else Some (\<lparr> ws_active = True, ws_snapshot_id = the snapshot_id, ws_workspace_path = normalized \<rparr>, True))"

definition poison_workspace_reset_preview :: "PoisonWorkspaceSnapshot \<Rightarrow> string option \<Rightarrow> bool option" where
  "poison_workspace_reset_preview snapshot workspace_path =
    (if \<not> ws_active snapshot \<or> workspace_path = None then Some False
     else map_option (\<lambda>r. r = Some (ws_workspace_path snapshot)) (poison_vfs_normalize_path workspace_path))"

definition poison_workspace_reset_confirm :: "PoisonWorkspaceSnapshot \<Rightarrow> string option \<Rightarrow> bool \<Rightarrow>
    (PoisonWorkspaceSnapshot \<times> bool) option" where
  "poison_workspace_reset_confirm snapshot workspace_path exact_confirmation =
    (if \<not> exact_confirmation then Some (snapshot, False)
     else map_option (\<lambda>ok. if \<not> ok then (snapshot, False) else (snapshot \<lparr> ws_active := False \<rparr>, True))
            (poison_workspace_reset_preview snapshot workspace_path))"

section \<open>Where a resolved path leads\<close>

lemma split_path_append_slash: "split_path (p @ CHR ''/'' # q) = split_path p @ split_path q"
proof (induction p)
  case (Cons c p)
  obtain s ss where "split_path p = s # ss" by (cases "split_path p") auto
  then show ?case using Cons.IH by simp
qed simp

lemma segments_append_slash: "segments (p @ CHR ''/'' # q) = segments p @ segments q"
  by (simp add: segments_def split_path_append_slash)

lemma split_path_segment: "CHR ''/'' \<notin> set s \<Longrightarrow> split_path s = [s]"
  by (induction s) auto

lemma segments_slashed:
  "\<forall>s \<in> set xs. s \<noteq> [] \<and> CHR ''/'' \<notin> set s \<Longrightarrow> segments (p @ slashed xs) = segments p @ xs"
proof (induction xs arbitrary: p)
  case (Cons x xs)
  have "p @ slashed (x # xs) = (p @ CHR ''/'' # x) @ slashed xs" by (simp add: slashed_Cons)
  moreover have "segments (p @ CHR ''/'' # x) = segments p @ [x]"
    unfolding segments_append_slash using Cons.prems by (simp add: segments_def split_path_segment)
  ultimately show ?case using Cons.IH [of "p @ CHR ''/'' # x"] Cons.prems by simp
qed (simp add: slashed_def)

lemma find_namespace_row:
  assumes "poison_vfs_find_namespace (slashed (x # xs)) = (Some info, n)"
    and "\<forall>s \<in> set (x # xs). s \<noteq> [] \<and> CHR ''/'' \<notin> set s"
  shows "info \<in> set namespace_info" "ns_name info = x" "n = length x"
proof -
  have "\<forall>c \<in> set x. c \<noteq> CHR ''/''" using assms(2) by (metis list.set_intros(1))
  then have name: "takeWhile (\<lambda>c. c \<noteq> CHR ''/'') (x @ slashed xs) = x"
    by (cases xs) (simp_all add: takeWhile_append2 slashed_def)
  then show "info \<in> set namespace_info" "ns_name info = x" "n = length x"
    using assms(1) by (auto simp: poison_vfs_find_namespace_def slashed_Cons Let_def find_Some_iff in_set_conv_nth)
qed

text \<open>Everything a successful resolution says.\<close>

lemma resolved_path:
  assumes "poison_vfs_resolve_path logical role operation = Some (Some r)"
  obtains info path rest where "info \<in> set namespace_info" "logical = Some path"
    "segments path = ns_name info # rest" "''.'' \<notin> set rest" "''..'' \<notin> set rest"
    "segments (rp_backing_path r) = segments (ns_backing_prefix info) @ rest"
    "length (rp_backing_path r) \<le> POISON_VFS_PATH_MAX"
    "rp_vfs_namespace r = ns_vfs_namespace info" "rp_read_only r = ns_read_only info"
    "operation = PoisonVfsOperationWrite \<Longrightarrow>
       \<not> ns_read_only info \<and> poison_vfs_role_can_write role (ns_vfs_namespace info)"
proof -
  obtain normalized info n where norm: "normal_form logical = Some normalized"
    and find: "poison_vfs_find_namespace normalized = (Some info, n)"
    using assms by (auto simp: poison_vfs_resolve_path_def normalize_path_computes split: option.splits prod.splits)
  obtain path where path: "logical = Some path" "''.'' \<notin> set (segments path)" "''..'' \<notin> set (segments path)"
    "normalized = join_path (segments path)"
    using norm by (auto simp: normal_form_def split: option.splits if_splits)
  have "segments path \<noteq> []"
  proof
    assume "segments path = []"
    then have "normalized = ''/''" using path(4) by (simp add: join_path_def)
    then show False
      using find by (simp add: poison_vfs_find_namespace_def namespace_info_def namespace_row_def)
  qed
  then obtain x xs where ss: "segments path = x # xs" by (cases "segments path") auto
  then have normal: "normalized = slashed (x # xs)" using path(4) by (simp add: join_path_def slashed_def)
  have clean: "\<forall>s \<in> set (x # xs). s \<noteq> [] \<and> CHR ''/'' \<notin> set s" using segments_members [of path] ss by simp
  note row = find_namespace_row [OF find [unfolded normal] clean]
  have rest: "drop (1 + n) normalized = slashed xs" by (simp add: normal row(3) slashed_Cons)
  have backing: "(if (if slashed xs \<noteq> [] \<and> hd (slashed xs) = CHR ''/'' then tl (slashed xs) else slashed xs) \<noteq> []
      then ''/'' @ (if slashed xs \<noteq> [] \<and> hd (slashed xs) = CHR ''/'' then tl (slashed xs) else slashed xs) else []) =
      slashed xs"
    using clean by (cases xs) (auto simp: slashed_Cons, simp_all add: slashed_def)
  then have r: "rp_backing_path r = ns_backing_prefix info @ slashed xs"
    "length (rp_backing_path r) \<le> POISON_VFS_PATH_MAX"
    "rp_vfs_namespace r = ns_vfs_namespace info" "rp_read_only r = ns_read_only info"
    "operation = PoisonVfsOperationWrite \<Longrightarrow>
       \<not> ns_read_only info \<and> poison_vfs_role_can_write role (ns_vfs_namespace info)"
    using assms norm find rest
    by (auto simp: poison_vfs_resolve_path_def normalize_path_computes Let_def split: if_splits)
  have "segments (rp_backing_path r) = segments (ns_backing_prefix info) @ xs"
    using segments_slashed [of xs "ns_backing_prefix info"] clean r(1) by simp
  then show ?thesis
    using that [OF row(1) path(1), of xs] ss path(2,3) r row(2) by auto
qed

text \<open>The mounts a role may write to, with the directory behind each; the system mount is not one of them.\<close>

definition writable_mounts :: "PoisonRole \<Rightarrow> (string \<times> string list) list" where
  "writable_mounts role =
    (if role = PoisonRoleObserver \<or> role = PoisonRoleCount then []
     else [(''config'', [''int'', ''config'']), (''profiles'', [''int'', ''config'', ''profiles'']),
           (''apps'', [''ext'', ''apps'']), (''scripts'', [''ext'', ''scripts'']),
           (''workloads'', [''ext'', ''workloads'']), (''cases'', [''ext'', ''cases'']),
           (''evidence'', [''ext'', ''evidence'']), (''lessons'', [''ext'', ''lessons'']),
           (''exports'', [''ext'', ''exports''])] @
          (if role = PoisonRoleOwner then [(''int'', [''int'']), (''ext'', [''ext''])] else []))"

text \<open>The directories a role may write to.\<close>

definition writable_roots :: "PoisonRole \<Rightarrow> string list list" where
  "writable_roots role =
    (if role = PoisonRoleObserver \<or> role = PoisonRoleCount then []
     else [[''int'', ''config''], [''ext'', ''apps''], [''ext'', ''scripts''], [''ext'', ''workloads''],
           [''ext'', ''cases''], [''ext'', ''evidence''], [''ext'', ''lessons''], [''ext'', ''exports'']] @
          (if role = PoisonRoleOwner then [[''int''], [''ext'']] else []))"

lemma backing_segments:
  "segments ''/int/system'' = [''int'', ''system'']" "segments ''/int/config'' = [''int'', ''config'']"
  "segments ''/int/config/profiles'' = [''int'', ''config'', ''profiles'']"
  "segments ''/ext/apps'' = [''ext'', ''apps'']" "segments ''/ext/scripts'' = [''ext'', ''scripts'']"
  "segments ''/ext/workloads'' = [''ext'', ''workloads'']" "segments ''/ext/cases'' = [''ext'', ''cases'']"
  "segments ''/ext/evidence'' = [''ext'', ''evidence'']" "segments ''/ext/lessons'' = [''ext'', ''lessons'']"
  "segments ''/ext/exports'' = [''ext'', ''exports'']" "segments ''/int'' = [''int'']" "segments ''/ext'' = [''ext'']"
  by (simp_all add: segments_def)

lemma namespace_row_writable:
  assumes "info \<in> set namespace_info"
  shows "''..'' \<notin> set (segments (ns_backing_prefix info)) \<and>
    (\<not> ns_read_only info \<and> poison_vfs_role_can_write role (ns_vfs_namespace info) \<longrightarrow>
     (ns_name info, segments (ns_backing_prefix info)) \<in> set (writable_mounts role) \<and>
     (\<exists>root \<in> set (writable_roots role). prefix root (segments (ns_backing_prefix info))))"
proof -
  have "\<forall>info \<in> set namespace_info. ''..'' \<notin> set (segments (ns_backing_prefix info)) \<and>
    (\<not> ns_read_only info \<and> poison_vfs_role_can_write role (ns_vfs_namespace info) \<longrightarrow>
     (ns_name info, segments (ns_backing_prefix info)) \<in> set (writable_mounts role) \<and>
     (\<exists>root \<in> set (writable_roots role). prefix root (segments (ns_backing_prefix info))))"
    by (cases role)
      (simp_all add: namespace_info_def namespace_row_def poison_vfs_role_can_write_def writable_roots_def
        writable_mounts_def backing_segments del: segments_slash)
  with assms show ?thesis by blast
qed

text \<open>C30: a path that resolves for writing goes through a mount the role may write to, which is never the
  read-only system mount, and leads to the same place below the directory behind that mount: nobody but the
  owner reaches anything outside the configuration and the shared directories of the external storage, and an
  observer nothing at all; no resolved path contains a \<open>..\<close> segment or is too long.  (The owner
  reaches the directory behind the system mount through the mount of the internal storage.)\<close>

theorem vfs_write_confined:
  assumes "poison_vfs_resolve_path logical role PoisonVfsOperationWrite = Some (Some r)"
  shows "(\<exists>mount root path rest. (mount, root) \<in> set (writable_mounts role) \<and> mount \<noteq> ''system'' \<and>
      logical = Some path \<and> segments path = mount # rest \<and> segments (rp_backing_path r) = root @ rest) \<and>
    \<not> rp_read_only r \<and>
    (\<exists>root \<in> set (writable_roots role). prefix root (segments (rp_backing_path r))) \<and>
    ''..'' \<notin> set (segments (rp_backing_path r)) \<and> length (rp_backing_path r) \<le> POISON_VFS_PATH_MAX"
proof (rule resolved_path [OF assms])
  fix info path rest
  assume info: "info \<in> set namespace_info" "''..'' \<notin> set rest" "logical = Some path"
      "segments path = ns_name info # rest"
    and backing: "segments (rp_backing_path r) = segments (ns_backing_prefix info) @ rest"
      "length (rp_backing_path r) \<le> POISON_VFS_PATH_MAX" "rp_read_only r = ns_read_only info"
    and allowed: "PoisonVfsOperationWrite = PoisonVfsOperationWrite \<Longrightarrow>
       \<not> ns_read_only info \<and> poison_vfs_role_can_write role (ns_vfs_namespace info)"
  have row: "(ns_name info, segments (ns_backing_prefix info)) \<in> set (writable_mounts role)"
      "\<exists>root \<in> set (writable_roots role). prefix root (segments (ns_backing_prefix info))"
      "''..'' \<notin> set (segments (ns_backing_prefix info))"
    using namespace_row_writable [OF info(1)] allowed by blast+
  have "ns_name info \<noteq> ''system''"
    using row(1) by (auto simp: writable_mounts_def split: if_splits)
  then have "\<exists>mount root path rest. (mount, root) \<in> set (writable_mounts role) \<and> mount \<noteq> ''system'' \<and>
      logical = Some path \<and> segments path = mount # rest \<and> segments (rp_backing_path r) = root @ rest"
    using row(1) info(3,4) backing(1) by blast
  moreover have "\<exists>root \<in> set (writable_roots role). prefix root (segments (rp_backing_path r))"
    using row(2) backing(1) by (auto intro: prefix_prefix)
  ultimately show ?thesis using row(3) backing info(2) allowed by simp
qed

text \<open>A student writes a script, through a path with redundant separators.\<close>

lemma sample_normal_form: "normal_form (Some ''/scripts//a.js/'') = Some ''/scripts/a.js''"
  by (simp add: normal_form_def segments_def join_path_def poison_vfs_is_valid_byte_def of_char_def)

lemma vfs_write_confined_witness:
  "\<exists>r. poison_vfs_resolve_path (Some ''/scripts//a.js/'') PoisonRoleStudent PoisonVfsOperationWrite = Some (Some r) \<and>
     rp_backing_path r = ''/ext/scripts/a.js'' \<and>
     (\<exists>root \<in> set (writable_roots PoisonRoleStudent). prefix root (segments (rp_backing_path r)))"
proof -
  let ?r = "\<lparr> rp_vfs_namespace = PoisonVfsNamespaceScripts, rp_read_only = False,
    rp_logical_path = ''/scripts/a.js'', rp_backing_path = ''/ext/scripts/a.js'' \<rparr>"
  have r: "poison_vfs_resolve_path (Some ''/scripts//a.js/'') PoisonRoleStudent PoisonVfsOperationWrite = Some (Some ?r)"
    by (simp add: poison_vfs_resolve_path_def normalize_path_computes sample_normal_form
        poison_vfs_find_namespace_def namespace_info_def namespace_row_def poison_vfs_role_can_write_def Let_def)
  from vfs_write_confined [OF r] show ?thesis using r by (intro exI [of _ ?r]) simp
qed

text \<open>The read-only system namespace is an alias of a directory the owner can write to.\<close>

lemma owner_writes_system:
  "poison_vfs_resolve_path (Some ''/system/x'') PoisonRoleOwner PoisonVfsOperationWrite = Some None \<and>
   (\<exists>r. poison_vfs_resolve_path (Some ''/int/system/x'') PoisonRoleOwner PoisonVfsOperationWrite = Some (Some r) \<and>
      rp_backing_path r = ''/int/system/x'')"
proof -
  have "normal_form (Some ''/system/x'') = Some ''/system/x''" "normal_form (Some ''/int/system/x'') = Some ''/int/system/x''"
    by (simp_all add: normal_form_def segments_def join_path_def poison_vfs_is_valid_byte_def of_char_def)
  then show ?thesis
    by (simp add: poison_vfs_resolve_path_def normalize_path_computes
        poison_vfs_find_namespace_def namespace_info_def namespace_row_def poison_vfs_role_can_write_def Let_def)
qed

end
