(* ===== verification/ZipArchive.thy ===== *)
theory ZipArchive
  imports PackageAuthority Vfs
begin

text \<open>Reading a package archive (\<open>poison_packages/poison_package_archive.c\<close>): the file that is read
  in pieces, the scan of the local headers of the ZIP archive and of its central directory, the
  check of the member paths and of the digests of the members.  The loops over the archive are
  modelled as loops that may not return; that they do is proved.\<close>

section \<open>Results\<close>

datatype PoisonPackageArchiveResult =
    PoisonPackageArchiveOk | PoisonPackageArchiveInvalid | PoisonPackageArchiveIo
  | PoisonPackageArchiveDigestMismatch | PoisonPackageArchiveUnknownSigner
  | PoisonPackageArchiveSignatureInvalid | PoisonPackageArchiveRevokedSigner
  | PoisonPackageArchiveIncompatible | PoisonPackageArchiveDowngrade

text \<open>\<open>Inl\<close>: the result with which the code gives up.\<close>

definition and_then :: "'e + 'a \<Rightarrow> ('a \<Rightarrow> 'e + 'b) \<Rightarrow> 'e + 'b" where
  "and_then r k = (case r of Inl e \<Rightarrow> Inl e | Inr x \<Rightarrow> k x)"

definition attempt :: "'e \<Rightarrow> 'a option \<Rightarrow> 'e + 'a" where
  "attempt e r = (case r of None \<Rightarrow> Inl e | Some x \<Rightarrow> Inr x)"

definition demand :: "'e \<Rightarrow> bool \<Rightarrow> 'e + unit" where
  "demand e ok = (if ok then Inr () else Inl e)"

lemma and_then_simps [simp]: "and_then (Inl e) k = Inl e" "and_then (Inr x) k = k x"
  by (simp_all add: and_then_def)

lemma and_then_Inr: "and_then r k = Inr y \<longleftrightarrow> (\<exists>x. r = Inr x \<and> k x = Inr y)"
  by (cases r) simp_all

lemma attempt_simps [simp]: "attempt e None = Inl e" "attempt e (Some x) = Inr x"
  by (simp_all add: attempt_def)

lemma attempt_Inr: "attempt e r = Inr x \<longleftrightarrow> r = Some x"
  by (cases r) simp_all

lemma demand_simps [simp]: "demand e True = Inr ()" "demand e False = Inl e"
  by (simp_all add: demand_def)

lemma demand_Inr: "demand e ok = Inr u \<longleftrightarrow> ok"
  by (simp add: demand_def)

lemmas sum_results = and_then_Inr attempt_Inr demand_Inr

section \<open>A file that is read\<close>

text \<open>A file of the storage opened for reading: its bytes, the position, and for each call that can
  still come whether the storage fails in it.  Nothing is read from the file after a call that
  failed, so what that call does to the position does not matter.  Reading stops at the end of
  the file, and a position beyond it is brought back to it (FatFs for a file opened for reading).\<close>

record OpenFile =
  of_bytes :: bytes
  of_position :: nat
  of_fails :: "nat \<Rightarrow> bool"

definition file_called :: "OpenFile \<Rightarrow> OpenFile" where
  "file_called file = file \<lparr> of_fails := (\<lambda>n. of_fails file (Suc n)) \<rparr>"

definition poison_file_read_exact :: "nat \<Rightarrow> OpenFile \<Rightarrow> (bytes \<times> OpenFile) option" where
  "poison_file_read_exact n file =
    (if n = 0 then Some ([], file)
     else let output = take n (drop (of_position file) (of_bytes file))
     in if of_fails file 0 \<or> length output \<noteq> n then None
        else Some (output, (file_called file) \<lparr> of_position := of_position file + n \<rparr>))"

definition storage_file_seek :: "nat \<Rightarrow> bool \<Rightarrow> OpenFile \<Rightarrow> OpenFile option" where
  "storage_file_seek offset from_start file =
    (if of_fails file 0 then None
     else let target = (if from_start then offset else of_position file + offset)
     in Some ((file_called file) \<lparr> of_position := min target (length (of_bytes file)) \<rparr>))"

lemma file_called_fields [simp]:
  "of_bytes (file_called f) = of_bytes f" "of_position (file_called f) = of_position f"
  "of_fails (file_called f) = (\<lambda>n. of_fails f (Suc n))"
  by (simp_all add: file_called_def)

lemma read_exact_Some:
  assumes "poison_file_read_exact n file = Some (output, file')"
  shows "output = take n (drop (of_position file) (of_bytes file))" "length output = n"
    "of_position file' = of_position file + n" "of_bytes file' = of_bytes file"
    "n > 0 \<Longrightarrow> of_position file' \<le> length (of_bytes file)"
  using assms by (auto simp: poison_file_read_exact_def Let_def split: if_splits)

lemma seek_Some:
  assumes "storage_file_seek offset from_start file = Some file'"
  shows "of_bytes file' = of_bytes file"
    "of_position file' = min (if from_start then offset else of_position file + offset) (length (of_bytes file))"
  using assms by (auto simp: storage_file_seek_def Let_def split: if_splits)

text \<open>A storage that never fails.\<close>

definition reliable :: "OpenFile \<Rightarrow> bool" where
  "reliable file \<longleftrightarrow> (\<forall>n. \<not> of_fails file n)"

lemma reliable_calls:
  assumes "reliable file"
  shows "storage_file_seek offset from_start file \<noteq> None"
    "of_position file + n \<le> length (of_bytes file) \<Longrightarrow> poison_file_read_exact n file \<noteq> None"
    "poison_file_read_exact n file = Some (output, f1) \<Longrightarrow> reliable f1"
    "storage_file_seek offset from_start file = Some f2 \<Longrightarrow> reliable f2"
  using assms by (auto simp: reliable_def storage_file_seek_def poison_file_read_exact_def Let_def split: if_splits)

section \<open>Numbers, digests and paths\<close>

definition poison_zip_u16 :: "bytes \<Rightarrow> nat \<Rightarrow> u16" where
  "poison_zip_u16 value i = ucast (value ! i) OR push_bit 8 (ucast (value ! (i + 1)))"

definition poison_zip_u32 :: "bytes \<Rightarrow> nat \<Rightarrow> u32" where
  "poison_zip_u32 value i = ucast (value ! i) OR push_bit 8 (ucast (value ! (i + 1))) OR
     push_bit 16 (ucast (value ! (i + 2))) OR push_bit 24 (ucast (value ! (i + 3)))"

definition lower_hex_digit :: "char \<Rightarrow> bool" where
  "lower_hex_digit c \<longleftrightarrow> (char_code CHR ''0'' \<le> char_code c \<and> char_code c \<le> char_code CHR ''9'') \<or>
     (char_code CHR ''a'' \<le> char_code c \<and> char_code c \<le> char_code CHR ''f'')"

definition poison_package_hex_digest_valid :: "string option \<Rightarrow> bool" where
  "poison_package_hex_digest_valid value =
    (case value of None \<Rightarrow> False | Some v \<Rightarrow> length v = 64 \<and> list_all lower_hex_digit v)"

definition hex_digit :: "nat \<Rightarrow> char" where
  "hex_digit n = ''0123456789abcdef'' ! n"

definition poison_package_hex_encode :: "bytes \<Rightarrow> string" where
  "poison_package_hex_encode input =
     concat (map (\<lambda>b. [hex_digit (unat (drop_bit 4 b)), hex_digit (unat (b AND 0x0f))]) input)"

abbreviation "POISON_PACKAGE_ARCHIVE_MAX_BYTES \<equiv> (4 * 1024 * 1024 :: nat)"
abbreviation "POISON_PACKAGE_MANIFEST_MAX_BYTES \<equiv> (4096 :: nat)"
abbreviation "POISON_PACKAGE_PAYLOAD_MAX \<equiv> (32 :: nat)"
abbreviation "POISON_PACKAGE_PAYLOAD_PATH_MAX \<equiv> (256 :: nat)"
abbreviation "ZIP_MEMBER_MAX \<equiv> (33 :: nat)"
abbreviation "ZIP_LOCAL_HEADER \<equiv> (0x04034b50 :: u32)"
abbreviation "ZIP_CENTRAL_HEADER \<equiv> (0x02014b50 :: u32)"
abbreviation "ZIP_END_HEADER \<equiv> (0x06054b50 :: u32)"

text \<open>The loop over a path: \<open>segment\<close> is what was read since the last separator.\<close>

definition segment_valid :: "string \<Rightarrow> bool" where
  "segment_valid segment \<longleftrightarrow> length segment \<noteq> 0 \<and> segment \<noteq> ''.'' \<and> segment \<noteq> ''..''"

fun path_segments_valid :: "string \<Rightarrow> string \<Rightarrow> bool" where
  "path_segments_valid segment [] = segment_valid segment"
| "path_segments_valid segment (c # cursor) =
    (if c = CHR ''/'' then segment_valid segment \<and> path_segments_valid [] cursor
     else char_code c \<ge> 0x20 \<and> path_segments_valid (segment @ [c]) cursor)"

definition poison_package_path_valid :: "string option \<Rightarrow> bool" where
  "poison_package_path_valid path =
    (case path of
       None \<Rightarrow> False
     | Some p \<Rightarrow>
         if p = '''' \<or> hd p = CHR ''/'' \<or> CHR 0x5C \<in> set p \<or>
            strnlen p (POISON_PACKAGE_PAYLOAD_PATH_MAX + 1) > POISON_PACKAGE_PAYLOAD_PATH_MAX
         then False else path_segments_valid [] p)"

text \<open>What the loop accepts, on the list of the segments.\<close>

lemma split_path_append:
  assumes "CHR ''/'' \<notin> set seg"
  shows "split_path (seg @ cs) = (seg @ hd (split_path cs)) # tl (split_path cs)"
  using assms
proof (induction seg)
  case Nil
  then show ?case by (cases "split_path cs") auto
next
  case (Cons c seg)
  then show ?case by auto
qed

lemma path_segments_valid_iff:
  assumes "CHR ''/'' \<notin> set seg" "\<forall>c \<in> set seg. char_code c \<ge> 0x20"
  shows "path_segments_valid seg cs \<longleftrightarrow>
    (\<forall>s \<in> set (split_path (seg @ cs)). segment_valid s) \<and> (\<forall>c \<in> set cs. char_code c \<ge> 0x20)"
  using assms
proof (induction seg cs rule: path_segments_valid.induct)
  case (1 seg)
  then show ?case using split_path_append [of seg "[]"] by simp
next
  case (2 seg c cs)
  note IH = "2.IH" and prems = "2.prems"
  show ?case
  proof (cases "c = CHR ''/''")
    case True
    have slash: "char_code CHR ''/'' \<ge> 0x20" by (simp add: of_char_def)
    show ?thesis
      using IH(1) True prems slash split_path_append [of seg "c # cs"] by auto
  next
    case False
    then show ?thesis
      using IH(2) prems by auto
  qed
qed

lemma path_valid_iff:
  "poison_package_path_valid (Some p) \<longleftrightarrow> p \<noteq> [] \<and> length p \<le> POISON_PACKAGE_PAYLOAD_PATH_MAX \<and>
     CHR 0x5C \<notin> set p \<and> (\<forall>c \<in> set p. char_code c \<ge> 0x20) \<and>
     (\<forall>s \<in> set (split_path p). s \<noteq> '''' \<and> s \<noteq> ''.'' \<and> s \<noteq> ''..'')"
  using path_segments_valid_iff [of "[]" p]
  by (cases p) (auto simp: poison_package_path_valid_def segment_valid_def strnlen_def min_def)

section \<open>The scan of the archive\<close>

record PoisonZipMember =
  zm_path :: string
  zm_local_offset :: u32
  zm_data_offset :: u32
  zm_size :: u32
  zm_crc32 :: u32
  zm_central_seen :: bool

definition poison_package_find_member :: "PoisonZipMember list \<Rightarrow> string \<Rightarrow> nat option" where
  "poison_package_find_member members path = find_index (\<lambda>m. zm_path m = path) members"

text \<open>One local header after its signature, with the path behind it.\<close>

definition zip_local_header ::
    "nat \<Rightarrow> PoisonZipMember list \<Rightarrow> u32 \<Rightarrow> OpenFile \<Rightarrow>
     PoisonPackageArchiveResult + (PoisonZipMember \<times> OpenFile)" where
  "zip_local_header archive_size members local_offset file =
    and_then (attempt PoisonPackageArchiveIo (poison_file_read_exact 26 file)) (\<lambda>(header, file).
    let flags = poison_zip_u16 header 2;
        compression = poison_zip_u16 header 4;
        crc32 = poison_zip_u32 header 10;
        compressed = poison_zip_u32 header 14;
        uncompressed = poison_zip_u32 header 18;
        name_length = poison_zip_u16 header 22;
        extra_length = poison_zip_u16 header 24
    in and_then (demand PoisonPackageArchiveInvalid
         (\<not> (flags \<noteq> 0 \<or> compression \<noteq> 0 \<or> compressed \<noteq> uncompressed \<or> compressed = UINT32_MAX \<or>
             name_length = 0 \<or> unat name_length > POISON_PACKAGE_PAYLOAD_PATH_MAX \<or>
             extra_length > 1024 \<or>
             of_position file + unat name_length + unat extra_length + unat compressed > archive_size)))
    (\<lambda>_. and_then (attempt PoisonPackageArchiveIo (poison_file_read_exact (unat name_length) file))
    (\<lambda>(name, file). let path = c_string name in
     and_then (demand PoisonPackageArchiveInvalid
         (poison_package_path_valid (Some path) \<and> poison_package_find_member members path = None))
    (\<lambda>_. and_then (attempt PoisonPackageArchiveInvalid (storage_file_seek (unat extra_length) False file))
    (\<lambda>file. Inr (\<lparr> zm_path = path, zm_local_offset = local_offset,
                   zm_data_offset = of_nat (of_position file), zm_size = uncompressed,
                   zm_crc32 = crc32, zm_central_seen = False \<rparr>, file))))))"

text \<open>The data of a member: the manifest, which comes first, is read, the others are skipped.\<close>

definition zip_member_data ::
    "PoisonZipMember list \<Rightarrow> PoisonZipMember \<Rightarrow> bytes \<Rightarrow> OpenFile \<Rightarrow>
     PoisonPackageArchiveResult + (bytes \<times> OpenFile)" where
  "zip_member_data members member manifest file =
    (if members = []
     then and_then (demand PoisonPackageArchiveInvalid
            (zm_path member = ''manifest.json'' \<and> zm_size member \<noteq> 0 \<and>
             unat (zm_size member) \<le> POISON_PACKAGE_MANIFEST_MAX_BYTES))
          (\<lambda>_. attempt PoisonPackageArchiveInvalid (poison_file_read_exact (unat (zm_size member)) file))
     else and_then (attempt PoisonPackageArchiveIo (storage_file_seek (unat (zm_size member)) False file))
          (\<lambda>file. Inr (manifest, file)))"

text \<open>The first loop.  The archive scanned so far: the members, the manifest, the offset of the
  central directory (0 while it was not found) and the file.\<close>

record ZipScan =
  zs_members :: "PoisonZipMember list"
  zs_manifest :: bytes
  zs_central_offset :: u32
  zs_file :: OpenFile

definition zip_local_round :: "nat \<Rightarrow> ZipScan \<Rightarrow> PoisonPackageArchiveResult + (ZipScan \<times> bool)" where
  "zip_local_round archive_size scan =
    (let members = zs_members scan; local_offset = of_position (zs_file scan) in
     and_then (attempt PoisonPackageArchiveIo (poison_file_read_exact 4 (zs_file scan))) (\<lambda>(signature_bytes, file).
     let signature = poison_zip_u32 signature_bytes 0 in
     if signature = ZIP_CENTRAL_HEADER
     then and_then (attempt PoisonPackageArchiveIo (storage_file_seek local_offset True file))
       (\<lambda>file. Inr (scan \<lparr> zs_central_offset := of_nat local_offset, zs_file := file \<rparr>, True))
     else and_then (demand PoisonPackageArchiveInvalid
            (signature = ZIP_LOCAL_HEADER \<and> length members < ZIP_MEMBER_MAX))
     (\<lambda>_. and_then (zip_local_header archive_size members (of_nat local_offset) file) (\<lambda>(member, file).
          and_then (zip_member_data members member (zs_manifest scan) file) (\<lambda>(manifest, file).
          Inr (scan \<lparr> zs_members := members @ [member], zs_manifest := manifest, zs_file := file \<rparr>, False))))))"

partial_function (option) zip_scan_local ::
    "nat \<Rightarrow> ZipScan \<Rightarrow> (PoisonPackageArchiveResult + ZipScan) option" where
  "zip_scan_local archive_size scan =
    (if of_position (zs_file scan) + 4 \<le> archive_size
     then case zip_local_round archive_size scan of
            Inl e \<Rightarrow> Some (Inl e)
          | Inr (scan', found) \<Rightarrow> if found then Some (Inr scan') else zip_scan_local archive_size scan'
     else Some (Inr scan))"

text \<open>The second loop, over the central directory.\<close>

definition zip_end_record ::
    "nat \<Rightarrow> nat \<Rightarrow> ZipScan \<Rightarrow> OpenFile \<Rightarrow> PoisonPackageArchiveResult + OpenFile" where
  "zip_end_record archive_size central_count scan file =
    and_then (attempt PoisonPackageArchiveInvalid (poison_file_read_exact 18 file)) (\<lambda>(end_bytes, file).
    and_then (demand PoisonPackageArchiveInvalid
      (\<not> (poison_zip_u16 end_bytes 0 \<noteq> 0 \<or> poison_zip_u16 end_bytes 2 \<noteq> 0 \<or>
          unat (poison_zip_u16 end_bytes 4) \<noteq> length (zs_members scan) \<or>
          unat (poison_zip_u16 end_bytes 6) \<noteq> length (zs_members scan) \<or>
          poison_zip_u32 end_bytes 12 \<noteq> zs_central_offset scan \<or> poison_zip_u16 end_bytes 16 \<noteq> 0 \<or>
          of_position file \<noteq> archive_size \<or> central_count \<noteq> length (zs_members scan))))
    (\<lambda>_. Inr file))"

definition zip_central_entry ::
    "nat \<Rightarrow> PoisonZipMember list \<Rightarrow> OpenFile \<Rightarrow>
     PoisonPackageArchiveResult + (PoisonZipMember list \<times> OpenFile)" where
  "zip_central_entry archive_size members file =
    and_then (attempt PoisonPackageArchiveIo (poison_file_read_exact 42 file)) (\<lambda>(header, file).
    let flags = poison_zip_u16 header 4;
        compression = poison_zip_u16 header 6;
        crc32 = poison_zip_u32 header 12;
        compressed = poison_zip_u32 header 16;
        uncompressed = poison_zip_u32 header 20;
        name_length = poison_zip_u16 header 24;
        extra_length = poison_zip_u16 header 26;
        comment_length = poison_zip_u16 header 28;
        disk = poison_zip_u16 header 30;
        local_offset = poison_zip_u32 header 38
    in and_then (demand PoisonPackageArchiveInvalid
         (\<not> (flags \<noteq> 0 \<or> compression \<noteq> 0 \<or> compressed \<noteq> uncompressed \<or> disk \<noteq> 0 \<or>
             name_length = 0 \<or> unat name_length > POISON_PACKAGE_PAYLOAD_PATH_MAX \<or>
             of_position file + unat name_length + unat extra_length + unat comment_length > archive_size)))
    (\<lambda>_. and_then (attempt PoisonPackageArchiveIo (poison_file_read_exact (unat name_length) file))
    (\<lambda>(name, file).
     and_then (attempt PoisonPackageArchiveInvalid (poison_package_find_member members (c_string name)))
    (\<lambda>index. let member = members ! index in
     and_then (demand PoisonPackageArchiveInvalid
         (\<not> (zm_central_seen member \<or> zm_local_offset member \<noteq> local_offset \<or>
             zm_size member \<noteq> uncompressed \<or> zm_crc32 member \<noteq> crc32)))
    (\<lambda>_. and_then (attempt PoisonPackageArchiveInvalid
           (storage_file_seek (unat extra_length + unat comment_length) False file))
    (\<lambda>file. Inr (members[index := member \<lparr> zm_central_seen := True \<rparr>], file)))))))"

definition zip_central_round ::
    "nat \<Rightarrow> nat \<Rightarrow> ZipScan \<Rightarrow> PoisonPackageArchiveResult + (ZipScan \<times> bool)" where
  "zip_central_round archive_size central_count scan =
    and_then (attempt PoisonPackageArchiveIo (poison_file_read_exact 4 (zs_file scan))) (\<lambda>(signature_bytes, file).
    let signature = poison_zip_u32 signature_bytes 0 in
    if signature = ZIP_END_HEADER
    then and_then (zip_end_record archive_size central_count scan file)
      (\<lambda>file. Inr (scan \<lparr> zs_file := file \<rparr>, True))
    else and_then (demand PoisonPackageArchiveInvalid
           (signature = ZIP_CENTRAL_HEADER \<and> central_count < length (zs_members scan)))
    (\<lambda>_. and_then (zip_central_entry archive_size (zs_members scan) file) (\<lambda>(members, file).
         Inr (scan \<lparr> zs_members := members, zs_file := file \<rparr>, False))))"

partial_function (option) zip_scan_central ::
    "nat \<Rightarrow> nat \<Rightarrow> ZipScan \<Rightarrow> (PoisonPackageArchiveResult + ZipScan) option" where
  "zip_scan_central archive_size central_count scan =
    (if of_position (zs_file scan) + 4 \<le> archive_size
     then case zip_central_round archive_size central_count scan of
            Inl e \<Rightarrow> Some (Inl e)
          | Inr (scan', ended) \<Rightarrow>
              if ended then Some (Inr scan') else zip_scan_central archive_size (central_count + 1) scan'
     else Some (Inr scan))"

text \<open>Both loops, as \<open>poison_package_verify_archive\<close> runs them.\<close>

definition zip_scan :: "nat \<Rightarrow> OpenFile \<Rightarrow> (PoisonPackageArchiveResult + ZipScan) option" where
  "zip_scan archive_size file =
    (case storage_file_seek 0 True file of
       None \<Rightarrow> Some (Inl PoisonPackageArchiveIo)
     | Some file \<Rightarrow>
         (case zip_scan_local archive_size \<lparr> zs_members = [], zs_manifest = [], zs_central_offset = 0,
                 zs_file = file \<rparr> of
            None \<Rightarrow> None
          | Some (Inl e) \<Rightarrow> Some (Inl e)
          | Some (Inr scan) \<Rightarrow>
              if zs_central_offset scan = 0 \<or> zs_members scan = [] \<or> zs_manifest scan = []
              then Some (Inl PoisonPackageArchiveInvalid)
              else zip_scan_central archive_size 0 scan))"

section \<open>The loops end\<close>

text \<open>Reading and seeking keep the bytes of the file and never move back (a seek from the start apart).\<close>

lemma seek_ahead:
  assumes "storage_file_seek offset False file = Some file'" "of_position file \<le> length (of_bytes file)"
  shows "of_bytes file' = of_bytes file" "of_position file \<le> of_position file'"
    "of_position file' \<le> length (of_bytes file)"
  using seek_Some [OF assms(1)] assms(2) by simp_all

lemma local_header_ok:
  assumes "zip_local_header archive_size members local_offset file = Inr (member, file')"
  shows "\<exists>f1 f2 name extra. poison_file_read_exact 26 file = Some f1 \<and>
    poison_file_read_exact (length name) (snd f1) = Some (name, f2) \<and> name \<noteq> [] \<and>
    storage_file_seek extra False f2 = Some file' \<and> extra \<le> 1024 \<and>
    zm_path member = c_string name \<and> poison_package_path_valid (Some (zm_path member)) \<and>
    poison_package_find_member members (zm_path member) = None \<and>
    zm_local_offset member = local_offset \<and> zm_data_offset member = of_nat (of_position file') \<and>
    of_position f2 + extra + unat (zm_size member) \<le> archive_size \<and> \<not> zm_central_seen member"
proof -
  obtain header f1 where f1: "poison_file_read_exact 26 file = Some (header, f1)"
    using assms by (auto simp: zip_local_header_def sum_results)
  define l where "l = unat (poison_zip_u16 header 22)"
  define extra where "extra = unat (poison_zip_u16 header 24)"
  obtain name f2 where f2: "poison_file_read_exact l f1 = Some (name, f2)"
    and f3: "storage_file_seek extra False f2 = Some file'"
    and ok: "poison_zip_u16 header 22 \<noteq> 0" "poison_zip_u16 header 24 \<le> 1024"
      "of_position f1 + l + extra + unat (zm_size member) \<le> archive_size"
      "zm_path member = c_string name" "poison_package_path_valid (Some (zm_path member))"
      "poison_package_find_member members (zm_path member) = None"
      "zm_local_offset member = local_offset" "zm_data_offset member = of_nat (of_position file')"
      "\<not> zm_central_seen member"
    using assms f1 by (auto simp: zip_local_header_def sum_results Let_def l_def extra_def not_less)
  have "l \<noteq> 0" using ok(1) by (simp add: l_def unat_eq_0)
  have name: "length name = l" "of_position f2 = of_position f1 + l"
    using read_exact_Some [OF f2] by simp_all
  then have "name \<noteq> []" using \<open>l \<noteq> 0\<close> by auto
  moreover have "extra \<le> 1024" using ok(2) by (simp add: extra_def word_le_nat_alt)
  ultimately show ?thesis
    using f1 f2 f3 ok name by (intro exI [of _ "(header, f1)"] exI [of _ f2] exI [of _ name] exI [of _ extra]) simp
qed

text \<open>What one round of the first loop did when it went on.\<close>

lemma local_round_ok:
  assumes "zip_local_round archive_size scan = Inr (scan', False)"
  shows "\<exists>f1 member f2 manifest f3. poison_file_read_exact 4 (zs_file scan) = Some f1 \<and>
    zip_local_header archive_size (zs_members scan) (of_nat (of_position (zs_file scan))) (snd f1) = Inr (member, f2) \<and>
    zip_member_data (zs_members scan) member (zs_manifest scan) f2 = Inr (manifest, f3) \<and>
    length (zs_members scan) < ZIP_MEMBER_MAX \<and>
    scan' = scan \<lparr> zs_members := zs_members scan @ [member], zs_manifest := manifest, zs_file := f3 \<rparr>"
  using assms by (auto simp: zip_local_round_def sum_results Let_def split: if_splits)

lemma local_round_found:
  assumes "zip_local_round archive_size scan = Inr (scan', True)"
  shows "\<exists>f1 f2. poison_file_read_exact 4 (zs_file scan) = Some f1 \<and>
    storage_file_seek (of_position (zs_file scan)) True (snd f1) = Some f2 \<and>
    scan' = scan \<lparr> zs_central_offset := of_nat (of_position (zs_file scan)), zs_file := f2 \<rparr>"
  using assms by (auto simp: zip_local_round_def sum_results Let_def split: if_splits)

lemma member_data_ok:
  assumes "zip_member_data members member manifest file = Inr (manifest', file')"
    and "of_position file + unat (zm_size member) \<le> length (of_bytes file)"
  shows "of_bytes file' = of_bytes file" "of_position file' = of_position file + unat (zm_size member)"
    "manifest' = (if members = [] then take (unat (zm_size member)) (drop (of_position file) (of_bytes file))
                  else manifest)"
    "members = [] \<Longrightarrow> zm_path member = ''manifest.json'' \<and> manifest' \<noteq> [] \<and>
       length manifest' \<le> POISON_PACKAGE_MANIFEST_MAX_BYTES"
proof -
  have "of_bytes file' = of_bytes file \<and> of_position file' = of_position file + unat (zm_size member) \<and>
    manifest' = (if members = [] then take (unat (zm_size member)) (drop (of_position file) (of_bytes file))
                  else manifest) \<and> (members = [] \<longrightarrow> zm_path member = ''manifest.json'' \<and> manifest' \<noteq> [] \<and>
       length manifest' \<le> POISON_PACKAGE_MANIFEST_MAX_BYTES)"
  proof (cases "members = []")
    case True
    then have read: "poison_file_read_exact (unat (zm_size member)) file = Some (manifest', file')"
      and ok: "zm_path member = ''manifest.json''" "zm_size member \<noteq> 0"
        "unat (zm_size member) \<le> POISON_PACKAGE_MANIFEST_MAX_BYTES"
      using assms(1) by (auto simp: zip_member_data_def sum_results)
    have "manifest' \<noteq> []"
      using ok(2) read_exact_Some(2) [OF read] by (auto simp: unat_eq_0)
    then show ?thesis
      using True ok(1,3) read_exact_Some [OF read] by simp
  next
    case False
    then have seek: "storage_file_seek (unat (zm_size member)) False file = Some file'"
      and "manifest' = manifest"
      using assms(1) by (auto simp: zip_member_data_def sum_results)
    then show ?thesis
      using False seek_Some [OF seek] assms(2) by simp
  qed
  then show "of_bytes file' = of_bytes file" "of_position file' = of_position file + unat (zm_size member)"
    "manifest' = (if members = [] then take (unat (zm_size member)) (drop (of_position file) (of_bytes file))
                  else manifest)"
    "members = [] \<Longrightarrow> zm_path member = ''manifest.json'' \<and> manifest' \<noteq> [] \<and>
       length manifest' \<le> POISON_PACKAGE_MANIFEST_MAX_BYTES"
    by blast+
qed

text \<open>The positions of a round: signature, header, name and extra field, then the data.\<close>

lemma local_round_positions:
  assumes "zip_local_round archive_size scan = Inr (scan', False)"
    and "archive_size = length (of_bytes (zs_file scan))"
  obtains member manifest f where
    "scan' = scan \<lparr> zs_members := zs_members scan @ [member], zs_manifest := manifest, zs_file := f \<rparr>"
    "of_bytes f = of_bytes (zs_file scan)"
    "zm_local_offset member = of_nat (of_position (zs_file scan))"
    "of_position f \<le> archive_size" "unat (zm_size member) \<le> of_position f"
    "zm_data_offset member = of_nat (of_position f - unat (zm_size member))"
    "of_position (zs_file scan) + 31 \<le> of_position f - unat (zm_size member)"
    "poison_package_path_valid (Some (zm_path member))"
    "poison_package_find_member (zs_members scan) (zm_path member) = None"
    "length (zs_members scan) < ZIP_MEMBER_MAX" "\<not> zm_central_seen member"
    "manifest = (if zs_members scan = []
       then take (unat (zm_size member)) (drop (of_position f - unat (zm_size member)) (of_bytes f))
       else zs_manifest scan)"
    "zs_members scan = [] \<longrightarrow> zm_path member = ''manifest.json'' \<and> manifest \<noteq> [] \<and>
       length manifest \<le> POISON_PACKAGE_MANIFEST_MAX_BYTES"
proof -
  obtain b1 f1 member f2 manifest f3 where
    f1: "poison_file_read_exact 4 (zs_file scan) = Some (b1, f1)"
    and header: "zip_local_header archive_size (zs_members scan) (of_nat (of_position (zs_file scan))) f1
      = Inr (member, f2)"
    and data: "zip_member_data (zs_members scan) member (zs_manifest scan) f2 = Inr (manifest, f3)"
    and room: "length (zs_members scan) < ZIP_MEMBER_MAX"
    and scan': "scan' = scan \<lparr> zs_members := zs_members scan @ [member], zs_manifest := manifest, zs_file := f3 \<rparr>"
    using local_round_ok [OF assms(1)] by (metis surj_pair snd_conv)
  obtain b2 h1 h2 name extra where h1: "poison_file_read_exact 26 f1 = Some (b2, h1)"
    and h2: "poison_file_read_exact (length name) h1 = Some (name, h2)" "name \<noteq> []"
    and h3: "storage_file_seek extra False h2 = Some f2"
    and member: "poison_package_path_valid (Some (zm_path member))"
      "poison_package_find_member (zs_members scan) (zm_path member) = None"
      "zm_local_offset member = of_nat (of_position (zs_file scan))"
      "zm_data_offset member = of_nat (of_position f2)"
      "of_position h2 + extra + unat (zm_size member) \<le> archive_size" "\<not> zm_central_seen member"
    using local_header_ok [OF header] by auto
  have bytes: "of_bytes h2 = of_bytes (zs_file scan)"
    and pos: "of_position h2 = of_position (zs_file scan) + 30 + length name"
    using read_exact_Some [OF f1] read_exact_Some [OF h1] read_exact_Some [OF h2(1)] by simp_all
  have f2: "of_bytes f2 = of_bytes (zs_file scan)" "of_position f2 = of_position h2 + extra"
    using seek_Some [OF h3] bytes member(5) assms(2) by simp_all
  have fits: "of_position f2 + unat (zm_size member) \<le> length (of_bytes f2)"
    using f2 member(5) assms(2) by simp
  note f3 = member_data_ok [OF data fits]
  have one: "length name \<ge> 1" using h2(2) by (cases name) auto
  show ?thesis
  proof (rule that [OF scan'])
    show "of_bytes f3 = of_bytes (zs_file scan)" using f2 f3(1) by simp
    show "of_position f3 \<le> archive_size" using f2 f3(2) member(5) by simp
    show "unat (zm_size member) \<le> of_position f3" using f3(2) by simp
    show "of_position (zs_file scan) + 31 \<le> of_position f3 - unat (zm_size member)"
      using f2 f3(2) pos one by simp
    show "manifest = (if zs_members scan = []
       then take (unat (zm_size member)) (drop (of_position f3 - unat (zm_size member)) (of_bytes f3))
       else zs_manifest scan)" using f3 by simp
  qed (use f3 member room in simp_all)
qed

lemma scan_local_returns:
  "archive_size = length (of_bytes (zs_file scan)) \<Longrightarrow> \<exists>r. zip_scan_local archive_size scan = Some r"
proof (induction "archive_size - of_position (zs_file scan)" arbitrary: scan rule: less_induct)
  case less
  show ?case
  proof (cases "of_position (zs_file scan) + 4 \<le> archive_size")
    case False
    then show ?thesis by (simp add: zip_scan_local.simps [of archive_size scan])
  next
    case True
    show ?thesis
    proof (cases "\<exists>scan'. zip_local_round archive_size scan = Inr (scan', False)")
      case False
      have "zip_scan_local archive_size scan =
          (case zip_local_round archive_size scan of Inl e \<Rightarrow> Some (Inl e) | Inr (scan', found) \<Rightarrow> Some (Inr scan'))"
        using False True by (auto simp: zip_scan_local.simps [of archive_size scan] split: sum.splits)
      then show ?thesis by (auto split: sum.splits)
    next
      case step: True
      then obtain scan' where step: "zip_local_round archive_size scan = Inr (scan', False)" by auto
      have "of_bytes (zs_file scan') = of_bytes (zs_file scan)"
        "of_position (zs_file scan) < of_position (zs_file scan')"
        by (rule local_round_positions [OF step less.prems]; simp)+
      then have "\<exists>r. zip_scan_local archive_size scan' = Some r"
        using less.hyps [of scan'] less.prems True by simp
      then show ?thesis
        using step True by (simp add: zip_scan_local.simps [of archive_size scan])
    qed
  qed
qed

lemma central_entry_ok:
  assumes "zip_central_entry archive_size members file = Inr (members', file')"
    and "archive_size = length (of_bytes file)"
  shows "\<exists>index < length members. members' = members[index := (members ! index) \<lparr> zm_central_seen := True \<rparr>] \<and>
      \<not> zm_central_seen (members ! index)"
    "of_bytes file' = of_bytes file" "of_position file < of_position file'"
proof -
  obtain header f1 where f1: "poison_file_read_exact 42 file = Some (header, f1)"
    using assms(1) by (auto simp: zip_central_entry_def sum_results)
  define l where "l = unat (poison_zip_u16 header 24)"
  define more where "more = unat (poison_zip_u16 header 26) + unat (poison_zip_u16 header 28)"
  obtain name f2 index where f2: "poison_file_read_exact l f1 = Some (name, f2)"
    and index: "poison_package_find_member members (c_string name) = Some index"
    and f3: "storage_file_seek more False f2 = Some file'"
    and fits: "of_position f1 + l + more \<le> archive_size"
    and members': "members' = members[index := (members ! index) \<lparr> zm_central_seen := True \<rparr>]"
    and unseen: "\<not> zm_central_seen (members ! index)"
    using assms(1) f1 by (auto simp: zip_central_entry_def sum_results Let_def l_def more_def not_less add.assoc)
  have "index < length members"
    using index by (simp add: poison_package_find_member_def find_index_lt)
  then show "\<exists>index < length members. members' = members[index := (members ! index) \<lparr> zm_central_seen := True \<rparr>] \<and>
      \<not> zm_central_seen (members ! index)"
    using members' unseen by auto
  note f1 = read_exact_Some [OF f1] and f2 = read_exact_Some [OF f2] and f3 = seek_Some [OF f3]
  show "of_bytes file' = of_bytes file" using f1 f2 f3 by simp
  show "of_position file < of_position file'" using f1 f2 f3 fits assms(2) by simp
qed

lemma central_round_ok:
  assumes "zip_central_round archive_size count scan = Inr (scan', ended)"
    and "archive_size = length (of_bytes (zs_file scan))"
  shows "of_bytes (zs_file scan') = of_bytes (zs_file scan)"
    "\<not> ended \<Longrightarrow> of_position (zs_file scan) < of_position (zs_file scan')"
    "map (zm_central_seen_update (\<lambda>_. False)) (zs_members scan')
       = map (zm_central_seen_update (\<lambda>_. False)) (zs_members scan)"
    "zs_manifest scan' = zs_manifest scan \<and> zs_central_offset scan' = zs_central_offset scan"
proof -
  obtain b f1 where f1: "poison_file_read_exact 4 (zs_file scan) = Some (b, f1)"
    using assms(1) by (auto simp: zip_central_round_def sum_results)
  note read = read_exact_Some [OF f1]
  consider f2 where "zip_end_record archive_size count scan f1 = Inr f2" "ended" "scan' = scan \<lparr> zs_file := f2 \<rparr>"
    | members f2 where "zip_central_entry archive_size (zs_members scan) f1 = Inr (members, f2)" "\<not> ended"
      "scan' = scan \<lparr> zs_members := members, zs_file := f2 \<rparr>"
    using assms(1) f1 by (auto simp: zip_central_round_def sum_results Let_def split: if_splits)
  then have "of_bytes (zs_file scan') = of_bytes (zs_file scan) \<and>
    (\<not> ended \<longrightarrow> of_position (zs_file scan) < of_position (zs_file scan')) \<and>
    map (zm_central_seen_update (\<lambda>_. False)) (zs_members scan')
       = map (zm_central_seen_update (\<lambda>_. False)) (zs_members scan) \<and>
    zs_manifest scan' = zs_manifest scan \<and> zs_central_offset scan' = zs_central_offset scan"
  proof cases
    case 1
    then obtain e where e: "poison_file_read_exact 18 f1 = Some (e, f2)"
      by (auto simp: zip_end_record_def sum_results)
    then show ?thesis using 1 read read_exact_Some [OF e] by simp
  next
    case 2
    have len: "archive_size = length (of_bytes f1)" using assms(2) read by simp
    obtain index where "index < length (zs_members scan)"
      "members = (zs_members scan)[index := (zs_members scan ! index) \<lparr> zm_central_seen := True \<rparr>]"
      using central_entry_ok(1) [OF 2(1) len] by auto
    then have "map (zm_central_seen_update (\<lambda>_. False)) members
       = map (zm_central_seen_update (\<lambda>_. False)) (zs_members scan)"
      by (intro nth_equalityI) (auto simp: nth_list_update)
    then show ?thesis
      using 2 read central_entry_ok(2,3) [OF 2(1) len] by simp
  qed
  then show "of_bytes (zs_file scan') = of_bytes (zs_file scan)"
    "\<not> ended \<Longrightarrow> of_position (zs_file scan) < of_position (zs_file scan')"
    "map (zm_central_seen_update (\<lambda>_. False)) (zs_members scan')
       = map (zm_central_seen_update (\<lambda>_. False)) (zs_members scan)"
    "zs_manifest scan' = zs_manifest scan \<and> zs_central_offset scan' = zs_central_offset scan"
    by blast+
qed

lemma scan_central_returns:
  assumes "archive_size = length (of_bytes (zs_file scan))"
  shows "\<exists>r. zip_scan_central archive_size count scan = Some r \<and>
    (\<forall>scan'. r = Inr scan' \<longrightarrow> of_bytes (zs_file scan') = of_bytes (zs_file scan) \<and>
      map (zm_central_seen_update (\<lambda>_. False)) (zs_members scan')
        = map (zm_central_seen_update (\<lambda>_. False)) (zs_members scan) \<and>
      zs_manifest scan' = zs_manifest scan \<and> zs_central_offset scan' = zs_central_offset scan)"
  using assms
proof (induction "archive_size - of_position (zs_file scan)" arbitrary: scan count rule: less_induct)
  case less
  show ?case
  proof (cases "of_position (zs_file scan) + 4 \<le> archive_size")
    case False
    then show ?thesis by (simp add: zip_scan_central.simps [of archive_size count scan])
  next
    case more: True
    show ?thesis
    proof (cases "zip_central_round archive_size count scan")
      case (Inl e)
      then show ?thesis using more by (simp add: zip_scan_central.simps [of archive_size count scan])
    next
      case (Inr r)
      obtain scan' ended where step: "zip_central_round archive_size count scan = Inr (scan', ended)"
        using Inr by (cases r) auto
      note ok = central_round_ok [OF step less.prems]
      show ?thesis
      proof (cases ended)
        case True
        then show ?thesis
          using more step ok by (simp add: zip_scan_central.simps [of archive_size count scan])
      next
        case False
        have "\<exists>r. zip_scan_central archive_size (count + 1) scan' = Some r \<and>
          (\<forall>scan''. r = Inr scan'' \<longrightarrow> of_bytes (zs_file scan'') = of_bytes (zs_file scan') \<and>
            map (zm_central_seen_update (\<lambda>_. False)) (zs_members scan'')
              = map (zm_central_seen_update (\<lambda>_. False)) (zs_members scan') \<and>
            zs_manifest scan'' = zs_manifest scan' \<and> zs_central_offset scan'' = zs_central_offset scan')"
          using less.hyps [of scan' "count + 1"] less.prems more ok(1) ok(2) [OF False] by simp
        then show ?thesis
          using more step False ok(1,3,4) by (simp add: zip_scan_central.simps [of archive_size count scan])
      qed
    qed
  qed
qed

section \<open>What a scanned archive looks like\<close>

definition member_bytes :: "bytes \<Rightarrow> PoisonZipMember \<Rightarrow> bytes" where
  "member_bytes bs m = take (unat (zm_size m)) (drop (unat (zm_data_offset m)) bs)"

text \<open>The members follow one another without a gap from \<open>a\<close> to \<open>b\<close>.\<close>

fun members_between :: "nat \<Rightarrow> PoisonZipMember list \<Rightarrow> nat \<Rightarrow> bool" where
  "members_between a [] b \<longleftrightarrow> a = b"
| "members_between a (m # ms) b \<longleftrightarrow> unat (zm_local_offset m) = a \<and> a + 31 \<le> unat (zm_data_offset m) \<and>
     members_between (unat (zm_data_offset m) + unat (zm_size m)) ms b"

lemma members_between_snoc:
  "members_between a (ms @ [m]) b \<longleftrightarrow> members_between a ms (unat (zm_local_offset m)) \<and>
     members_between (unat (zm_local_offset m)) [m] b"
  by (induction ms arbitrary: a) auto

lemma members_between_le: "members_between a ms b \<Longrightarrow> a \<le> b"
  by (induction ms arbitrary: a) fastforce+

lemma members_between_fits:
  "members_between a ms b \<Longrightarrow> m \<in> set ms \<Longrightarrow> a \<le> unat (zm_local_offset m) \<and>
     unat (zm_local_offset m) < unat (zm_data_offset m) \<and> unat (zm_data_offset m) + unat (zm_size m) \<le> b"
  by (induction ms arbitrary: a) (fastforce dest: members_between_le)+

definition zip_layout :: "bytes \<Rightarrow> PoisonZipMember list \<Rightarrow> bytes \<Rightarrow> nat \<Rightarrow> bool" where
  "zip_layout bs members manifest position \<longleftrightarrow>
     members_between 0 members position \<and> position \<le> length bs \<and> distinct (map zm_path members) \<and>
     (\<forall>m \<in> set members. poison_package_path_valid (Some (zm_path m))) \<and>
     length members \<le> ZIP_MEMBER_MAX \<and>
     (case members of [] \<Rightarrow> manifest = []
      | m # _ \<Rightarrow> zm_path m = ''manifest.json'' \<and> manifest = member_bytes bs m \<and> manifest \<noteq> [] \<and>
          length manifest \<le> POISON_PACKAGE_MANIFEST_MAX_BYTES)"

lemma zip_layout_seen:
  "map (zm_central_seen_update (\<lambda>_. False)) ms = map (zm_central_seen_update (\<lambda>_. False)) ns \<Longrightarrow>
     zip_layout bs ms manifest p \<longleftrightarrow> zip_layout bs ns manifest p"
proof -
  assume eq: "map (zm_central_seen_update (\<lambda>_. False)) ms = map (zm_central_seen_update (\<lambda>_. False)) ns"
  have sel: "zm_path (m \<lparr> zm_central_seen := b \<rparr>) = zm_path m" for m b by simp
  have between: "members_between a (map (zm_central_seen_update (\<lambda>_. False)) l) b \<longleftrightarrow> members_between a l b" for a b l
    by (induction l arbitrary: a) auto
  have paths: "map zm_path (map (zm_central_seen_update (\<lambda>_. False)) l) = map zm_path l" for l by simp
  have mb: "member_bytes bs (m \<lparr> zm_central_seen := b \<rparr>) = member_bytes bs m" for m b
    by (simp add: member_bytes_def)
  have "zip_layout bs (map (zm_central_seen_update (\<lambda>_. False)) l) manifest p \<longleftrightarrow> zip_layout bs l manifest p" for l
    unfolding zip_layout_def between paths by (cases l) (simp_all add: mb del: members_between.simps)
  then show ?thesis using eq by metis
qed

abbreviation scan_layout :: "ZipScan \<Rightarrow> bool" where
  "scan_layout scan \<equiv> zip_layout (of_bytes (zs_file scan)) (zs_members scan) (zs_manifest scan)
     (of_position (zs_file scan))"

text \<open>Archives of at most four megabytes have offsets that fit a 32-bit word.\<close>

lemma offset_fits: "n \<le> POISON_PACKAGE_ARCHIVE_MAX_BYTES \<Longrightarrow> unat (of_nat n :: u32) = n"
  by (rule unat_of_nat_small) simp

lemma local_round_layout:
  assumes "zip_local_round archive_size scan = Inr (scan', False)" "scan_layout scan"
    and size: "archive_size = length (of_bytes (zs_file scan))" "archive_size \<le> POISON_PACKAGE_ARCHIVE_MAX_BYTES"
  shows "scan_layout scan'"
proof -
  obtain member manifest f where
    scan': "scan' = scan \<lparr> zs_members := zs_members scan @ [member], zs_manifest := manifest, zs_file := f \<rparr>"
    and f: "of_bytes f = of_bytes (zs_file scan)" "of_position f \<le> archive_size"
      "unat (zm_size member) \<le> of_position f"
      "of_position (zs_file scan) + 31 \<le> of_position f - unat (zm_size member)"
    and m: "zm_local_offset member = of_nat (of_position (zs_file scan))"
      "zm_data_offset member = of_nat (of_position f - unat (zm_size member))"
      "poison_package_path_valid (Some (zm_path member))"
      "poison_package_find_member (zs_members scan) (zm_path member) = None"
      "length (zs_members scan) < ZIP_MEMBER_MAX"
    and manifest: "manifest = (if zs_members scan = []
       then take (unat (zm_size member)) (drop (of_position f - unat (zm_size member)) (of_bytes f))
       else zs_manifest scan)"
      "zs_members scan = [] \<longrightarrow> zm_path member = ''manifest.json'' \<and> manifest \<noteq> [] \<and>
         length manifest \<le> POISON_PACKAGE_MANIFEST_MAX_BYTES"
    by (rule local_round_positions [OF assms(1) size(1)]) (rule that; assumption)
  have offsets: "unat (zm_local_offset member) = of_position (zs_file scan)"
    "unat (zm_data_offset member) = of_position f - unat (zm_size member)"
    unfolding m(1,2) by (rule offset_fits; use f size in linarith)+
  have fresh: "zm_path member \<notin> zm_path ` set (zs_members scan)"
    using m(4) by (auto simp: poison_package_find_member_def)
  have between: "members_between 0 (zs_members scan @ [member]) (of_position f)"
    using assms(2) offsets f by (simp add: zip_layout_def members_between_snoc)
  show ?thesis
  proof (cases "zs_members scan")
    case Nil
    then show ?thesis
      using scan' f m(3) manifest between offsets size(1) by (simp add: zip_layout_def member_bytes_def)
  next
    case (Cons m0 ms)
    then show ?thesis
      using assms(2) scan' f m(3,5) manifest between fresh size(1)
      by (auto simp: zip_layout_def simp del: members_between.simps)
  qed
qed

lemma scan_local_layout:
  assumes "zip_scan_local archive_size scan = Some (Inr scan')" "scan_layout scan"
    and "archive_size = length (of_bytes (zs_file scan))" "archive_size \<le> POISON_PACKAGE_ARCHIVE_MAX_BYTES"
    and "zs_central_offset scan = 0"
  shows "scan_layout scan' \<and> of_bytes (zs_file scan') = of_bytes (zs_file scan) \<and>
    (zs_central_offset scan' \<noteq> 0 \<longrightarrow> unat (zs_central_offset scan') = of_position (zs_file scan'))"
  using assms
proof (induction "archive_size - of_position (zs_file scan)" arbitrary: scan rule: less_induct)
  case less
  show ?case
  proof (cases "of_position (zs_file scan) + 4 \<le> archive_size")
    case False
    then have "scan' = scan"
      using less.prems(1) by (simp add: zip_scan_local.simps [of archive_size scan])
    then show ?thesis
      using less.prems by simp
  next
    case more: True
    then obtain scan1 found where step: "zip_local_round archive_size scan = Inr (scan1, found)"
      using less.prems(1) by (auto simp: zip_scan_local.simps [of archive_size scan] split: sum.splits)
    show ?thesis
    proof (cases found)
      case True
      then have scan1: "scan1 = scan'"
        using less.prems(1) step more by (simp add: zip_scan_local.simps [of archive_size scan])
      have "zip_local_round archive_size scan = Inr (scan', True)" using step True scan1 by simp
      from local_round_found [OF this] obtain b f1 f2 where
        f1: "poison_file_read_exact 4 (zs_file scan) = Some (b, f1)"
        and f2: "storage_file_seek (of_position (zs_file scan)) True f1 = Some f2"
        and scan': "scan' = scan \<lparr> zs_central_offset := of_nat (of_position (zs_file scan)), zs_file := f2 \<rparr>"
        by auto
      have "of_bytes f2 = of_bytes (zs_file scan)" "of_position f2 = of_position (zs_file scan)"
        using read_exact_Some(4) [OF f1] seek_Some [OF f2] more less.prems(3) by auto
      then show ?thesis
        using scan' less.prems(2-4) more by (simp add: offset_fits)
    next
      case False
      have rest: "zip_scan_local archive_size scan1 = Some (Inr scan')"
        using less.prems(1) step more False by (simp add: zip_scan_local.simps [of archive_size scan])
      have step1: "zip_local_round archive_size scan = Inr (scan1, False)" using step False by simp
      have layout: "scan_layout scan1" by (rule local_round_layout [OF step1 less.prems(2-4)])
      have same: "of_bytes (zs_file scan1) = of_bytes (zs_file scan)"
        "of_position (zs_file scan) < of_position (zs_file scan1)"
        "zs_central_offset scan1 = zs_central_offset scan"
        by (rule local_round_positions [OF step1 less.prems(3)]; simp)+
      show ?thesis
        unfolding same(1) [symmetric]
      proof (rule less.hyps [OF _ rest layout])
        show "archive_size - of_position (zs_file scan1) < archive_size - of_position (zs_file scan)"
          using same(2) more by linarith
      qed (use same less.prems(3-5) in simp_all)
    qed
  qed
qed

lemma scan_local_bytes:
  assumes "zip_scan_local archive_size scan = Some (Inr scan')"
    and "archive_size = length (of_bytes (zs_file scan))"
  shows "of_bytes (zs_file scan') = of_bytes (zs_file scan)"
  using assms
proof (induction "archive_size - of_position (zs_file scan)" arbitrary: scan rule: less_induct)
  case less
  show ?case
  proof (cases "of_position (zs_file scan) + 4 \<le> archive_size")
    case False
    then have "scan' = scan"
      using less.prems(1) by (simp add: zip_scan_local.simps [of archive_size scan])
    then show ?thesis
      using less.prems by simp
  next
    case more: True
    then obtain scan1 found where step: "zip_local_round archive_size scan = Inr (scan1, found)"
      using less.prems(1) by (auto simp: zip_scan_local.simps [of archive_size scan] split: sum.splits)
    show ?thesis
    proof (cases found)
      case True
      then have "zip_local_round archive_size scan = Inr (scan', True)"
        using less.prems(1) step more by (simp add: zip_scan_local.simps [of archive_size scan])
      from local_round_found [OF this] obtain b f1 f2 where
        f1: "poison_file_read_exact 4 (zs_file scan) = Some (b, f1)"
        and f2: "storage_file_seek (of_position (zs_file scan)) True f1 = Some f2" "zs_file scan' = f2"
        by auto
      show ?thesis using read_exact_Some(4) [OF f1] seek_Some(1) [OF f2(1)] f2(2) by simp
    next
      case False
      have rest: "zip_scan_local archive_size scan1 = Some (Inr scan')"
        using less.prems(1) step more False by (simp add: zip_scan_local.simps [of archive_size scan])
      have step1: "zip_local_round archive_size scan = Inr (scan1, False)" using step False by simp
      have same: "of_bytes (zs_file scan1) = of_bytes (zs_file scan)"
        "of_position (zs_file scan) < of_position (zs_file scan1)"
        by (rule local_round_positions [OF step1 less.prems(2)]; simp)+
      show ?thesis
        using less.hyps [of scan1] rest less.prems(2) same more by simp
    qed
  qed
qed

text \<open>The scan returns; what it accepts is a sequence of members that fill the file up to the
  central directory, with the manifest in front.\<close>

lemma zip_scan_returns:
  "\<exists>r. zip_scan (length (of_bytes file)) file = Some r"
proof (cases "storage_file_seek 0 True file")
  case None
  then show ?thesis by (simp add: zip_scan_def)
next
  case (Some f)
  let ?scan = "\<lparr> zs_members = [], zs_manifest = [], zs_central_offset = 0, zs_file = f \<rparr>"
  have size: "length (of_bytes file) = length (of_bytes (zs_file ?scan))"
    using seek_Some(1) [OF Some] by simp
  obtain r where r: "zip_scan_local (length (of_bytes file)) ?scan = Some r"
    using scan_local_returns [OF size] by auto
  show ?thesis
  proof (cases r)
    case (Inl e)
    then show ?thesis using Some r by (simp add: zip_scan_def)
  next
    case (Inr scan)
    have "of_bytes (zs_file scan) = of_bytes f"
      using scan_local_bytes [OF _ size] r Inr by simp
    then have "\<exists>r. zip_scan_central (length (of_bytes file)) 0 scan = Some r"
      using scan_central_returns [of "length (of_bytes file)" scan 0] size by auto
    then show ?thesis using Some r Inr by (auto simp: zip_scan_def)
  qed
qed

lemma zip_scan_layout:
  assumes "zip_scan (length (of_bytes file)) file = Some (Inr scan)"
    and "length (of_bytes file) \<le> POISON_PACKAGE_ARCHIVE_MAX_BYTES"
  shows "zip_layout (of_bytes file) (zs_members scan) (zs_manifest scan) (unat (zs_central_offset scan))"
    "zs_members scan \<noteq> []" "of_bytes (zs_file scan) = of_bytes file"
proof -
  obtain f where f: "storage_file_seek 0 True file = Some f"
    using assms(1) by (auto simp: zip_scan_def split: option.splits)
  let ?scan = "\<lparr> zs_members = [], zs_manifest = [], zs_central_offset = 0, zs_file = f \<rparr>"
  obtain scan1 where scan1: "zip_scan_local (length (of_bytes file)) ?scan = Some (Inr scan1)"
    and ok: "zs_central_offset scan1 \<noteq> 0" "zs_members scan1 \<noteq> []"
    and central: "zip_scan_central (length (of_bytes file)) 0 scan1 = Some (Inr scan)"
    using assms(1) f by (auto simp: zip_scan_def split: option.splits sum.splits if_splits)
  have start: "of_bytes f = of_bytes file" "of_position f = 0"
    using seek_Some [OF f] by simp_all
  have "scan_layout ?scan" and len: "length (of_bytes file) = length (of_bytes (zs_file ?scan))"
    and zero: "zs_central_offset ?scan = 0"
    using start by (simp_all add: zip_layout_def)
  note local = scan_local_layout [OF scan1 this(1) len assms(2) zero]
  have layout: "scan_layout scan1" "of_bytes (zs_file scan1) = of_bytes file"
    "unat (zs_central_offset scan1) = of_position (zs_file scan1)"
    using local ok(1) start(1) by (blast | simp)+
  have same: "of_bytes (zs_file scan) = of_bytes (zs_file scan1)"
    "map (zm_central_seen_update (\<lambda>_. False)) (zs_members scan)
       = map (zm_central_seen_update (\<lambda>_. False)) (zs_members scan1)"
    "zs_manifest scan = zs_manifest scan1" "zs_central_offset scan = zs_central_offset scan1"
    using scan_central_returns [of "length (of_bytes file)" scan1 0] layout(2) central by auto
  show "of_bytes (zs_file scan) = of_bytes file" using same layout by simp
  show "zip_layout (of_bytes file) (zs_members scan) (zs_manifest scan) (unat (zs_central_offset scan))"
    using layout same zip_layout_seen [OF same(2)] by simp
  show "zs_members scan \<noteq> []" using same(2) ok(2) by auto
qed

text \<open>The end record is not required: an archive that stops right after an entry of the central
  directory is accepted, with any number of entries missing.\<close>

lemma central_ends_early:
  "of_position (zs_file scan) + 4 > archive_size \<Longrightarrow>
     zip_scan_central archive_size count scan = Some (Inr scan)"
  by (simp add: zip_scan_central.simps [of archive_size count scan])

end
