(* ===== verification/PackageManifest.thy ===== *)
theory PackageManifest
  imports ZipArchive
begin

text \<open>The manifest of a package archive: versions (\<open>poison_packages/poison_package_verify.c\<close>), the
  compatibility with the firmware, the capabilities, the canonical form the signature covers and
  the checks in their order (\<open>poison_packages/poison_package_archive.c\<close>), and the printer of JSON
  the canonical form is made with (\<open>lib/mjs/common/frozen/frozen.c\<close>).  The scanner of JSON and
  the check of an ECDSA signature are parameters.\<close>

section \<open>Scanning numbers\<close>

text \<open>\<open>sscanf\<close> with \<open>%lu\<close>: white space, a sign and digits; \<open>unsigned long\<close> has 32 bits, a value that
  does not fit becomes the largest one and a minus sign negates it modulo \<open>2 ^ 32\<close>.\<close>

definition c_isspace :: "char \<Rightarrow> bool" where
  "c_isspace c \<longleftrightarrow> char_code c = 32 \<or> (9 \<le> char_code c \<and> char_code c \<le> 13)"

definition c_isdigit :: "char \<Rightarrow> bool" where
  "c_isdigit c \<longleftrightarrow> 48 \<le> char_code c \<and> char_code c \<le> 57"

definition digits_value :: "string \<Rightarrow> nat" where
  "digits_value = foldl (\<lambda>n c. 10 * n + (char_code c - 48)) 0"

definition scan_unsigned :: "string \<Rightarrow> (nat \<times> string) option" where
  "scan_unsigned input =
    (let s = dropWhile c_isspace input;
         negative = (s \<noteq> [] \<and> hd s = CHR ''-'');
         body = (if s \<noteq> [] \<and> hd s \<in> {CHR ''+'', CHR ''-''} then tl s else s);
         digits = takeWhile c_isdigit body;
         value = digits_value digits
     in if digits = [] then None
        else Some (if value \<ge> 2 ^ 32 then 2 ^ 32 - 1
                   else if negative then (2 ^ 32 - value) mod 2 ^ 32 else value,
                   dropWhile c_isdigit body))"

text \<open>A format of \<open>sscanf\<close>: characters that have to match, white space, and numbers.\<close>

datatype ScanItem = Literal char | Space | Unsigned

fun sscanf :: "ScanItem list \<Rightarrow> string \<Rightarrow> (nat list \<times> string) option" where
  "sscanf [] s = Some ([], s)"
| "sscanf (Literal c # items) s =
    (case s of [] \<Rightarrow> None | d # rest \<Rightarrow> if d = c then sscanf items rest else None)"
| "sscanf (Space # items) s = sscanf items (dropWhile c_isspace s)"
| "sscanf (Unsigned # items) s =
    (case scan_unsigned s of
       None \<Rightarrow> None
     | Some (n, rest) \<Rightarrow> map_option (\<lambda>(ns, r). (n # ns, r)) (sscanf items rest))"

abbreviation version_format :: "ScanItem list" where
  "version_format \<equiv> [Unsigned, Literal CHR ''.'', Unsigned, Literal CHR ''.'', Unsigned]"

section \<open>Versions\<close>

fun compare_parts :: "nat list \<Rightarrow> nat list \<Rightarrow> int" where
  "compare_parts (l # ls) (r # rs) =
     (if l < r then - 1 else if l > r then 1 else compare_parts ls rs)"
| "compare_parts _ _ = 0"

definition poison_package_semver_compare :: "nat list \<Rightarrow> nat list \<Rightarrow> int" where
  "poison_package_semver_compare left right = compare_parts left right"

definition poison_package_semver_parse :: "string option \<Rightarrow> nat list option" where
  "poison_package_semver_parse value =
    (case value of
       None \<Rightarrow> None
     | Some v \<Rightarrow>
         (case sscanf version_format v of
            None \<Rightarrow> None
          | Some (parts, rest) \<Rightarrow>
              if rest \<noteq> [] \<or> \<not> list_all (\<lambda>n. n \<le> 2 ^ 32 - 1) parts then None else Some parts))"

definition poison_package_firmware_api_compatible :: "string option \<Rightarrow> u32 \<Rightarrow> u32 \<Rightarrow> bool" where
  "poison_package_firmware_api_compatible requirement current_major current_minor =
    (case requirement of
       None \<Rightarrow> False
     | Some r \<Rightarrow>
         if current_major = 0 then False
         else let current = [unat current_major, unat current_minor, 0]
         in case sscanf ([Literal CHR ''>'', Literal CHR ''=''] @ version_format @
                         [Space, Literal CHR ''<''] @ version_format) r of
              Some (bounds, []) \<Rightarrow>
                list_all (\<lambda>n. n \<le> 2 ^ 32 - 1) bounds \<and>
                poison_package_semver_compare current (take 3 bounds) \<ge> 0 \<and>
                poison_package_semver_compare current (drop 3 bounds) < 0
            | _ \<Rightarrow> (case poison_package_semver_parse (Some r) of
                      None \<Rightarrow> False
                    | Some exact \<Rightarrow> poison_package_semver_compare current exact = 0))"

text \<open>\<open>poison_package_verify.c\<close> has its own copy of these functions.\<close>

datatype PoisonPackageVerifyResult =
  PoisonPackageVerifyOk | PoisonPackageVerifyInvalid | PoisonPackageVerifyRevoked | PoisonPackageVerifyDowngrade

definition digest_valid :: "string \<Rightarrow> bool" where
  "digest_valid value \<longleftrightarrow> length value = 64 \<and> list_all lower_hex_digit value"

definition semantic_version :: "string \<Rightarrow> nat list option" where
  "semantic_version value =
    (case sscanf version_format value of
       None \<Rightarrow> None | Some (parts, rest) \<Rightarrow> if rest = [] then Some parts else None)"

definition compare_versions :: "string \<Rightarrow> string \<Rightarrow> int" where
  "compare_versions left right =
    (case (semantic_version left, semantic_version right) of
       (Some l, Some r) \<Rightarrow> compare_parts l r | _ \<Rightarrow> - 2)"

definition poison_package_verify_manifest ::
    "string option \<Rightarrow> string option \<Rightarrow> string option \<Rightarrow> string option \<Rightarrow> string option \<Rightarrow> bool \<Rightarrow>
     string option \<Rightarrow> PoisonPackageVerifyResult" where
  "poison_package_verify_manifest package_id version entrypoint content_sha256 signing_key_id
      signer_revoked installed_version =
    (case (package_id, version, entrypoint, content_sha256, signing_key_id) of
       (Some i, Some v, Some e, Some d, Some k) \<Rightarrow>
         if i = '''' \<or> v = '''' \<or> e = '''' \<or> k = '''' \<or> hd e = CHR ''/'' \<or> strstr e ''..''
         then PoisonPackageVerifyInvalid
         else if semantic_version v = None then PoisonPackageVerifyInvalid
         else if \<not> digest_valid d then PoisonPackageVerifyInvalid
         else if signer_revoked then PoisonPackageVerifyRevoked
         else (case installed_version of
                 None \<Rightarrow> PoisonPackageVerifyOk
               | Some installed \<Rightarrow>
                   let comparison = compare_versions v installed
                   in if comparison = - 2 then PoisonPackageVerifyInvalid
                      else if comparison < 0 then PoisonPackageVerifyDowngrade
                      else PoisonPackageVerifyOk)
     | _ \<Rightarrow> PoisonPackageVerifyInvalid)"

section \<open>Capabilities\<close>

abbreviation (input) begins :: "string \<Rightarrow> string \<Rightarrow> bool" where
  "begins capability text \<equiv> take (length text) capability = text"

definition capability_bit :: "string \<Rightarrow> u64 option" where
  "capability_bit capability =
    (if capability = ''status'' \<or> capability = ''device.status.read'' \<or> begins capability ''device.read''
     then Some (push_bit 0 1)
     else if capability = ''control'' \<or> begins capability ''ui.'' \<or> begins capability ''runtime.'' \<or>
       begins capability ''notification.'' \<or> begins capability ''crypto.'' \<or> begins capability ''compute.''
     then Some (push_bit 1 1)
     else if capability = ''launch'' \<or> capability = ''device.app.run'' \<or> begins capability ''app.''
     then Some (push_bit 2 1)
     else if capability = ''files'' \<or> begins capability ''storage.'' then Some (push_bit 3 1)
     else if capability = ''evidence'' \<or> begins capability ''evidence.'' then Some (push_bit 4 1)
     else if capability = ''radio'' \<or> begins capability ''radio.'' \<or> begins capability ''nfc.'' \<or>
       begins capability ''lf-rfid.'' \<or> begins capability ''ibutton.'' \<or> begins capability ''infrared.'' \<or>
       begins capability ''sub-ghz.'' \<or> begins capability ''gpio.'' \<or> begins capability ''serial.'' \<or>
       begins capability ''ble.''
     then Some (push_bit 5 1)
     else if capability = ''native'' \<or> begins capability ''native.'' \<or> begins capability ''badusb.'' \<or>
       begins capability ''usb-hid.''
     then Some (push_bit 6 1)
     else if capability = ''destructive'' then Some (push_bit 7 1)
     else None)"

definition capability_destructive :: "string \<Rightarrow> bool" where
  "capability_destructive = strstr_any
     [''.write'', ''.transmit'', ''.emulate'', ''.execute'', ''.flash'', ''.delete'', ''.remove'']"

definition poison_package_capability_name :: "string option \<Rightarrow> u64 \<Rightarrow> u64 option" where
  "poison_package_capability_name capability capability_mask =
    (case capability of
       None \<Rightarrow> None
     | Some c \<Rightarrow>
         if c = '''' \<or> length c > 64 then None
         else case capability_bit c of
                None \<Rightarrow> None
              | Some b \<Rightarrow>
                  Some (capability_mask OR
                    (if capability_destructive c then b OR push_bit 7 1 else b)))"

section \<open>The printer of JSON\<close>

text \<open>\<open>json_escape\<close>: \<open>isprint\<close> accepts the codes from 32 to 126.  (When a UTF-8 sequence is cut off at
  the end of the string, the code reads on behind the string; the model ends there.)\<close>

definition json_utf8_len :: "char \<Rightarrow> nat" where
  "json_utf8_len c =
    (let b = char_code c in
     if b < 128 then 1 else if b \<ge> 240 then 4 else if b \<ge> 224 then 3 else 2)"

function json_escape :: "string \<Rightarrow> string" where
  "json_escape [] = []"
| "json_escape (c # cs) =
    (if c = CHR 0x22 \<or> c = CHR 0x5C then CHR 0x5C # c # json_escape cs
     else if 8 \<le> char_code c \<and> char_code c \<le> 13
     then CHR 0x5C # (''btnvfr'' ! (char_code c - 8)) # json_escape cs
     else if printable c then c # json_escape cs
     else if json_utf8_len c = 1
     then CHR 0x5C # ''u00'' @ [hex_digit (char_code c div 16 mod 15), hex_digit (char_code c mod 15)] @ json_escape cs
     else take (json_utf8_len c) (c # cs) @ json_escape (drop (json_utf8_len c) (c # cs)))"
  by pat_completeness auto

lemma json_utf8_len_pos: "0 < json_utf8_len c"
  by (simp add: json_utf8_len_def Let_def)

termination json_escape
proof (relation "measure length", goal_cases)
  case (6 c cs)
  then show ?case using json_utf8_len_pos [of c] by (simp add: json_utf8_len_def Let_def)
qed simp_all

text \<open>\<open>json_vprintf\<close> for the conversions \<open>%Q\<close> and \<open>%lu\<close>.  Words of the format are put in quotes.  A number
  is printed by \<open>vsnprintf\<close> with the first 19 characters of the rest of the format, so the
  characters that follow it are printed as well, and then printed again; a further conversion
  among them would read the next argument (None: not covered).\<close>

datatype JsonArg = JsonString string | JsonNumber nat

definition json_word_char :: "char \<Rightarrow> bool" where
  "json_word_char c \<longleftrightarrow> c = CHR ''_'' \<or> c_isdigit c \<or>
     (char_code CHR ''a'' \<le> char_code c \<and> char_code c \<le> char_code CHR ''z'') \<or>
     (char_code CHR ''A'' \<le> char_code c \<and> char_code c \<le> char_code CHR ''Z'')"

definition json_quoted :: "string \<Rightarrow> string" where
  "json_quoted s = CHR 0x22 # s @ [CHR 0x22]"

fun decimal :: "nat \<Rightarrow> string" where
  "decimal n = (if n < 10 then [char_of (48 + n)] else decimal (n div 10) @ [char_of (48 + n mod 10)])"

declare decimal.simps [simp del]

definition json_number_text :: "nat \<Rightarrow> string \<Rightarrow> string option" where
  "json_number_text n rest =
    (let text = take 16 rest in if CHR ''%'' \<in> set text then None else Some (decimal n @ text))"

function json_printf :: "string \<Rightarrow> JsonArg list \<Rightarrow> string option" where
  "json_printf [] args = Some []"
| "json_printf (c # fmt) args =
    (if c \<in> set ('':, '' @ [CHR 13, CHR 10, CHR 9] @ ''[]{}'' @ [CHR 0x22])
     then map_option ((#) c) (json_printf fmt args)
     else if c = CHR ''%''
     then (case (fmt, args) of
             (d # fmt', JsonString s # args') \<Rightarrow>
               if d = CHR ''Q''
               then map_option (\<lambda>r. json_quoted (json_escape s) @ r) (json_printf fmt' args')
               else None
           | (d # e # fmt', JsonNumber n # args') \<Rightarrow>
               if d = CHR ''l'' \<and> e = CHR ''u'' \<and>
                  \<not> (fmt' \<noteq> [] \<and> hd fmt' \<in> set ''sdfFeEgGlhuIcx.*-0123456789'')
               then (case json_number_text n fmt' of
                       None \<Rightarrow> None
                     | Some text \<Rightarrow> map_option (\<lambda>r. text @ r) (json_printf fmt' args'))
               else None
           | _ \<Rightarrow> None)
     else if json_word_char c \<and> \<not> c_isdigit c
     then map_option (\<lambda>r. json_quoted (takeWhile json_word_char (c # fmt)) @ r)
            (json_printf (dropWhile json_word_char (c # fmt)) args)
     else map_option ((#) c) (json_printf fmt args))"
  by pat_completeness auto

termination json_printf
proof (relation "measure (length \<circ> fst)", goal_cases)
  case (5 c fmt args)
  then show ?case by (auto simp: le_imp_less_Suc length_dropWhile_le)
qed (auto simp: le_imp_less_Suc length_dropWhile_le)

section \<open>The canonical form\<close>

record PoisonPackagePayloadDescriptor =
  pd_path :: string
  pd_sha256 :: string
  pd_size :: u32

record PoisonPackageVerifiedArchive =
  va_content_type :: string
  va_package_id :: string
  va_version :: string
  va_firmware_api :: string
  va_entrypoint :: string
  va_content_sha256 :: string
  va_signing_key_id :: string
  va_archive_sha256 :: string
  va_capability_mask :: u64
  va_archive_bytes :: u32
  va_release_sequence :: u32
  va_capabilities :: "string list"
  va_payloads :: "PoisonPackagePayloadDescriptor list"

definition verified_zero :: PoisonPackageVerifiedArchive where
  "verified_zero = \<lparr> va_content_type = '''', va_package_id = '''', va_version = '''',
     va_firmware_api = '''', va_entrypoint = '''', va_content_sha256 = '''', va_signing_key_id = '''',
     va_archive_sha256 = '''', va_capability_mask = 0, va_archive_bytes = 0, va_release_sequence = 0,
     va_capabilities = [], va_payloads = [] \<rparr>"

text \<open>In the formats below a backquote stands for a quotation mark and a dollar sign for the end of
  the line.\<close>

definition fmt :: "string \<Rightarrow> string" where
  "fmt s = map (\<lambda>c. if c = CHR ''`'' then CHR 0x22 else if c = CHR ''$'' then CHR 10 else c) s"

fun print_all :: "string option list \<Rightarrow> string option" where
  "print_all [] = Some []"
| "print_all (x # xs) = (case (x, print_all xs) of (Some s, Some r) \<Rightarrow> Some (s @ r) | _ \<Rightarrow> None)"

definition comma_separated :: "('a \<Rightarrow> string option) \<Rightarrow> 'a list \<Rightarrow> string option" where
  "comma_separated f xs = print_all (concat (map (\<lambda>i.
     (if i > 0 then [json_printf '','' []] else []) @ [f (xs ! i)]) [0..<length xs]))"

definition canonical_manifest :: "string \<Rightarrow> PoisonPackageVerifiedArchive \<Rightarrow> string list \<Rightarrow> string option" where
  "canonical_manifest content_type verified capabilities = print_all
    [json_printf (fmt ''{`capabilities`:['') [],
     comma_separated (\<lambda>c. json_printf ''%Q'' [JsonString c]) capabilities,
     json_printf (fmt ''],`contentSha256`:%Q,`contentType`:%Q,`entrypoint`:%Q,`firmwareApi`:%Q,`id`:%Q,`packageFormat`:1,`payloads`:['')
       (map JsonString [va_content_sha256 verified, content_type, va_entrypoint verified,
          va_firmware_api verified, va_package_id verified]),
     comma_separated (\<lambda>p. json_printf (fmt ''{`path`:%Q,`sha256`:%Q,`size`:%lu}'')
        [JsonString (pd_path p), JsonString (pd_sha256 p), JsonNumber (unat (pd_size p))])
       (va_payloads verified),
     json_printf (fmt ''],`releaseSequence`:%lu,`signingKeyId`:%Q,`version`:%Q}$'')
       [JsonNumber (unat (va_release_sequence verified)), JsonString (va_signing_key_id verified),
        JsonString (va_version verified)]]"

text \<open>The text is printed into a buffer one byte longer than the longest manifest.\<close>

definition poison_package_manifest_is_canonical ::
    "bytes \<Rightarrow> string \<Rightarrow> PoisonPackageVerifiedArchive \<Rightarrow> string list \<Rightarrow> bool" where
  "poison_package_manifest_is_canonical unsigned_manifest content_type verified capabilities \<longleftrightarrow>
    (case canonical_manifest content_type verified capabilities of
       None \<Rightarrow> False
     | Some text \<Rightarrow>
         let expected = take (POISON_PACKAGE_MANIFEST_MAX_BYTES + 1) (string_bytes text)
         in length expected = length unsigned_manifest \<and>
            length expected \<le> POISON_PACKAGE_MANIFEST_MAX_BYTES \<and> expected = unsigned_manifest)"

text \<open>The manifest without its signature.  The C string functions see it up to its first NUL.\<close>

definition find_text :: "bytes \<Rightarrow> bytes \<Rightarrow> nat option" where
  "find_text needle hay = find_index (\<lambda>i. take (length needle) (drop i hay) = needle) [0..<Suc (length hay)]"

definition base64_char :: "u8 \<Rightarrow> bool" where
  "base64_char b \<longleftrightarrow> (let c = char_of (unat b) :: char in
     (char_code CHR ''A'' \<le> char_code c \<and> char_code c \<le> char_code CHR ''Z'') \<or>
     (char_code CHR ''a'' \<le> char_code c \<and> char_code c \<le> char_code CHR ''z'') \<or>
     c_isdigit c \<or> c = CHR ''+'' \<or> c = CHR ''/'' \<or> c = CHR ''='')"

definition signature_marker :: bytes where
  "signature_marker = string_bytes (fmt '',`signature`:`'')"

definition poison_package_canonical_unsigned :: "bytes \<Rightarrow> bytes option" where
  "poison_package_canonical_unsigned manifest =
    (let manifest_length = length manifest; text = takeWhile (\<lambda>b. b \<noteq> 0) manifest in
     if manifest_length < 3 \<or> manifest_length > POISON_PACKAGE_MANIFEST_MAX_BYTES \<or>
        manifest ! 0 \<noteq> of_char CHR ''{'' \<or> manifest ! (manifest_length - 2) \<noteq> of_char CHR ''}'' \<or>
        manifest ! (manifest_length - 1) \<noteq> 10
     then None
     else case find_text signature_marker text of
            None \<Rightarrow> None
          | Some signature \<Rightarrow>
              let value = signature + length signature_marker in
              if find_text signature_marker (drop value text) \<noteq> None then None
              else case find_text [of_char CHR 0x22] (drop value text) of
                     None \<Rightarrow> None
                   | Some n \<Rightarrow>
                       let closing = value + n in
                       if closing + 1 \<ge> length text \<or> text ! (closing + 1) \<noteq> of_char CHR '','' \<or>
                          closing \<ge> manifest_length - 2
                       then None
                       else if \<not> list_all base64_char (take n (drop value text)) then None
                       else Some (take signature manifest @ drop (closing + 1) manifest))"

section \<open>The signature\<close>

text \<open>The hash and the check of an ECDSA signature on P-256, with a public key that has to be a point of
  the curve.\<close>

record PackageCrypto =
  pc_sha256 :: "bytes \<Rightarrow> bytes option"
  pc_ecdsa :: "bytes \<Rightarrow> bytes \<Rightarrow> bytes \<Rightarrow> bool"

definition poison_package_verify_p256_signature :: "PackageCrypto \<Rightarrow> bytes \<Rightarrow> bytes \<Rightarrow> bytes \<Rightarrow> bool" where
  "poison_package_verify_p256_signature crypto public_key canonical signature \<longleftrightarrow>
     \<not> (public_key ! 0 \<noteq> 4 \<or> length canonical = 0 \<or> length canonical > 4096 \<or>
        length signature = 0 \<or> length signature > 80) \<and>
     (case pc_sha256 crypto canonical of
        None \<Rightarrow> False | Some digest \<Rightarrow> pc_ecdsa crypto public_key digest signature)"

definition poison_package_find_authority_any ::
    "PoisonPackageAuthorityStore \<Rightarrow> string \<Rightarrow> PoisonPackageAuthority option" where
  "poison_package_find_authority_any store key_id =
     map_option (\<lambda>i. pas_authorities store ! i)
       (find_index (\<lambda>a. pa_active a \<and> pa_key_id a = key_id) (pas_authorities store))"

section \<open>The checks\<close>

text \<open>What the scanner of JSON finds in a manifest: the number of conversions and the values (NULL
  is None), and for a position of an array whether there is an element and what it holds.\<close>

record ScannedManifest =
  sm_conversions :: int
  sm_package_format :: u32
  sm_content_type :: "string option"
  sm_id :: "string option"
  sm_version :: "string option"
  sm_firmware_api :: "string option"
  sm_entrypoint :: "string option"
  sm_content_sha256 :: "string option"
  sm_signing_key_id :: "string option"
  sm_release_sequence :: u32
  sm_signature :: bytes

record ScannedPayload =
  sp_is_object :: bool
  sp_conversions :: int
  sp_path :: "string option"
  sp_sha256 :: "string option"
  sp_size :: u32

record ScannedCapability =
  sc_is_string :: bool
  sc_length :: int
  sc_decoded :: int
  sc_text :: string

record JsonScanner =
  js_fields :: "bytes \<Rightarrow> ScannedManifest"
  js_payload :: "bytes \<Rightarrow> nat \<Rightarrow> ScannedPayload option"
  js_capability :: "bytes \<Rightarrow> nat \<Rightarrow> ScannedCapability option"

definition poison_package_copy_bounded :: "nat \<Rightarrow> string option \<Rightarrow> string option" where
  "poison_package_copy_bounded capacity input =
    (case input of None \<Rightarrow> None | Some s \<Rightarrow> if length s = 0 \<or> length s \<ge> capacity then None else Some s)"

definition poison_package_supported_content_type :: "string option \<Rightarrow> bool" where
  "poison_package_supported_content_type value =
    (case value of
       None \<Rightarrow> False
     | Some v \<Rightarrow> v \<in> {''application'', ''firmware'', ''lesson'', ''tool-data'', ''theme'', ''font'', ''icon'',
                       ''font-icon'', ''menu'', ''resource'', ''ui-pack''})"

text \<open>The fields up to the key, each within its buffer.\<close>

definition manifest_fields :: "ScannedManifest \<Rightarrow> PoisonPackageVerifiedArchive option" where
  "manifest_fields m =
    (if sm_conversions m \<noteq> 10 \<or> sm_package_format m \<noteq> 1 \<or> sm_release_sequence m = 0 \<or>
        \<not> poison_package_supported_content_type (sm_content_type m)
     then None
     else case (poison_package_copy_bounded 33 (sm_content_type m),
                poison_package_copy_bounded 65 (sm_id m), poison_package_copy_bounded 33 (sm_version m),
                poison_package_copy_bounded 65 (sm_firmware_api m),
                poison_package_copy_bounded 257 (sm_entrypoint m),
                poison_package_copy_bounded 65 (sm_content_sha256 m),
                poison_package_copy_bounded 65 (sm_signing_key_id m)) of
            (Some c, Some i, Some v, Some f, Some e, Some d, Some k) \<Rightarrow>
              if \<not> poison_package_path_valid (Some e) \<or> \<not> poison_package_hex_digest_valid (Some d) \<or>
                 length (sm_signature m) = 0 \<or> length (sm_signature m) > 80
              then None
              else Some (verified_zero \<lparr> va_content_type := c, va_package_id := i, va_version := v,
                     va_firmware_api := f, va_entrypoint := e, va_content_sha256 := d,
                     va_signing_key_id := k, va_release_sequence := sm_release_sequence m \<rparr>)
          | _ \<Rightarrow> None)"

definition payload_descriptor :: "ScannedPayload \<Rightarrow> PoisonPackagePayloadDescriptor option" where
  "payload_descriptor t =
    (if \<not> sp_is_object t \<or> sp_conversions t \<noteq> 3 \<or> \<not> poison_package_path_valid (sp_path t) \<or>
        \<not> poison_package_hex_digest_valid (sp_sha256 t)
     then None
     else case (poison_package_copy_bounded 257 (sp_path t), poison_package_copy_bounded 65 (sp_sha256 t)) of
            (Some p, Some d) \<Rightarrow> Some \<lparr> pd_path = p, pd_sha256 = d, pd_size = sp_size t \<rparr>
          | _ \<Rightarrow> None)"

fun payload_loop :: "(nat \<Rightarrow> ScannedPayload option) \<Rightarrow> nat list \<Rightarrow> PoisonPackagePayloadDescriptor list \<Rightarrow>
    PoisonPackagePayloadDescriptor list option" where
  "payload_loop element [] payloads = Some payloads"
| "payload_loop element (index # rest) payloads =
    (case element index of
       None \<Rightarrow> Some payloads
     | Some t \<Rightarrow>
         (case payload_descriptor t of
            None \<Rightarrow> None
          | Some d \<Rightarrow> if pd_path d \<in> pd_path ` set payloads then None
                      else payload_loop element rest (payloads @ [d])))"

fun capability_loop :: "(nat \<Rightarrow> ScannedCapability option) \<Rightarrow> nat list \<Rightarrow> string list \<Rightarrow> u64 \<Rightarrow>
    (string list \<times> u64) option" where
  "capability_loop element [] capabilities bits = Some (capabilities, bits)"
| "capability_loop element (index # rest) capabilities bits =
    (case element index of
       None \<Rightarrow> Some (capabilities, bits)
     | Some t \<Rightarrow>
         if \<not> sc_is_string t \<or> sc_length t \<le> 0 \<or> sc_length t > 64 \<or> sc_decoded t \<le> 0 \<or> sc_decoded t > 64
         then None
         else (case poison_package_capability_name (Some (sc_text t)) bits of
                 None \<Rightarrow> None
               | Some bits' \<Rightarrow>
                   if sc_text t \<in> set capabilities then None
                   else capability_loop element rest (capabilities @ [sc_text t]) bits'))"

text \<open>The last part: the signer and the signature over the canonical form.\<close>

definition manifest_signature ::
    "PackageCrypto \<Rightarrow> bytes \<Rightarrow> bytes \<Rightarrow> string \<Rightarrow> PoisonPackageAuthorityStore \<Rightarrow>
     PoisonPackageVerifiedArchive \<Rightarrow> PoisonPackageArchiveResult + unit" where
  "manifest_signature crypto manifest signature content_type store verified =
    and_then (attempt PoisonPackageArchiveUnknownSigner
      (poison_package_find_authority_any store (va_signing_key_id verified))) (\<lambda>authority.
    and_then (demand PoisonPackageArchiveRevokedSigner (\<not> pa_revoked authority)) (\<lambda>_.
    and_then (attempt PoisonPackageArchiveInvalid (poison_package_canonical_unsigned manifest))
    (\<lambda>unsigned_manifest.
    and_then (demand PoisonPackageArchiveInvalid
      (poison_package_manifest_is_canonical unsigned_manifest content_type verified (va_capabilities verified)))
    (\<lambda>_. demand PoisonPackageArchiveSignatureInvalid
      (poison_package_verify_p256_signature crypto (pa_public_key authority) unsigned_manifest signature)))))"

definition poison_package_parse_manifest ::
    "JsonScanner \<Rightarrow> PackageCrypto \<Rightarrow> bytes \<Rightarrow> PoisonPackageAuthorityStore \<Rightarrow> u32 \<Rightarrow> u32 \<Rightarrow> string option \<Rightarrow>
     PoisonPackageArchiveResult + PoisonPackageVerifiedArchive" where
  "poison_package_parse_manifest scanner crypto manifest store firmware_api_major
      firmware_api_minor installed_version =
    and_then (demand PoisonPackageArchiveInvalid (length manifest \<le> 2 ^ 31 - 1)) (\<lambda>_.
    let m = js_fields scanner manifest in
    and_then (attempt PoisonPackageArchiveInvalid (manifest_fields m)) (\<lambda>v.
    and_then (demand PoisonPackageArchiveDowngrade
      (poison_package_verify_manifest (Some (va_package_id v)) (Some (va_version v))
         (Some (va_entrypoint v)) (Some (va_content_sha256 v)) (Some (va_signing_key_id v)) False
         installed_version \<noteq> PoisonPackageVerifyDowngrade)) (\<lambda>_.
    and_then (demand PoisonPackageArchiveIncompatible
      (poison_package_firmware_api_compatible (Some (va_firmware_api v)) firmware_api_major
         firmware_api_minor)) (\<lambda>_.
    and_then (attempt PoisonPackageArchiveInvalid
      (payload_loop (js_payload scanner manifest) [0..<POISON_PACKAGE_PAYLOAD_MAX] [])) (\<lambda>payloads.
    and_then (demand PoisonPackageArchiveInvalid
      (payloads \<noteq> [] \<and> js_payload scanner manifest POISON_PACKAGE_PAYLOAD_MAX = None \<and>
       va_entrypoint v \<in> pd_path ` set payloads)) (\<lambda>_.
    and_then (attempt PoisonPackageArchiveInvalid
      (capability_loop (js_capability scanner manifest) [0..<32] [] 0)) (\<lambda>(capabilities, bits).
    let verified = v \<lparr> va_payloads := payloads, va_capabilities := capabilities, va_capability_mask := bits \<rparr>
    in and_then (manifest_signature crypto manifest (sm_signature m) (the (sm_content_type m)) store verified)
         (\<lambda>_. Inr verified))))))))"

text \<open>\<open>poison_package_verify_installed_manifest\<close>: the manifest in the directory of an installed package.
  The storage answers for a path with the kind and the size of what is there and with the file.\<close>

record StoredFile =
  sf_directory :: bool
  sf_size :: nat
  sf_opens :: bool
  sf_file :: OpenFile
  sf_error :: bool

definition poison_package_verify_installed_manifest ::
    "JsonScanner \<Rightarrow> PackageCrypto \<Rightarrow> (string \<Rightarrow> StoredFile option) \<Rightarrow> string \<Rightarrow>
     PoisonPackageAuthorityStore \<Rightarrow> u32 \<Rightarrow> u32 \<Rightarrow> PoisonPackageArchiveResult + PoisonPackageVerifiedArchive" where
  "poison_package_verify_installed_manifest scanner crypto storage active_root store
      firmware_api_major firmware_api_minor =
    (let manifest_path = active_root @ ''/manifest.json'' in
     if active_root = '''' \<or> hd active_root \<noteq> CHR ''/'' \<or>
        strnlen active_root (POISON_PACKAGE_PAYLOAD_PATH_MAX + 1) > POISON_PACKAGE_PAYLOAD_PATH_MAX \<or>
        strstr active_root ''..'' \<or> CHR 0x5C \<in> set active_root \<or>
        length manifest_path \<ge> POISON_PACKAGE_PAYLOAD_PATH_MAX + 1
     then Inl PoisonPackageArchiveInvalid
     else case storage manifest_path of
            None \<Rightarrow> Inl PoisonPackageArchiveIo
          | Some info \<Rightarrow>
              if sf_directory info \<or> sf_size info = 0 \<or> sf_size info > POISON_PACKAGE_MANIFEST_MAX_BYTES \<or>
                 \<not> sf_opens info \<or> sf_error info
              then Inl PoisonPackageArchiveIo
              else case poison_file_read_exact (sf_size info) (sf_file info) of
                     None \<Rightarrow> Inl PoisonPackageArchiveIo
                   | Some (manifest, _) \<Rightarrow>
                       poison_package_parse_manifest scanner crypto manifest store
                         firmware_api_major firmware_api_minor None)"

section \<open>What an accepted manifest is\<close>

lemma copy_bounded_Some:
  "poison_package_copy_bounded n s = Some t \<longleftrightarrow> s = Some t \<and> t \<noteq> [] \<and> length t < n"
  by (auto simp: poison_package_copy_bounded_def split: option.splits if_splits)

lemma manifest_fields_Some:
  assumes "manifest_fields m = Some v"
  shows "sm_conversions m = 10" "sm_content_type m = Some (va_content_type v)"
    "poison_package_path_valid (Some (va_entrypoint v))" "poison_package_hex_digest_valid (Some (va_content_sha256 v))"
    "va_release_sequence v \<noteq> 0" "va_package_id v \<noteq> ''''" "length (va_package_id v) < 65"
    "va_payloads v = []" "va_capabilities v = []" "va_capability_mask v = 0"
    "0 < length (sm_signature m)" "length (sm_signature m) \<le> 80"
  using assms
  by (auto simp: manifest_fields_def copy_bounded_Some verified_zero_def split: if_splits option.splits)

definition payload_ok :: "PoisonPackagePayloadDescriptor \<Rightarrow> bool" where
  "payload_ok d \<longleftrightarrow> poison_package_path_valid (Some (pd_path d)) \<and>
     poison_package_hex_digest_valid (Some (pd_sha256 d))"

lemma payload_descriptor_ok: "payload_descriptor t = Some d \<Longrightarrow> payload_ok d"
  by (auto simp: payload_descriptor_def payload_ok_def copy_bounded_Some split: if_splits option.splits)

lemma payload_loop_ok:
  "payload_loop element indices payloads = Some result \<Longrightarrow> list_all payload_ok payloads \<Longrightarrow>
     distinct (map pd_path payloads) \<Longrightarrow>
     list_all payload_ok result \<and> distinct (map pd_path result) \<and>
     length result \<le> length payloads + length indices"
proof (induction indices arbitrary: payloads)
  case (Cons i indices)
  note IH = Cons.IH and prems = Cons.prems
  show ?case
  proof (cases "element i")
    case None
    then show ?thesis using prems by simp
  next
    case (Some t)
    then obtain d where d: "payload_descriptor t = Some d" "pd_path d \<notin> pd_path ` set payloads"
      "payload_loop element indices (payloads @ [d]) = Some result"
      using prems(1) by (auto split: option.splits if_splits)
    have "list_all payload_ok (payloads @ [d])" "distinct (map pd_path (payloads @ [d]))"
      using prems d payload_descriptor_ok [OF d(1)] by auto
    from IH [OF d(3) this] show ?thesis by simp
  qed
qed simp

text \<open>The mask of the capabilities.\<close>

definition capability_covered :: "string \<Rightarrow> nat \<Rightarrow> bool" where
  "capability_covered c k \<longleftrightarrow> capability_bit c = Some (push_bit k 1) \<or>
     (k = 7 \<and> capability_bit c \<noteq> None \<and> capability_destructive c)"

lemma if_member: "x \<in> A \<Longrightarrow> y \<in> A \<Longrightarrow> (if P then x else y) \<in> A"
  by simp

lemma capability_bit_shift:
  assumes "capability_bit c = Some b"
  shows "\<exists>k < 8. b = push_bit k 1"
proof -
  have "capability_bit c \<in> insert None ((\<lambda>k. Some (push_bit k 1)) ` {0, 1, 2, 3, 4, 5, 6, 7})"
    unfolding capability_bit_def
    by (intro if_member) (simp_all only: image_insert image_empty insert_iff simp_thms)
  then obtain k where "k \<in> {0, 1, 2, 3, 4, 5, 6, 7 :: nat}" "b = push_bit k 1"
    unfolding assms by blast
  then show ?thesis by (intro exI [of _ k]) auto
qed

lemma bit_single: "k < 64 \<Longrightarrow> bit (push_bit k 1 :: u64) n \<longleftrightarrow> n = k"
  by (auto simp: bit_exp_iff)

lemma push_bit_single_inj: "k < 64 \<Longrightarrow> l < 64 \<Longrightarrow> (push_bit k 1 :: u64) = push_bit l 1 \<longleftrightarrow> k = l"
  using bit_single by metis

lemma capability_name_bits:
  assumes "poison_package_capability_name (Some c) w = Some w2" "k < 64"
  shows "bit w2 k \<longleftrightarrow> bit w k \<or> capability_covered c k"
proof -
  obtain b where b: "capability_bit c = Some b"
    and w2: "w2 = w OR (if capability_destructive c then b OR push_bit 7 1 else b)"
    using assms(1) by (auto simp: poison_package_capability_name_def split: if_splits option.splits)
  obtain j where j: "j < 8" "b = push_bit j 1" using capability_bit_shift [OF b] by auto
  have "bit b k \<longleftrightarrow> k = j" using bit_single [of j k] j by simp
  moreover have "bit (push_bit 7 1 :: u64) k \<longleftrightarrow> k = 7" by (rule bit_single) simp
  ultimately show ?thesis
    using b j assms(2) push_bit_single_inj [of j k]
    by (auto simp: w2 bit_or_iff capability_covered_def)
qed

lemma capability_loop_ok:
  "capability_loop element indices capabilities w = Some (result, w2) \<Longrightarrow>
     distinct capabilities \<Longrightarrow> \<forall>k < 64. bit w k \<longleftrightarrow> (\<exists>c \<in> set capabilities. capability_covered c k) \<Longrightarrow>
     distinct result \<and> (\<forall>k < 64. bit w2 k \<longleftrightarrow> (\<exists>c \<in> set result. capability_covered c k)) \<and>
     length result \<le> length capabilities + length indices"
proof (induction indices arbitrary: capabilities w)
  case (Cons i indices)
  note IH = Cons.IH and prems = Cons.prems
  show ?case
  proof (cases "element i")
    case None
    then show ?thesis using prems by simp
  next
    case (Some t)
    then obtain m where m: "poison_package_capability_name (Some (sc_text t)) w = Some m"
      "sc_text t \<notin> set capabilities"
      "capability_loop element indices (capabilities @ [sc_text t]) m = Some (result, w2)"
      using prems(1) by (auto split: option.splits if_splits)
    have "distinct (capabilities @ [sc_text t])"
      "\<forall>k < 64. bit m k \<longleftrightarrow> (\<exists>c \<in> set (capabilities @ [sc_text t]). capability_covered c k)"
      using prems m(2) capability_name_bits [OF m(1)] by auto
    from IH [OF m(3) this] show ?thesis by simp
  qed
qed simp

text \<open>The signed bytes: the manifest without the signature field.\<close>

lemma canonical_unsigned_Some:
  assumes "poison_package_canonical_unsigned manifest = Some u"
  shows "\<exists>s closing. u = take s manifest @ drop (closing + 1) manifest \<and> 0 < s \<and> s < closing \<and>
    closing + 1 < length manifest \<and> manifest ! (closing + 1) = of_char CHR '','' \<and>
    take (length signature_marker) (drop s manifest) = signature_marker"
proof -
  let ?text = "takeWhile (\<lambda>b. b \<noteq> 0) manifest"
  obtain s where s: "find_text signature_marker ?text = Some s"
    using assms by (auto simp: poison_package_canonical_unsigned_def Let_def split: if_splits option.splits)
  let ?start = "s + length signature_marker"
  obtain n where ok: "?start + n + 1 < length ?text" "?text ! (?start + n + 1) = of_char CHR '',''"
      "?start + n < length manifest - 2" "manifest ! 0 = of_char CHR ''{''"
    and u: "u = take s manifest @ drop (?start + n + 1) manifest"
    using assms s
    by (auto simp: poison_package_canonical_unsigned_def Let_def not_le split: if_splits option.splits)
  have found: "take (length signature_marker) (drop s ?text) = signature_marker"
    using find_index_SomeD [OF s [unfolded find_text_def]] by (simp add: nth_append split: if_splits)
  have marker: "length signature_marker = 14" "signature_marker ! 0 = of_char CHR '',''"
    by (simp_all add: signature_marker_def string_bytes_def fmt_def)
  obtain rest where rest: "manifest = ?text @ rest" using takeWhile_dropWhile_id by metis
  have "s + length signature_marker \<le> length ?text" using ok(1) by simp
  then have moved: "take (length signature_marker) (drop s manifest) = signature_marker"
    using found by (subst rest) (simp del: takeWhile_append1 takeWhile_append2)
  moreover have "s \<noteq> 0"
  proof
    assume "s = 0"
    then have "manifest ! 0 = signature_marker ! 0"
      using moved marker(1) by (metis drop0 nth_take zero_less_numeral)
    then show False using ok(4) marker(2) by simp
  qed
  moreover have "manifest ! (?start + n + 1) = of_char CHR '',''"
    using ok(1,2) by (simp add: takeWhile_nth)
  moreover have "0 < length signature_marker" by (simp add: signature_marker_def string_bytes_def fmt_def)
  ultimately show ?thesis using ok(3) u
    by (intro exI [of _ s] exI [of _ "?start + n"]) simp
qed

lemma parse_manifest_ok:
  assumes "poison_package_parse_manifest scanner crypto manifest store major minor installed = Inr v"
  shows "list_all payload_ok (va_payloads v)" "distinct (map pd_path (va_payloads v))"
    "va_payloads v \<noteq> []" "length (va_payloads v) \<le> POISON_PACKAGE_PAYLOAD_MAX"
    "va_entrypoint v \<in> pd_path ` set (va_payloads v)"
    "distinct (va_capabilities v)" "length (va_capabilities v) \<le> 32"
    "k < 64 \<Longrightarrow> bit (va_capability_mask v) k \<longleftrightarrow> (\<exists>c \<in> set (va_capabilities v). capability_covered c k)"
    "poison_package_firmware_api_compatible (Some (va_firmware_api v)) major minor"
    "poison_package_verify_manifest (Some (va_package_id v)) (Some (va_version v))
       (Some (va_entrypoint v)) (Some (va_content_sha256 v)) (Some (va_signing_key_id v)) False
       installed \<noteq> PoisonPackageVerifyDowngrade"
    "\<exists>authority unsigned_manifest.
       poison_package_find_authority_any store (va_signing_key_id v) = Some authority \<and>
       \<not> pa_revoked authority \<and> poison_package_canonical_unsigned manifest = Some unsigned_manifest \<and>
       poison_package_manifest_is_canonical unsigned_manifest (va_content_type v) v (va_capabilities v) \<and>
       poison_package_verify_p256_signature crypto (pa_public_key authority) unsigned_manifest
         (sm_signature (js_fields scanner manifest))"
    "sm_conversions (js_fields scanner manifest) = 10"
proof -
  let ?m = "js_fields scanner manifest"
  obtain v0 payloads capabilities bits where v0: "manifest_fields ?m = Some v0"
    and version: "poison_package_verify_manifest (Some (va_package_id v0)) (Some (va_version v0))
         (Some (va_entrypoint v0)) (Some (va_content_sha256 v0)) (Some (va_signing_key_id v0)) False
         installed \<noteq> PoisonPackageVerifyDowngrade"
    and api: "poison_package_firmware_api_compatible (Some (va_firmware_api v0)) major minor"
    and payloads: "payload_loop (js_payload scanner manifest) [0..<POISON_PACKAGE_PAYLOAD_MAX] [] = Some payloads"
      "payloads \<noteq> []" "va_entrypoint v0 \<in> pd_path ` set payloads"
    and caps: "capability_loop (js_capability scanner manifest) [0..<32] [] 0 = Some (capabilities, bits)"
    and v: "v = v0 \<lparr> va_payloads := payloads, va_capabilities := capabilities, va_capability_mask := bits \<rparr>"
    and signed: "manifest_signature crypto manifest (sm_signature ?m) (the (sm_content_type ?m)) store v = Inr ()"
    using assms by (auto simp: poison_package_parse_manifest_def sum_results Let_def)
  have p: "list_all payload_ok payloads \<and> distinct (map pd_path payloads) \<and> length payloads \<le> 32"
    using payload_loop_ok [OF payloads(1)] by simp
  have c: "distinct capabilities \<and> (\<forall>k < 64. bit bits k \<longleftrightarrow> (\<exists>c \<in> set capabilities. capability_covered c k)) \<and>
      length capabilities \<le> 32"
    using capability_loop_ok [OF caps] by simp
  show "list_all payload_ok (va_payloads v)" "distinct (map pd_path (va_payloads v))"
    "va_payloads v \<noteq> []" "length (va_payloads v) \<le> POISON_PACKAGE_PAYLOAD_MAX"
    "va_entrypoint v \<in> pd_path ` set (va_payloads v)"
    "distinct (va_capabilities v)" "length (va_capabilities v) \<le> 32"
    "poison_package_firmware_api_compatible (Some (va_firmware_api v)) major minor"
    "poison_package_verify_manifest (Some (va_package_id v)) (Some (va_version v))
       (Some (va_entrypoint v)) (Some (va_content_sha256 v)) (Some (va_signing_key_id v)) False
       installed \<noteq> PoisonPackageVerifyDowngrade"
    using p c v version api payloads by simp_all
  show "k < 64 \<Longrightarrow> bit (va_capability_mask v) k \<longleftrightarrow> (\<exists>c \<in> set (va_capabilities v). capability_covered c k)"
    using c v by simp
  show "sm_conversions ?m = 10" by (rule manifest_fields_Some(1) [OF v0])
  have type: "the (sm_content_type ?m) = va_content_type v"
    using manifest_fields_Some(2) [OF v0] v by simp
  show "\<exists>authority unsigned_manifest.
       poison_package_find_authority_any store (va_signing_key_id v) = Some authority \<and>
       \<not> pa_revoked authority \<and> poison_package_canonical_unsigned manifest = Some unsigned_manifest \<and>
       poison_package_manifest_is_canonical unsigned_manifest (va_content_type v) v (va_capabilities v) \<and>
       poison_package_verify_p256_signature crypto (pa_public_key authority) unsigned_manifest
         (sm_signature (js_fields scanner manifest))"
    using signed unfolding type by (auto simp: manifest_signature_def sum_results)
qed

lemma parse_manifest_texts:
  assumes "poison_package_parse_manifest scanner crypto manifest store major minor installed = Inr v"
  shows "va_package_id v \<noteq> ''''" "va_version v \<noteq> ''''" "va_entrypoint v \<noteq> ''''" "va_signing_key_id v \<noteq> ''''"
    "hd (va_entrypoint v) \<noteq> CHR ''/''" "digest_valid (va_content_sha256 v)" "length (va_package_id v) \<le> 64"
proof -
  obtain v0 payloads capabilities bits where v0: "manifest_fields (js_fields scanner manifest) = Some v0"
    and v: "v = v0 \<lparr> va_payloads := payloads, va_capabilities := capabilities, va_capability_mask := bits \<rparr>"
    using assms by (auto simp: poison_package_parse_manifest_def sum_results Let_def)
  have "va_package_id v0 \<noteq> '''' \<and> va_version v0 \<noteq> '''' \<and> va_entrypoint v0 \<noteq> '''' \<and> va_signing_key_id v0 \<noteq> '''' \<and>
    poison_package_path_valid (Some (va_entrypoint v0)) \<and>
    poison_package_hex_digest_valid (Some (va_content_sha256 v0)) \<and> length (va_package_id v0) \<le> 64"
    using v0 by (auto simp: manifest_fields_def copy_bounded_Some verified_zero_def split: if_splits option.splits)
  then show "va_package_id v \<noteq> ''''" "va_version v \<noteq> ''''" "va_entrypoint v \<noteq> ''''" "va_signing_key_id v \<noteq> ''''"
    "hd (va_entrypoint v) \<noteq> CHR ''/''" "digest_valid (va_content_sha256 v)" "length (va_package_id v) \<le> 64"
    using v by (auto simp: poison_package_path_valid_def poison_package_hex_digest_valid_def digest_valid_def)
qed

text \<open>The printer puts the names of the fields in quotation marks although the formats have them already,
  so the canonical form begins with an empty string and a bare word, and a manifest that is
  accepted begins the same way.\<close>

lemma canonical_text_begins:
  assumes "canonical_manifest content_type verified capabilities = Some text"
  shows "\<exists>rest. text = fmt ''{``capabilities``:['' @ rest"
proof -
  have "json_printf (fmt ''{`capabilities`:['') [] = Some (fmt ''{``capabilities``:['')"
    by code_simp
  then show ?thesis
    using assms by (auto simp: canonical_manifest_def split: option.splits)
qed

lemma accepted_manifest_begins:
  assumes "poison_package_parse_manifest scanner crypto manifest store major minor installed = Inr v"
  shows "take 4 manifest = string_bytes (fmt ''{``c'')"
proof -
  obtain u where u: "poison_package_canonical_unsigned manifest = Some u"
    and canonical: "poison_package_manifest_is_canonical u (va_content_type v) v (va_capabilities v)"
    using parse_manifest_ok(11) [OF assms] by auto
  obtain printed where printed: "canonical_manifest (va_content_type v) v (va_capabilities v) = Some printed"
    and eq: "u = take (POISON_PACKAGE_MANIFEST_MAX_BYTES + 1) (string_bytes printed)"
    using canonical by (auto simp: poison_package_manifest_is_canonical_def Let_def split: option.splits)
  obtain rest where "printed = fmt ''{``capabilities``:['' @ rest"
    using canonical_text_begins [OF printed] by auto
  then have u4: "take 4 u = string_bytes (fmt ''{``c'')" and long: "4 \<le> length u"
    by (simp_all add: eq fmt_def string_bytes_def)
  obtain s closing where s: "u = take s manifest @ drop (closing + 1) manifest" "0 < s" "s < closing"
    "closing + 1 < length manifest" "manifest ! (closing + 1) = of_char CHR '',''"
    using canonical_unsigned_Some [OF u] by auto
  have "u ! s = of_char CHR '',''"
    using s by (simp add: nth_append)
  moreover have "take 4 u ! i \<noteq> of_char CHR '',''" if "i < 4" for i
  proof -
    have "(of_char CHR '','' :: u8) \<notin> set (string_bytes (fmt ''{``c''))"
      by (simp add: string_bytes_def fmt_def del: of_char_Char)
    moreover have "length (string_bytes (fmt ''{``c'')) = 4" by (simp add: string_bytes_def fmt_def)
    ultimately show ?thesis unfolding u4 using that nth_mem by metis
  qed
  ultimately have "4 \<le> s" using long by (metis leI nth_take)
  then have "take 4 u = take 4 manifest"
    using s by (simp add: min_def)
  then show ?thesis using u4 by simp
qed

text \<open>So a scanner that follows the grammar of JSON, which finds nothing in an object that starts with a
  string and a word, lets no manifest through.\<close>

lemma no_json_manifest_accepted:
  assumes "\<And>m. take 4 m = string_bytes (fmt ''{``c'') \<Longrightarrow> sm_conversions (js_fields scanner m) \<noteq> 10"
  shows "poison_package_parse_manifest scanner crypto manifest store major minor installed \<noteq> Inr v"
  using accepted_manifest_begins [of scanner crypto manifest store major minor installed v]
    parse_manifest_ok(12) [of scanner crypto manifest store major minor installed v] assms by blast

section \<open>Versions of three numbers\<close>

lemma char_code_char_of: "n < 256 \<Longrightarrow> char_code (char_of n) = n"
  by simp

lemma decimal_digits: "decimal n \<noteq> [] \<and> (\<forall>c \<in> set (decimal n). c_isdigit c)"
proof (induction n rule: decimal.induct)
  case (1 n)
  show ?case
  proof (cases "n < 10")
    case True
    then show ?thesis by (simp add: decimal.simps [of n] c_isdigit_def)
  next
    case False
    then show ?thesis
      using "1" by (auto simp: decimal.simps [of n] c_isdigit_def)
  qed
qed

lemma digits_value_snoc: "digits_value (s @ [c]) = 10 * digits_value s + (char_code c - 48)"
  by (simp add: digits_value_def)

lemma digits_value_decimal: "digits_value (decimal n) = n"
proof (induction n rule: decimal.induct)
  case (1 n)
  show ?case
  proof (cases "n < 10")
    case True
    then show ?thesis by (simp add: decimal.simps [of n] digits_value_def)
  next
    case False
    then show ?thesis
      using "1" by (simp add: decimal.simps [of n] digits_value_snoc)
  qed
qed

definition no_digit_first :: "string \<Rightarrow> bool" where
  "no_digit_first s \<longleftrightarrow> (s = [] \<or> \<not> c_isdigit (hd s))"

lemma scan_decimal:
  assumes "n < 2 ^ 32" "no_digit_first rest"
  shows "scan_unsigned (decimal n @ rest) = Some (n, rest)"
proof -
  obtain c cs where d: "decimal n = c # cs" using decimal_digits [of n] by (cases "decimal n") auto
  have digits: "\<forall>x \<in> set (c # cs). c_isdigit x" using decimal_digits [of n] d by simp
  then have c: "c_isdigit c" by simp
  then have space: "\<not> c_isspace c" and sign: "c \<noteq> CHR ''+''" "c \<noteq> CHR ''-''"
    by (auto simp: c_isdigit_def c_isspace_def)
  have split: "takeWhile c_isdigit (decimal n @ rest) = decimal n" "dropWhile c_isdigit (decimal n @ rest) = rest"
    using digits assms(2) unfolding d no_digit_first_def by (cases rest; simp add: takeWhile_append2 dropWhile_append2)+
  show ?thesis
    using split space sign assms(1) digits_value_decimal [of n]
    by (simp add: scan_unsigned_def d)
qed

definition version_text :: "nat \<Rightarrow> nat \<Rightarrow> nat \<Rightarrow> string" where
  "version_text a b c = decimal a @ ''.'' @ decimal b @ ''.'' @ decimal c"

lemma semantic_version_text:
  "a < 2 ^ 32 \<Longrightarrow> b < 2 ^ 32 \<Longrightarrow> c < 2 ^ 32 \<Longrightarrow> semantic_version (version_text a b c) = Some [a, b, c]"
  using scan_decimal [of c "[]"] scan_decimal [of b "''.'' @ decimal c"]
    scan_decimal [of a "''.'' @ decimal b @ ''.'' @ decimal c"]
  by (simp add: semantic_version_def version_text_def no_digit_first_def c_isdigit_def)

text \<open>The check for a downgrade refuses a lower version, and refuses nothing when one of the two
  versions is not made of three numbers.\<close>

lemma downgrade_refused_iff:
  assumes "poison_package_verify_manifest (Some i) (Some v) (Some e) (Some d) (Some k) False None = PoisonPackageVerifyOk"
  shows "poison_package_verify_manifest (Some i) (Some v) (Some e) (Some d) (Some k) False (Some installed)
      = PoisonPackageVerifyDowngrade \<longleftrightarrow> compare_versions v installed = - 1"
proof -
  have "compare_parts l r \<in> {- 1, 0, 1}" for l r
    by (induction l r rule: compare_parts.induct) auto
  then have "compare_versions v installed \<in> {- 2, - 1, 0, 1}"
    by (auto simp: compare_versions_def split: option.splits)
  then show ?thesis
    using assms by (auto simp: poison_package_verify_manifest_def Let_def split: if_splits)
qed

lemma downgrade_check_skipped:
  assumes "semantic_version v = None \<or> semantic_version installed = None"
  shows "poison_package_verify_manifest (Some i) (Some v) (Some e) (Some d) (Some k) False (Some installed)
      \<noteq> PoisonPackageVerifyDowngrade"
  using assms by (auto simp: poison_package_verify_manifest_def compare_versions_def Let_def split: option.splits)

text \<open>Whatever makes the manifest invalid for this check, also two dots in the name of a file, switches
  the check for a downgrade off, because the caller looks for that one answer only.\<close>

lemma downgrade_check_skipped_dots:
  "strstr e ''..'' \<Longrightarrow> poison_package_verify_manifest (Some i) (Some v) (Some e) (Some d) (Some k) False installed
      \<noteq> PoisonPackageVerifyDowngrade"
  by (simp add: poison_package_verify_manifest_def)

lemma compare_parts_less:
  "length l = length r \<Longrightarrow> compare_parts l r = - 1 \<longleftrightarrow> (l, r) \<in> lex {(a, b). a < b}"
  by (induction l r rule: list_induct2) auto

end
