(* ===== verification/PackageArchive.thy ===== *)
theory PackageArchive
  imports PackageManifest "HOL-Library.List_Lexorder" "HOL-Library.Multiset"
begin

text \<open>The verification of a whole package archive (\<open>poison_packages/poison_package_archive.c\<close>): the
  digest of the file, the scan of \<open>ZipArchive\<close>, the manifest of \<open>PackageManifest\<close> and the digests of
  the members in the order of their paths.\<close>

section \<open>Digests\<close>

text \<open>The loop that reads \<open>remaining\<close> bytes in pieces of at most 256 and feeds them to the hash; the
  hash of the pieces is the hash of their concatenation.\<close>

function read_pieces :: "nat \<Rightarrow> bytes \<Rightarrow> OpenFile \<Rightarrow> (bytes \<times> OpenFile) option" where
  "read_pieces remaining hashed file =
    (if remaining > 0
     then let chunk = (if remaining > 256 then 256 else remaining)
          in case poison_file_read_exact chunk file of
               None \<Rightarrow> None
             | Some (buffer, file') \<Rightarrow> read_pieces (remaining - chunk) (hashed @ buffer) file'
     else Some (hashed, file))"
  by pat_completeness auto

termination read_pieces by (relation "measure fst") auto

declare read_pieces.simps [simp del]

definition poison_package_hash_file :: "PackageCrypto \<Rightarrow> nat \<Rightarrow> OpenFile \<Rightarrow> (bytes \<times> OpenFile) option" where
  "poison_package_hash_file crypto n file =
    (case read_pieces n [] file of
       None \<Rightarrow> None
     | Some (hashed, file') \<Rightarrow> map_option (\<lambda>digest. (digest, file')) (pc_sha256 crypto hashed))"

lemma read_pieces_Some:
  "read_pieces n hashed f = Some (output, f') \<Longrightarrow>
     output = hashed @ take n (drop (of_position f) (of_bytes f)) \<and>
     length output = length hashed + n \<and> of_bytes f' = of_bytes f \<and>
     of_position f' = of_position f + n"
proof (induction n hashed f rule: read_pieces.induct)
  case (1 n hashed f)
  note IH = "1.IH" and prems = "1.prems"
  show ?case
  proof (cases "n > 0")
    case False
    then show ?thesis using prems by (simp add: read_pieces.simps [of 0])
  next
    case True
    let ?chunk = "if n > 256 then 256 else n"
    obtain buffer g where read: "poison_file_read_exact ?chunk f = Some (buffer, g)"
      and rest: "read_pieces (n - ?chunk) (hashed @ buffer) g = Some (output, f')"
      using prems True by (auto simp: read_pieces.simps [of n] Let_def split: option.splits if_splits)
    note r = read_exact_Some [OF read]
    have "take n (drop (of_position f) (of_bytes f)) =
        buffer @ take (n - ?chunk) (drop (of_position g) (of_bytes g))"
      using take_add [of ?chunk "n - ?chunk" "drop (of_position f) (of_bytes f)"] r(1,3,4)
      by (simp add: add.commute split: if_splits)
    then show ?thesis
      using IH [OF True refl read refl rest] r(2,3,4) by (auto split: if_splits)
  qed
qed

section \<open>The order of the members\<close>

text \<open>\<open>strcmp(left, right) > 0\<close>: the bytes are compared as unsigned.\<close>

fun strcmp_greater :: "string \<Rightarrow> string \<Rightarrow> bool" where
  "strcmp_greater [] right = False"
| "strcmp_greater (c # left) [] = True"
| "strcmp_greater (c # left) (d # right) =
    (if c = d then strcmp_greater left right else char_code c > char_code d)"

definition exchange_if :: "('a \<Rightarrow> 'a \<Rightarrow> bool) \<Rightarrow> nat \<Rightarrow> nat \<Rightarrow> 'a list \<Rightarrow> 'a list" where
  "exchange_if gt left right order =
    (if gt (order ! left) (order ! right)
     then order[left := order ! right, right := order ! left] else order)"

definition exchange_sort :: "('a \<Rightarrow> 'a \<Rightarrow> bool) \<Rightarrow> 'a list \<Rightarrow> 'a list" where
  "exchange_sort gt order =
    fold (\<lambda>left. fold (exchange_if gt left) [left + 1..<length order]) [0..<length order] order"

definition payload_order :: "PoisonPackagePayloadDescriptor list \<Rightarrow> nat list" where
  "payload_order payloads = exchange_sort
     (\<lambda>i j. strcmp_greater (pd_path (payloads ! i)) (pd_path (payloads ! j))) [0..<length payloads]"

text \<open>It is a sort by the path.\<close>

lemma strcmp_greater_lex: "strcmp_greater a b \<longleftrightarrow> map char_code b < map char_code a"
  by (induction a b rule: strcmp_greater.induct) auto

lemma length_exchange [simp]: "length (exchange_if g i j xs) = length xs"
  by (simp add: exchange_if_def)

lemma mset_exchange: "i < length xs \<Longrightarrow> j < length xs \<Longrightarrow> mset (exchange_if g i j xs) = mset xs"
  by (simp add: exchange_if_def mset_swap)

text \<open>After the inner loop for \<open>i\<close> up to \<open>j\<close>: the place \<open>i\<close> holds a least element of \<open>i\<close> to \<open>j - 1\<close>, what
  is before \<open>i\<close> is unchanged, and the elements from \<open>i\<close> on are the same.\<close>

lemma inner_exchange:
  fixes key :: "'a \<Rightarrow> 'b :: linorder"
  assumes "i < length xs" "i < j" "j \<le> length xs"
  defines "ys \<equiv> fold (exchange_if (\<lambda>a b. key b < key a) i) [i + 1..<j] xs"
  shows "length ys = length xs \<and> take i ys = take i xs \<and> mset (drop i ys) = mset (drop i xs) \<and>
    (\<forall>k. i < k \<and> k < j \<longrightarrow> key (ys ! i) \<le> key (ys ! k))"
  using assms(2,3) unfolding ys_def
proof (induction j)
  case (Suc j)
  note IH = Suc.IH and prems = Suc.prems
  show ?case
  proof (cases "i < j")
    case False
    then have "j = i" using prems by simp
    then show ?thesis by auto
  next
    case True
    let ?g = "\<lambda>a b. key b < key a"
    let ?ys = "fold (exchange_if ?g i) [i + 1..<j] xs"
    let ?zs = "exchange_if ?g i j ?ys"
    have ih: "length ?ys = length xs" "take i ?ys = take i xs" "mset (drop i ?ys) = mset (drop i xs)"
      "\<And>k. i < k \<Longrightarrow> k < j \<Longrightarrow> key (?ys ! i) \<le> key (?ys ! k)"
      using IH True prems by auto
    have step: "fold (exchange_if ?g i) [i + 1..<Suc j] xs = ?zs"
      using True by simp
    have len: "i < length ?ys" "j < length ?ys" using ih(1) prems assms(1) by simp_all
    have "mset ?zs = mset ?ys" by (rule mset_exchange [OF len])
    moreover have before: "take i ?zs = take i ?ys" using True by (simp add: exchange_if_def)
    ultimately have "mset (drop i ?zs) = mset (drop i ?ys)"
      by (metis append_take_drop_id mset_append add_left_cancel)
    moreover have "key (?zs ! i) \<le> key (?zs ! k)" if "i < k" "k < Suc j" for k
      using that ih(4) [of k] ih(4) len
      by (auto simp: exchange_if_def nth_list_update less_Suc_eq) (meson less_le_not_le order_trans)+
    ultimately show ?thesis
      unfolding step using ih before by simp
  qed
qed simp

lemma mset_halves: "take i ys = take i xs \<Longrightarrow> mset (drop i ys) = mset (drop i xs) \<Longrightarrow> mset ys = mset xs"
  by (metis append_take_drop_id mset_append)

lemma exchange_sort_upto:
  fixes key :: "'a \<Rightarrow> 'b :: linorder"
  assumes "n \<le> length xs"
  defines "ys \<equiv> fold (\<lambda>i. fold (exchange_if (\<lambda>a b. key b < key a) i) [i + 1..<length xs]) [0..<n] xs"
  shows "length ys = length xs \<and> mset ys = mset xs \<and> sorted (map key (take n ys)) \<and>
    (\<forall>i k. i < n \<and> i < k \<and> k < length xs \<longrightarrow> key (ys ! i) \<le> key (ys ! k))"
  using assms(1) unfolding ys_def
proof (induction n)
  case (Suc n)
  let ?step = "\<lambda>i. fold (exchange_if (\<lambda>a b. key b < key a) i) [i + 1..<length xs]"
  define ys where "ys = fold ?step [0..<n] xs"
  define zs where "zs = ?step n ys"
  have done_step: "fold ?step [0..<Suc n] xs = zs" by (simp add: zs_def ys_def)
  have ih: "length ys = length xs" "mset ys = mset xs"
    "\<And>i k. i < n \<Longrightarrow> i < k \<Longrightarrow> k < length xs \<Longrightarrow> key (ys ! i) \<le> key (ys ! k)"
    using Suc.IH Suc.prems unfolding ys_def by auto
  have n: "n < length ys" using Suc.prems ih(1) by simp
  have inner: "length zs = length ys \<and> take n zs = take n ys \<and> mset (drop n zs) = mset (drop n ys) \<and>
    (\<forall>k. n < k \<and> k < length xs \<longrightarrow> key (zs ! n) \<le> key (zs ! k))"
    using inner_exchange [OF n n order.refl, of key] unfolding zs_def ih(1) .
  note ext = inner [THEN conjunct1] inner [THEN conjunct2, THEN conjunct1]
    inner [THEN conjunct2, THEN conjunct2, THEN conjunct1]
    inner [THEN conjunct2, THEN conjunct2, THEN conjunct2, rule_format, OF conjI]
  have low: "key (zs ! i) \<le> key (zs ! k)" if i: "i < Suc n" "i < k" "k < length xs" for i k
  proof (cases "i < n")
    case False
    then show ?thesis using i ext(4) by (simp add: less_Suc_eq)
  next
    case True
    have same: "zs ! i = ys ! i" using True ext(2) by (metis nth_take)
    show ?thesis
    proof (cases "k < n")
      case True
      then have "zs ! k = ys ! k" using ext(2) by (metis nth_take)
      then show ?thesis using same ih(3) [of i k] i True \<open>i < n\<close> by simp
    next
      case False
      then have "zs ! k \<in> set (drop n zs)"
        using i(3) ext(1) ih(1) nth_mem [of "k - n" "drop n zs"] by simp
      then have "zs ! k \<in> set (drop n ys)" using ext(3) by (metis set_mset_mset)
      then obtain l where "l < length ys - n" "zs ! k = ys ! (n + l)"
        by (auto simp: in_set_conv_nth)
      then show ?thesis using same ih(1) ih(3) [of i "n + l"] \<open>i < n\<close> by simp
    qed
  qed
  have "sorted (map key (take (Suc n) zs))"
    unfolding sorted_iff_nth_mono_less using low Suc.prems by simp
  moreover have "mset zs = mset xs" using mset_halves [OF ext(2,3)] ih(2) by simp
  ultimately show ?case
    unfolding done_step using ext(1) ih(1) low by simp
qed simp

lemma exchange_sort_sorts:
  fixes key :: "'a \<Rightarrow> 'b :: linorder"
  shows "mset (exchange_sort (\<lambda>a b. key b < key a) xs) = mset xs"
    "sorted (map key (exchange_sort (\<lambda>a b. key b < key a) xs))"
proof -
  let ?ys = "exchange_sort (\<lambda>a b. key b < key a) xs"
  have all: "length ?ys = length xs \<and> mset ?ys = mset xs \<and> sorted (map key (take (length xs) ?ys))"
    using exchange_sort_upto [of "length xs" xs key] unfolding exchange_sort_def by blast
  then show "mset ?ys = mset xs" by blast
  show "sorted (map key ?ys)" using all by (metis order.refl take_all)
qed

text \<open>With distinct paths there is one order only, so the order computed is that of the library's sort.\<close>

definition path_key :: "PoisonPackagePayloadDescriptor \<Rightarrow> nat list" where
  "path_key d = map char_code (pd_path d)"

lemma path_key_inj: "path_key d = path_key e \<longleftrightarrow> pd_path d = pd_path e"
  unfolding path_key_def by (rule inj_map_eq_map) (simp add: inj_def)

lemma payload_order_sorts:
  assumes "distinct (map pd_path payloads)"
  shows "map ((!) payloads) (payload_order payloads) = sort_key path_key payloads"
proof (rule sort_key_inj_key_eq [symmetric])
  let ?key = "\<lambda>i. path_key (payloads ! i)"
  have order: "payload_order payloads = exchange_sort (\<lambda>a b. ?key b < ?key a) [0..<length payloads]"
    by (simp add: payload_order_def strcmp_greater_lex path_key_def)
  have "mset (map ((!) payloads) (payload_order payloads)) = mset (map ((!) payloads) [0..<length payloads])"
    unfolding order mset_map exchange_sort_sorts ..
  then show "mset payloads = mset (map ((!) payloads) (payload_order payloads))"
    by (simp add: map_nth)
  show "sorted (map path_key (map ((!) payloads) (payload_order payloads)))"
    using exchange_sort_sorts(2) [of ?key "[0..<length payloads]"] by (simp add: order o_def)
  show "inj_on path_key (set payloads)"
    using assms by (auto simp: inj_on_def path_key_inj distinct_map)
qed

section \<open>The members\<close>

text \<open>The loop over the payloads in their order: \<open>content\<close> is what the content hash was fed.\<close>

fun verify_payloads ::
    "PackageCrypto \<Rightarrow> PoisonZipMember list \<Rightarrow> PoisonPackagePayloadDescriptor list \<Rightarrow> bytes \<Rightarrow> OpenFile \<Rightarrow>
     bytes option" where
  "verify_payloads crypto members [] content file = Some content"
| "verify_payloads crypto members (payload # rest) content file =
    (case poison_package_find_member members (pd_path payload) of
       None \<Rightarrow> None
     | Some index \<Rightarrow>
         let member = members ! index in
         if zm_size member \<noteq> pd_size payload then None
         else case storage_file_seek (unat (zm_data_offset member)) True file of
                None \<Rightarrow> None
              | Some file1 \<Rightarrow>
                  (case read_pieces (unat (zm_size member)) [] file1 of
                     None \<Rightarrow> None
                   | Some (payload_bytes, file2) \<Rightarrow>
                       (case pc_sha256 crypto payload_bytes of
                          None \<Rightarrow> None
                        | Some payload_digest \<Rightarrow>
                            if poison_package_hex_encode payload_digest \<noteq> pd_sha256 payload then None
                            else verify_payloads crypto members rest
                                   (content @ string_bytes (pd_path payload) @ [0] @ payload_bytes) file2)))"

definition poison_package_verify_members ::
    "PackageCrypto \<Rightarrow> OpenFile \<Rightarrow> PoisonZipMember list \<Rightarrow> PoisonPackageVerifiedArchive \<Rightarrow> bool" where
  "poison_package_verify_members crypto file members verified =
    (let payloads = va_payloads verified in
     if length members \<noteq> length payloads + 1 \<or> zm_path (members ! 0) \<noteq> ''manifest.json'' then False
     else case verify_payloads crypto members (map ((!) payloads) (payload_order payloads)) [] file of
            None \<Rightarrow> False
          | Some content \<Rightarrow>
              (case pc_sha256 crypto content of
                 None \<Rightarrow> False
               | Some digest \<Rightarrow> poison_package_hex_encode digest = va_content_sha256 verified))"

section \<open>The archive\<close>

text \<open>\<open>archive\<close>: None when the file cannot be opened.  The outer option says whether the call returns.  The
  memory for the members and the manifest is there.\<close>

definition poison_package_verify_archive ::
    "JsonScanner \<Rightarrow> PackageCrypto \<Rightarrow> OpenFile option \<Rightarrow> string option \<Rightarrow> PoisonPackageAuthorityStore \<Rightarrow>
     u32 \<Rightarrow> u32 \<Rightarrow> string option \<Rightarrow> (PoisonPackageArchiveResult + PoisonPackageVerifiedArchive) option" where
  "poison_package_verify_archive scanner crypto archive expected_archive_sha256 store
      firmware_api_major firmware_api_minor installed_version =
    (if \<not> poison_package_hex_digest_valid expected_archive_sha256 then Some (Inl PoisonPackageArchiveInvalid)
     else case archive of
       None \<Rightarrow> Some (Inl PoisonPackageArchiveIo)
     | Some file \<Rightarrow>
         let archive_size = length (of_bytes file) in
         if archive_size = 0 \<or> archive_size > POISON_PACKAGE_ARCHIVE_MAX_BYTES
         then Some (Inl PoisonPackageArchiveInvalid)
         else (case storage_file_seek 0 True file of
           None \<Rightarrow> Some (Inl PoisonPackageArchiveInvalid)
         | Some file1 \<Rightarrow>
             (case poison_package_hash_file crypto archive_size file1 of
                None \<Rightarrow> Some (Inl PoisonPackageArchiveIo)
              | Some (archive_digest, file2) \<Rightarrow>
                  if poison_package_hex_encode archive_digest \<noteq> the expected_archive_sha256
                  then Some (Inl PoisonPackageArchiveDigestMismatch)
                  else (case zip_scan archive_size file2 of
                    None \<Rightarrow> None
                  | Some (Inl e) \<Rightarrow> Some (Inl e)
                  | Some (Inr scan) \<Rightarrow>
                      (case poison_package_parse_manifest scanner crypto (zs_manifest scan) store
                              firmware_api_major firmware_api_minor installed_version of
                         Inl e \<Rightarrow> Some (Inl e)
                       | Inr v \<Rightarrow>
                           let verified = v \<lparr> va_archive_bytes := of_nat archive_size,
                                 va_archive_sha256 := the expected_archive_sha256 \<rparr>
                           in if poison_package_verify_members crypto (zs_file scan) (zs_members scan) verified
                              then Some (Inr verified)
                              else Some (Inl PoisonPackageArchiveDigestMismatch))))))"

text \<open>What the members are when the digests are right: the bytes of a payload are those of the member of
  its path, and the content is made of the paths and the bytes.\<close>

definition payload_bytes :: "bytes \<Rightarrow> PoisonZipMember list \<Rightarrow> PoisonPackagePayloadDescriptor \<Rightarrow> bytes" where
  "payload_bytes bs members d =
    (case poison_package_find_member members (pd_path d) of
       None \<Rightarrow> [] | Some index \<Rightarrow> member_bytes bs (members ! index))"

definition content_of :: "bytes \<Rightarrow> PoisonZipMember list \<Rightarrow> PoisonPackagePayloadDescriptor list \<Rightarrow> bytes" where
  "content_of bs members payloads =
     concat (map (\<lambda>d. string_bytes (pd_path d) @ [0] @ payload_bytes bs members d) payloads)"

definition hex_digest :: "PackageCrypto \<Rightarrow> bytes \<Rightarrow> string option" where
  "hex_digest crypto bs = map_option poison_package_hex_encode (pc_sha256 crypto bs)"

definition payload_present :: "PackageCrypto \<Rightarrow> bytes \<Rightarrow> PoisonZipMember list \<Rightarrow>
    PoisonPackagePayloadDescriptor \<Rightarrow> bool" where
  "payload_present crypto bs members d \<longleftrightarrow>
     (\<exists>m \<in> set members. zm_path m = pd_path d \<and> zm_size m = pd_size d) \<and>
     length (payload_bytes bs members d) = unat (pd_size d) \<and>
     hex_digest crypto (payload_bytes bs members d) = Some (pd_sha256 d)"

lemma find_member_Some:
  "poison_package_find_member members path = Some i \<Longrightarrow> i < length members \<and> zm_path (members ! i) = path"
  using find_index_SomeD [of "\<lambda>m. zm_path m = path" members i] by (simp add: poison_package_find_member_def)

lemma verify_payloads_Some:
  "verify_payloads crypto members payloads content f = Some result \<Longrightarrow>
     \<forall>m \<in> set members. unat (zm_data_offset m) + unat (zm_size m) \<le> length (of_bytes f) \<Longrightarrow>
     result = content @ content_of (of_bytes f) members payloads \<and>
     (\<forall>d \<in> set payloads. payload_present crypto (of_bytes f) members d)"
proof (induction payloads arbitrary: content f)
  case Nil
  then show ?case by (simp add: content_of_def)
next
  case (Cons d payloads)
  note IH = Cons.IH and prems = Cons.prems
  obtain i f1 f2 digest bs where i: "poison_package_find_member members (pd_path d) = Some i"
    and seek: "storage_file_seek (unat (zm_data_offset (members ! i))) True f = Some f1"
    and read: "read_pieces (unat (zm_size (members ! i))) [] f1 = Some (bs, f2)"
    and digest: "pc_sha256 crypto bs = Some digest" "poison_package_hex_encode digest = pd_sha256 d"
    and same_size: "zm_size (members ! i) = pd_size d"
    and rest: "verify_payloads crypto members payloads (content @ string_bytes (pd_path d) @ [0] @ bs) f2 = Some result"
    using prems(1) by (auto simp: Let_def split: option.splits if_splits)
  have m: "i < length members" "zm_path (members ! i) = pd_path d"
    using find_member_Some [OF i] by simp_all
  then have fits: "unat (zm_data_offset (members ! i)) + unat (zm_size (members ! i)) \<le> length (of_bytes f)"
    using prems(2) by simp
  note s = seek_Some [OF seek] and r = read_pieces_Some [OF read]
  have bs: "bs = payload_bytes (of_bytes f) members d" "length bs = unat (pd_size d)"
    using r s fits i same_size by (simp_all add: payload_bytes_def member_bytes_def)
  have f2: "of_bytes f2 = of_bytes f" using r s by simp
  have "payload_present crypto (of_bytes f) members d"
    using m bs digest same_size nth_mem [OF m(1)] by (auto simp: payload_present_def hex_digest_def)
  then show ?case
    using IH [OF rest] prems(2) f2 bs(1) by (simp add: content_of_def)
qed

lemma verify_members_ok:
  assumes "poison_package_verify_members crypto f members v" "distinct (map pd_path (va_payloads v))"
    and "\<forall>m \<in> set members. unat (zm_data_offset m) + unat (zm_size m) \<le> length (of_bytes f)"
  shows "length members = length (va_payloads v) + 1" "zm_path (members ! 0) = ''manifest.json''"
    "\<forall>d \<in> set (va_payloads v). payload_present crypto (of_bytes f) members d"
    "hex_digest crypto (content_of (of_bytes f) members (sort_key path_key (va_payloads v)))
       = Some (va_content_sha256 v)"
proof -
  obtain content where content: "verify_payloads crypto members (sort_key path_key (va_payloads v)) [] f = Some content"
    and digest: "hex_digest crypto content = Some (va_content_sha256 v)"
    and shape: "length members = length (va_payloads v) + 1" "zm_path (members ! 0) = ''manifest.json''"
    using assms(1) payload_order_sorts [OF assms(2)]
    by (auto simp: poison_package_verify_members_def hex_digest_def Let_def split: if_splits option.splits)
  show "length members = length (va_payloads v) + 1" "zm_path (members ! 0) = ''manifest.json''"
    by (rule shape)+
  show "\<forall>d \<in> set (va_payloads v). payload_present crypto (of_bytes f) members d"
    "hex_digest crypto (content_of (of_bytes f) members (sort_key path_key (va_payloads v)))
       = Some (va_content_sha256 v)"
    using verify_payloads_Some [OF content assms(3)] digest by simp_all
qed

section \<open>The verification returns\<close>

lemma hash_file_bytes:
  "poison_package_hash_file crypto n f = Some (digest, f') \<Longrightarrow>
     of_bytes f' = of_bytes f \<and> pc_sha256 crypto (take n (drop (of_position f) (of_bytes f))) = Some digest"
  by (auto simp: poison_package_hash_file_def split: option.splits dest: read_pieces_Some)

text \<open>C31: the verification of an archive comes to an end for every file, whatever its bytes claim about
  their lengths and however the storage fails: neither the loop over the local headers nor the
  loop over the central directory can go on for ever.\<close>

theorem archive_verification_returns:
  "\<exists>r. poison_package_verify_archive scanner crypto archive expected store major minor installed = Some r"
proof (cases archive)
  case None
  then show ?thesis by (simp add: poison_package_verify_archive_def)
next
  case (Some f)
  have "\<exists>r. zip_scan (length (of_bytes f)) f2 = Some r"
    if "storage_file_seek 0 True f = Some f1" "poison_package_hash_file crypto (length (of_bytes f)) f1 = Some (digest, f2)"
    for f1 f2 digest
  proof -
    have "of_bytes f2 = of_bytes f"
      using seek_Some(1) [OF that(1)] hash_file_bytes [OF that(2)] by simp
    then show ?thesis using zip_scan_returns [of f2] by simp
  qed
  then show ?thesis
    using Some by (auto simp: poison_package_verify_archive_def Let_def split: option.split sum.split) fastforce
qed

section \<open>What a verified archive is\<close>

text \<open>The signature: a key of the store that is not revoked signed the manifest without its signature
  field, and that text is the canonical form of the record.\<close>

definition signed_by :: "PackageCrypto \<Rightarrow> PoisonPackageAuthorityStore \<Rightarrow> bytes \<Rightarrow> bytes \<Rightarrow>
    PoisonPackageVerifiedArchive \<Rightarrow> bool" where
  "signed_by crypto store manifest signature v \<longleftrightarrow>
     (\<exists>authority unsigned_manifest.
        poison_package_find_authority_any store (va_signing_key_id v) = Some authority \<and>
        \<not> pa_revoked authority \<and> poison_package_canonical_unsigned manifest = Some unsigned_manifest \<and>
        poison_package_manifest_is_canonical unsigned_manifest (va_content_type v) v (va_capabilities v) \<and>
        poison_package_verify_p256_signature crypto (pa_public_key authority) unsigned_manifest signature)"

lemma canonical_record:
  "canonical_manifest t (v \<lparr> va_archive_bytes := n, va_archive_sha256 := d \<rparr>) c = canonical_manifest t v c"
  by (simp add: canonical_manifest_def)

lemma verify_archive_Some:
  assumes "poison_package_verify_archive scanner crypto (Some f) expected store major minor installed
    = Some (Inr v)"
  shows "length (of_bytes f) \<le> POISON_PACKAGE_ARCHIVE_MAX_BYTES" "of_bytes f \<noteq> []"
    "hex_digest crypto (of_bytes f) = expected \<and> expected = Some (va_archive_sha256 v) \<and>
       unat (va_archive_bytes v) = length (of_bytes f)"
    "\<exists>f2 scan v0. of_bytes f2 = of_bytes f \<and> zip_scan (length (of_bytes f)) f2 = Some (Inr scan) \<and>
       poison_package_parse_manifest scanner crypto (zs_manifest scan) store major minor installed = Inr v0 \<and>
       v = v0 \<lparr> va_archive_bytes := of_nat (length (of_bytes f)), va_archive_sha256 := the expected \<rparr> \<and>
       poison_package_verify_members crypto (zs_file scan) (zs_members scan) v"
proof -
  obtain f1 digest f2 scan v0 where seek: "storage_file_seek 0 True f = Some f1"
    and hash: "poison_package_hash_file crypto (length (of_bytes f)) f1 = Some (digest, f2)"
    and scan: "zip_scan (length (of_bytes f)) f2 = Some (Inr scan)"
      "poison_package_parse_manifest scanner crypto (zs_manifest scan) store major minor installed = Inr v0"
    and v: "v = v0 \<lparr> va_archive_bytes := of_nat (length (of_bytes f)), va_archive_sha256 := the expected \<rparr>"
    and members: "poison_package_verify_members crypto (zs_file scan) (zs_members scan) v"
    and sizes: "length (of_bytes f) \<le> POISON_PACKAGE_ARCHIVE_MAX_BYTES" "of_bytes f \<noteq> []"
    and expected: "poison_package_hex_digest_valid expected" "poison_package_hex_encode digest = the expected"
    using assms
    by (auto simp: poison_package_verify_archive_def Let_def not_less split: if_splits option.splits sum.splits)
  show "length (of_bytes f) \<le> POISON_PACKAGE_ARCHIVE_MAX_BYTES" "of_bytes f \<noteq> []" by (rule sizes)+
  have bytes: "of_bytes f1 = of_bytes f" "of_position f1 = 0" using seek_Some [OF seek] by simp_all
  have hashed: "of_bytes f2 = of_bytes f" "pc_sha256 crypto (of_bytes f) = Some digest"
    using hash_file_bytes [OF hash] bytes by simp_all
  have "expected = Some (the expected)" using expected(1) by (cases expected) (simp_all add: poison_package_hex_digest_valid_def)
  then show "hex_digest crypto (of_bytes f) = expected \<and> expected = Some (va_archive_sha256 v) \<and>
       unat (va_archive_bytes v) = length (of_bytes f)"
    using hashed expected(2) v sizes(1) by (simp add: hex_digest_def offset_fits)
  show "\<exists>f2 scan v0. of_bytes f2 = of_bytes f \<and> zip_scan (length (of_bytes f)) f2 = Some (Inr scan) \<and>
       poison_package_parse_manifest scanner crypto (zs_manifest scan) store major minor installed = Inr v0 \<and>
       v = v0 \<lparr> va_archive_bytes := of_nat (length (of_bytes f)), va_archive_sha256 := the expected \<rparr> \<and>
       poison_package_verify_members crypto (zs_file scan) (zs_members scan) v"
    using hashed(1) scan v members by blast
qed

text \<open>When an archive is accepted, the digest of its bytes is the one the caller expected; the file
  starts with members that follow one another without gaps, the manifest first; the manifest is
  signed by a key of the store that is not revoked, over the canonical form of the record that is
  returned; every payload of the record has a member of its path and size whose bytes have the
  digest the manifest states, there are no further members, and the content digest is that of
  the payloads in the order of their paths.\<close>

theorem accepted_archive_authentic:
  assumes "poison_package_verify_archive scanner crypto (Some archive) expected store major minor installed
    = Some (Inr v)"
  shows "hex_digest crypto (of_bytes archive) = expected \<and> expected = Some (va_archive_sha256 v) \<and>
    (\<exists>members manifest central.
       zip_layout (of_bytes archive) members manifest central \<and>
       signed_by crypto store manifest (sm_signature (js_fields scanner manifest)) v \<and>
       length members = length (va_payloads v) + 1 \<and>
       (\<forall>d \<in> set (va_payloads v). payload_present crypto (of_bytes archive) members d) \<and>
       hex_digest crypto (content_of (of_bytes archive) members (sort_key path_key (va_payloads v)))
         = Some (va_content_sha256 v))"
proof -
  note ok = verify_archive_Some [OF assms]
  obtain f2 scan v0 where f2: "of_bytes f2 = of_bytes archive"
    and scan: "zip_scan (length (of_bytes archive)) f2 = Some (Inr scan)"
    and v0: "poison_package_parse_manifest scanner crypto (zs_manifest scan) store major minor installed = Inr v0"
    and v: "v = v0 \<lparr> va_archive_bytes := of_nat (length (of_bytes archive)), va_archive_sha256 := the expected \<rparr>"
    and members: "poison_package_verify_members crypto (zs_file scan) (zs_members scan) v"
    using ok(4) by blast
  have layout: "zip_layout (of_bytes archive) (zs_members scan) (zs_manifest scan) (unat (zs_central_offset scan))"
    and bytes: "of_bytes (zs_file scan) = of_bytes archive"
    using zip_scan_layout [of f2 scan] scan f2 ok(1) by simp_all
  have fits: "\<forall>m \<in> set (zs_members scan). unat (zm_data_offset m) + unat (zm_size m) \<le> length (of_bytes (zs_file scan))"
    using layout members_between_fits unfolding zip_layout_def bytes by (meson order_trans)
  have distinct: "distinct (map pd_path (va_payloads v))"
    using parse_manifest_ok(2) [OF v0] v by simp
  have "signed_by crypto store (zs_manifest scan) (sm_signature (js_fields scanner (zs_manifest scan))) v"
    using parse_manifest_ok(11) [OF v0] unfolding signed_by_def v
    by (simp add: poison_package_manifest_is_canonical_def canonical_record)
  then show ?thesis
    using ok(3) layout verify_members_ok [OF members distinct fits] unfolding bytes by blast
qed

text \<open>The record of an accepted archive.\<close>

lemma accepted_archive_record:
  assumes "poison_package_verify_archive scanner crypto (Some archive) expected store major minor installed
    = Some (Inr v)"
  shows "list_all payload_ok (va_payloads v)" "distinct (map pd_path (va_payloads v))"
    "va_payloads v \<noteq> []" "length (va_payloads v) \<le> POISON_PACKAGE_PAYLOAD_MAX"
    "va_entrypoint v \<in> pd_path ` set (va_payloads v)"
    "k < 64 \<Longrightarrow> bit (va_capability_mask v) k \<longleftrightarrow> (\<exists>c \<in> set (va_capabilities v). capability_covered c k)"
proof -
  obtain manifest v0 where v0: "poison_package_parse_manifest scanner crypto manifest store major minor installed = Inr v0"
    and v: "v = v0 \<lparr> va_archive_bytes := of_nat (length (of_bytes archive)), va_archive_sha256 := the expected \<rparr>"
    using verify_archive_Some(4) [OF assms] by blast
  show "list_all payload_ok (va_payloads v)" "distinct (map pd_path (va_payloads v))"
    "va_payloads v \<noteq> []" "length (va_payloads v) \<le> POISON_PACKAGE_PAYLOAD_MAX"
    "va_entrypoint v \<in> pd_path ` set (va_payloads v)"
    "k < 64 \<Longrightarrow> bit (va_capability_mask v) k \<longleftrightarrow> (\<exists>c \<in> set (va_capabilities v). capability_covered c k)"
    using parse_manifest_ok(1-5,8) [OF v0] v by simp_all
qed

text \<open>The capabilities an accepted package may use, bit by bit, and the version check.\<close>

text \<open>The capability mask of an accepted archive holds a bit exactly when one of the capabilities named
  in its signed manifest stands for it, the destructive one also for every name that writes,
  transmits, emulates, executes, flashes, deletes or removes; and when the caller names an installed
  version and both versions are made of three numbers, the version of the archive is not lower.\<close>

theorem accepted_archive_capabilities_and_version:
  assumes "poison_package_verify_archive scanner crypto (Some archive) expected store major minor installed
    = Some (Inr v)"
  shows "(\<forall>k < 64. bit (va_capability_mask v) k \<longleftrightarrow> (\<exists>c \<in> set (va_capabilities v). capability_covered c k)) \<and>
    (\<forall>i new old. installed = Some i \<and> semantic_version i = Some old \<and>
       semantic_version (va_version v) = Some new \<and> \<not> strstr (va_entrypoint v) ''..'' \<longrightarrow>
       compare_parts new old \<noteq> - 1)"
proof (intro conjI allI impI)
  obtain manifest v0 where v0: "poison_package_parse_manifest scanner crypto manifest store major minor installed = Inr v0"
    and v: "v = v0 \<lparr> va_archive_bytes := of_nat (length (of_bytes archive)), va_archive_sha256 := the expected \<rparr>"
    using verify_archive_Some(4) [OF assms] by blast
  show "bit (va_capability_mask v) k \<longleftrightarrow> (\<exists>c \<in> set (va_capabilities v). capability_covered c k)" if "k < 64" for k
    using parse_manifest_ok(8) [OF v0 that] v by simp
  fix i new old
  assume versions: "installed = Some i \<and> semantic_version i = Some old \<and>
    semantic_version (va_version v) = Some new \<and> \<not> strstr (va_entrypoint v) ''..''"
  then have "poison_package_verify_manifest (Some (va_package_id v0)) (Some (va_version v0))
       (Some (va_entrypoint v0)) (Some (va_content_sha256 v0)) (Some (va_signing_key_id v0)) False None
       = PoisonPackageVerifyOk"
    using parse_manifest_texts [OF v0] v by (simp add: poison_package_verify_manifest_def)
  from downgrade_refused_iff [OF this, of i]
  have "compare_versions (va_version v0) i \<noteq> - 1"
    using parse_manifest_ok(10) [OF v0] versions by auto
  then show "compare_parts new old \<noteq> - 1"
    using versions v by (simp add: compare_versions_def)
qed

end
