(* ===== verification/Confirmation.thy ===== *)
theory Confirmation
  imports Policy
begin

text \<open>The confirmation service (\<open>rpc/poison_confirmation.c\<close>): a confirmation is issued
  for one session, role, policy version and triple of digests, carries a random token,
  expires, and is approved at most once.  The random bytes that
  \<open>furi_hal_random_fill_buf\<close> returns are an argument of the issue operation.\<close>

section \<open>State\<close>

abbreviation "POISON_CONFIRMATION_DIGEST_BYTES \<equiv> (32 :: nat)"
abbreviation "POISON_CONFIRMATION_TOKEN_BYTES \<equiv> (16 :: nat)"
abbreviation "POISON_CONFIRMATION_MAX_TTL_MS \<equiv> (60000 :: u32)"

datatype PoisonConfirmationResult =
    PoisonConfirmationResultOk | PoisonConfirmationResultInvalid
  | PoisonConfirmationResultExpired | PoisonConfirmationResultReplay
  | PoisonConfirmationResultMismatch

datatype PoisonConfirmationCaller =
    PoisonConfirmationCallerStorage | PoisonConfirmationCallerEvidence
  | PoisonConfirmationCallerMigration | PoisonConfirmationCallerPackage
  | PoisonConfirmationCallerUpdate | PoisonConfirmationCallerRadioPolicy
  | PoisonConfirmationCallerIdentity | PoisonConfirmationCallerNativeCode
  | PoisonConfirmationCallerApplication | PoisonConfirmationCallerProfile
  | PoisonConfirmationCallerLesson | PoisonConfirmationCallerRecovery
  | PoisonConfirmationCallerCount

record PoisonConfirmation =
  conf_active :: bool
  conf_physical_required :: bool
  conf_consumed :: bool
  conf_session_id :: u64
  conf_role :: PoisonRole
  conf_command_digest :: bytes
  conf_target_digest :: bytes
  conf_consequence_digest :: bytes
  conf_token :: bytes
  conf_policy_version :: u32
  conf_expires_at_ms :: u64

section \<open>Operations\<close>

definition poison_confirmation_digest_valid :: "bytes option \<Rightarrow> bool" where
  "poison_confirmation_digest_valid digest =
     (case digest of None \<Rightarrow> False
      | Some d \<Rightarrow> or_bytes POISON_CONFIRMATION_DIGEST_BYTES d \<noteq> 0)"

definition poison_confirmation_token_matches :: "bytes \<Rightarrow> bytes option \<Rightarrow> bool" where
  "poison_confirmation_token_matches expected actual =
     (case actual of None \<Rightarrow> False
      | Some a \<Rightarrow> xor_diff POISON_CONFIRMATION_TOKEN_BYTES expected a = 0)"

definition poison_confirmation_issue ::
    "PoisonConfirmation \<Rightarrow> u64 \<Rightarrow> PoisonRole \<Rightarrow> bytes option \<Rightarrow> bytes option \<Rightarrow> bytes option \<Rightarrow>
     u32 \<Rightarrow> u64 \<Rightarrow> u32 \<Rightarrow> bool \<Rightarrow> bytes \<Rightarrow> PoisonConfirmation \<times> PoisonConfirmationResult" where
  "poison_confirmation_issue confirmation session_id role command_digest target_digest
     consequence_digest policy_version now_ms ttl_ms physical_required random =
   (if session_id = 0 \<or> role \<ge> PoisonRoleCount \<or>
       \<not> poison_confirmation_digest_valid command_digest \<or>
       \<not> poison_confirmation_digest_valid target_digest \<or>
       \<not> poison_confirmation_digest_valid consequence_digest \<or> ttl_ms = 0 \<or>
       ttl_ms > POISON_CONFIRMATION_MAX_TTL_MS \<or> UINT64_MAX - now_ms < ucast ttl_ms
    then (confirmation, PoisonConfirmationResultInvalid)
    else
      (\<lparr> conf_active = True, conf_physical_required = physical_required, conf_consumed = False,
         conf_session_id = session_id, conf_role = role,
         conf_command_digest = take POISON_CONFIRMATION_DIGEST_BYTES (the command_digest),
         conf_target_digest = take POISON_CONFIRMATION_DIGEST_BYTES (the target_digest),
         conf_consequence_digest = take POISON_CONFIRMATION_DIGEST_BYTES (the consequence_digest),
         conf_token = take POISON_CONFIRMATION_TOKEN_BYTES random,
         conf_policy_version = policy_version, conf_expires_at_ms = now_ms + ucast ttl_ms \<rparr>,
       PoisonConfirmationResultOk))"

text \<open>\<open>memcmp(expected, actual, 32) != 0\<close> after the NULL test of \<open>actual\<close>.\<close>

definition conf_digest_differs :: "bytes \<Rightarrow> bytes option \<Rightarrow> bool" where
  "conf_digest_differs expected actual =
     (case actual of None \<Rightarrow> True
      | Some a \<Rightarrow> take POISON_CONFIRMATION_DIGEST_BYTES expected \<noteq>
                   take POISON_CONFIRMATION_DIGEST_BYTES a)"

definition poison_confirmation_approve ::
    "PoisonConfirmation \<Rightarrow> u64 \<Rightarrow> PoisonRole \<Rightarrow> bytes option \<Rightarrow> bytes option \<Rightarrow> bytes option \<Rightarrow>
     bytes option \<Rightarrow> u32 \<Rightarrow> u64 \<Rightarrow> bool \<Rightarrow> PoisonConfirmation \<times> PoisonConfirmationResult" where
  "poison_confirmation_approve confirmation session_id role command_digest target_digest
     consequence_digest token policy_version now_ms physical_confirmed =
   (if \<not> conf_active confirmation \<or> conf_consumed confirmation
    then (confirmation, PoisonConfirmationResultReplay)
    else if now_ms \<ge> conf_expires_at_ms confirmation
    then (confirmation \<lparr> conf_active := False \<rparr>, PoisonConfirmationResultExpired)
    else if conf_session_id confirmation \<noteq> session_id \<or> conf_role confirmation \<noteq> role \<or>
       conf_policy_version confirmation \<noteq> policy_version \<or>
       command_digest = None \<or> target_digest = None \<or> consequence_digest = None \<or>
       \<not> poison_confirmation_token_matches (conf_token confirmation) token \<or>
       conf_digest_differs (conf_command_digest confirmation) command_digest \<or>
       conf_digest_differs (conf_target_digest confirmation) target_digest \<or>
       conf_digest_differs (conf_consequence_digest confirmation) consequence_digest
    then (confirmation, PoisonConfirmationResultMismatch)
    else if conf_physical_required confirmation \<and> \<not> physical_confirmed
    then (confirmation, PoisonConfirmationResultMismatch)
    else (confirmation \<lparr> conf_consumed := True, conf_active := False \<rparr>,
          PoisonConfirmationResultOk))"

definition poison_confirmation_is_authorized :: "PoisonConfirmation \<Rightarrow> bool" where
  "poison_confirmation_is_authorized confirmation \<longleftrightarrow>
     conf_consumed confirmation \<and> \<not> conf_active confirmation"

fun poison_confirmation_caller_index :: "PoisonConfirmationCaller \<Rightarrow> nat" where
  "poison_confirmation_caller_index PoisonConfirmationCallerStorage = 0"
| "poison_confirmation_caller_index PoisonConfirmationCallerEvidence = 1"
| "poison_confirmation_caller_index PoisonConfirmationCallerMigration = 2"
| "poison_confirmation_caller_index PoisonConfirmationCallerPackage = 3"
| "poison_confirmation_caller_index PoisonConfirmationCallerUpdate = 4"
| "poison_confirmation_caller_index PoisonConfirmationCallerRadioPolicy = 5"
| "poison_confirmation_caller_index PoisonConfirmationCallerIdentity = 6"
| "poison_confirmation_caller_index PoisonConfirmationCallerNativeCode = 7"
| "poison_confirmation_caller_index PoisonConfirmationCallerApplication = 8"
| "poison_confirmation_caller_index PoisonConfirmationCallerProfile = 9"
| "poison_confirmation_caller_index PoisonConfirmationCallerLesson = 10"
| "poison_confirmation_caller_index PoisonConfirmationCallerRecovery = 11"
| "poison_confirmation_caller_index PoisonConfirmationCallerCount = 12"

definition poison_confirmation_caller_requires_confirmation :: "PoisonConfirmationCaller \<Rightarrow> bool" where
  "poison_confirmation_caller_requires_confirmation caller \<longleftrightarrow>
     poison_confirmation_caller_index caller
       < poison_confirmation_caller_index PoisonConfirmationCallerCount"

definition poison_confirmation_caller_name :: "PoisonConfirmationCaller \<Rightarrow> string option" where
  "poison_confirmation_caller_name caller =
    (let names = [''storage'', ''evidence'', ''migration'', ''package'', ''update'',
                  ''radio-policy'', ''identity'', ''native-code'', ''application'',
                  ''profile'', ''lesson'', ''recovery''];
         i = poison_confirmation_caller_index caller
     in if i < poison_confirmation_caller_index PoisonConfirmationCallerCount
        then Some (names ! i) else None)"

section \<open>Behaviour\<close>

lemma poison_confirmation_digest_valid_iff [simp]:
  "poison_confirmation_digest_valid d \<longleftrightarrow> (\<exists>bs. d = Some bs \<and> (\<exists>b \<in> set (take 32 bs). b \<noteq> 0))"
  by (cases d) (auto simp: poison_confirmation_digest_valid_def)

lemma caller_always_requires_confirmation:
  "poison_confirmation_caller_requires_confirmation caller \<longleftrightarrow> caller \<noteq> PoisonConfirmationCallerCount"
  by (cases caller) (simp_all add: poison_confirmation_caller_requires_confirmation_def)

lemma caller_index_inj [simp]:
  "poison_confirmation_caller_index a = poison_confirmation_caller_index b \<longleftrightarrow> a = b"
  by (cases a; cases b) simp_all

lemma caller_names_distinct:
  assumes "poison_confirmation_caller_name a = Some n" "poison_confirmation_caller_name b = Some n"
  shows "a = b"
proof -
  have "distinct (map poison_confirmation_caller_name
    [PoisonConfirmationCallerStorage, PoisonConfirmationCallerEvidence,
     PoisonConfirmationCallerMigration, PoisonConfirmationCallerPackage,
     PoisonConfirmationCallerUpdate, PoisonConfirmationCallerRadioPolicy,
     PoisonConfirmationCallerIdentity, PoisonConfirmationCallerNativeCode,
     PoisonConfirmationCallerApplication, PoisonConfirmationCallerProfile,
     PoisonConfirmationCallerLesson, PoisonConfirmationCallerRecovery,
     PoisonConfirmationCallerCount])"
    by code_simp
  with assms show ?thesis
    by (cases a; cases b) auto
qed

text \<open>The buffers of the record have their declared lengths, a confirmation is never active
  and consumed at once, and what was issued names a session, a role and non-zero digests.\<close>

definition confirmation_inv :: "PoisonConfirmation \<Rightarrow> bool" where
  "confirmation_inv c \<longleftrightarrow>
     length (conf_command_digest c) = 32 \<and> length (conf_target_digest c) = 32 \<and>
     length (conf_consequence_digest c) = 32 \<and> length (conf_token c) = 16 \<and>
     \<not> (conf_active c \<and> conf_consumed c) \<and>
     ((conf_active c \<or> conf_consumed c) \<longrightarrow>
        conf_session_id c \<noteq> 0 \<and> conf_role c \<noteq> PoisonRoleCount \<and>
        (\<exists>b \<in> set (conf_command_digest c). b \<noteq> 0) \<and> (\<exists>b \<in> set (conf_target_digest c). b \<noteq> 0) \<and>
        (\<exists>b \<in> set (conf_consequence_digest c). b \<noteq> 0))"

lemma issue_inv [inv_intros]:
  assumes "confirmation_inv c" "length random = 16"
    and "\<forall>d. cd = Some d \<longrightarrow> length d = 32" "\<forall>d. td = Some d \<longrightarrow> length d = 32"
    and "\<forall>d. qd = Some d \<longrightarrow> length d = 32"
  shows "confirmation_inv (fst (poison_confirmation_issue c sid role cd td qd v now ttl phys random))"
  using assms by (auto simp: poison_confirmation_issue_def confirmation_inv_def)

lemma approve_inv [inv_intros]:
  assumes "confirmation_inv c"
  shows "confirmation_inv (fst (poison_confirmation_approve c sid role cd td qd tok v now phys))"
  using assms by (auto simp: poison_confirmation_approve_def confirmation_inv_def)

text \<open>The expiry never wraps.\<close>

lemma ttl_no_wrap:
  fixes now :: u64 and ttl :: u32
  assumes "\<not> UINT64_MAX - now < ucast ttl"
  shows "unat (now + ucast ttl) = unat now + unat ttl"
  using no_wrap64 [OF assms] by simp

text \<open>One attempt to approve, and the condition under which it is accepted.\<close>

record ConfAttempt =
  att_session_id :: u64
  att_role :: PoisonRole
  att_command :: "bytes option"
  att_target :: "bytes option"
  att_consequence :: "bytes option"
  att_token :: "bytes option"
  att_policy_version :: u32
  att_now_ms :: u64
  att_physical :: bool

definition approve_attempt :: "ConfAttempt \<Rightarrow> PoisonConfirmation \<Rightarrow>
    PoisonConfirmation \<times> PoisonConfirmationResult" where
  "approve_attempt a c =
     poison_confirmation_approve c (att_session_id a) (att_role a) (att_command a) (att_target a)
       (att_consequence a) (att_token a) (att_policy_version a) (att_now_ms a) (att_physical a)"

definition same_digest :: "bytes \<Rightarrow> bytes option \<Rightarrow> bool" where
  "same_digest expected d \<longleftrightarrow> (\<exists>bs. d = Some bs \<and> take 32 bs = take 32 expected)"

definition attempt_binds :: "PoisonConfirmation \<Rightarrow> ConfAttempt \<Rightarrow> bool" where
  "attempt_binds c a \<longleftrightarrow>
     att_session_id a = conf_session_id c \<and> att_role a = conf_role c \<and>
     att_policy_version a = conf_policy_version c \<and>
     same_digest (conf_command_digest c) (att_command a) \<and>
     same_digest (conf_target_digest c) (att_target a) \<and>
     same_digest (conf_consequence_digest c) (att_consequence a) \<and>
     poison_confirmation_token_matches (conf_token c) (att_token a) \<and>
     (conf_physical_required c \<longrightarrow> att_physical a)"

lemma conf_digest_differs_iff [simp]: "conf_digest_differs e d \<longleftrightarrow> \<not> same_digest e d"
  by (cases d) (auto simp: conf_digest_differs_def same_digest_def)

lemma same_digest_None [simp]: "\<not> same_digest e None"
  by (simp add: same_digest_def)

lemma token_matches_iff:
  assumes "length expected = 16" "\<forall>t. actual = Some t \<longrightarrow> length t = 16"
  shows "poison_confirmation_token_matches expected actual \<longleftrightarrow> actual = Some expected"
  using assms by (cases actual) (auto simp: poison_confirmation_token_matches_def xor_diff_full)

lemma approve_attempt_cases:
  "approve_attempt a c =
    (if \<not> conf_active c \<or> conf_consumed c then (c, PoisonConfirmationResultReplay)
     else if conf_expires_at_ms c \<le> att_now_ms a
     then (c \<lparr> conf_active := False \<rparr>, PoisonConfirmationResultExpired)
     else if attempt_binds c a
     then (c \<lparr> conf_consumed := True, conf_active := False \<rparr>, PoisonConfirmationResultOk)
     else (c, PoisonConfirmationResultMismatch))"
  by (auto simp: approve_attempt_def poison_confirmation_approve_def attempt_binds_def)

lemma approve_attempt_spent:
  "\<not> conf_active c \<or> conf_consumed c \<Longrightarrow> approve_attempt a c = (c, PoisonConfirmationResultReplay)"
  by (simp add: approve_attempt_cases)

lemma approve_attempt_late:
  "conf_active c \<Longrightarrow> \<not> conf_consumed c \<Longrightarrow> conf_expires_at_ms c \<le> att_now_ms a \<Longrightarrow>
   approve_attempt a c = (c \<lparr> conf_active := False \<rparr>, PoisonConfirmationResultExpired)"
  by (simp add: approve_attempt_cases)

lemma approve_attempt_hit:
  "conf_active c \<Longrightarrow> \<not> conf_consumed c \<Longrightarrow> att_now_ms a < conf_expires_at_ms c \<Longrightarrow>
   attempt_binds c a \<Longrightarrow>
   approve_attempt a c =
     (c \<lparr> conf_consumed := True, conf_active := False \<rparr>, PoisonConfirmationResultOk)"
  by (simp add: approve_attempt_cases)

lemma approve_attempt_miss:
  "conf_active c \<Longrightarrow> \<not> conf_consumed c \<Longrightarrow> att_now_ms a < conf_expires_at_ms c \<Longrightarrow>
   \<not> attempt_binds c a \<Longrightarrow> approve_attempt a c = (c, PoisonConfirmationResultMismatch)"
  by (simp add: approve_attempt_cases)

lemmas approve_steps = approve_attempt_spent approve_attempt_late approve_attempt_hit
  approve_attempt_miss

abbreviation conf_ok :: "PoisonConfirmationResult \<Rightarrow> bool" where
  "conf_ok r \<equiv> r = PoisonConfirmationResultOk"

interpretation approval: one_shot approve_attempt "\<lambda>c. \<not> conf_active c" conf_ok
  by unfold_locales (auto simp: approve_attempt_cases split: if_splits)

interpretation approval: invariant_machine approve_attempt confirmation_inv
  by unfold_locales (auto simp: approve_attempt_def intro: inv_intros)

lemma run_inactive:
  "\<not> conf_active c \<Longrightarrow> run_state approve_attempt c as = c"
  by (induction as) (simp_all add: approve_steps)

text \<open>The calls up to the first approval all came before the expiry.\<close>

definition first_approval :: "PoisonConfirmation \<Rightarrow> ConfAttempt list \<Rightarrow> bool" where
  "first_approval c as \<longleftrightarrow>
     (\<exists>i < length as. attempt_binds c (as ! i) \<and>
        (\<forall>j < Suc i. att_now_ms (as ! j) < conf_expires_at_ms c))"

lemma first_approval_simps [simp]:
  "\<not> first_approval c []"
  "first_approval c (a # as) \<longleftrightarrow>
     att_now_ms a < conf_expires_at_ms c \<and> (attempt_binds c a \<or> first_approval c as)"
  by (auto simp: first_approval_def Ex_less_Suc2 All_less_Suc2)

lemma authorized_run:
  assumes "conf_active c" "\<not> conf_consumed c"
  shows "poison_confirmation_is_authorized (run_state approve_attempt c as) \<longleftrightarrow> first_approval c as"
proof (induction as)
  case Nil
  then show ?case using assms by (simp add: poison_confirmation_is_authorized_def)
next
  case (Cons x xs)
  consider (late) "conf_expires_at_ms c \<le> att_now_ms x"
    | (hit) "att_now_ms x < conf_expires_at_ms c" "attempt_binds c x"
    | (miss) "att_now_ms x < conf_expires_at_ms c" "\<not> attempt_binds c x"
    by fastforce
  then show ?case
    using assms Cons
    by cases (auto simp: approve_steps run_inactive poison_confirmation_is_authorized_def)
qed

lemma issue_ok_state:
  assumes "poison_confirmation_issue c sid role cd td qd v now ttl phys random
             = (c', PoisonConfirmationResultOk)"
  shows "conf_active c'" "\<not> conf_consumed c'" "conf_session_id c' = sid" "conf_role c' = role"
    "conf_physical_required c' = phys" "unat (conf_expires_at_ms c') = unat now + unat ttl"
  using assms
  by (auto simp: poison_confirmation_issue_def ttl_no_wrap split: if_splits)

text \<open>The first 32 bytes of a digest.\<close>

definition digest_of :: "bytes option \<Rightarrow> bytes option" where
  "digest_of d = map_option (take POISON_CONFIRMATION_DIGEST_BYTES) d"

lemma same_digest_of: "cd = Some d \<Longrightarrow> same_digest (take 32 d) a \<longleftrightarrow> digest_of a = digest_of cd"
  by (cases a) (auto simp: same_digest_def digest_of_def)

lemma issued_binds:
  assumes "poison_confirmation_issue c sid role cd td qd v now ttl phys random
             = (c', PoisonConfirmationResultOk)"
    and "length random = 16" "\<forall>t. att_token a = Some t \<longrightarrow> length t = 16"
  shows "attempt_binds c' a \<longleftrightarrow>
    att_session_id a = sid \<and> att_role a = role \<and> att_policy_version a = v \<and>
    digest_of (att_command a) = digest_of cd \<and> digest_of (att_target a) = digest_of td \<and>
    digest_of (att_consequence a) = digest_of qd \<and> att_token a = Some random \<and> (phys \<longrightarrow> att_physical a)"
proof -
  obtain d1 d2 d3 where d: "cd = Some d1" "td = Some d2" "qd = Some d3"
    using assms(1) by (auto simp: poison_confirmation_issue_def split: if_splits)
  have "conf_command_digest c' = take 32 d1" "conf_target_digest c' = take 32 d2" "conf_consequence_digest c' = take 32 d3"
    "conf_token c' = random" "conf_session_id c' = sid" "conf_role c' = role" "conf_policy_version c' = v"
    "conf_physical_required c' = phys"
    using assms(1,2) d by (auto simp: poison_confirmation_issue_def split: if_splits)
  then show ?thesis
    using token_matches_iff [OF assms(2,3)] same_digest_of d by (simp add: attempt_binds_def)
qed

text \<open>C10: after a successful issue, a confirmation is authorized exactly when some attempt in the calls that follow
  carries the session, role, policy version and digests the issue was given and the random token it drew, with
  the physical gesture if the issue asked for it, and no call up to it came at or after the expiry.\<close>

theorem confirmation_authorized_iff:
  assumes "poison_confirmation_issue c sid role cd td qd v now ttl phys random
             = (c', PoisonConfirmationResultOk)"
    and "length random = POISON_CONFIRMATION_TOKEN_BYTES"
    and "\<forall>a \<in> set as. \<forall>t. att_token a = Some t \<longrightarrow> length t = POISON_CONFIRMATION_TOKEN_BYTES"
  shows "poison_confirmation_is_authorized (run_state approve_attempt c' as) \<longleftrightarrow>
    (\<exists>i < length as. let a = as ! i in
       att_session_id a = sid \<and> att_role a = role \<and> att_policy_version a = v \<and>
       digest_of (att_command a) = digest_of cd \<and> digest_of (att_target a) = digest_of td \<and>
       digest_of (att_consequence a) = digest_of qd \<and> att_token a = Some random \<and> (phys \<longrightarrow> att_physical a) \<and>
       (\<forall>j < Suc i. unat (att_now_ms (as ! j)) < unat now + unat ttl))"
proof -
  have binds: "attempt_binds c' (as ! i) \<longleftrightarrow>
    att_session_id (as ! i) = sid \<and> att_role (as ! i) = role \<and> att_policy_version (as ! i) = v \<and>
    digest_of (att_command (as ! i)) = digest_of cd \<and> digest_of (att_target (as ! i)) = digest_of td \<and>
    digest_of (att_consequence (as ! i)) = digest_of qd \<and> att_token (as ! i) = Some random \<and>
    (phys \<longrightarrow> att_physical (as ! i))" if "i < length as" for i
    using that by (intro issued_binds [OF assms(1,2)]) (use assms(3) in auto)
  show ?thesis
    unfolding authorized_run [OF issue_ok_state(1,2) [OF assms(1)]]
    using binds issue_ok_state(6) [OF assms(1)]
    by (auto simp: first_approval_def word_less_nat_alt Let_def)
qed

definition sample_attempt :: ConfAttempt where
  "sample_attempt = \<lparr> att_session_id = 7, att_role = PoisonRoleOwner,
     att_command = Some (replicate 32 1), att_target = Some (replicate 32 2),
     att_consequence = Some (replicate 32 3), att_token = Some (replicate 16 9),
     att_policy_version = 4, att_now_ms = 1500, att_physical = True \<rparr>"

definition blank_confirmation :: PoisonConfirmation where
  "blank_confirmation = \<lparr> conf_active = False, conf_physical_required = False,
     conf_consumed = False, conf_session_id = 0, conf_role = PoisonRoleOwner,
     conf_command_digest = zeros 32, conf_target_digest = zeros 32,
     conf_consequence_digest = zeros 32, conf_token = zeros 16, conf_policy_version = 0,
     conf_expires_at_ms = 0 \<rparr>"

definition sample_confirmation :: PoisonConfirmation where
  "sample_confirmation = fst (poison_confirmation_issue blank_confirmation 7 PoisonRoleOwner
     (Some (replicate 32 1)) (Some (replicate 32 2)) (Some (replicate 32 3)) 4 1000 600 True
     (replicate 16 9))"

lemma sample_issue:
  "poison_confirmation_issue blank_confirmation 7 PoisonRoleOwner
     (Some (replicate 32 1)) (Some (replicate 32 2)) (Some (replicate 32 3)) 4 1000 600 True
     (replicate 16 9) = (sample_confirmation, PoisonConfirmationResultOk)"
  by (simp add: sample_confirmation_def poison_confirmation_issue_def enum_ord)

lemma confirmation_authorized_iff_witness:
  "poison_confirmation_is_authorized (run_state approve_attempt sample_confirmation [sample_attempt]) \<and>
   \<not> poison_confirmation_is_authorized (run_state approve_attempt sample_confirmation
       [sample_attempt \<lparr> att_physical := False \<rparr>])"
  using confirmation_authorized_iff [OF sample_issue, of "[sample_attempt]"]
    confirmation_authorized_iff [OF sample_issue, of "[sample_attempt \<lparr> att_physical := False \<rparr>]"]
  by (simp add: sample_attempt_def digest_of_def Let_def)

text \<open>Of all the attempts made on a confirmation, at most one is approved.\<close>

theorem confirmation_approved_at_most_once:
  "length (accepted approve_attempt conf_ok c as) \<le> 1"
  by (rule approval.accepts_at_most_once)

end
