(* ===== verification/Diagnostics.thy ===== *)
theory Diagnostics
  imports Ring
begin

text \<open>The diagnostics service (\<open>poison_diagnostics/poison_diagnostics.c\<close>): one saturating
  32-bit counter per category and a ring of the last 16 events.\<close>

section \<open>State\<close>

abbreviation "POISON_DIAGNOSTICS_RING_SIZE \<equiv> (16 :: nat)"
abbreviation "POISON_DIAGNOSTICS_TEXT_MAX \<equiv> (96 :: nat)"

datatype PoisonDiagnosticCategory =
    PoisonDiagnosticSessionEstablished | PoisonDiagnosticTransportError
  | PoisonDiagnosticDroppedFrame | PoisonDiagnosticRetriedFrame
  | PoisonDiagnosticCommandFailure | PoisonDiagnosticAppCrash
  | PoisonDiagnosticPolicyDenial | PoisonDiagnosticPackageVerification
  | PoisonDiagnosticPackageRevocation | PoisonDiagnosticUpdateStage
  | PoisonDiagnosticUpdateHealth | PoisonDiagnosticUpdateRollback
  | PoisonDiagnosticRecovery | PoisonDiagnosticJavascriptStart
  | PoisonDiagnosticJavascriptTerminal | PoisonDiagnosticJavascriptCrash
  | PoisonDiagnosticJavascriptLimit | PoisonDiagnosticJavascriptRecovery
  | PoisonDiagnosticCategoryCount

record PoisonDiagnosticEvent =
  de_event_id :: u64
  de_category :: PoisonDiagnosticCategory
  de_summary :: string
  de_timestamp_ms :: u64
  de_correlation_digest :: bytes

record PoisonDiagnosticCounters =
  dc_session_established :: u32
  dc_transport_errors :: u32
  dc_dropped_frames :: u32
  dc_retried_frames :: u32
  dc_command_failures :: u32
  dc_app_crashes :: u32
  dc_policy_denials :: u32
  dc_package_verifications :: u32
  dc_package_revocations :: u32
  dc_update_stages :: u32
  dc_update_health :: u32
  dc_update_rollbacks :: u32
  dc_recoveries :: u32
  dc_javascript_starts :: u32
  dc_javascript_terminals :: u32
  dc_javascript_crashes :: u32
  dc_javascript_limits :: u32
  dc_javascript_recoveries :: u32

record PoisonDiagnostics =
  diag_counters :: PoisonDiagnosticCounters
  diag_events :: "PoisonDiagnosticEvent list"
  diag_next_event :: nat
  diag_next_event_id :: u64

section \<open>Operations\<close>

text \<open>The C function returns the address of the counter of a category, or NULL.  Its uses
  read the counter and write it back, so the address is the pair of the two functions.\<close>

fun poison_diagnostics_counter :: "PoisonDiagnosticCategory \<Rightarrow>
    ((PoisonDiagnosticCounters \<Rightarrow> u32) \<times>
     ((u32 \<Rightarrow> u32) \<Rightarrow> PoisonDiagnosticCounters \<Rightarrow> PoisonDiagnosticCounters)) option" where
  "poison_diagnostics_counter PoisonDiagnosticSessionEstablished =
     Some (dc_session_established, dc_session_established_update)"
| "poison_diagnostics_counter PoisonDiagnosticTransportError =
     Some (dc_transport_errors, dc_transport_errors_update)"
| "poison_diagnostics_counter PoisonDiagnosticDroppedFrame =
     Some (dc_dropped_frames, dc_dropped_frames_update)"
| "poison_diagnostics_counter PoisonDiagnosticRetriedFrame =
     Some (dc_retried_frames, dc_retried_frames_update)"
| "poison_diagnostics_counter PoisonDiagnosticCommandFailure =
     Some (dc_command_failures, dc_command_failures_update)"
| "poison_diagnostics_counter PoisonDiagnosticAppCrash =
     Some (dc_app_crashes, dc_app_crashes_update)"
| "poison_diagnostics_counter PoisonDiagnosticPolicyDenial =
     Some (dc_policy_denials, dc_policy_denials_update)"
| "poison_diagnostics_counter PoisonDiagnosticPackageVerification =
     Some (dc_package_verifications, dc_package_verifications_update)"
| "poison_diagnostics_counter PoisonDiagnosticPackageRevocation =
     Some (dc_package_revocations, dc_package_revocations_update)"
| "poison_diagnostics_counter PoisonDiagnosticUpdateStage =
     Some (dc_update_stages, dc_update_stages_update)"
| "poison_diagnostics_counter PoisonDiagnosticUpdateHealth =
     Some (dc_update_health, dc_update_health_update)"
| "poison_diagnostics_counter PoisonDiagnosticUpdateRollback =
     Some (dc_update_rollbacks, dc_update_rollbacks_update)"
| "poison_diagnostics_counter PoisonDiagnosticRecovery =
     Some (dc_recoveries, dc_recoveries_update)"
| "poison_diagnostics_counter PoisonDiagnosticJavascriptStart =
     Some (dc_javascript_starts, dc_javascript_starts_update)"
| "poison_diagnostics_counter PoisonDiagnosticJavascriptTerminal =
     Some (dc_javascript_terminals, dc_javascript_terminals_update)"
| "poison_diagnostics_counter PoisonDiagnosticJavascriptCrash =
     Some (dc_javascript_crashes, dc_javascript_crashes_update)"
| "poison_diagnostics_counter PoisonDiagnosticJavascriptLimit =
     Some (dc_javascript_limits, dc_javascript_limits_update)"
| "poison_diagnostics_counter PoisonDiagnosticJavascriptRecovery =
     Some (dc_javascript_recoveries, dc_javascript_recoveries_update)"
| "poison_diagnostics_counter PoisonDiagnosticCategoryCount = None"

definition diagnostic_event_zero :: PoisonDiagnosticEvent where
  "diagnostic_event_zero = \<lparr> de_event_id = 0, de_category = PoisonDiagnosticSessionEstablished,
     de_summary = '''', de_timestamp_ms = 0, de_correlation_digest = zeros 32 \<rparr>"

definition poison_diagnostics_init :: PoisonDiagnostics where
  "poison_diagnostics_init = \<lparr>
     diag_counters = \<lparr> dc_session_established = 0, dc_transport_errors = 0, dc_dropped_frames = 0,
       dc_retried_frames = 0, dc_command_failures = 0, dc_app_crashes = 0, dc_policy_denials = 0,
       dc_package_verifications = 0, dc_package_revocations = 0, dc_update_stages = 0,
       dc_update_health = 0, dc_update_rollbacks = 0, dc_recoveries = 0,
       dc_javascript_starts = 0, dc_javascript_terminals = 0, dc_javascript_crashes = 0,
       dc_javascript_limits = 0, dc_javascript_recoveries = 0 \<rparr>,
     diag_events = replicate POISON_DIAGNOSTICS_RING_SIZE diagnostic_event_zero,
     diag_next_event = 0, diag_next_event_id = 1 \<rparr>"

definition poison_diagnostics_increment ::
    "PoisonDiagnosticCategory \<Rightarrow> PoisonDiagnostics \<Rightarrow> PoisonDiagnostics" where
  "poison_diagnostics_increment category diagnostics =
    (case poison_diagnostics_counter category of
       None \<Rightarrow> diagnostics
     | Some (get, put) \<Rightarrow>
         if get (diag_counters diagnostics) \<noteq> UINT32_MAX
         then diagnostics \<lparr> diag_counters := put (\<lambda>c. c + 1) (diag_counters diagnostics) \<rparr>
         else diagnostics)"

definition poison_diagnostics_record ::
    "PoisonDiagnostics \<Rightarrow> PoisonDiagnosticCategory \<Rightarrow> string option \<Rightarrow> u64 \<Rightarrow> bytes option \<Rightarrow>
     PoisonDiagnostics \<times> bool" where
  "poison_diagnostics_record diagnostics category summary timestamp_ms correlation_digest =
    (case (summary, correlation_digest) of
       (Some s, Some d) \<Rightarrow>
         if category = PoisonDiagnosticCategoryCount \<or> s = '''' \<or>
            strnlen s (POISON_DIAGNOSTICS_TEXT_MAX + 1) > POISON_DIAGNOSTICS_TEXT_MAX
         then (diagnostics, False)
         else if strstr_any [''secret'', ''key'', ''token'', ''payload'', ''private''] s
         then (diagnostics, False)
         else
           let event = \<lparr> de_event_id = diag_next_event_id diagnostics, de_category = category,
                 de_summary = s, de_timestamp_ms = timestamp_ms,
                 de_correlation_digest = take 32 d \<rparr>;
               written = diagnostics
                 \<lparr> diag_events := (diag_events diagnostics)[diag_next_event diagnostics := event],
                   diag_next_event_id := diag_next_event_id diagnostics + 1,
                   diag_next_event :=
                     (diag_next_event diagnostics + 1) mod POISON_DIAGNOSTICS_RING_SIZE \<rparr>
           in (poison_diagnostics_increment category written, True)
     | _ \<Rightarrow> (diagnostics, False))"

fun poison_diagnostics_category_name :: "PoisonDiagnosticCategory \<Rightarrow> string option" where
  "poison_diagnostics_category_name PoisonDiagnosticSessionEstablished = Some ''session-established''"
| "poison_diagnostics_category_name PoisonDiagnosticTransportError = Some ''transport-error''"
| "poison_diagnostics_category_name PoisonDiagnosticDroppedFrame = Some ''dropped-frame''"
| "poison_diagnostics_category_name PoisonDiagnosticRetriedFrame = Some ''retried-frame''"
| "poison_diagnostics_category_name PoisonDiagnosticCommandFailure = Some ''command-failure''"
| "poison_diagnostics_category_name PoisonDiagnosticAppCrash = Some ''app-crash''"
| "poison_diagnostics_category_name PoisonDiagnosticPolicyDenial = Some ''policy-denial''"
| "poison_diagnostics_category_name PoisonDiagnosticPackageVerification = Some ''package-verification''"
| "poison_diagnostics_category_name PoisonDiagnosticPackageRevocation = Some ''package-revocation''"
| "poison_diagnostics_category_name PoisonDiagnosticUpdateStage = Some ''update-stage''"
| "poison_diagnostics_category_name PoisonDiagnosticUpdateHealth = Some ''update-health''"
| "poison_diagnostics_category_name PoisonDiagnosticUpdateRollback = Some ''update-rollback''"
| "poison_diagnostics_category_name PoisonDiagnosticRecovery = Some ''recovery''"
| "poison_diagnostics_category_name PoisonDiagnosticJavascriptStart = Some ''javascript-start''"
| "poison_diagnostics_category_name PoisonDiagnosticJavascriptTerminal = Some ''javascript-terminal''"
| "poison_diagnostics_category_name PoisonDiagnosticJavascriptCrash = Some ''javascript-crash''"
| "poison_diagnostics_category_name PoisonDiagnosticJavascriptLimit = Some ''javascript-limit''"
| "poison_diagnostics_category_name PoisonDiagnosticJavascriptRecovery = Some ''javascript-recovery''"
| "poison_diagnostics_category_name PoisonDiagnosticCategoryCount = None"

section \<open>Counters\<close>

definition counter_value :: "PoisonDiagnosticCategory \<Rightarrow> PoisonDiagnostics \<Rightarrow> u32" where
  "counter_value category d =
     (case poison_diagnostics_counter category of None \<Rightarrow> 0 | Some (get, put) \<Rightarrow> get (diag_counters d))"

lemma counter_value_increment:
  "unat (counter_value k (poison_diagnostics_increment category d)) =
     (if k = category \<and> category \<noteq> PoisonDiagnosticCategoryCount
      then min (2 ^ 32 - 1) (unat (counter_value k d) + 1) else unat (counter_value k d))"
proof -
  have sat: "unat (if x \<noteq> UINT32_MAX then x + 1 else x) = min (2 ^ 32 - 1) (unat x + 1)" for x :: u32
  proof (cases "x = UINT32_MAX")
    case False
    then have "unat x < 2 ^ 32 - 1"
      using unat_Suc_eq [of x] unat_bounds(3) [of "x + 1"] by simp
    with False show ?thesis by (simp add: unat_Suc_eq)
  qed (simp add: unat_UINT32_MAX)
  show ?thesis
  proof (cases "k = category")
    case True
    then show ?thesis
      by (cases category)
        (auto simp: counter_value_def poison_diagnostics_increment_def sat [simplified, symmetric])
  next
    case False
    then show ?thesis
      by (cases category; cases k) (auto simp: counter_value_def poison_diagnostics_increment_def)
  qed
qed

lemma increment_keeps_ring [simp]:
  "diag_events (poison_diagnostics_increment k d) = diag_events d"
  "diag_next_event (poison_diagnostics_increment k d) = diag_next_event d"
  "diag_next_event_id (poison_diagnostics_increment k d) = diag_next_event_id d"
  by (auto simp: poison_diagnostics_increment_def split: option.splits)

section \<open>The ring\<close>

definition diag_entries :: "PoisonDiagnostics \<Rightarrow> PoisonDiagnosticEvent list" where
  "diag_entries d = ring_view (diag_next_event d) (diag_events d)"

definition diag_shape :: "PoisonDiagnostics \<Rightarrow> bool" where
  "diag_shape d \<longleftrightarrow> length (diag_events d) = 16 \<and> diag_next_event d < 16"

record DiagnosticRequest =
  dr_category :: PoisonDiagnosticCategory
  dr_summary :: "string option"
  dr_timestamp :: u64
  dr_digest :: "bytes option"

definition diag_event_of :: "PoisonDiagnostics \<Rightarrow> DiagnosticRequest \<Rightarrow> PoisonDiagnosticEvent" where
  "diag_event_of d r = \<lparr> de_event_id = diag_next_event_id d, de_category = dr_category r,
     de_summary = the (dr_summary r), de_timestamp_ms = dr_timestamp r,
     de_correlation_digest = take 32 (the (dr_digest r)) \<rparr>"

definition diag_step :: "DiagnosticRequest \<Rightarrow> PoisonDiagnostics \<Rightarrow>
    PoisonDiagnostics \<times> PoisonDiagnosticEvent option" where
  "diag_step r d =
     (case poison_diagnostics_record d (dr_category r) (dr_summary r) (dr_timestamp r) (dr_digest r) of
        (d', ok) \<Rightarrow> (d', if ok then Some (diag_event_of d r) else None))"

definition diag_accepts :: "DiagnosticRequest \<Rightarrow> bool" where
  "diag_accepts r \<longleftrightarrow> dr_category r \<noteq> PoisonDiagnosticCategoryCount \<and> dr_digest r \<noteq> None \<and>
     (\<exists>s. dr_summary r = Some s \<and> s \<noteq> '''' \<and> length s \<le> 96 \<and>
        (\<forall>w \<in> {''secret'', ''key'', ''token'', ''payload'', ''private''}. \<not> sublist w s))"

lemma diag_step_refused: "\<not> diag_accepts r \<Longrightarrow> diag_step r d = (d, None)"
  by (auto simp: diag_step_def poison_diagnostics_record_def diag_accepts_def strstr_any_iff
      split: option.splits)

lemma diag_step_accepted:
  assumes "diag_accepts r"
  shows "diag_step r d =
    (poison_diagnostics_increment (dr_category r)
       (d \<lparr> diag_events := (diag_events d)[diag_next_event d := diag_event_of d r],
            diag_next_event_id := diag_next_event_id d + 1,
            diag_next_event := (diag_next_event d + 1) mod 16 \<rparr>), Some (diag_event_of d r))"
  using assms
  by (auto simp: diag_step_def poison_diagnostics_record_def diag_accepts_def strstr_any_iff
      diag_event_of_def Let_def)

lemma diag_step_entries:
  assumes "diag_shape d" "snd (diag_step r d) = Some e"
  shows "diag_entries (fst (diag_step r d)) = tl (diag_entries d) @ [e]"
  using assms ring_write [of "diag_next_event d" "diag_events d" e]
  by (cases "diag_accepts r")
    (simp_all add: diag_step_accepted diag_step_refused diag_entries_def diag_shape_def)

lemma diag_step_shape: "diag_shape d \<Longrightarrow> diag_shape (fst (diag_step r d))"
  by (cases "diag_accepts r") (simp_all add: diag_step_accepted diag_step_refused diag_shape_def)

interpretation diag: ring_log diag_step diag_entries diag_shape 16
proof (unfold_locales, goal_cases)
  case (2 d) then show ?case by (simp add: diag_entries_def diag_shape_def)
next
  case (3 d r) then show ?case by (rule diag_step_shape)
next
  case (4 d r)
  then show ?case
    by (cases "diag_accepts r") (simp_all add: diag_step_refused diag_step_accepted)
next
  case (5 d r e) then show ?case by (rule diag_step_entries)
qed simp

lemma counter_value_step:
  "unat (counter_value k (fst (diag_step r d))) =
     (if diag_accepts r \<and> dr_category r = k
      then min (2 ^ 32 - 1) (unat (counter_value k d) + 1) else unat (counter_value k d))"
proof (cases "diag_accepts r")
  case True
  have "counter_value k (d \<lparr> diag_events := es, diag_next_event_id := i, diag_next_event := n \<rparr>)
      = counter_value k d" for es i n
    by (cases k) (simp_all add: counter_value_def)
  with True show ?thesis
    by (auto simp: diag_step_accepted counter_value_increment diag_accepts_def)
qed (simp add: diag_step_refused)

lemma counter_value_run:
  "unat (counter_value k (run_state diag_step d rs)) =
     min (2 ^ 32 - 1) (unat (counter_value k d)
                       + length (filter (\<lambda>r. diag_accepts r \<and> dr_category r = k) rs))"
proof (induction rs arbitrary: d)
  case Nil
  then show ?case using unat_bounds(3) [of "counter_value k d"] by simp
next
  case (Cons r rs)
  then show ?case
    using unat_bounds(3) [of "counter_value k d"]
    by (auto simp: counter_value_step simp del: diag_step_refused)
qed

text \<open>From the start, the counter of a category is the number of accepted records of that
  category, saturated at the largest 32-bit value, and the ring lists the last 16 accepted
  events behind the blank entries of the start.\<close>

theorem diagnostics_count_and_ring:
  "unat (counter_value k (run_state diag_step poison_diagnostics_init rs)) =
     min (2 ^ 32 - 1) (length (filter (\<lambda>r. diag_accepts r \<and> dr_category r = k) rs)) \<and>
   diag_entries (run_state diag_step poison_diagnostics_init rs) =
     last_n 16 (replicate 16 diagnostic_event_zero @
                List.map_filter id (results diag_step poison_diagnostics_init rs))"
proof
  have "counter_value k poison_diagnostics_init = 0"
    by (cases k) (simp_all add: counter_value_def poison_diagnostics_init_def)
  then show "unat (counter_value k (run_state diag_step poison_diagnostics_init rs)) =
     min (2 ^ 32 - 1) (length (filter (\<lambda>r. diag_accepts r \<and> dr_category r = k) rs))"
    by (simp add: counter_value_run)
  have "diag_shape poison_diagnostics_init"
    by (simp add: diag_shape_def poison_diagnostics_init_def)
  moreover have "diag_entries poison_diagnostics_init = replicate 16 diagnostic_event_zero"
    by (simp add: diag_entries_def poison_diagnostics_init_def ring_view_def)
  ultimately show "diag_entries (run_state diag_step poison_diagnostics_init rs) =
     last_n 16 (replicate 16 diagnostic_event_zero @
                List.map_filter id (results diag_step poison_diagnostics_init rs))"
    by (simp add: diag.run_entries)
qed

lemma category_names_distinct:
  assumes "poison_diagnostics_category_name a = Some n" "poison_diagnostics_category_name b = Some n"
  shows "a = b"
  using assms by (cases a; cases b) auto

end
