(* ===== verification/Folders.thy ===== *)
theory Folders
  imports Files
begin

text \<open>Directories of the storage service, as the package store moves them around
  (\<open>storage/storage_external_api.c\<close>). A path holds nothing, a regular file or a directory tree;
  the paths of the model are independent, none lies below another. Every call that changes the
  storage takes the next outcome of the volume: it works; it is refused and leaves everything as it was,
  which is also what a power loss before the call looks like; it ends while the copy is under way
  (\<open>Copying\<close>, with what is at the destination so far) or while the source is removed after the copy
  (\<open>Removing\<close>, with what is left of the source), for an error or a power loss; or it reports success for
  a copy in which files are short (\<open>Short\<close>): the copy of a file does not look at the number of bytes
  written, and reads the error before the file is closed.\<close>

datatype 'a Entry = Missing | Plain | Tree "'a list"

datatype 'a Outcome = Works | Refused | Copying "'a Entry" | Removing "'a Entry" | Short "'a Entry"

record 'a Volume =
  vo_entry :: "string \<Rightarrow> 'a Entry"
  vo_unreadable :: "string \<Rightarrow> bool"
  vo_outcomes :: "nat \<Rightarrow> 'a Outcome"

fun is_tree :: "'a Entry \<Rightarrow> bool" where
  "is_tree (Tree c) = True" | "is_tree _ = False"

definition volume_step :: "'a Volume \<Rightarrow> (string \<Rightarrow> 'a Entry) \<Rightarrow> 'a Volume" where
  "volume_step v entries = v \<lparr> vo_entry := entries, vo_outcomes := (\<lambda>n. vo_outcomes v (Suc n)) \<rparr>"

definition entry_exists :: "'a Volume \<Rightarrow> string \<Rightarrow> bool" where
  "entry_exists v path \<longleftrightarrow> vo_entry v path \<noteq> Missing \<and> \<not> vo_unreadable v path"

definition volume_mkdir :: "string \<Rightarrow> 'a Volume \<Rightarrow> 'a Volume \<times> bool" where
  "volume_mkdir path v =
    (if vo_entry v path \<noteq> Missing then (v, False)
     else case vo_outcomes v 0 of
            Works \<Rightarrow> (volume_step v ((vo_entry v)(path := Tree [])), True)
          | Refused \<Rightarrow> (volume_step v (vo_entry v), False)
          | Copying e \<Rightarrow> (volume_step v ((vo_entry v)(path := e)), False)
          | Removing e \<Rightarrow> (volume_step v ((vo_entry v)(path := e)), False)
          | Short e \<Rightarrow> (volume_step v ((vo_entry v)(path := e)), False))"

text \<open>\<open>storage_common_rename\<close>, also of a directory: never over a directory, a directory never over a
  file, a file over a file by removing that first.\<close>

definition volume_rename :: "string \<Rightarrow> string \<Rightarrow> 'a Volume \<Rightarrow> 'a Volume \<times> bool" where
  "volume_rename old_path new_path v =
    (let source = vo_entry v old_path; destination = vo_entry v new_path in
     if \<not> entry_exists v old_path then (v, False)
     else if is_tree source \<and> (destination = Plain \<or> old_path = new_path) then (v, False)
     else if old_path = new_path then (v, True)
     else if is_tree destination then (v, False)
     else case vo_outcomes v 0 of
            Works \<Rightarrow> (volume_step v ((vo_entry v)(new_path := source, old_path := Missing)), True)
          | Refused \<Rightarrow> (volume_step v (vo_entry v), False)
          | Copying d \<Rightarrow> (volume_step v ((vo_entry v)(new_path := d)), False)
          | Removing s \<Rightarrow> (volume_step v ((vo_entry v)(new_path := source, old_path := s)), False)
          | Short d \<Rightarrow> (volume_step v ((vo_entry v)(new_path := d, old_path := Missing)), True))"

definition volume_remove :: "string \<Rightarrow> 'a Volume \<Rightarrow> 'a Volume \<times> bool" where
  "volume_remove path v =
    (if vo_entry v path = Missing then (v, True)
     else case vo_outcomes v 0 of
            Works \<Rightarrow> (volume_step v ((vo_entry v)(path := Missing)), True)
          | Refused \<Rightarrow> (volume_step v (vo_entry v), False)
          | Copying e \<Rightarrow> (volume_step v ((vo_entry v)(path := e)), False)
          | Removing e \<Rightarrow> (volume_step v ((vo_entry v)(path := e)), False)
          | Short e \<Rightarrow> (volume_step v ((vo_entry v)(path := e)), False))"

text \<open>A volume on which calls can end anywhere, but none reports success for less than the whole.\<close>

definition honest_volume :: "'a Volume \<Rightarrow> bool" where
  "honest_volume v \<longleftrightarrow> (\<forall>p. \<not> vo_unreadable v p) \<and> (\<forall>n e. vo_outcomes v n \<noteq> Short e)"

text \<open>A volume without damage: every path is readable and a call that fails changes nothing.\<close>

definition sound_volume :: "'a Volume \<Rightarrow> bool" where
  "sound_volume v \<longleftrightarrow> (\<forall>p. \<not> vo_unreadable v p) \<and> (\<forall>n. vo_outcomes v n = Works \<or> vo_outcomes v n = Refused)"

definition working_volume :: "'a Volume \<Rightarrow> bool" where
  "working_volume v \<longleftrightarrow> (\<forall>p. \<not> vo_unreadable v p) \<and> (\<forall>n. vo_outcomes v n = Works)"

lemma working_sound [simp]: "working_volume v \<Longrightarrow> sound_volume v"
  by (simp add: working_volume_def sound_volume_def)

lemma sound_honest: "sound_volume v \<Longrightarrow> honest_volume v"
  by (metis honest_volume_def sound_volume_def Outcome.distinct(7) Outcome.distinct(13))

lemma volume_step_fields [simp]:
  "vo_entry (volume_step v e) = e" "vo_unreadable (volume_step v e) = vo_unreadable v"
  "vo_outcomes (volume_step v e) = (\<lambda>n. vo_outcomes v (Suc n))"
  by (simp_all add: volume_step_def)

lemma sound_step [simp]: "sound_volume v \<Longrightarrow> sound_volume (volume_step v e)"
  "working_volume v \<Longrightarrow> working_volume (volume_step v e)"
  by (simp_all add: sound_volume_def working_volume_def)

lemma sound_exists [simp]: "sound_volume v \<Longrightarrow> entry_exists v p \<longleftrightarrow> vo_entry v p \<noteq> Missing"
  by (simp add: entry_exists_def sound_volume_def)

lemma sound_outcome: "sound_volume v \<Longrightarrow> vo_outcomes v 0 = Works \<or> vo_outcomes v 0 = Refused"
  by (simp add: sound_volume_def)

text \<open>What a call makes of a sound volume.\<close>

lemma sound_calls [simp]:
  assumes "sound_volume v"
  shows "sound_volume (fst (volume_mkdir p v))" "sound_volume (fst (volume_rename p q v))"
    "sound_volume (fst (volume_remove p v))"
  using assms sound_outcome [OF assms]
  by (auto simp: volume_mkdir_def volume_rename_def volume_remove_def Let_def)

lemma working_calls [simp]:
  assumes "working_volume v"
  shows "working_volume (fst (volume_mkdir p v))" "working_volume (fst (volume_rename p q v))"
    "working_volume (fst (volume_remove p v))"
  using assms by (auto simp: volume_mkdir_def volume_rename_def volume_remove_def Let_def working_volume_def)

lemma honest_calls [simp]:
  assumes "honest_volume v"
  shows "honest_volume (fst (volume_mkdir p v))" "honest_volume (fst (volume_rename p q v))"
    "honest_volume (fst (volume_remove p v))"
  using assms
  by (auto simp: volume_mkdir_def volume_rename_def volume_remove_def Let_def honest_volume_def split: Outcome.split)

text \<open>A rename on an honest volume never loses a tree: it leaves every tree elsewhere alone, also at its
  destination, and the tree it moves is whole at the source or at the destination.\<close>

lemma rename_elsewhere:
  assumes "vo_entry v x = Tree c" "x \<noteq> p"
  shows "vo_entry (fst (volume_rename p q v)) x = Tree c"
  using assms by (auto simp: volume_rename_def Let_def split: Outcome.split)

lemma rename_moves:
  assumes "honest_volume v" "vo_entry v p = Tree c" "p \<noteq> q"
  shows "vo_entry (fst (volume_rename p q v)) p = Tree c \<or> vo_entry (fst (volume_rename p q v)) q = Tree c"
  using assms by (auto simp: volume_rename_def Let_def honest_volume_def split: Outcome.split)

lemma rename_done:
  assumes "honest_volume v" "volume_rename p q v = (w, True)" "vo_entry v p = Tree c" "p \<noteq> q"
  shows "vo_entry w q = Tree c"
  using assms by (auto simp: volume_rename_def Let_def honest_volume_def split: Outcome.splits if_splits)

lemma remove_elsewhere [simp]: "x \<noteq> p \<Longrightarrow> vo_entry (fst (volume_remove p v)) x = vo_entry v x"
  by (auto simp: volume_remove_def split: Outcome.split)

lemma rename_other [simp]: "x \<noteq> p \<Longrightarrow> x \<noteq> q \<Longrightarrow> vo_entry (fst (volume_rename p q v)) x = vo_entry v x"
  by (auto simp: volume_rename_def Let_def split: Outcome.split)

lemma mkdir_other [simp]: "q \<noteq> p \<Longrightarrow> vo_entry (fst (volume_mkdir p v)) q = vo_entry v q"
  by (auto simp: volume_mkdir_def split: Outcome.splits)

end
