(* ===== verification/PackageStorage.thy ===== *)
theory PackageStorage
  imports PackageManager Folders
begin

text \<open>The files of the packages (\<open>poison_packages/poison_packages.c\<close>): every package has a candidate,
  a rollback, a quarantine and a swap directory below the managed root and its active directory
  below the active root. The operations move these directories; recovery at system start brings
  them back in line with the records after an interruption.\<close>

section \<open>Paths\<close>

record PoisonPackageStorageLayout =
  sl_managed_root :: string
  sl_active_root :: string

abbreviation "POISON_PACKAGE_MANAGED_ROOT \<equiv> ''/ext/apps/.poison-managed''"
abbreviation "POISON_PACKAGE_ACTIVE_ROOT \<equiv> ''/ext/apps/PoisonedOS''"

definition poison_package_storage_root_valid :: "string option \<Rightarrow> bool" where
  "poison_package_storage_root_valid path \<longleftrightarrow>
     (case path of
        None \<Rightarrow> False
      | Some p \<Rightarrow> p \<noteq> '''' \<and> hd p = CHR ''/'' \<and> tl p \<noteq> '''' \<and>
          strnlen p (POISON_PACKAGE_MANIFEST_PATH_MAX + 1) \<le> POISON_PACKAGE_MANIFEST_PATH_MAX \<and>
          \<not> strstr p ''..'' \<and> CHR 0x5C \<notin> set p \<and> p ! (length p - 1) \<noteq> CHR ''/'')"

definition poison_package_storage_layout_init ::
    "string option \<Rightarrow> string option \<Rightarrow> PoisonPackageStorageLayout option" where
  "poison_package_storage_layout_init managed_root active_root =
    (if \<not> poison_package_storage_root_valid managed_root \<or>
        \<not> poison_package_storage_root_valid active_root \<or> managed_root = active_root
     then None
     else Some \<lparr> sl_managed_root = the managed_root, sl_active_root = the active_root \<rparr>)"

definition poison_package_storage_layout_default :: PoisonPackageStorageLayout where
  "poison_package_storage_layout_default = the (poison_package_storage_layout_init
     (Some POISON_PACKAGE_MANAGED_ROOT) (Some POISON_PACKAGE_ACTIVE_ROOT))"

definition poison_package_storage_path :: "string \<Rightarrow> string option \<Rightarrow> string option \<Rightarrow> string option" where
  "poison_package_storage_path root package_id leaf =
    (if \<not> poison_package_storage_root_valid (Some root) \<or> \<not> poison_package_id_valid package_id then None
     else let output = (case leaf of
              Some l \<Rightarrow> root @ ''/'' @ the package_id @ ''/'' @ l
            | None \<Rightarrow> root @ ''/'' @ the package_id)
          in if 0 < length output \<and> length output \<le> POISON_PACKAGE_MANIFEST_PATH_MAX
             then Some output else None)"

definition candidate_path :: "PoisonPackageStorageLayout \<Rightarrow> string option \<Rightarrow> string option" where
  "candidate_path layout i = poison_package_storage_path (sl_managed_root layout) i (Some ''candidate'')"

definition rollback_path :: "PoisonPackageStorageLayout \<Rightarrow> string option \<Rightarrow> string option" where
  "rollback_path layout i = poison_package_storage_path (sl_managed_root layout) i (Some ''rollback'')"

definition quarantine_path :: "PoisonPackageStorageLayout \<Rightarrow> string option \<Rightarrow> string option" where
  "quarantine_path layout i = poison_package_storage_path (sl_managed_root layout) i (Some ''quarantine'')"

definition swap_path :: "PoisonPackageStorageLayout \<Rightarrow> string option \<Rightarrow> string option" where
  "swap_path layout i = poison_package_storage_path (sl_managed_root layout) i (Some ''swap'')"

definition active_path :: "PoisonPackageStorageLayout \<Rightarrow> string option \<Rightarrow> string option" where
  "active_path layout i = poison_package_storage_path (sl_active_root layout) i None"

section \<open>Calls on the storage\<close>

definition poison_package_storage_exists :: "'a Volume \<Rightarrow> string \<Rightarrow> bool \<Rightarrow> bool" where
  "poison_package_storage_exists storage path directory \<longleftrightarrow>
     entry_exists storage path \<and> is_tree (vo_entry storage path) = directory"

text \<open>The path up to every separator after the first character, in order: the directories the loop
  over the path makes.\<close>

definition parent_prefixes :: "string \<Rightarrow> string list" where
  "parent_prefixes path = map (\<lambda>n. take n path) (filter (\<lambda>n. path ! n = CHR ''/'') [1..<length path])"

fun mkdir_each :: "string list \<Rightarrow> 'a Volume \<Rightarrow> 'a Volume \<times> bool" where
  "mkdir_each [] storage = (storage, True)"
| "mkdir_each (current # rest) storage =
    (if poison_package_storage_exists storage current True then mkdir_each rest storage
     else let (storage, made) = volume_mkdir current storage
          in if made then mkdir_each rest storage else (storage, False))"

definition poison_package_storage_mkdir_tree :: "string \<Rightarrow> 'a Volume \<Rightarrow> 'a Volume \<times> bool" where
  "poison_package_storage_mkdir_tree path storage =
    (if \<not> poison_package_storage_root_valid (Some path) then (storage, False)
     else mkdir_each (parent_prefixes path @ [path]) storage)"

definition poison_package_storage_remove_if_present :: "string \<Rightarrow> 'a Volume \<Rightarrow> 'a Volume \<times> bool" where
  "poison_package_storage_remove_if_present path storage =
    (if vo_unreadable storage path then (storage, False)
     else if vo_entry storage path = Missing then (storage, True)
     else volume_remove path storage)"

text \<open>The chains \<open>if(ok) ok = call\<close> of the code.\<close>

definition if_ok :: "'a Volume \<times> bool \<Rightarrow> ('a Volume \<Rightarrow> 'a Volume \<times> bool) \<Rightarrow> 'a Volume \<times> bool" where
  "if_ok r call = (if snd r then call (fst r) else r)"

lemma if_ok_simps [simp]: "if_ok (v, True) f = f v" "if_ok (v, False) f = (v, False)"
  by (simp_all add: if_ok_def)

section \<open>Operations\<close>

definition poison_package_storage_activate ::
    "PoisonPackageStorageLayout \<Rightarrow> string option \<Rightarrow> 'a Volume \<Rightarrow> 'a Volume \<times> bool" where
  "poison_package_storage_activate layout package_id storage =
    (case (candidate_path layout package_id, rollback_path layout package_id, active_path layout package_id) of
       (Some candidate, Some rollback, Some active) \<Rightarrow>
         let r1 = (if poison_package_storage_exists storage candidate True
                   then poison_package_storage_mkdir_tree (sl_active_root layout) storage
                   else (storage, False));
             had_active = (snd r1 \<and> poison_package_storage_exists (fst r1) active True);
             r2 = if_ok r1 (poison_package_storage_remove_if_present rollback);
             r3 = (if snd r2 \<and> had_active then volume_rename active rollback (fst r2) else r2);
             r4 = if_ok r3 (volume_rename candidate active);
             (s, ok) = r4
         in if \<not> ok \<and> had_active \<and> \<not> poison_package_storage_exists s active True \<and>
               poison_package_storage_exists s rollback True
            then (fst (volume_rename rollback active s), False)
            else (s, ok)
     | _ \<Rightarrow> (storage, False))"

definition poison_package_storage_report_health ::
    "PoisonPackageStorageLayout \<Rightarrow> string option \<Rightarrow> bool \<Rightarrow> 'a Volume \<Rightarrow> 'a Volume \<times> bool" where
  "poison_package_storage_report_health layout package_id healthy storage =
    (case (active_path layout package_id, rollback_path layout package_id, quarantine_path layout package_id) of
       (Some active, Some rollback, Some quarantine) \<Rightarrow>
         let r0 = (storage, poison_package_storage_exists storage active True) in
         if healthy then r0
         else
           let r1 = if_ok r0 (poison_package_storage_remove_if_present quarantine);
               r2 = if_ok r1 (volume_rename active quarantine);
               has_rollback = (snd r2 \<and> poison_package_storage_exists (fst r2) rollback True);
               r3 = (if snd r2 \<and> has_rollback then volume_rename rollback active (fst r2) else r2);
               (s, ok) = r3
           in if \<not> ok \<and> \<not> poison_package_storage_exists s active True \<and>
                 poison_package_storage_exists s quarantine True
              then (fst (volume_rename quarantine active s), False)
              else (s, ok)
     | _ \<Rightarrow> (storage, False))"

definition poison_package_storage_revert_health_rollback ::
    "PoisonPackageStorageLayout \<Rightarrow> string option \<Rightarrow> 'a Volume \<Rightarrow> 'a Volume \<times> bool" where
  "poison_package_storage_revert_health_rollback layout package_id storage =
    (case (active_path layout package_id, rollback_path layout package_id, quarantine_path layout package_id) of
       (Some active, Some rollback, Some quarantine) \<Rightarrow>
         let had_active = poison_package_storage_exists storage active True;
             r0 = (storage, poison_package_storage_exists storage quarantine True \<and>
                            \<not> poison_package_storage_exists storage rollback True);
             r1 = (if snd r0 \<and> had_active then volume_rename active rollback storage else r0);
             r2 = if_ok r1 (volume_rename quarantine active);
             (s, ok) = r2
         in if \<not> ok \<and> had_active \<and> \<not> poison_package_storage_exists s active True \<and>
               poison_package_storage_exists s rollback True
            then (fst (volume_rename rollback active s), False)
            else (s, ok)
     | _ \<Rightarrow> (storage, False))"

definition poison_package_storage_rollback ::
    "PoisonPackageStorageLayout \<Rightarrow> string option \<Rightarrow> 'a Volume \<Rightarrow> 'a Volume \<times> bool" where
  "poison_package_storage_rollback layout package_id storage =
    (case (active_path layout package_id, rollback_path layout package_id, swap_path layout package_id) of
       (Some active, Some rollback, Some swap) \<Rightarrow>
         let r0 = (if poison_package_storage_exists storage active True \<and>
                      poison_package_storage_exists storage rollback True
                   then poison_package_storage_remove_if_present swap storage else (storage, False));
             r1 = if_ok r0 (volume_rename active swap);
             r2 = if_ok r1 (volume_rename rollback active);
             r3 = if_ok r2 (volume_rename swap rollback);
             (s, ok) = r3
         in if ok then (s, True)
            else
              let s1 = (if poison_package_storage_exists s active True \<and>
                           poison_package_storage_exists s swap True \<and>
                           \<not> poison_package_storage_exists s rollback True
                        then fst (volume_rename active rollback s) else s);
                  s2 = (if poison_package_storage_exists s1 swap True \<and>
                           \<not> poison_package_storage_exists s1 active True
                        then fst (volume_rename swap active s1) else s1)
              in (s2, False)
     | _ \<Rightarrow> (storage, False))"

definition poison_package_storage_remove ::
    "PoisonPackageStorageLayout \<Rightarrow> string option \<Rightarrow> 'a Volume \<Rightarrow> 'a Volume \<times> bool" where
  "poison_package_storage_remove layout package_id storage =
    (case (active_path layout package_id, rollback_path layout package_id) of
       (Some active, Some rollback) \<Rightarrow>
         let r0 = (if poison_package_storage_exists storage active True
                   then poison_package_storage_remove_if_present rollback storage else (storage, False))
         in if_ok r0 (volume_rename active rollback)
     | _ \<Rightarrow> (storage, False))"

definition poison_package_storage_restore_removed ::
    "PoisonPackageStorageLayout \<Rightarrow> string option \<Rightarrow> 'a Volume \<Rightarrow> 'a Volume \<times> bool" where
  "poison_package_storage_restore_removed layout package_id storage =
    (case (active_path layout package_id, rollback_path layout package_id) of
       (Some active, Some rollback) \<Rightarrow>
         if \<not> poison_package_storage_exists storage active True \<and>
            poison_package_storage_exists storage rollback True
         then volume_rename rollback active storage else (storage, False)
     | _ \<Rightarrow> (storage, False))"

definition poison_package_storage_quarantine ::
    "PoisonPackageStorageLayout \<Rightarrow> string option \<Rightarrow> 'a Volume \<Rightarrow> 'a Volume \<times> bool" where
  "poison_package_storage_quarantine layout package_id storage =
    (case (candidate_path layout package_id, active_path layout package_id, quarantine_path layout package_id) of
       (Some candidate, Some active, Some quarantine) \<Rightarrow>
         let source = (if poison_package_storage_exists storage candidate True then candidate else active);
             r0 = (if poison_package_storage_exists storage source True
                   then poison_package_storage_remove_if_present quarantine storage else (storage, False))
         in if_ok r0 (volume_rename source quarantine)
     | _ \<Rightarrow> (storage, False))"

definition poison_package_storage_restore_quarantine ::
    "PoisonPackageStorageLayout \<Rightarrow> string option \<Rightarrow> bool \<Rightarrow> 'a Volume \<Rightarrow> 'a Volume \<times> bool" where
  "poison_package_storage_restore_quarantine layout package_id to_candidate storage =
    (case (if to_candidate then candidate_path layout package_id else active_path layout package_id,
           quarantine_path layout package_id) of
       (Some destination, Some quarantine) \<Rightarrow>
         let r0 = (storage, poison_package_storage_exists storage quarantine True \<and>
                            \<not> poison_package_storage_exists storage destination True);
             r1 = (if \<not> to_candidate
                   then if_ok r0 (poison_package_storage_mkdir_tree (sl_active_root layout)) else r0)
         in if_ok r1 (volume_rename quarantine destination)
     | _ \<Rightarrow> (storage, False))"

section \<open>Recovery of one package\<close>

definition poison_package_storage_recover_record ::
    "PoisonPackageStorageLayout \<Rightarrow> string option \<Rightarrow> bool \<Rightarrow> bool \<Rightarrow> bool \<Rightarrow> 'a Volume \<Rightarrow> 'a Volume \<times> bool" where
  "poison_package_storage_recover_record layout package_id candidate_committed had_previous discard_candidate storage =
    (case (active_path layout package_id, candidate_path layout package_id, rollback_path layout package_id,
           quarantine_path layout package_id, swap_path layout package_id) of
       (Some active, Some candidate, Some rollback, Some quarantine, Some swap) \<Rightarrow>
         let present = poison_package_storage_exists;
             has_swap = present storage swap True;
             (s1, ok1) =
               (if has_swap \<and> \<not> present storage active True then volume_rename swap active storage
                else if has_swap \<and> present storage active True \<and> \<not> present storage rollback True
                then if_ok (volume_rename active rollback storage) (volume_rename swap active)
                else if has_swap then (storage, False)
                else (storage, True));
             has_active = present s1 active True;
             has_rollback = present s1 rollback True;
             has_candidate = present s1 candidate True;
             (s2, ok2, has_active2, has_rollback2) =
               (if ok1 \<and> \<not> candidate_committed \<and> \<not> has_active \<and> has_rollback
                then let (s, ok) = volume_rename rollback active s1 in (s, ok, ok, False)
                else (s1, ok1, has_active, has_rollback));
             (s3, ok3, has_active3, has_rollback3) =
               (if \<not> (ok1 \<and> \<not> candidate_committed) then (s2, ok2, has_active2, has_rollback2)
                else if ok2 \<and> \<not> has_candidate \<and> has_active2 \<and> (\<not> had_previous \<or> has_rollback2)
                then let (s, ok) = if_ok (poison_package_storage_remove_if_present quarantine s2)
                                     (volume_rename active quarantine)
                     in if ok \<and> has_rollback2
                        then let (s', ok') = volume_rename rollback active s in (s', ok', ok', False)
                        else (s, ok, False, has_rollback2)
                else if ok2 \<and> has_candidate \<and> discard_candidate \<and> \<not> present s2 quarantine True
                then let (s, ok) = volume_rename candidate quarantine s2
                     in (s, ok, has_active2, has_rollback2)
                else (s2, ok2, has_active2, has_rollback2));
             (s4, ok4, has_active4) =
               (if ok3 \<and> candidate_committed \<and> \<not> has_active3 \<and> has_rollback3
                then let (s, ok) = volume_rename rollback active s3 in (s, ok, ok)
                else (s3, ok3, has_active3))
         in (s4, ok4 \<and> \<not> (candidate_committed \<and> \<not> has_active4))
     | _ \<Rightarrow> (storage, False))"

section \<open>The state file\<close>

record PoisonPackageStateFile =
  sf_magic :: string
  sf_version :: u32
  sf_manager_bytes :: u32
  sf_manager :: PoisonPackageManager
  sf_digest :: bytes

text \<open>The digest of a state file covers every byte before it; SHA-256 over the memory layout is a
  parameter, as is the size of a manager.\<close>

record StateCrypto =
  sc_digest :: "PoisonPackageStateFile \<Rightarrow> bytes option"
  sc_manager_bytes :: u32

definition poison_package_state_digest :: "StateCrypto \<Rightarrow> PoisonPackageStateFile \<Rightarrow> bytes option" where
  "poison_package_state_digest cr state = sc_digest cr (state \<lparr> sf_digest := zeros 32 \<rparr>)"

definition state_file :: "StateCrypto \<Rightarrow> PoisonPackageManager \<Rightarrow> PoisonPackageStateFile" where
  "state_file cr manager = \<lparr> sf_magic = ''PPKS'', sf_version = 1, sf_manager_bytes = sc_manager_bytes cr,
     sf_manager = manager, sf_digest = zeros 32 \<rparr>"

definition poison_package_state_parent :: "string \<Rightarrow> string option" where
  "poison_package_state_parent state_path =
    (if \<not> poison_package_storage_root_valid (Some state_path) then None
     else case rev (dropWhile (\<lambda>c. c \<noteq> CHR ''/'') (rev state_path)) of
            [] \<Rightarrow> None
          | [c] \<Rightarrow> None
          | p \<Rightarrow> Some (butlast p))"

text \<open>The parent directory is made or found, or the save fails (\<open>mkdir\<close>).\<close>

definition poison_package_manager_save :: "StateCrypto \<Rightarrow> bool \<Rightarrow> PoisonPackageStateFile ReplaceIo \<Rightarrow>
    PoisonPackageManager \<Rightarrow> string \<Rightarrow> PoisonPackageStateFile Disk \<Rightarrow> PoisonPackageStateFile Disk \<times> bool" where
  "poison_package_manager_save cr mkdir io manager state_path disk =
    (if \<not> poison_package_manager_persisted_valid manager then (disk, False)
     else if poison_package_state_parent state_path = None \<or>
             length (partial_path state_path) \<ge> POISON_PACKAGE_MANIFEST_PATH_MAX + 1
     then (disk, False)
     else
       let partial = partial_path state_path; state = state_file cr manager;
           r1 = (case poison_package_state_digest cr state of
                   None \<Rightarrow> (disk, False)
                 | Some digest \<Rightarrow>
                     if mkdir then write_file (ri_write io) partial (state \<lparr> sf_digest := digest \<rparr>) disk
                     else (disk, False));
           (d, ok) = (if snd r1 then storage_common_rename (ri_rename io) partial state_path (fst r1) else r1)
       in if ok then (d, True) else (fst (storage_simply_remove (ri_clean io) partial d), False))"

definition poison_package_manager_load :: "StateCrypto \<Rightarrow> string \<Rightarrow> PoisonPackageStateFile Disk \<Rightarrow>
    PoisonPackageManager option" where
  "poison_package_manager_load cr state_path disk =
    (if \<not> poison_package_storage_root_valid (Some state_path) then None
     else case disk state_path of
            Holds state \<Rightarrow>
              if sf_magic state = ''PPKS'' \<and> sf_version state = 1 \<and>
                 sf_manager_bytes state = sc_manager_bytes cr \<and>
                 poison_package_state_digest cr state = Some (sf_digest state) \<and>
                 poison_package_manager_persisted_valid (sf_manager state)
              then Some (sf_manager state) else None
          | _ \<Rightarrow> None)"

section \<open>Recovery at system start\<close>

definition quarantine_record :: "PoisonPackageManager \<Rightarrow> nat \<Rightarrow> PoisonPackageManager" where
  "quarantine_record manager index =
    (let record = pm_records manager ! index in
     put_record manager index (record \<lparr> pr_transaction := quarantine_transaction (pr_transaction record) \<rparr>) True)"

definition recover_index :: "nat \<Rightarrow> PoisonPackageManager \<times> 'a Volume \<times> bool \<Rightarrow> PoisonPackageManager \<times> 'a Volume \<times> bool" where
  "recover_index index = (\<lambda>(manager, storage, changed).
    let record = pm_records manager ! index; transaction = pr_transaction record in
    if \<not> pr_occupied record then (manager, storage, changed)
    else if pt_state transaction = PoisonPackageRemoved then (manager, storage, changed)
    else
      let activating = (cu_state (pt_content_update transaction) = PoisonContentUpdateActivating);
          committed = (pt_state transaction = PoisonPackageActive \<or>
            pt_state transaction = PoisonPackageDisabled \<or> pt_state transaction = PoisonPackageInstalled);
          had_previous = (pt_rollback_state transaction \<noteq> PoisonPackageRemoved);
          (storage, recovered) = poison_package_storage_recover_record poison_package_storage_layout_default
            (Some (pr_package_id record)) (committed \<and> \<not> activating) had_previous activating storage
      in if \<not> recovered then (quarantine_record manager index, storage, True)
         else if activating
         then let (manager', reported) = poison_package_manager_report_health manager
                    (Some (pr_package_id record)) False
              in if reported then (manager', storage, True)
                 else (quarantine_record manager' index, storage, True)
         else (manager, storage, changed))"

definition poison_packages_recover_storage_state :: "(PoisonPackageManager \<Rightarrow> 'd \<Rightarrow> 'd \<times> bool) \<Rightarrow>
    PoisonPackageManager \<Rightarrow> 'a Volume \<Rightarrow> 'd \<Rightarrow> PoisonPackageManager \<times> 'a Volume \<times> 'd \<times> bool" where
  "poison_packages_recover_storage_state save_state manager storage disk =
    (let (manager, storage, changed) =
           fold recover_index [0..<POISON_PACKAGE_MAX_RECORDS] (manager, storage, False)
     in if \<not> changed then (manager, storage, disk, True)
        else let (disk, saved) = save_state manager disk in (manager, storage, disk, saved))"

section \<open>The directories of a package\<close>

abbreviation "default_layout \<equiv> poison_package_storage_layout_default"

definition candidate_dir :: "string \<Rightarrow> string" where
  "candidate_dir k = POISON_PACKAGE_MANAGED_ROOT @ ''/'' @ k @ ''/candidate''"

definition rollback_dir :: "string \<Rightarrow> string" where
  "rollback_dir k = POISON_PACKAGE_MANAGED_ROOT @ ''/'' @ k @ ''/rollback''"

definition quarantine_dir :: "string \<Rightarrow> string" where
  "quarantine_dir k = POISON_PACKAGE_MANAGED_ROOT @ ''/'' @ k @ ''/quarantine''"

definition swap_dir :: "string \<Rightarrow> string" where
  "swap_dir k = POISON_PACKAGE_MANAGED_ROOT @ ''/'' @ k @ ''/swap''"

definition active_dir :: "string \<Rightarrow> string" where
  "active_dir k = POISON_PACKAGE_ACTIVE_ROOT @ ''/'' @ k"

lemmas dir_defs = candidate_dir_def rollback_dir_def quarantine_dir_def swap_dir_def active_dir_def

lemma dirs_differ [simp]:
  "candidate_dir k \<noteq> rollback_dir k" "candidate_dir k \<noteq> quarantine_dir k" "candidate_dir k \<noteq> swap_dir k"
  "candidate_dir k \<noteq> active_dir k" "rollback_dir k \<noteq> quarantine_dir k" "rollback_dir k \<noteq> swap_dir k"
  "rollback_dir k \<noteq> active_dir k" "quarantine_dir k \<noteq> swap_dir k" "quarantine_dir k \<noteq> active_dir k"
  "swap_dir k \<noteq> active_dir k"
  by (simp_all add: dir_defs)

lemmas dirs_differ' [simp] = dirs_differ [symmetric]

lemma default_roots:
  "poison_package_storage_root_valid (Some POISON_PACKAGE_MANAGED_ROOT)"
  "poison_package_storage_root_valid (Some POISON_PACKAGE_ACTIVE_ROOT)"
  "sl_managed_root default_layout = POISON_PACKAGE_MANAGED_ROOT"
  "sl_active_root default_layout = POISON_PACKAGE_ACTIVE_ROOT"
  by (simp_all add: poison_package_storage_root_valid_def poison_package_storage_layout_default_def
      poison_package_storage_layout_init_def)

lemma default_paths:
  assumes "poison_package_id_valid (Some k)"
  shows "candidate_path default_layout (Some k) = Some (candidate_dir k)"
    "rollback_path default_layout (Some k) = Some (rollback_dir k)"
    "quarantine_path default_layout (Some k) = Some (quarantine_dir k)"
    "swap_path default_layout (Some k) = Some (swap_dir k)"
    "active_path default_layout (Some k) = Some (active_dir k)"
proof -
  have "length k \<le> 64"
    using assms by (simp add: poison_package_id_valid_def poison_package_text_valid_def split: if_splits)
  then show "candidate_path default_layout (Some k) = Some (candidate_dir k)"
    "rollback_path default_layout (Some k) = Some (rollback_dir k)"
    "quarantine_path default_layout (Some k) = Some (quarantine_dir k)"
    "swap_path default_layout (Some k) = Some (swap_dir k)"
    "active_path default_layout (Some k) = Some (active_dir k)"
    using assms
    by (simp_all add: candidate_path_def rollback_path_def quarantine_path_def swap_path_def active_path_def
        poison_package_storage_path_def default_roots dir_defs)
qed

lemma active_root_parents:
  "parent_prefixes POISON_PACKAGE_ACTIVE_ROOT = [''/ext'', ''/ext/apps'']"
  by (simp add: parent_prefixes_def upt_rec)

lemma mkdir_each_other:
  "q \<notin> set ps \<Longrightarrow> vo_entry (fst (mkdir_each ps v)) q = vo_entry v q"
  by (induction ps arbitrary: v) (auto simp: split_beta)

lemma mkdir_each_sound:
  "(sound_volume v \<longrightarrow> sound_volume (fst (mkdir_each ps v))) \<and>
   (working_volume v \<longrightarrow> working_volume (fst (mkdir_each ps v)))"
  by (induction ps arbitrary: v) (auto simp: split_beta)

text \<open>Making the active root never touches the directories of a package.\<close>

lemma mkdir_active [simp]:
  "vo_entry (fst (poison_package_storage_mkdir_tree POISON_PACKAGE_ACTIVE_ROOT v)) (candidate_dir k) =
     vo_entry v (candidate_dir k)"
  "vo_entry (fst (poison_package_storage_mkdir_tree POISON_PACKAGE_ACTIVE_ROOT v)) (rollback_dir k) =
     vo_entry v (rollback_dir k)"
  "vo_entry (fst (poison_package_storage_mkdir_tree POISON_PACKAGE_ACTIVE_ROOT v)) (quarantine_dir k) =
     vo_entry v (quarantine_dir k)"
  "vo_entry (fst (poison_package_storage_mkdir_tree POISON_PACKAGE_ACTIVE_ROOT v)) (swap_dir k) =
     vo_entry v (swap_dir k)"
  "vo_entry (fst (poison_package_storage_mkdir_tree POISON_PACKAGE_ACTIVE_ROOT v)) (active_dir k) =
     vo_entry v (active_dir k)"
  "sound_volume v \<Longrightarrow> sound_volume (fst (poison_package_storage_mkdir_tree POISON_PACKAGE_ACTIVE_ROOT v))"
  "working_volume v \<Longrightarrow> working_volume (fst (poison_package_storage_mkdir_tree POISON_PACKAGE_ACTIVE_ROOT v))"
  by (simp_all add: poison_package_storage_mkdir_tree_def default_roots active_root_parents mkdir_each_other
      mkdir_each_sound dir_defs del: mkdir_each.simps)

section \<open>Calls on a sound volume\<close>

text \<open>The five entries of a package, in the order active, rollback, candidate, quarantine, swap.\<close>

definition dirs :: "string \<Rightarrow> 'a Volume \<Rightarrow> 'a Entry \<times> 'a Entry \<times> 'a Entry \<times> 'a Entry \<times> 'a Entry" where
  "dirs k v = (vo_entry v (active_dir k), vo_entry v (rollback_dir k), vo_entry v (candidate_dir k),
     vo_entry v (quarantine_dir k), vo_entry v (swap_dir k))"

lemma sound_tree [simp]:
  "sound_volume v \<Longrightarrow> poison_package_storage_exists v p True \<longleftrightarrow> is_tree (vo_entry v p)"
  by (cases "vo_entry v p") (simp_all add: poison_package_storage_exists_def)

lemma is_tree_iff: "is_tree e \<longleftrightarrow> (\<exists>c. e = Tree c)"
  by (cases e) simp_all

text \<open>A rename or a removal on a sound volume either happens or changes no entry.\<close>

lemma rename_outcome:
  assumes "sound_volume v" "vo_entry v p = Tree c" "p \<noteq> q"
  obtains (moved) w where "volume_rename p q v = (w, True)" "sound_volume w" "\<not> is_tree (vo_entry v q)"
      "vo_entry v q = Missing" "vo_entry w = (vo_entry v)(q := Tree c, p := Missing)"
    | (stayed) w where "volume_rename p q v = (w, False)" "sound_volume w" "vo_entry w = vo_entry v"
proof (cases "vo_entry v q = Missing")
  case True
  then show ?thesis
    using assms moved [of "fst (volume_rename p q v)"] stayed [of "fst (volume_rename p q v)"]
      sound_outcome [OF assms(1)]
    by (auto simp: volume_rename_def Let_def)
next
  case False
  then have "volume_rename p q v = (v, False)"
    using assms by (cases "vo_entry v q") (simp_all add: volume_rename_def)
  then show ?thesis using assms(1) stayed by blast
qed

lemma remove_outcome:
  assumes "sound_volume v"
  obtains (gone) w where "poison_package_storage_remove_if_present p v = (w, True)" "sound_volume w"
      "vo_entry w = (vo_entry v)(p := Missing)"
    | (stayed) w where "poison_package_storage_remove_if_present p v = (w, False)" "sound_volume w"
      "vo_entry w = vo_entry v"
proof -
  have u: "\<not> vo_unreadable v p" using assms by (simp add: sound_volume_def)
  show ?thesis
    using u gone [of "fst (poison_package_storage_remove_if_present p v)"]
      stayed [of "fst (poison_package_storage_remove_if_present p v)"] sound_outcome [OF assms] assms
    by (cases "vo_entry v p = Missing")
      (auto simp: poison_package_storage_remove_if_present_def volume_remove_def fun_upd_idem)
qed

lemma working_rename:
  assumes "working_volume v" "vo_entry v p = Tree c" "vo_entry v q = Missing" "p \<noteq> q"
  obtains w where "volume_rename p q v = (w, True)" "working_volume w"
    "vo_entry w = (vo_entry v)(q := Tree c, p := Missing)"
  using assms that [of "fst (volume_rename p q v)"]
  by (simp add: volume_rename_def Let_def working_volume_def entry_exists_def)

lemma working_removal:
  assumes "working_volume v"
  obtains w where "poison_package_storage_remove_if_present p v = (w, True)" "working_volume w"
    "vo_entry w = (vo_entry v)(p := Missing)"
  using assms that [of "fst (poison_package_storage_remove_if_present p v)"]
  by (cases "vo_entry v p = Missing")
    (simp_all add: poison_package_storage_remove_if_present_def volume_remove_def working_volume_def fun_upd_idem)

section \<open>Interrupted updates\<close>

definition restart :: "'a Volume \<Rightarrow> 'a Volume" where
  "restart v = v \<lparr> vo_outcomes := \<lambda>n. Works \<rparr>"

lemma restart_simps [simp]: "vo_entry (restart v) = vo_entry v" "dirs k (restart v) = dirs k v"
  "sound_volume v \<Longrightarrow> working_volume (restart v)"
  by (simp_all add: restart_def dirs_def working_volume_def sound_volume_def)

lemma activate_outcomes:
  assumes "poison_package_id_valid (Some k)" "sound_volume v"
    and "dirs k v = (Tree old, r, Tree new, q, Missing)"
    and "poison_package_storage_activate default_layout (Some k) v = (w, ok)"
  shows "sound_volume w \<and> (if ok then dirs k w = (Tree new, Tree old, Missing, q, Missing)
     else dirs k w \<in> {(Tree old, r, Tree new, q, Missing), (Tree old, Missing, Tree new, q, Missing),
       (Missing, Tree old, Tree new, q, Missing)})"
proof -
  let ?v = "fst (poison_package_storage_mkdir_tree POISON_PACKAGE_ACTIVE_ROOT v)"
  have e: "vo_entry v (active_dir k) = Tree old" "vo_entry v (rollback_dir k) = r"
    "vo_entry v (candidate_dir k) = Tree new" "vo_entry v (quarantine_dir k) = q"
    "vo_entry v (swap_dir k) = Missing"
    using assms(3) by (simp_all add: dirs_def)
  note act = assms(4) [unfolded poison_package_storage_activate_def default_paths [OF assms(1)]]
  show ?thesis
  proof (cases "snd (poison_package_storage_mkdir_tree POISON_PACKAGE_ACTIVE_ROOT v)")
    case False
    then show ?thesis
      using act assms(2) e by (auto simp: Let_def split_beta if_ok_def default_roots dirs_def)
  next
    case True
    have v: "sound_volume ?v" using assms(2) by simp
    show ?thesis
    proof (rule remove_outcome [OF v, of "rollback_dir k"])
      fix w1 assume 1: "poison_package_storage_remove_if_present (rollback_dir k) ?v = (w1, False)"
        "sound_volume w1" "vo_entry w1 = vo_entry ?v"
      then show ?thesis
        using act assms(2) e True by (auto simp: Let_def split_beta if_ok_def default_roots dirs_def)
    next
      fix w1 assume 1: "poison_package_storage_remove_if_present (rollback_dir k) ?v = (w1, True)"
        "sound_volume w1" "vo_entry w1 = (vo_entry ?v)(rollback_dir k := Missing)"
      have a1: "vo_entry w1 (active_dir k) = Tree old" using 1(3) e by simp
      show ?thesis
      proof (rule rename_outcome [OF 1(2) a1, of "rollback_dir k"])
        fix w2 assume 2: "volume_rename (active_dir k) (rollback_dir k) w1 = (w2, False)"
          "sound_volume w2" "vo_entry w2 = vo_entry w1"
        then show ?thesis
          using act assms(2) e True 1 by (auto simp: Let_def split_beta if_ok_def default_roots dirs_def)
      next
        fix w2 assume 2: "volume_rename (active_dir k) (rollback_dir k) w1 = (w2, True)" "sound_volume w2"
          "vo_entry w2 = (vo_entry w1)(rollback_dir k := Tree old, active_dir k := Missing)"
        have a2: "vo_entry w2 (candidate_dir k) = Tree new" using 1(3) 2(3) e by simp
        show ?thesis
        proof (rule rename_outcome [OF 2(2) a2, of "active_dir k"])
          fix w3 assume 3: "volume_rename (candidate_dir k) (active_dir k) w2 = (w3, False)"
            "sound_volume w3" "vo_entry w3 = vo_entry w2"
          have a3: "vo_entry w3 (rollback_dir k) = Tree old" using 2(3) 3(3) by simp
          show ?thesis
            by (rule rename_outcome [OF 3(2) a3, of "active_dir k"])
              (use act assms(2) e True 1 2 3 in
                \<open>auto simp: Let_def split_beta if_ok_def default_roots dirs_def\<close>)
        next
          fix w3 assume "volume_rename (candidate_dir k) (active_dir k) w2 = (w3, True)"
            "sound_volume w3" "vo_entry w3 = (vo_entry w2)(active_dir k := Tree new, candidate_dir k := Missing)"
          then show ?thesis
            using act assms(2) e True 1 2 by (auto simp: Let_def split_beta if_ok_def default_roots dirs_def)
        qed simp_all
      qed simp_all
    qed
  qed
qed

text \<open>Recovery on a working volume computes; these are its steps.\<close>

lemma working_steps:
  assumes "working_volume v"
  shows "volume_rename p q v =
      (let source = vo_entry v p; destination = vo_entry v q in
       if source = Missing then (v, False)
       else if is_tree source \<and> (destination = Plain \<or> p = q) then (v, False)
       else if p = q then (v, True)
       else if is_tree destination then (v, False)
       else (volume_step v ((vo_entry v)(q := source, p := Missing)), True))"
    "poison_package_storage_remove_if_present p v =
      (if vo_entry v p = Missing then (v, True) else (volume_step v ((vo_entry v)(p := Missing)), True))"
  using assms
  by (simp_all add: volume_rename_def poison_package_storage_remove_if_present_def volume_remove_def
      working_volume_def entry_exists_def Let_def)

lemmas recover_eval = poison_package_storage_recover_record_def default_paths Let_def if_ok_def split_beta
  working_steps

lemma dirs_entries:
  assumes "dirs k v = (a, r, c, q, s)"
  shows "vo_entry v (active_dir k) = a" "vo_entry v (rollback_dir k) = r" "vo_entry v (candidate_dir k) = c"
    "vo_entry v (quarantine_dir k) = q" "vo_entry v (swap_dir k) = s"
  using assms by (simp_all add: dirs_def)

text \<open>Whatever an interrupted update of an installed package left behind, an uncommitted record gets the
  installed content back.\<close>

definition update_leftovers :: "'a list \<Rightarrow> 'a list \<Rightarrow> ('a Entry \<times> 'a Entry \<times> 'a Entry \<times> 'a Entry \<times> 'a Entry) set" where
  "update_leftovers old new = {d. \<exists>r q. q \<noteq> Plain \<and> d \<in>
     {(Tree old, r, Tree new, q, Missing), (Missing, Tree old, Tree new, q, Missing),
      (Tree new, Tree old, Missing, q, Missing), (Missing, Tree old, Missing, q, Missing),
      (Tree old, Missing, Missing, q, Missing)}}"

lemma recover_leftovers:
  assumes "poison_package_id_valid (Some k)" "working_volume v" "dirs k v \<in> update_leftovers old new"
  shows "snd (poison_package_storage_recover_record default_layout (Some k) False True discard v) \<and>
    working_volume (fst (poison_package_storage_recover_record default_layout (Some k) False True discard v)) \<and>
    vo_entry (fst (poison_package_storage_recover_record default_layout (Some k) False True discard v))
      (active_dir k) = Tree old"
proof -
  obtain r q where q: "q \<noteq> Plain" and "dirs k v \<in> {(Tree old, r, Tree new, q, Missing),
     (Missing, Tree old, Tree new, q, Missing), (Tree new, Tree old, Missing, q, Missing),
     (Missing, Tree old, Missing, q, Missing), (Tree old, Missing, Missing, q, Missing)}"
    using assms(3) by (auto simp: update_leftovers_def)
  then consider
      (before) "dirs k v = (Tree old, r, Tree new, q, Missing)"
    | (between) "dirs k v = (Missing, Tree old, Tree new, q, Missing)"
    | (after) "dirs k v = (Tree new, Tree old, Missing, q, Missing)"
    | (refused) "dirs k v = (Missing, Tree old, Missing, q, Missing)"
    | (returned) "dirs k v = (Tree old, Missing, Missing, q, Missing)"
    by blast
  then show ?thesis
  proof cases
    case before
    show ?thesis
      using assms(1,2) q by (cases q) (simp_all add: recover_eval dirs_entries [OF before])
  next
    case between
    show ?thesis
      using assms(1,2) q by (cases q) (simp_all add: recover_eval dirs_entries [OF between])
  next
    case after
    show ?thesis
      using assms(1,2) q by (cases q) (simp_all add: recover_eval dirs_entries [OF after])
  next
    case refused
    show ?thesis
      using assms(1,2) by (simp add: recover_eval dirs_entries [OF refused])
  next
    case returned
    show ?thesis
      using assms(1,2) by (simp add: recover_eval dirs_entries [OF returned])
  qed
qed

lemma report_outcomes:
  assumes "poison_package_id_valid (Some k)" "sound_volume v" "q \<noteq> Plain"
    and "dirs k v = (Tree new, Tree old, Missing, q, Missing)"
    and "poison_package_storage_report_health default_layout (Some k) False v = (w, ok)"
  shows "sound_volume w \<and> dirs k w \<in> update_leftovers old new \<and>
    (ok \<longrightarrow> dirs k w = (Tree old, Missing, Missing, Tree new, Missing))"
proof -
  note e = dirs_entries [OF assms(4)]
  note rep = assms(5) [unfolded poison_package_storage_report_health_def default_paths [OF assms(1)]]
  note eval = Let_def split_beta if_ok_def dirs_def update_leftovers_def
  show ?thesis
  proof (rule remove_outcome [OF assms(2), of "quarantine_dir k"])
    fix w1 assume "poison_package_storage_remove_if_present (quarantine_dir k) v = (w1, False)"
      "sound_volume w1" "vo_entry w1 = vo_entry v"
    then show ?thesis using rep assms(2,3) e by (auto simp: eval)
  next
    fix w1 assume 1: "poison_package_storage_remove_if_present (quarantine_dir k) v = (w1, True)"
      "sound_volume w1" "vo_entry w1 = (vo_entry v)(quarantine_dir k := Missing)"
    have a1: "vo_entry w1 (active_dir k) = Tree new" using 1(3) e by simp
    show ?thesis
    proof (rule rename_outcome [OF 1(2) a1, of "quarantine_dir k"])
      fix w2 assume "volume_rename (active_dir k) (quarantine_dir k) w1 = (w2, False)"
        "sound_volume w2" "vo_entry w2 = vo_entry w1"
      then show ?thesis using rep assms(2) e 1 by (auto simp: eval)
    next
      fix w2 assume 2: "volume_rename (active_dir k) (quarantine_dir k) w1 = (w2, True)" "sound_volume w2"
        "vo_entry w2 = (vo_entry w1)(quarantine_dir k := Tree new, active_dir k := Missing)"
      have a2: "vo_entry w2 (rollback_dir k) = Tree old" using 1(3) 2(3) e by simp
      show ?thesis
      proof (rule rename_outcome [OF 2(2) a2, of "active_dir k"])
        fix w3 assume 3: "volume_rename (rollback_dir k) (active_dir k) w2 = (w3, False)"
          "sound_volume w3" "vo_entry w3 = vo_entry w2"
        have a3: "vo_entry w3 (quarantine_dir k) = Tree new" using 2(3) 3(3) by simp
        show ?thesis
          by (rule rename_outcome [OF 3(2) a3, of "active_dir k"])
            (use rep assms(2) e 1 2 3 in \<open>auto simp: eval\<close>)
      next
        fix w3 assume "volume_rename (rollback_dir k) (active_dir k) w2 = (w3, True)"
          "sound_volume w3" "vo_entry w3 = (vo_entry w2)(active_dir k := Tree old, rollback_dir k := Missing)"
        then show ?thesis using rep assms(2) e 1 2 by (auto simp: eval)
      qed simp_all
    qed simp_all
  qed
qed

section \<open>Interruptions in the middle of a call\<close>

text \<open>Calls that end half way, with an honest volume: the content installed before is whole in the active or
  in the rollback directory.\<close>

definition survives :: "string \<Rightarrow> 'a list \<Rightarrow> 'a Volume \<Rightarrow> bool" where
  "survives k old v \<longleftrightarrow> honest_volume v \<and> vo_entry v (swap_dir k) = Missing \<and>
     (vo_entry v (active_dir k) = Tree old \<or> vo_entry v (rollback_dir k) = Tree old)"

lemma honest_tree [simp]:
  "honest_volume v \<Longrightarrow> poison_package_storage_exists v p True \<longleftrightarrow> is_tree (vo_entry v p)"
  by (cases "vo_entry v p") (simp_all add: poison_package_storage_exists_def entry_exists_def honest_volume_def)

lemma mkdir_each_honest: "honest_volume v \<Longrightarrow> honest_volume (fst (mkdir_each ps v))"
  by (induction ps arbitrary: v) (auto simp: split_beta)

lemma mkdir_active_honest [simp]:
  "honest_volume v \<Longrightarrow> honest_volume (fst (poison_package_storage_mkdir_tree POISON_PACKAGE_ACTIVE_ROOT v))"
  by (simp add: poison_package_storage_mkdir_tree_def mkdir_each_honest del: mkdir_each.simps)

lemma removal_honest [simp]:
  "honest_volume v \<Longrightarrow> honest_volume (fst (poison_package_storage_remove_if_present p v))"
  "x \<noteq> p \<Longrightarrow> vo_entry (fst (poison_package_storage_remove_if_present p v)) x = vo_entry v x"
  by (auto simp: poison_package_storage_remove_if_present_def)

text \<open>The moves of the operations keep the installed content.\<close>

lemma survives_moves:
  assumes "survives k old v"
  shows "survives k old (fst (volume_rename (active_dir k) (rollback_dir k) v))"
    "survives k old (fst (volume_rename (rollback_dir k) (active_dir k) v))"
    "survives k old (fst (volume_rename (candidate_dir k) (active_dir k) v))"
    "survives k old (fst (volume_rename (quarantine_dir k) (active_dir k) v))"
    "survives k old (fst (poison_package_storage_remove_if_present (quarantine_dir k) v))"
    "survives k old (fst (poison_package_storage_mkdir_tree POISON_PACKAGE_ACTIVE_ROOT v))"
  using assms rename_moves [of v "active_dir k" old "rollback_dir k"]
    rename_moves [of v "rollback_dir k" old "active_dir k"]
    rename_elsewhere [of v "rollback_dir k" old "active_dir k" "rollback_dir k"]
    rename_elsewhere [of v "active_dir k" old "rollback_dir k" "active_dir k"]
    rename_elsewhere [of v "active_dir k" old "candidate_dir k" "active_dir k"]
    rename_elsewhere [of v "active_dir k" old "quarantine_dir k" "active_dir k"]
  by (auto simp: survives_def)

lemma activate_survives:
  assumes "poison_package_id_valid (Some k)" "honest_volume v"
    and "vo_entry v (active_dir k) = Tree old" "vo_entry v (swap_dir k) = Missing"
    and "poison_package_storage_activate default_layout (Some k) v = (w, ok)"
  shows "survives k old w \<and> (ok \<longrightarrow> vo_entry w (rollback_dir k) = Tree old)"
proof -
  note act = assms(5) [unfolded poison_package_storage_activate_def default_paths [OF assms(1)]]
  let ?v1 = "fst (poison_package_storage_mkdir_tree POISON_PACKAGE_ACTIVE_ROOT v)"
  let ?r2 = "poison_package_storage_remove_if_present (rollback_dir k) ?v1"
  let ?r3 = "volume_rename (active_dir k) (rollback_dir k) (fst ?r2)"
  let ?r4 = "volume_rename (candidate_dir k) (active_dir k) (fst ?r3)"
  have v: "survives k old v" using assms(2-4) by (simp add: survives_def)
  have v1: "survives k old ?v1" using survives_moves(6) [OF v] .
  have a1: "vo_entry ?v1 (active_dir k) = Tree old" "honest_volume ?v1" using assms(2,3) by simp_all
  have v2: "survives k old (fst ?r2)"
    using assms(2-4) by (simp add: survives_def)
  have a2: "vo_entry (fst ?r2) (active_dir k) = Tree old" "honest_volume (fst ?r2)" using a1 by simp_all
  have v3: "survives k old (fst ?r3)" using survives_moves(1) [OF v2] .
  have v4: "survives k old (fst ?r4)" using survives_moves(3) [OF v3] .
  have r3: "vo_entry (fst ?r3) (rollback_dir k) = Tree old" if "snd ?r3"
    using rename_done [OF a2(2) _ a2(1), of "rollback_dir k" "fst ?r3"] that by (simp add: prod_eq_iff)
  show ?thesis
  proof (cases "snd (poison_package_storage_mkdir_tree POISON_PACKAGE_ACTIVE_ROOT v) \<and> is_tree (vo_entry v (candidate_dir k))")
    case False
    then show ?thesis
      using act v v1 assms(2,3) a1 by (auto simp: Let_def split_beta if_ok_def default_roots split: if_splits)
  next
    case made: True
    show ?thesis
    proof (cases "snd ?r2")
      case False
      then show ?thesis
        using act made assms(2) a1 a2 v2
        by (auto simp: Let_def split_beta if_ok_def default_roots split: if_splits)
    next
      case removed: True
      let ?s = "fst (if snd ?r3 then ?r4 else ?r3)"
      have w: "w = ?s \<or> w = fst (volume_rename (rollback_dir k) (active_dir k) ?s)"
        and ok: "ok \<Longrightarrow> snd ?r3 \<and> w = ?s"
        using act made removed assms(2) a1
        by (auto simp: Let_def split_beta if_ok_def default_roots split: if_splits)
      have "survives k old ?s" using v3 v4 by simp
      then have "survives k old w" using w survives_moves(2) by blast
      moreover have "vo_entry w (rollback_dir k) = Tree old" if ok
        using ok [OF that] r3 by simp
      ultimately show ?thesis by blast
    qed
  qed
qed

lemma report_survives:
  assumes "poison_package_id_valid (Some k)" "survives k old v" "vo_entry v (rollback_dir k) = Tree old"
  shows "survives k old (fst (poison_package_storage_report_health default_layout (Some k) False v))"
proof -
  let ?r1 = "poison_package_storage_remove_if_present (quarantine_dir k) v"
  let ?r2 = "volume_rename (active_dir k) (quarantine_dir k) (fst ?r1)"
  have v1: "survives k old (fst ?r1)" "vo_entry (fst ?r1) (rollback_dir k) = Tree old"
    using survives_moves(5) [OF assms(2)] assms(3) by simp_all
  then have v2: "survives k old (fst ?r2)" by (simp add: survives_def)
  note survive = survives_moves(2,4)
  show ?thesis
    using assms(1,2) v1(1) v2 survive [OF v1(1)] survive [OF v2] survive(2) [OF survive(1) [OF v2]] survive(2) [OF assms(2)]
    by (simp add: poison_package_storage_report_health_def default_paths Let_def split_beta if_ok_def)
qed

lemma recover_survives:
  fixes discard
  assumes "poison_package_id_valid (Some k)" "working_volume v" "survives k old v"
  defines "x \<equiv> fst (poison_package_storage_recover_record default_layout (Some k) False True discard v)"
  shows "vo_entry x (active_dir k) = Tree old \<or> vo_entry x (rollback_dir k) = Tree old \<or>
    vo_entry x (quarantine_dir k) = Tree old"
proof -
  obtain a r c q where d: "dirs k v = (a, r, c, q, Missing)" "a = Tree old \<or> r = Tree old"
    using assms(3) by (auto simp: survives_def dirs_def)
  note entries = dirs_entries [OF d(1)]
  from d(2) show ?thesis
  proof
    assume "a = Tree old"
    then show ?thesis
      using assms(1,2) unfolding x_def
      by (cases "is_tree c"; cases "is_tree r"; cases q) (simp_all add: recover_eval entries)
  next
    assume "r = Tree old"
    then show ?thesis
      using assms(1,2) unfolding x_def
      by (cases a; cases "is_tree c"; cases q) (simp_all add: recover_eval entries)
  qed
qed


text \<open>An update whose new content reports unhealthy is undone in the storage: after a successful
  activation and a successful negative report, the installed content is active again and the
  rejected content is in quarantine.\<close>

theorem unhealthy_update_undone:
  assumes "poison_package_id_valid (Some k)" and "sound_volume v"
    and "dirs k v = (Tree old, r, Tree new, q, Missing)" and "q \<noteq> Plain"
    and "poison_package_storage_activate default_layout (Some k) v = (w, True)"
    and "poison_package_storage_report_health default_layout (Some k) False w = (u, True)"
  shows "dirs k u = (Tree old, Missing, Missing, Tree new, Missing)"
  using activate_outcomes [OF assms(1,2,3,5)] report_outcomes [OF assms(1) _ assms(4) _ assms(6)] by simp

section \<open>A sample volume\<close>

definition sample_volume :: "(nat \<Rightarrow> nat Outcome) \<Rightarrow> nat Volume" where
  "sample_volume outcomes = \<lparr> vo_entry = (\<lambda>p. Missing)(''/ext'' := Tree [], ''/ext/apps'' := Tree [],
     POISON_PACKAGE_ACTIVE_ROOT := Tree [], active_dir ''maps'' := Tree [1], candidate_dir ''maps'' := Tree [2]),
     vo_unreadable = (\<lambda>p. False), vo_outcomes = outcomes \<rparr>"

lemma sample_id: "poison_package_id_valid (Some ''maps'')"
  by (simp add: poison_package_id_valid_def poison_package_text_valid_def isalnum_def lower_or_digit_def of_char_def)

lemma sample_dirs: "dirs ''maps'' (sample_volume outcomes) = (Tree [1], Missing, Tree [2], Missing, Missing)"
  by (simp add: sample_volume_def dirs_def dir_defs)

lemma sample_sound:
  "(\<forall>n. outcomes n = Works \<or> outcomes n = Refused) \<Longrightarrow> sound_volume (sample_volume outcomes)"
  by (simp add: sample_volume_def sound_volume_def)

lemma sample_mkdir:
  "poison_package_storage_mkdir_tree POISON_PACKAGE_ACTIVE_ROOT (sample_volume outcomes) = (sample_volume outcomes, True)"
  by (simp add: poison_package_storage_mkdir_tree_def default_roots active_root_parents
      poison_package_storage_exists_def entry_exists_def sample_volume_def dir_defs)

lemma rename_tree:
  assumes "sound_volume v" "vo_entry v p = Tree c" "vo_entry v q = Missing" "p \<noteq> q"
  shows "volume_rename p q v =
    (if vo_outcomes v 0 = Works then (volume_step v ((vo_entry v)(q := Tree c, p := Missing)), True)
     else (volume_step v (vo_entry v), False))"
  using assms sound_outcome [OF assms(1)] by (auto simp: volume_rename_def Let_def)

lemma sample_activate:
  assumes "\<forall>n. outcomes n = Works \<or> outcomes n = Refused" "outcomes 0 = Works"
  shows "snd (poison_package_storage_activate default_layout (Some ''maps'') (sample_volume outcomes)) \<longleftrightarrow>
    outcomes 1 = Works"
proof -
  let ?v = "sample_volume outcomes"
  have v: "sound_volume ?v" using assms(1) by (rule sample_sound)
  note e = dirs_entries [OF sample_dirs [of outcomes]]
  have out: "vo_outcomes ?v n = outcomes n" for n by (simp add: sample_volume_def)
  let ?w = "volume_step ?v ((vo_entry ?v)(rollback_dir ''maps'' := Tree [1], active_dir ''maps'' := Missing))"
  have gone: "poison_package_storage_remove_if_present (rollback_dir ''maps'') ?v = (?v, True)"
    using v e by (simp add: poison_package_storage_remove_if_present_def sound_volume_def)
  have first: "volume_rename (active_dir ''maps'') (rollback_dir ''maps'') ?v = (?w, True)"
    using rename_tree [OF v e(1,2)] out assms(2) by simp
  have "snd (volume_rename (candidate_dir ''maps'') (active_dir ''maps'') ?w) \<longleftrightarrow> outcomes 1 = Works"
    using rename_tree [of ?w "candidate_dir ''maps''" "[2]" "active_dir ''maps''"] v e out by simp
  then show ?thesis
    using v e by (simp add: poison_package_storage_activate_def default_paths sample_id default_roots sample_mkdir
        Let_def split_beta if_ok_def gone first)
qed


lemma working_activate:
  assumes "poison_package_id_valid (Some k)" "working_volume v"
  shows "working_volume (fst (poison_package_storage_activate default_layout (Some k) v))"
  using assms
  by (simp add: poison_package_storage_activate_def default_paths default_roots Let_def split_beta if_ok_def
      poison_package_storage_remove_if_present_def)

text \<open>Every call works and the new content reports unhealthy.\<close>

lemma unhealthy_update_undone_witness:
  "\<exists>w u. poison_package_storage_activate default_layout (Some ''maps'') (sample_volume (\<lambda>n. Works)) = (w, True) \<and>
     poison_package_storage_report_health default_layout (Some ''maps'') False w = (u, True) \<and>
     dirs ''maps'' u = (Tree [1], Missing, Missing, Tree [2], Missing)"
proof -
  let ?v = "sample_volume (\<lambda>n. Works)"
  have v: "sound_volume ?v" "working_volume ?v" by (simp_all add: sample_volume_def sound_volume_def working_volume_def)
  obtain w where w: "poison_package_storage_activate default_layout (Some ''maps'') ?v = (w, True)"
    using sample_activate [of "\<lambda>n. Works"] by (metis prod.collapse)
  then have "sound_volume w" and d: "dirs ''maps'' w = (Tree [2], Tree [1], Missing, Missing, Missing)"
    using activate_outcomes [OF sample_id v(1) sample_dirs w] by simp_all
  have ww: "working_volume w" using working_activate [OF sample_id v(2)] w by simp
  note e = dirs_entries [OF d]
  have out: "vo_outcomes w n = Works" for n using ww by (simp add: working_volume_def)
  let ?x = "volume_step w ((vo_entry w)(quarantine_dir ''maps'' := Tree [2], active_dir ''maps'' := Missing))"
  have gone: "poison_package_storage_remove_if_present (quarantine_dir ''maps'') w = (w, True)"
    using ww e by (simp add: poison_package_storage_remove_if_present_def working_volume_def)
  have first: "volume_rename (active_dir ''maps'') (quarantine_dir ''maps'') w = (?x, True)"
    using rename_tree [OF \<open>sound_volume w\<close> e(1,4)] out by simp
  have "snd (volume_rename (rollback_dir ''maps'') (active_dir ''maps'') ?x)"
    using rename_tree [of ?x "rollback_dir ''maps''" "[1]" "active_dir ''maps''"] ww e out by simp
  then have "snd (poison_package_storage_report_health default_layout (Some ''maps'') False w)"
    using ww e by (simp add: poison_package_storage_report_health_def default_paths sample_id
        Let_def split_beta if_ok_def gone first)
  then obtain u where u: "poison_package_storage_report_health default_layout (Some ''maps'') False w = (u, True)"
    by (metis prod.collapse)
  have "dirs ''maps'' u = (Tree [1], Missing, Missing, Tree [2], Missing)"
    by (rule unhealthy_update_undone [OF sample_id v(1) sample_dirs _ w u]) simp
  with w u show ?thesis by blast
qed

section \<open>Interrupted rollbacks\<close>

lemma rollback_outcomes:
  assumes "poison_package_id_valid (Some k)" "sound_volume v"
    and "dirs k v = (Tree a, Tree b, c, q, Missing)"
    and "poison_package_storage_rollback default_layout (Some k) v = (w, ok)"
  shows "sound_volume w \<and> (if ok then dirs k w = (Tree b, Tree a, c, q, Missing)
     else dirs k w \<in> {(Tree a, Tree b, c, q, Missing), (Missing, Tree b, c, q, Tree a),
       (Tree b, Missing, c, q, Tree a)})"
proof -
  note e = dirs_entries [OF assms(3)]
  note roll = assms(4) [unfolded poison_package_storage_rollback_def default_paths [OF assms(1)]]
  note eval = Let_def split_beta if_ok_def dirs_def
  have gone: "poison_package_storage_remove_if_present (swap_dir k) v = (v, True)"
    using assms(2) e by (simp add: poison_package_storage_remove_if_present_def sound_volume_def)
  show ?thesis
  proof (rule rename_outcome [OF assms(2) e(1), of "swap_dir k"])
    fix w1 assume "volume_rename (active_dir k) (swap_dir k) v = (w1, False)" "sound_volume w1" "vo_entry w1 = vo_entry v"
    then show ?thesis using roll assms(2) e gone by (auto simp: eval)
  next
    fix w1 assume 1: "volume_rename (active_dir k) (swap_dir k) v = (w1, True)" "sound_volume w1"
      "vo_entry w1 = (vo_entry v)(swap_dir k := Tree a, active_dir k := Missing)"
    have a1: "vo_entry w1 (rollback_dir k) = Tree b" "vo_entry w1 (swap_dir k) = Tree a"
      "vo_entry w1 (active_dir k) = Missing" using 1(3) e by simp_all
    show ?thesis
    proof (rule rename_outcome [OF 1(2) a1(1), of "active_dir k"])
      fix w2 assume 2: "volume_rename (rollback_dir k) (active_dir k) w1 = (w2, False)" "sound_volume w2"
        "vo_entry w2 = vo_entry w1"
      have a2: "vo_entry w2 (swap_dir k) = Tree a" using 2(3) a1 by simp
      show ?thesis
        by (rule rename_outcome [OF 2(2) a2, of "active_dir k"])
          (use roll assms(2) e gone 1 2 in \<open>auto simp: eval\<close>)
    next
      fix w2 assume 2: "volume_rename (rollback_dir k) (active_dir k) w1 = (w2, True)" "sound_volume w2"
        "vo_entry w2 = (vo_entry w1)(active_dir k := Tree b, rollback_dir k := Missing)"
      have a2: "vo_entry w2 (swap_dir k) = Tree a" using 2(3) a1 by simp
      show ?thesis
      proof (rule rename_outcome [OF 2(2) a2, of "rollback_dir k"])
        fix w3 assume "volume_rename (swap_dir k) (rollback_dir k) w2 = (w3, True)" "sound_volume w3"
          "vo_entry w3 = (vo_entry w2)(rollback_dir k := Tree a, swap_dir k := Missing)"
        then show ?thesis using roll assms(2) e gone 1 2 by (auto simp: eval)
      next
        fix w3 assume 3: "volume_rename (swap_dir k) (rollback_dir k) w2 = (w3, False)" "sound_volume w3"
          "vo_entry w3 = vo_entry w2"
        have a3: "vo_entry w3 (active_dir k) = Tree b" using 2(3) 3(3) by simp
        show ?thesis
        proof (rule rename_outcome [OF 3(2) a3, of "rollback_dir k"])
          fix w4 assume "volume_rename (active_dir k) (rollback_dir k) w3 = (w4, False)" "sound_volume w4"
            "vo_entry w4 = vo_entry w3"
          then show ?thesis using roll assms(2) e gone 1 2 3 by (auto simp: eval)
        next
          fix w4 assume 4: "volume_rename (active_dir k) (rollback_dir k) w3 = (w4, True)" "sound_volume w4"
            "vo_entry w4 = (vo_entry w3)(rollback_dir k := Tree b, active_dir k := Missing)"
          have a4: "vo_entry w4 (swap_dir k) = Tree a" using 2(3) 3(3) 4(3) a1 by simp
          show ?thesis
            by (rule rename_outcome [OF 4(2) a4, of "active_dir k"])
              (use roll assms(2) e gone 1 2 3 4 in \<open>auto simp: eval\<close>)
        qed simp_all
      qed simp_all
    qed simp_all
  qed simp_all
qed

lemma recover_rollback:
  assumes "poison_package_id_valid (Some k)" "working_volume v"
    and "dirs k v \<in> {(Tree a, Tree b, c, q, Missing), (Missing, Tree b, c, q, Tree a),
       (Tree b, Missing, c, q, Tree a)}"
  shows "snd (poison_package_storage_recover_record default_layout (Some k) True had_previous False v) \<and>
    dirs k (fst (poison_package_storage_recover_record default_layout (Some k) True had_previous False v)) =
      (Tree a, Tree b, c, q, Missing)"
proof -
  consider (still) "dirs k v = (Tree a, Tree b, c, q, Missing)"
    | (first) "dirs k v = (Missing, Tree b, c, q, Tree a)" | (second) "dirs k v = (Tree b, Missing, c, q, Tree a)"
    using assms(3) by blast
  then show ?thesis
  proof cases
    case still
    show ?thesis
      using assms(1,2) by (simp add: recover_eval dirs_def dirs_entries [OF still])
  next
    case first
    show ?thesis
      using assms(1,2) by (simp add: recover_eval dirs_def dirs_entries [OF first])
  next
    case second
    show ?thesis
      using assms(1,2) by (simp add: recover_eval dirs_def dirs_entries [OF second])
  qed
qed

text \<open>On a sound volume a rollback exchanges the active and the previous content or, refused or interrupted
  between its calls, leaves them to the recovery, which puts both back as they were: neither is ever lost, and no
  third state is left.\<close>

theorem rollback_exchanges_or_recovers:
  assumes "poison_package_id_valid (Some k)" and "sound_volume v"
    and "dirs k v = (Tree a, Tree b, c, q, Missing)"
    and "poison_package_storage_rollback default_layout (Some k) v = (w, exchanged)"
    and "poison_package_storage_recover_record default_layout (Some k) True had_previous False (restart w) = (x, ok)"
  shows "ok \<and> dirs k x = (if exchanged then (Tree b, Tree a, c, q, Missing) else (Tree a, Tree b, c, q, Missing))"
proof -
  note out = rollback_outcomes [OF assms(1-4)]
  then have w: "working_volume (restart w)" by simp
  show ?thesis
  proof (cases exchanged)
    case True
    then have "dirs k (restart w) = (Tree b, Tree a, c, q, Missing)" using out by simp
    then show ?thesis
      using recover_rollback [OF assms(1) w, of b a c q had_previous] assms(5) True by simp
  next
    case False
    then have "dirs k (restart w) \<in> {(Tree a, Tree b, c, q, Missing), (Missing, Tree b, c, q, Tree a),
       (Tree b, Missing, c, q, Tree a)}" using out by simp
    from recover_rollback [OF assms(1) w this, of had_previous] show ?thesis using assms(5) False by simp
  qed
qed

lemma rollback_exchanges_or_recovers_witness:
  "\<exists>w x. poison_package_storage_rollback default_layout (Some ''maps'')
       ((sample_volume (\<lambda>n. if n < 2 then Works else Refused)) \<lparr> vo_entry := (\<lambda>p. Missing)
          (active_dir ''maps'' := Tree [3], rollback_dir ''maps'' := Tree [2]) \<rparr>) = (w, False) \<and>
     poison_package_storage_recover_record default_layout (Some ''maps'') True True False (restart w) = (x, True) \<and>
     dirs ''maps'' x = (Tree [3], Tree [2], Missing, Missing, Missing)"
proof -
  define v where "v = (sample_volume (\<lambda>n. if n < 2 then Works else Refused)) \<lparr> vo_entry := (\<lambda>p. Missing)
          (active_dir ''maps'' := Tree [3], rollback_dir ''maps'' := Tree [2]) \<rparr>"
  let ?r = "poison_package_storage_rollback default_layout (Some ''maps'') v"
  let ?x = "poison_package_storage_recover_record default_layout (Some ''maps'') True True False (restart (fst ?r))"
  have v: "sound_volume v" by (simp add: sound_volume_def sample_volume_def v_def)
  have d: "dirs ''maps'' v = (Tree [3], Tree [2], Missing, Missing, Missing)" by (simp add: dirs_def v_def)
  have x: "snd ?x \<and> dirs ''maps'' (fst ?x) =
      (if snd ?r then (Tree [2], Tree [3], Missing, Missing, Missing) else (Tree [3], Tree [2], Missing, Missing, Missing))"
    by (rule rollback_exchanges_or_recovers [OF sample_id v d]) simp_all
  have out: "vo_outcomes v 0 = Works" "vo_outcomes v (Suc 0) = Works" "vo_outcomes v (Suc (Suc 0)) = Refused"
    by (simp_all add: sample_volume_def v_def)
  note e = dirs_entries [OF d]
  have gone: "poison_package_storage_remove_if_present (swap_dir ''maps'') v = (v, True)"
    using v e by (simp add: poison_package_storage_remove_if_present_def sound_volume_def)
  obtain w1 where w1: "volume_rename (active_dir ''maps'') (swap_dir ''maps'') v = (w1, True)" "sound_volume w1"
    "vo_entry w1 = (vo_entry v)(swap_dir ''maps'' := Tree [3], active_dir ''maps'' := Missing)"
    "vo_outcomes w1 = (\<lambda>n. vo_outcomes v (Suc n))"
    using rename_tree [OF v e(1,5)] out v by simp
  obtain w2 where w2: "volume_rename (rollback_dir ''maps'') (active_dir ''maps'') w1 = (w2, True)" "sound_volume w2"
    "vo_entry w2 = (vo_entry w1)(active_dir ''maps'' := Tree [2], rollback_dir ''maps'' := Missing)"
    "vo_outcomes w2 = (\<lambda>n. vo_outcomes w1 (Suc n))"
    using rename_tree [of w1 "rollback_dir ''maps''" "[2]" "active_dir ''maps''"] w1 e out by simp
  have "\<not> snd (volume_rename (swap_dir ''maps'') (rollback_dir ''maps'') w2)"
    using rename_tree [of w2 "swap_dir ''maps''" "[3]" "rollback_dir ''maps''"] w1 w2 out by simp
  then have "\<not> snd ?r"
    using v e by (simp add: poison_package_storage_rollback_def default_paths sample_id Let_def split_beta
        if_ok_def gone w1(1) w2(1))
  then show ?thesis
    using x unfolding v_def [symmetric]
    by (intro exI [of _ "fst ?r"] exI [of _ "fst ?x"]) (simp add: prod_eq_iff)
qed

section \<open>Recovery of all records\<close>

text \<open>What the recovery at system start makes of one record, depending on whether its directories could
  be brought back in line.\<close>

definition settle :: "bool \<Rightarrow> PoisonPackageRecord \<Rightarrow> PoisonPackageRecord" where
  "settle recovered r =
    (if pt_state (pr_transaction r) = PoisonPackageRemoved then r
     else if \<not> recovered then r \<lparr> pr_transaction := quarantine_transaction (pr_transaction r) \<rparr>
     else if cu_state (pt_content_update (pr_transaction r)) = PoisonContentUpdateActivating
     then fst (record_step (PkReport (pr_package_id r) False) r)
     else r)"

lemma settle_fixed [simp]: "pr_occupied (settle b r) = pr_occupied r" "pr_package_id (settle b r) = pr_package_id r"
  by (simp_all add: settle_def record_step_fixed del: record_step.simps)

lemma settle_inv: "record_inv r \<Longrightarrow> record_inv (settle b r)"
  by (simp add: settle_def record_quarantine_inv record_report_inv del: record_step.simps)

lemma settle_not_activating:
  assumes "record_inv r" "pt_state (pr_transaction r) \<noteq> PoisonPackageRemoved"
  shows "cu_state (pt_content_update (pr_transaction (settle b r))) \<noteq> PoisonContentUpdateActivating"
  using record_inv_parts [OF assms(1)] assms(2)
  by (auto simp: settle_def quarantine_transaction_def with_transaction_def package_report_form split_beta)

lemma find_index_map_cong:
  "map (\<lambda>r. (p r, q r)) xs = map (\<lambda>r. (p r, q r)) ys \<Longrightarrow>
   find_index (\<lambda>r. p r \<and> q r = k) xs = find_index (\<lambda>r. p r \<and> q r = k) ys"
proof (induction xs arbitrary: ys)
  case (Cons x xs)
  then show ?case by (cases ys) auto
qed simp

lemma find_at:
  assumes "package_inv m" "i < 8" "pr_occupied (pm_records m ! i)"
  shows "poison_package_manager_find_mutable m (Some (pr_package_id (pm_records m ! i))) = Some i"
proof -
  have m: "length (pm_records m) = 8" "tbl_unique pr_occupied pr_package_id (pm_records m)"
    using assms(1) by (simp_all add: package_inv_def)
  show ?thesis
    unfolding poison_package_manager_find_mutable_def option.case
  proof (rule find_index_unique)
    fix j assume "j < length (pm_records m)"
      "pr_occupied (pm_records m ! j) \<and> pr_package_id (pm_records m ! j) = pr_package_id (pm_records m ! i)"
    then show "j = i"
      using tbl_unique_nth [OF m(2), of i j] tbl_unique_nth [OF m(2), of j i] m(1) assms(2,3)
      by (cases j i rule: linorder_cases) simp_all
  qed (use m(1) assms(2,3) in simp_all)
qed

text \<open>Whether the directories of a record could be brought back in line, in the volume as its turn finds it.\<close>

definition record_recovered :: "PoisonPackageRecord \<Rightarrow> 'a Volume \<Rightarrow> bool" where
  "record_recovered r storage =
    (let t = pr_transaction r;
         activating = (cu_state (pt_content_update t) = PoisonContentUpdateActivating);
         committed = (pt_state t \<in> {PoisonPackageActive, PoisonPackageDisabled, PoisonPackageInstalled})
     in snd (poison_package_storage_recover_record default_layout (Some (pr_package_id r))
          (committed \<and> \<not> activating) (pt_rollback_state t \<noteq> PoisonPackageRemoved) activating storage))"

text \<open>The manager, the volume and the mark of a change after the turns of the records before the \<open>n\<close>-th.\<close>

definition recovery_state :: "nat \<Rightarrow> PoisonPackageManager \<Rightarrow> 'a Volume \<Rightarrow> PoisonPackageManager \<times> 'a Volume \<times> bool" where
  "recovery_state n m v = fold recover_index [0..<n] (m, v, False)"

lemma recovery_state_simps:
  "recovery_state 0 m v = (m, v, False)"
  "recovery_state (Suc n) m v = recover_index n (recovery_state n m v)"
  by (simp_all add: recovery_state_def)

lemma recover_index_step:
  assumes "package_inv m" "i < 8" "recover_index i (m, s, c) = (m', s', c')"
  shows "pm_records m' = (pm_records m)[i := (if pr_occupied (pm_records m ! i)
      then settle (record_recovered (pm_records m ! i) s) (pm_records m ! i) else pm_records m ! i)] \<and> package_inv m'"
proof (cases "pr_occupied (pm_records m ! i) \<and> pt_state (pr_transaction (pm_records m ! i)) \<noteq> PoisonPackageRemoved")
  case False
  then have "m' = m" using assms(3) by (auto simp: recover_index_def Let_def split: if_splits)
  then show ?thesis
    using False assms(1) by (auto simp: settle_def)
next
  case True
  let ?r = "pm_records m ! i"
  have len: "i < length (pm_records m)" using assms(1,2) by (simp add: package_inv_def)
  have inv: "record_inv ?r"
    using assms(1) True len by (auto simp: package_inv_def split: if_splits)
  have found: "poison_package_manager_find_mutable m (Some (pr_package_id ?r)) = Some i"
    using find_at [OF assms(1,2)] True by blast
  let ?act = "cu_state (pt_content_update (pr_transaction ?r)) = PoisonContentUpdateActivating"
  have reported: "snd (record_step (PkReport (pr_package_id ?r) False) ?r) \<longleftrightarrow> ?act"
    using record_inv_parts [OF inv] by (simp add: with_transaction_def package_report_form split_beta)
  have step: "snd (poison_package_manager_report_health m (Some (pr_package_id ?r)) False) \<longleftrightarrow> ?act"
    "pm_records (fst (poison_package_manager_report_health m (Some (pr_package_id ?r)) False)) =
       (pm_records m)[i := fst (record_step (PkReport (pr_package_id ?r) False) ?r)]"
    using package_step_result [of "PkReport (pr_package_id ?r) False" m]
      package_step_record [of "PkReport (pr_package_id ?r) False" m] found reported
    by simp_all
  let ?b = "record_recovered ?r s"
  have "m' = (if \<not> ?b then quarantine_record m i
      else if ?act then fst (poison_package_manager_report_health m (Some (pr_package_id ?r)) False) else m)"
    using assms(3) True step(1)
    by (cases ?act) (auto simp: recover_index_def record_recovered_def Let_def split_beta split: if_splits)
  then have "pm_records m' = (pm_records m)[i := settle ?b ?r]"
    using True step(2) by (simp add: settle_def quarantine_record_def Let_def del: record_step.simps)
  moreover have "package_inv m'"
    by (rule package_put_inv(1) [OF assms(1,2) settle_inv [OF inv, of ?b]]) (use True calculation in simp_all)
  ultimately show ?thesis using True by auto
qed

lemma recovery_state_records:
  assumes "package_inv m" "n \<le> 8"
  shows "package_inv (fst (recovery_state n m v)) \<and> (\<forall>i < 8. pm_records (fst (recovery_state n m v)) ! i =
    (if i < n \<and> pr_occupied (pm_records m ! i)
     then settle (record_recovered (pm_records m ! i) (fst (snd (recovery_state i m v)))) (pm_records m ! i)
     else pm_records m ! i))"
  using assms(2)
proof (induction n)
  case (Suc n)
  obtain m1 s1 c1 where before: "recovery_state n m v = (m1, s1, c1)" by (metis prod_cases3)
  obtain m2 s2 c2 where step: "recover_index n (m1, s1, c1) = (m2, s2, c2)" by (metis prod_cases3)
  have inv: "package_inv m1" and IH: "\<forall>i < 8. pm_records m1 ! i = (if i < n \<and> pr_occupied (pm_records m ! i)
     then settle (record_recovered (pm_records m ! i) (fst (snd (recovery_state i m v)))) (pm_records m ! i)
     else pm_records m ! i)"
    using Suc before by simp_all
  have n: "n < 8" using Suc.prems by simp
  have len: "length (pm_records m1) = 8" using inv by (simp add: package_inv_def)
  note next_ = recover_index_step [OF inv n step]
  have "pm_records m2 ! i = (if i < Suc n \<and> pr_occupied (pm_records m ! i)
     then settle (record_recovered (pm_records m ! i) (fst (snd (recovery_state i m v)))) (pm_records m ! i)
     else pm_records m ! i)" if "i < 8" for i
    using next_ IH that n len before by (cases "i = n") auto
  then show ?case using next_ before step by (simp add: recovery_state_simps)
qed (use assms(1) in \<open>simp add: recovery_state_simps\<close>)

lemma recovered_records:
  assumes "package_inv m" "poison_packages_recover_storage_state save m v d = (m', v', d', saved)"
  shows "package_inv m'"
    and "packages m' k = (case poison_package_manager_find_mutable m (Some k) of None \<Rightarrow> None
      | Some i \<Rightarrow> Some (settle (record_recovered (pm_records m ! i) (fst (snd (recovery_state i m v))))
                           (pm_records m ! i)))"
proof -
  have run: "fst (recovery_state 8 m v) = m'"
    using assms(2) by (auto simp: poison_packages_recover_storage_state_def recovery_state_def Let_def split_beta
        prod_eq_iff split: if_splits)
  have fold: "package_inv m'" "\<And>i. i < 8 \<Longrightarrow> pm_records m' ! i = (if pr_occupied (pm_records m ! i)
     then settle (record_recovered (pm_records m ! i) (fst (snd (recovery_state i m v)))) (pm_records m ! i)
     else pm_records m ! i)"
    using recovery_state_records [OF assms(1), of 8 v] run by simp_all
  then show "package_inv m'" by simp
  have len: "length (pm_records m) = 8" "length (pm_records m') = 8"
    using assms(1) fold(1) by (simp_all add: package_inv_def)
  have same: "pr_occupied (pm_records m' ! i) = pr_occupied (pm_records m ! i)"
    "pr_package_id (pm_records m' ! i) = pr_package_id (pm_records m ! i)" if "i < 8" for i
    using fold(2) [OF that] by simp_all
  have "map (\<lambda>r. (pr_occupied r, pr_package_id r)) (pm_records m') =
      map (\<lambda>r. (pr_occupied r, pr_package_id r)) (pm_records m)"
    by (rule nth_equalityI) (use len same in simp_all)
  then have find: "poison_package_manager_find_mutable m' (Some k) = poison_package_manager_find_mutable m (Some k)"
    unfolding poison_package_manager_find_mutable_def option.case
    by (rule find_index_map_cong)
  show "packages m' k = (case poison_package_manager_find_mutable m (Some k) of None \<Rightarrow> None
      | Some i \<Rightarrow> Some (settle (record_recovered (pm_records m ! i) (fst (snd (recovery_state i m v))))
                           (pm_records m ! i)))"
  proof (cases "poison_package_manager_find_mutable m (Some k)")
    case None
    then show ?thesis using find by (simp add: packages_def poison_package_manager_find_def)
  next
    case (Some i)
    have "i < 8" "pr_occupied (pm_records m ! i)" using package_find_index [OF Some] len by simp_all
    then show ?thesis
      using fold(2) [of i] Some find by (auto simp: packages_def poison_package_manager_find_def)
  qed
qed

text \<open>C25: the recovery at system start settles every record and touches nothing else of the registry: a
  removed package stays as it is; a package whose directories cannot be brought back in line, in the volume as
  the records before it left it, is quarantined; of the others an interrupted activation is reported ill
  and so rolled back, and the rest stays as it is.  Afterwards no package that is not removed waits for a
  health report.\<close>

theorem recovery_settles:
  fixes ops save v d
  defines "m \<equiv> run_state package_step poison_package_manager_init ops"
    and "m' \<equiv> fst (poison_packages_recover_storage_state save (run_state package_step poison_package_manager_init ops) v d)"
  shows "poison_package_manager_find m' (Some k) =
      (case poison_package_manager_find_mutable m (Some k) of None \<Rightarrow> None
       | Some i \<Rightarrow> Some
           (let r = pm_records m ! i; t = pr_transaction r in
            if pt_state t = PoisonPackageRemoved then r
            else if \<not> record_recovered r (fst (snd (recovery_state i m v)))
            then r \<lparr> pr_transaction := quarantine_transaction t \<rparr>
            else if cu_state (pt_content_update t) = PoisonContentUpdateActivating
            then fst (record_step (PkReport k False) r) else r)) \<and>
     \<not> (\<exists>r. poison_package_manager_find m' (Some k) = Some r \<and>
         pt_state (pr_transaction r) \<noteq> PoisonPackageRemoved \<and>
         cu_state (pt_content_update (pr_transaction r)) = PoisonContentUpdateActivating)"
proof -
  have inv: "package_inv m" unfolding m_def by (rule package_init_run)
  obtain w e s where run: "poison_packages_recover_storage_state save m v d = (m', w, e, s)"
    by (metis m'_def m_def prod_cases4 fst_conv)
  note found = recovered_records(2) [OF inv run, of k]
  have len: "length (pm_records m) = 8" using inv by (simp add: package_inv_def)
  have settled: "poison_package_manager_find m' (Some k) =
      (case poison_package_manager_find_mutable m (Some k) of None \<Rightarrow> None
       | Some i \<Rightarrow> Some
           (let r = pm_records m ! i; t = pr_transaction r in
            if pt_state t = PoisonPackageRemoved then r
            else if \<not> record_recovered r (fst (snd (recovery_state i m v)))
            then r \<lparr> pr_transaction := quarantine_transaction t \<rparr>
            else if cu_state (pt_content_update t) = PoisonContentUpdateActivating
            then fst (record_step (PkReport k False) r) else r))"
  proof (cases "poison_package_manager_find_mutable m (Some k)")
    case (Some i)
    have "pr_package_id (pm_records m ! i) = k" using package_find_index [OF Some] len by simp
    then show ?thesis
      using found Some by (simp add: packages_def settle_def Let_def del: record_step.simps)
  qed (use found in \<open>simp add: packages_def\<close>)
  moreover have False if r: "packages m' k = Some r" "pt_state (pr_transaction r) \<noteq> PoisonPackageRemoved"
    "cu_state (pt_content_update (pr_transaction r)) = PoisonContentUpdateActivating" for r
  proof -
    obtain i where i: "poison_package_manager_find_mutable m (Some k) = Some i"
      using found r(1) by (cases "poison_package_manager_find_mutable m (Some k)") simp_all
    let ?r = "pm_records m ! i" and ?b = "record_recovered (pm_records m ! i) (fst (snd (recovery_state i m v)))"
    have "i < 8" "pr_occupied ?r" using package_find_index [OF i] len by simp_all
    then have "record_inv ?r" using inv by (auto simp: package_inv_def split: if_splits)
    moreover have "r = settle ?b ?r" using found i r(1) by simp
    moreover have "pt_state (pr_transaction ?r) \<noteq> PoisonPackageRemoved"
      using r(2) calculation(2) by (auto simp: settle_def)
    ultimately show False using settle_not_activating r(3) by blast
  qed
  ultimately show ?thesis by (auto simp: packages_def)
qed

text \<open>The quarantine of the recovery can leave a registry that cannot be saved: the record of a package whose
  update was rolled back does not name the digest of the candidate.\<close>

lemma recovery_unsaveable:
  assumes "record_inv r" "pt_state (pr_transaction r) \<noteq> PoisonPackageRemoved"
    and "cu_state (pt_content_update (pr_transaction r)) = PoisonContentUpdateRolledBack"
    and "cu_candidate_digest (pt_content_update (pr_transaction r)) \<noteq>
         cu_previous_digest (pt_content_update (pr_transaction r))"
  shows "\<not> poison_package_record_persisted_valid (settle False r)"
proof -
  have "pr_digest r \<noteq> cu_candidate_digest (pt_content_update (pr_transaction r))"
    using assms by (auto simp: record_inv_def record_digests_def Let_def)
  then show ?thesis
    using record_persisted [OF settle_inv [OF assms(1), of False]] assms(2)
    by (simp add: settle_def quarantine_transaction_def)
qed

section \<open>The state file survives\<close>

lemma load_new:
  assumes "poison_package_manager_persisted_valid m" "poison_package_storage_root_valid (Some path)"
    and "poison_package_state_digest cr (state_file cr m) = Some d"
    and "disk path = Holds (state_file cr m \<lparr> sf_digest := d \<rparr>)"
  shows "poison_package_manager_load cr path disk = Some m"
  using assms by (simp add: poison_package_manager_load_def poison_package_state_digest_def state_file_def)

lemma load_unchanged: "disk' path = disk path \<Longrightarrow>
    poison_package_manager_load cr path disk' = poison_package_manager_load cr path disk"
  by (simp add: poison_package_manager_load_def)


section \<open>What recovery does not get right\<close>

text \<open>A received update whose candidate is not extracted yet counts as uncommitted: a restart at this
  point takes the installed content for the candidate, puts it into quarantine and activates the
  version before it, while the record keeps naming the update.\<close>

lemma recovery_downgrades_staged:
  assumes "poison_package_id_valid (Some k)" "working_volume v"
    and "dirs k v = (Tree installed, Tree older, Missing, Missing, Missing)"
  shows "dirs k (fst (poison_package_storage_recover_record default_layout (Some k) False True False v)) =
    (Tree older, Missing, Missing, Tree installed, Missing)"
  using assms(1,2) by (simp add: recover_eval dirs_def dirs_entries [OF assms(3)])

text \<open>The removed content of a package that is being installed again comes back into the active directory.\<close>

lemma recovery_revives_removed:
  assumes "poison_package_id_valid (Some k)" "working_volume v"
    and "dirs k v = (Missing, Tree removed, Tree new, Missing, Missing)"
  shows "dirs k (fst (poison_package_storage_recover_record default_layout (Some k) False False False v)) =
    (Tree removed, Missing, Tree new, Missing, Missing)"
  using assms(1,2) by (simp add: recover_eval dirs_def dirs_entries [OF assms(3)])

text \<open>A copy that fails half way leaves a partial active directory; the activation does not put the
  installed content back, and recovery takes the partial directory for the installed one.\<close>

lemma failed_copy_leaves_partial:
  defines "v \<equiv> sample_volume (\<lambda>n. if n = 1 then Copying (Tree []) else Works)"
  shows "\<exists>w. poison_package_storage_activate default_layout (Some ''maps'') v = (w, False) \<and>
    dirs ''maps'' w = (Tree [], Tree [1], Tree [2], Missing, Missing)"
proof -
  have d: "dirs ''maps'' v = (Tree [1], Missing, Tree [2], Missing, Missing)" unfolding v_def by (rule sample_dirs)
  note e = dirs_entries [OF d]
  have readable: "\<not> vo_unreadable v p" for p by (simp add: v_def sample_volume_def)
  have out: "vo_outcomes v 0 = Works" "vo_outcomes v (Suc 0) = Copying (Tree [])"
    by (simp_all add: v_def sample_volume_def)
  have mkdir: "poison_package_storage_mkdir_tree POISON_PACKAGE_ACTIVE_ROOT v = (v, True)"
    unfolding v_def by (rule sample_mkdir)
  obtain w1 where w1: "volume_rename (active_dir ''maps'') (rollback_dir ''maps'') v = (w1, True)"
    "vo_entry w1 = (vo_entry v)(rollback_dir ''maps'' := Tree [1], active_dir ''maps'' := Missing)"
    "vo_outcomes w1 0 = Copying (Tree [])" "vo_unreadable w1 = vo_unreadable v"
    using e out readable by (simp add: volume_rename_def entry_exists_def Let_def)
  obtain w2 where w2: "volume_rename (candidate_dir ''maps'') (active_dir ''maps'') w1 = (w2, False)"
    "vo_entry w2 = (vo_entry w1)(active_dir ''maps'' := Tree [])"
    "vo_unreadable w2 = vo_unreadable v"
    using w1 e readable by (simp add: volume_rename_def entry_exists_def Let_def)
  have "poison_package_storage_activate default_layout (Some ''maps'') v = (w2, False)"
    using w1 w2 e readable mkdir
    by (simp add: poison_package_storage_activate_def default_paths sample_id default_roots Let_def if_ok_def
        split_beta poison_package_storage_exists_def entry_exists_def poison_package_storage_remove_if_present_def)
  moreover have "dirs ''maps'' w2 = (Tree [], Tree [1], Tree [2], Missing, Missing)"
    using w1(2) w2(2) e by (simp add: dirs_def)
  ultimately show ?thesis by blast
qed

text \<open>When the removal of the rollback directory ends half way after a bad health report has copied it back, the
  recovery takes what is left of it for the version before the active one: it puts the installed content into
  quarantine and activates the remainder.\<close>

lemma recovery_activates_remainder:
  assumes "poison_package_id_valid (Some k)" "working_volume v"
    and "dirs k v = (Tree old, Tree rest, Missing, Missing, Missing)"
  shows "dirs k (fst (poison_package_storage_recover_record default_layout (Some k) False True discard v)) =
    (Tree rest, Missing, Missing, Tree old, Missing)"
  using assms(1,2) by (simp add: recover_eval dirs_def dirs_entries [OF assms(3)])

lemma recovery_keeps_partial:
  fixes discard
  assumes "poison_package_id_valid (Some k)" "working_volume v"
    and "dirs k v = (Tree partial, Tree old, Tree new, Missing, Missing)"
  defines "r \<equiv> poison_package_storage_recover_record default_layout (Some k) False True discard v"
  shows "snd r \<and> vo_entry (fst r) (active_dir k) = Tree partial"
  using assms(1,2) by (simp add: r_def recover_eval dirs_entries [OF assms(3)])

end
