(* ===== verification/Evidence.thy ===== *)
theory Evidence
  imports Files
begin

text \<open>The evidence store (\<open>poison_evidence/poison_evidence.c\<close>): pieces of evidence are captured once, with
  the digest of their content and an audit digest over all fields, written as an object named by the
  content's digest and a record named by the evidence.  SHA-256 is a parameter (an error of the hash shows
  as \<open>None\<close> at its end); the outcomes of the storage calls are inputs.\<close>

section \<open>Records\<close>

abbreviation "POISON_EVIDENCE_MAX_RECORDS \<equiv> (32 :: nat)"
abbreviation "POISON_EVIDENCE_RECORD_SIZE \<equiv> (243 :: nat)"

record PoisonEvidenceRecord =
  er_active :: bool
  er_derived :: bool
  er_evidence_id :: string
  er_case_id :: string
  er_content_length :: u64
  er_content_sha256 :: bytes
  er_previous_audit_sha256 :: bytes
  er_audit_sha256 :: bytes

text \<open>The store: the first \<open>count\<close> entries of its array, nothing else of it is read.\<close>

type_synonym PoisonEvidenceStore = "PoisonEvidenceRecord list"

text \<open>A capture under way; the hash is what it was fed so far.\<close>

record PoisonEvidenceTransaction =
  et_active :: bool
  et_record :: PoisonEvidenceRecord
  et_hash :: bytes
  et_expected_length :: nat
  et_received_length :: nat

definition empty_record :: PoisonEvidenceRecord where
  "empty_record = \<lparr> er_active = False, er_derived = False, er_evidence_id = '''', er_case_id = '''',
     er_content_length = 0, er_content_sha256 = zeros 32, er_previous_audit_sha256 = zeros 32,
     er_audit_sha256 = zeros 32 \<rparr>"

definition empty_transaction :: PoisonEvidenceTransaction where
  "empty_transaction = \<lparr> et_active = False, et_record = empty_record, et_hash = [],
     et_expected_length = 0, et_received_length = 0 \<rparr>"

definition evidence_id_char :: "char \<Rightarrow> bool" where
  "evidence_id_char c \<longleftrightarrow> (char_code CHR ''a'' \<le> char_code c \<and> char_code c \<le> char_code CHR ''z'') \<or>
     (char_code CHR ''A'' \<le> char_code c \<and> char_code c \<le> char_code CHR ''Z'') \<or>
     (char_code CHR ''0'' \<le> char_code c \<and> char_code c \<le> char_code CHR ''9'') \<or>
     c = CHR ''.'' \<or> c = CHR ''_'' \<or> c = CHR ''-''"

definition poison_evidence_id_validate :: "string option \<Rightarrow> bool" where
  "poison_evidence_id_validate identifier =
    (case identifier of
       None \<Rightarrow> False
     | Some i \<Rightarrow> if i = '''' \<or> hd i = CHR ''.'' \<or> strnlen i 65 \<ge> 65 then False
                 else list_all evidence_id_char i)"

definition poison_evidence_store_init :: PoisonEvidenceStore where
  "poison_evidence_store_init = []"

definition poison_evidence_find :: "PoisonEvidenceStore \<Rightarrow> string option \<Rightarrow> PoisonEvidenceRecord option" where
  "poison_evidence_find store evidence_id =
    (case evidence_id of
       None \<Rightarrow> None
     | Some i \<Rightarrow> List.find (\<lambda>r. er_active r \<and> er_evidence_id r = i) store)"

section \<open>A capture\<close>

definition poison_evidence_begin :: "PoisonEvidenceStore \<Rightarrow> string option \<Rightarrow> string option \<Rightarrow> nat \<Rightarrow> bool \<Rightarrow>
    bytes option \<Rightarrow> PoisonEvidenceTransaction option" where
  "poison_evidence_begin store evidence_id case_id expected_length derived previous_audit_sha256 =
    (if expected_length = 0 \<or> previous_audit_sha256 = None \<or>
        length store \<ge> POISON_EVIDENCE_MAX_RECORDS \<or> poison_evidence_find store evidence_id \<noteq> None
     then None
     else if \<not> poison_evidence_id_validate evidence_id \<or> \<not> poison_evidence_id_validate case_id then None
     else Some (empty_transaction \<lparr> et_active := True, et_expected_length := expected_length,
       et_record := empty_record \<lparr> er_evidence_id := the evidence_id, er_case_id := the case_id,
         er_content_length := of_nat expected_length, er_derived := derived,
         er_previous_audit_sha256 := the previous_audit_sha256 \<rparr> \<rparr>))"

definition poison_evidence_append ::
    "bytes \<Rightarrow> PoisonEvidenceTransaction \<Rightarrow> PoisonEvidenceTransaction option" where
  "poison_evidence_append data transaction =
    (if \<not> et_active transaction \<or>
        length data > et_expected_length transaction - et_received_length transaction then None
     else Some (transaction \<lparr> et_hash := et_hash transaction @ data,
            et_received_length := et_received_length transaction + length data \<rparr>))"

text \<open>What the audit digest is taken of.\<close>

definition audit_domain :: bytes where
  "audit_domain = map of_char ''POISON-EVIDENCE-AUDIT-v1''"

definition le_u64 :: "u64 \<Rightarrow> bytes" where
  "le_u64 v = map (\<lambda>i. ucast (drop_bit (8 * i) v)) [0..<8]"

definition evidence_audit_input :: "PoisonEvidenceRecord \<Rightarrow> bytes" where
  "evidence_audit_input r = audit_domain @ er_previous_audit_sha256 r @ cstr_bytes (er_evidence_id r) @
     cstr_bytes (er_case_id r) @ [if er_derived r then 1 else 0] @ le_u64 (er_content_length r) @
     er_content_sha256 r"

definition poison_evidence_commit :: "(bytes \<Rightarrow> bytes option) \<Rightarrow> PoisonEvidenceStore \<Rightarrow>
    PoisonEvidenceTransaction \<Rightarrow> PoisonEvidenceStore option" where
  "poison_evidence_commit sha256 store transaction =
    (if \<not> et_active transaction \<or> et_received_length transaction \<noteq> et_expected_length transaction \<or>
        length store \<ge> POISON_EVIDENCE_MAX_RECORDS \<or>
        poison_evidence_find store (Some (er_evidence_id (et_record transaction))) \<noteq> None
     then None
     else case sha256 (et_hash transaction) of
            None \<Rightarrow> None
          | Some content \<Rightarrow>
              let r = (et_record transaction) \<lparr> er_content_sha256 := content \<rparr>
              in case sha256 (evidence_audit_input r) of
                   None \<Rightarrow> None
                 | Some audit \<Rightarrow> Some (store @ [r \<lparr> er_audit_sha256 := audit, er_active := True \<rparr>]))"

definition poison_evidence_capture :: "(bytes \<Rightarrow> bytes option) \<Rightarrow> PoisonEvidenceStore \<Rightarrow> string option \<Rightarrow>
    string option \<Rightarrow> bytes option \<Rightarrow> bool \<Rightarrow> bytes option \<Rightarrow> PoisonEvidenceStore option" where
  "poison_evidence_capture sha256 store evidence_id case_id data derived previous_audit_sha256 =
    (case data of
       None \<Rightarrow> None
     | Some d \<Rightarrow>
         if length d = 0 then None
         else case poison_evidence_begin store evidence_id case_id (length d) derived previous_audit_sha256 of
                None \<Rightarrow> None
              | Some transaction \<Rightarrow>
                  (case poison_evidence_append d transaction of
                     None \<Rightarrow> None
                   | Some transaction' \<Rightarrow> poison_evidence_commit sha256 store transaction'))"

section \<open>The disk\<close>

definition evidence_hex_digit :: "nat \<Rightarrow> char" where
  "evidence_hex_digit n = ''0123456789abcdef'' ! n"

definition poison_evidence_digest_hex :: "bytes \<Rightarrow> string" where
  "poison_evidence_digest_hex digest =
     concat (map (\<lambda>b. [evidence_hex_digit (unat (drop_bit 4 b)), evidence_hex_digit (unat (b AND 0x0f))]) digest)"

definition object_path :: "PoisonEvidenceRecord \<Rightarrow> string" where
  "object_path r = ''/ext/evidence/objects/'' @ poison_evidence_digest_hex (er_content_sha256 r) @ ''.bin''"

definition object_temporary :: "PoisonEvidenceRecord \<Rightarrow> string" where
  "object_temporary r = ''/ext/evidence/.tmp/'' @ er_evidence_id r @ ''.object''"

definition record_path :: "string \<Rightarrow> string" where
  "record_path i = ''/ext/evidence/records/'' @ i @ ''.pev''"

definition record_temporary :: "string \<Rightarrow> string" where
  "record_temporary i = ''/ext/evidence/.tmp/'' @ i @ ''.record''"

text \<open>The bytes of a record: a text field is filled up with zeros to 65 bytes.\<close>

definition text_field :: "string \<Rightarrow> bytes" where
  "text_field s = take 65 (cstr_bytes s @ zeros 65)"

definition poison_evidence_record_encode :: "PoisonEvidenceRecord \<Rightarrow> bytes" where
  "poison_evidence_record_encode r = map of_char ''POISEV1'' @ [if er_derived r then 1 else 0] @
     text_field (er_evidence_id r) @ text_field (er_case_id r) @ le_u64 (er_content_length r) @
     er_content_sha256 r @ er_previous_audit_sha256 r @ er_audit_sha256 r @ [10]"

text \<open>The outcomes of one atomic write: of the check for the final file, of the write of the temporary file, of the rename and of the
  removal of what is left of the temporary file.\<close>

record AtomicIo =
  ai_stat :: bool
  ai_write :: "bytes WriteIo"
  ai_rename :: "bytes RenameIo"
  ai_clean :: bool

definition poison_evidence_write_atomic ::
    "AtomicIo \<Rightarrow> string \<Rightarrow> string \<Rightarrow> bytes \<Rightarrow> bytes Disk \<Rightarrow> bytes Disk \<times> bool" where
  "poison_evidence_write_atomic io temporary_path final_path data disk =
    (if storage_file_exists (ai_stat io) disk final_path then (disk, False)
     else let (disk1, ok1) = write_file (ai_write io) temporary_path data disk;
              (disk2, written) = (if ok1 then storage_common_rename (ai_rename io) temporary_path final_path disk1
                                  else (disk1, False))
     in if written then (disk2, True)
        else (fst (storage_simply_remove (ai_clean io) temporary_path disk2), False))"

text \<open>The bytes of a file are read again and hashed; \<open>readable\<close> when no call fails.\<close>

definition poison_evidence_object_matches ::
    "(bytes \<Rightarrow> bytes option) \<Rightarrow> bool \<Rightarrow> bytes Disk \<Rightarrow> string \<Rightarrow> bytes \<Rightarrow> nat \<Rightarrow> bool" where
  "poison_evidence_object_matches sha256 readable disk path expected_digest expected_length =
    (case disk path of
       Holds b \<Rightarrow> readable \<and> length b = expected_length \<and> sha256 b = Some expected_digest
     | _ \<Rightarrow> False)"

record PersistIo =
  pi_directories :: bool
  pi_stat :: bool
  pi_readable :: bool
  pi_object :: AtomicIo
  pi_record :: AtomicIo

definition poison_evidence_persist :: "(bytes \<Rightarrow> bytes option) \<Rightarrow> PersistIo \<Rightarrow> PoisonEvidenceRecord \<Rightarrow> bytes \<Rightarrow>
    bytes Disk \<Rightarrow> bytes Disk \<times> bool" where
  "poison_evidence_persist sha256 io r data disk =
    (if \<not> pi_directories io then (disk, False)
     else let (disk1, ok1) =
         (if storage_file_exists (pi_stat io) disk (object_path r)
          then (disk, poison_evidence_object_matches sha256 (pi_readable io) disk (object_path r)
                        (er_content_sha256 r) (length data))
          else poison_evidence_write_atomic (pi_object io) (object_temporary r) (object_path r) data disk)
     in if ok1
        then poison_evidence_write_atomic (pi_record io) (record_temporary (er_evidence_id r))
               (record_path (er_evidence_id r)) (poison_evidence_record_encode r) disk1
        else (disk1, False))"

text \<open>A file that is captured is copied: \<open>source\<close> is the file when it is opened this time, it may have
  changed since it was hashed; \<open>None\<close> when it cannot be opened.  A read that fails in the copy shows as a
  write that fails.  The copy is hashed again before it becomes the object.\<close>

record CopyIo =
  ci_stat :: bool
  ci_object_readable :: bool
  ci_source :: "bytes option"
  ci_write :: "bytes WriteIo"
  ci_copy_readable :: bool
  ci_stat_again :: bool
  ci_rename :: "bytes RenameIo"
  ci_clean :: bool

definition poison_evidence_copy_object :: "(bytes \<Rightarrow> bytes option) \<Rightarrow> CopyIo \<Rightarrow> string \<Rightarrow> string \<Rightarrow>
    PoisonEvidenceRecord \<Rightarrow> bytes Disk \<Rightarrow> bytes Disk \<times> bool" where
  "poison_evidence_copy_object sha256 io temporary_path final_path r disk =
    (let expected_length = unat (er_content_length r) in
     if storage_file_exists (ci_stat io) disk final_path
     then (disk, poison_evidence_object_matches sha256 (ci_object_readable io) disk final_path
             (er_content_sha256 r) expected_length)
     else let (disk1, copied1) =
            (case ci_source io of
               Some b \<Rightarrow> if length b = expected_length then write_file (ci_write io) temporary_path b disk
                         else (disk, False)
             | None \<Rightarrow> (disk, False));
          copied2 = (copied1 \<and> poison_evidence_object_matches sha256 (ci_copy_readable io) disk1 temporary_path
                        (er_content_sha256 r) expected_length);
          (disk2, copied) =
            (if copied2 \<and> storage_file_exists (ci_stat_again io) disk1 final_path
             then (fst (storage_simply_remove (ci_clean io) temporary_path disk1),
                   poison_evidence_object_matches sha256 (ci_object_readable io) disk1 final_path
                     (er_content_sha256 r) expected_length)
             else if copied2 then storage_common_rename (ci_rename io) temporary_path final_path disk1
             else (disk1, False))
     in if copied then (disk2, True)
        else (fst (storage_simply_remove (ci_clean io) temporary_path disk2), False))"

record PersistFileIo =
  pf_directories :: bool
  pf_copy :: CopyIo
  pf_record :: AtomicIo

definition poison_evidence_persist_file :: "(bytes \<Rightarrow> bytes option) \<Rightarrow> PersistFileIo \<Rightarrow> PoisonEvidenceRecord \<Rightarrow>
    bytes Disk \<Rightarrow> bytes Disk \<times> bool" where
  "poison_evidence_persist_file sha256 io r disk =
    (if \<not> pf_directories io then (disk, False)
     else let (disk1, ok1) =
         poison_evidence_copy_object sha256 (pf_copy io) (object_temporary r) (object_path r) r disk
     in if ok1
        then poison_evidence_write_atomic (pf_record io) (record_temporary (er_evidence_id r))
               (record_path (er_evidence_id r)) (poison_evidence_record_encode r) disk1
        else (disk1, False))"

section \<open>The service\<close>

record EvidenceService =
  es_store :: PoisonEvidenceStore
  es_disk :: "bytes Disk"

definition poison_evidence_on_system_start :: "bytes Disk \<Rightarrow> EvidenceService" where
  "poison_evidence_on_system_start disk = \<lparr> es_store = poison_evidence_store_init, es_disk = disk \<rparr>"

definition poison_evidence_record_exists_global :: "bool \<Rightarrow> EvidenceService \<Rightarrow> string option \<Rightarrow> bool" where
  "poison_evidence_record_exists_global stat service evidence_id =
    (poison_evidence_id_validate evidence_id \<and>
     storage_file_exists stat (es_disk service) (record_path (the evidence_id)))"

definition poison_evidence_capture_global :: "(bytes \<Rightarrow> bytes option) \<Rightarrow> PersistIo \<Rightarrow> string option \<Rightarrow>
    string option \<Rightarrow> bytes option \<Rightarrow> bool \<Rightarrow> bytes option \<Rightarrow> EvidenceService \<Rightarrow> EvidenceService \<times> bool" where
  "poison_evidence_capture_global sha256 io evidence_id case_id data derived previous_audit_sha256 service =
    (case poison_evidence_capture sha256 poison_evidence_store_init evidence_id case_id data derived
            previous_audit_sha256 of
       None \<Rightarrow> (service, False)
     | Some staging \<Rightarrow>
         if length (es_store service) \<ge> POISON_EVIDENCE_MAX_RECORDS \<or>
            poison_evidence_find (es_store service) evidence_id \<noteq> None
         then (service, False)
         else let (disk, persisted) =
                poison_evidence_persist sha256 io (staging ! 0) (the data) (es_disk service)
         in if persisted
            then (service \<lparr> es_store := es_store service @ [staging ! 0], es_disk := disk \<rparr>, True)
            else (service \<lparr> es_disk := disk \<rparr>, False))"

text \<open>The file is hashed in pieces of 256 bytes; \<open>source\<close> is its content then, \<open>None\<close> when it cannot be
  opened or a read fails.\<close>

function append_pieces :: "bytes \<Rightarrow> PoisonEvidenceTransaction \<Rightarrow> PoisonEvidenceTransaction option" where
  "append_pieces data transaction =
    (if data = [] then Some transaction
     else case poison_evidence_append (take 256 data) transaction of
            None \<Rightarrow> None
          | Some transaction' \<Rightarrow> append_pieces (drop 256 data) transaction')"
  by pat_completeness auto

termination append_pieces by (relation "measure (length \<circ> fst)") auto

declare append_pieces.simps [simp del]

definition poison_evidence_stage_file :: "(bytes \<Rightarrow> bytes option) \<Rightarrow> bytes option \<Rightarrow> string option \<Rightarrow>
    string option \<Rightarrow> nat \<Rightarrow> bytes \<Rightarrow> bool \<Rightarrow> bytes \<Rightarrow> PoisonEvidenceRecord option" where
  "poison_evidence_stage_file sha256 source evidence_id case_id expected_length expected_sha256 derived
      previous_audit_sha256 =
    (case poison_evidence_begin poison_evidence_store_init evidence_id case_id expected_length derived
            (Some previous_audit_sha256) of
       None \<Rightarrow> None
     | Some transaction \<Rightarrow>
         (case source of
            None \<Rightarrow> None
          | Some b \<Rightarrow>
              if length b \<noteq> expected_length then None
              else case append_pieces b transaction of
                     None \<Rightarrow> None
                   | Some transaction' \<Rightarrow>
                       (case poison_evidence_commit sha256 poison_evidence_store_init transaction' of
                          None \<Rightarrow> None
                        | Some staging \<Rightarrow>
                            if er_content_sha256 (staging ! 0) = expected_sha256 then Some (staging ! 0) else None)))"

definition poison_evidence_capture_file_global :: "(bytes \<Rightarrow> bytes option) \<Rightarrow> PersistFileIo \<Rightarrow> bytes option \<Rightarrow>
    string option \<Rightarrow> string option \<Rightarrow> nat \<Rightarrow> bytes \<Rightarrow> bool \<Rightarrow> bytes \<Rightarrow> EvidenceService \<Rightarrow>
    EvidenceService \<times> PoisonEvidenceRecord option" where
  "poison_evidence_capture_file_global sha256 io source evidence_id case_id expected_length expected_sha256
      derived previous_audit_sha256 service =
    (if expected_length = 0 then (service, None)
     else case poison_evidence_stage_file sha256 source evidence_id case_id expected_length expected_sha256
                 derived previous_audit_sha256 of
            None \<Rightarrow> (service, None)
          | Some r \<Rightarrow>
              if length (es_store service) \<ge> POISON_EVIDENCE_MAX_RECORDS \<or>
                 poison_evidence_find (es_store service) evidence_id \<noteq> None
              then (service, None)
              else let (disk, persisted) = poison_evidence_persist_file sha256 io r (es_disk service)
              in if persisted
                 then (service \<lparr> es_store := es_store service @ [r], es_disk := disk \<rparr>, Some r)
                 else (service \<lparr> es_disk := disk \<rparr>, None))"

section \<open>What a captured record is\<close>

text \<open>The id alphabet: no separators, so paths of records are one level below their directory.\<close>

lemma id_validate_iff:
  "poison_evidence_id_validate (Some i) \<longleftrightarrow>
     i \<noteq> '''' \<and> hd i \<noteq> CHR ''.'' \<and> length i < 65 \<and> list_all evidence_id_char i"
  by (auto simp: poison_evidence_id_validate_def strnlen_def)

lemma append_pieces_all:
  "et_active t \<Longrightarrow> et_received_length t + length data \<le> et_expected_length t \<Longrightarrow>
     append_pieces data t = Some (t \<lparr> et_hash := et_hash t @ data,
       et_received_length := et_received_length t + length data \<rparr>)"
proof (induction data t rule: append_pieces.induct)
  case (1 data t)
  show ?case
  proof (cases "data = []")
    case True
    then show ?thesis by (simp add: append_pieces.simps)
  next
    case False
    let ?t = "t \<lparr> et_hash := et_hash t @ take 256 data,
      et_received_length := et_received_length t + length (take 256 data) \<rparr>"
    have step: "poison_evidence_append (take 256 data) t = Some ?t"
      using "1.prems" by (simp add: poison_evidence_append_def)
    show ?thesis
      using "1.IH" [OF False step] "1.prems" step False
      by (simp add: append_pieces.simps [of data])
  qed
qed

text \<open>A record that seals its fields: the content has its digest and length, the audit digest is taken of
  everything else.\<close>

definition evidence_sealed :: "(bytes \<Rightarrow> bytes option) \<Rightarrow> PoisonEvidenceRecord \<Rightarrow> bool" where
  "evidence_sealed sha256 r \<longleftrightarrow> er_active r \<and> sha256 (evidence_audit_input r) = Some (er_audit_sha256 r)"

lemma commit_record:
  assumes "poison_evidence_commit sha256 store t = Some staging"
  shows "\<exists>content audit. sha256 (et_hash t) = Some content \<and> staging = store @ [(et_record t) \<lparr> er_content_sha256 := content,
     er_audit_sha256 := audit, er_active := True \<rparr>] \<and> evidence_sealed sha256 (last staging)"
  using assms
  by (auto simp: poison_evidence_commit_def evidence_sealed_def Let_def evidence_audit_input_def split: if_splits option.splits)

lemma capture_staging:
  assumes "poison_evidence_capture sha256 poison_evidence_store_init evidence_id case_id data derived prev = Some staging"
  shows "\<exists>i c d p r. evidence_id = Some i \<and> case_id = Some c \<and> data = Some d \<and> prev = Some p \<and> staging = [r] \<and>
    poison_evidence_id_validate (Some i) \<and> poison_evidence_id_validate (Some c) \<and> d \<noteq> [] \<and>
    er_evidence_id r = i \<and> er_case_id r = c \<and> er_derived r = derived \<and> er_previous_audit_sha256 r = p \<and>
    er_content_length r = of_nat (length d) \<and> sha256 d = Some (er_content_sha256 r) \<and> evidence_sealed sha256 r"
proof -
  obtain d t t' where d: "data = Some d" "d \<noteq> []"
    and t: "poison_evidence_begin poison_evidence_store_init evidence_id case_id (length d) derived prev = Some t"
    and t': "poison_evidence_append d t = Some t'"
    and s: "poison_evidence_commit sha256 poison_evidence_store_init t' = Some staging"
    using assms by (auto simp: poison_evidence_capture_def split: option.splits if_splits)
  from commit_record [OF s] obtain content audit where
    c: "sha256 (et_hash t') = Some content" "staging = [(et_record t') \<lparr> er_content_sha256 := content,
     er_audit_sha256 := audit, er_active := True \<rparr>]" "evidence_sealed sha256 (last staging)"
    by (auto simp: poison_evidence_store_init_def)
  show ?thesis
    using d t t' c
    by (auto simp: poison_evidence_begin_def poison_evidence_append_def empty_transaction_def
        poison_evidence_id_validate_def split: if_splits option.splits)
qed

lemma stage_file_record:
  assumes "poison_evidence_stage_file sha256 source evidence_id case_id n digest derived prev = Some r"
  shows "\<exists>i c b. evidence_id = Some i \<and> case_id = Some c \<and> source = Some b \<and> length b = n \<and>
    poison_evidence_id_validate (Some i) \<and> poison_evidence_id_validate (Some c) \<and>
    er_evidence_id r = i \<and> er_case_id r = c \<and> er_derived r = derived \<and> er_previous_audit_sha256 r = prev \<and>
    er_content_length r = of_nat n \<and> er_content_sha256 r = digest \<and> sha256 b = Some digest \<and> evidence_sealed sha256 r"
proof -
  obtain t b t' staging where
    t: "poison_evidence_begin poison_evidence_store_init evidence_id case_id n derived (Some prev) = Some t"
    and b: "source = Some b" "length b = n"
    and t': "append_pieces b t = Some t'"
    and s: "poison_evidence_commit sha256 poison_evidence_store_init t' = Some staging"
    and r: "er_content_sha256 (staging ! 0) = digest" "r = staging ! 0"
    using assms by (auto simp: poison_evidence_stage_file_def split: option.splits if_splits)
  have pieces: "t' = t \<lparr> et_hash := et_hash t @ b, et_received_length := et_received_length t + length b \<rparr>"
    using append_pieces_all [of t b] t t' b
    by (auto simp: poison_evidence_begin_def empty_transaction_def split: if_splits)
  from commit_record [OF s] obtain content audit where
    c: "sha256 (et_hash t') = Some content" "staging = [(et_record t') \<lparr> er_content_sha256 := content,
     er_audit_sha256 := audit, er_active := True \<rparr>]" "evidence_sealed sha256 (last staging)"
    by (auto simp: poison_evidence_store_init_def)
  show ?thesis
    using t b r c pieces
    by (auto simp: poison_evidence_begin_def empty_transaction_def poison_evidence_id_validate_def
        split: if_splits option.splits)
qed

section \<open>The audit digest binds every field\<close>

lemma le_u64_rev: "le_u64 v = rev (be_bytes 8 v)"
  by (rule nth_equalityI) (auto simp: le_u64_def be_bytes_def rev_nth)

lemma length_le_u64 [simp]: "length (le_u64 v) = 8"
  by (simp add: le_u64_def)

lemma le_u64_inj: "le_u64 v = le_u64 w \<longleftrightarrow> v = w"
  using be_bytes_inj [of 8 v w] by (auto simp: le_u64_rev)

text \<open>What the code keeps of a record: digests of 32 bytes and ids without a NUL.\<close>

definition record_wf :: "PoisonEvidenceRecord \<Rightarrow> bool" where
  "record_wf r \<longleftrightarrow> no_nul (er_evidence_id r) \<and> no_nul (er_case_id r) \<and>
     length (er_previous_audit_sha256 r) = 32 \<and> length (er_content_sha256 r) = 32"

text \<open>C37: the bytes the audit digest is taken of determine the previous digest, the id, the case, whether
  the evidence is derived, its length and the digest of its content: as long as SHA-256 has no
  collision, two records with the same audit digest agree in all of them.\<close>

theorem audit_digest_binds_record:
  assumes "evidence_audit_input r = evidence_audit_input r'" "record_wf r" "record_wf r'"
  shows "er_previous_audit_sha256 r = er_previous_audit_sha256 r' \<and> er_evidence_id r = er_evidence_id r' \<and>
    er_case_id r = er_case_id r' \<and> er_derived r = er_derived r' \<and>
    er_content_length r = er_content_length r' \<and> er_content_sha256 r = er_content_sha256 r'"
proof -
  let ?rest = "\<lambda>r. [if er_derived r then 1 else 0] @ le_u64 (er_content_length r) @ er_content_sha256 r"
  have prev: "er_previous_audit_sha256 r = er_previous_audit_sha256 r'"
    and tail: "cstr_bytes (er_evidence_id r) @ cstr_bytes (er_case_id r) @ ?rest r =
      cstr_bytes (er_evidence_id r') @ cstr_bytes (er_case_id r') @ ?rest r'"
    using assms by (auto simp: evidence_audit_input_def record_wf_def)
  have id: "er_evidence_id r = er_evidence_id r'"
    and tail2: "cstr_bytes (er_case_id r) @ ?rest r = cstr_bytes (er_case_id r') @ ?rest r'"
    using tail assms(2,3) unfolding record_wf_def by (simp_all add: cstr_bytes_append_inj)
  have "er_case_id r = er_case_id r' \<and> ?rest r = ?rest r'"
    using assms(2,3) unfolding record_wf_def
    by (intro cstr_bytes_append_inj [THEN iffD1, OF _ _ tail2]) simp_all
  then show ?thesis
    using prev id by (auto simp: le_u64_inj split: if_splits)
qed

section \<open>Evidence is written once\<close>

text \<open>The directories of objects and records; a temporary file is never in them.\<close>

definition evidence_final :: "string \<Rightarrow> bool" where
  "evidence_final path \<longleftrightarrow> prefix ''/ext/evidence/objects/'' path \<or> prefix ''/ext/evidence/records/'' path"

lemma final_paths [simp]:
  "evidence_final (object_path r)" "evidence_final (record_path i)"
  "\<not> evidence_final (object_temporary r)" "\<not> evidence_final (record_temporary i)"
  by (simp_all add: evidence_final_def object_path_def record_path_def object_temporary_def record_temporary_def)

lemma object_record_differ [simp]: "object_path r \<noteq> record_path i" "record_path i \<noteq> object_path r"
  by (simp_all add: object_path_def record_path_def)

lemma record_path_inj [simp]: "record_path i = record_path j \<longleftrightarrow> i = j"
  by (simp add: record_path_def)

lemma final_not_temporary:
  "evidence_final p \<Longrightarrow> p \<noteq> object_temporary r" "evidence_final p \<Longrightarrow> p \<noteq> record_temporary i"
  by (auto dest: final_paths(3,4) [THEN notE])

lemma remove_keeps [simp]: "p \<noteq> q \<Longrightarrow> fst (storage_simply_remove io q disk) p = disk p"
  by (simp add: storage_simply_remove_def)

text \<open>One write touches its temporary file and, when that was not seen before, its final path.\<close>

lemma write_atomic_keeps:
  assumes "p \<noteq> temporary_path" "p = final_path \<longrightarrow> storage_file_exists (ai_stat io) disk p"
  shows "fst (poison_evidence_write_atomic io temporary_path final_path data disk) p = disk p"
  using assms
  by (auto simp: poison_evidence_write_atomic_def storage_common_rename_def storage_simply_remove_def
      write_file_def Let_def split: RenameIo.splits prod.splits if_splits)

lemma write_atomic_done:
  assumes "poison_evidence_write_atomic io temporary_path final_path data disk = (disk', True)"
    and "temporary_path \<noteq> final_path"
  shows "(disk' final_path = Holds data \<or> \<not> whole_rename (ai_rename io) \<and> ai_rename io = RenameShort (disk' final_path)) \<and>
    \<not> storage_file_exists (ai_stat io) disk final_path"
  using assms
  by (auto simp: poison_evidence_write_atomic_def storage_common_rename_def write_file_def Let_def
      split: RenameIo.splits prod.splits if_splits)

text \<open>What a write that reports a failure can leave at the final path.\<close>

lemma write_atomic_failed:
  assumes "poison_evidence_write_atomic io temporary_path final_path data disk = (disk', False)"
    and "temporary_path \<noteq> final_path"
  shows "disk' final_path = disk final_path \<or> disk' final_path = Holds data \<or>
    (\<exists>left. ai_rename io = CopyFails left \<and> disk' final_path = left)"
  using assms
  by (auto simp: poison_evidence_write_atomic_def storage_common_rename_def write_file_def Let_def
      split: RenameIo.splits prod.splits if_splits)

lemma copy_object_keeps:
  assumes "p \<noteq> temporary_path" "p = final_path \<longrightarrow> storage_file_exists (ci_stat io) disk p"
  shows "fst (poison_evidence_copy_object sha256 io temporary_path final_path r disk) p = disk p"
  using assms
  by (auto simp: poison_evidence_copy_object_def storage_common_rename_def storage_simply_remove_def
      write_file_def Let_def split: RenameIo.splits prod.splits option.splits if_splits)

definition object_there :: "(bytes \<Rightarrow> bytes option) \<Rightarrow> bytes Disk \<Rightarrow> PoisonEvidenceRecord \<Rightarrow> bool" where
  "object_there sha256 disk r \<longleftrightarrow> (\<exists>b. disk (object_path r) = Holds b \<and>
     er_content_length r = of_nat (length b) \<and> sha256 b = Some (er_content_sha256 r))"

lemma object_matches_iff:
  "poison_evidence_object_matches sha256 readable disk path digest n \<longleftrightarrow>
     readable \<and> (\<exists>b. disk path = Holds b \<and> length b = n \<and> sha256 b = Some digest)"
  by (auto simp: poison_evidence_object_matches_def split: FileState.split)

lemma copy_object_there:
  assumes "poison_evidence_copy_object sha256 io (object_temporary r) (object_path r) r disk = (disk', True)"
    and "whole_rename (ci_rename io) \<or> storage_file_exists (ci_stat io) disk (object_path r)"
  shows "object_there sha256 disk' r"
proof -
  have differ: "object_temporary r \<noteq> object_path r"
    using final_not_temporary(1) [of "object_path r" r] by auto
  show ?thesis
    using assms differ
    by (auto simp: poison_evidence_copy_object_def storage_common_rename_def object_matches_iff object_there_def
        Let_def write_file_def split: RenameIo.splits prod.splits option.splits if_splits)
qed

section \<open>The service under interruptions\<close>

text \<open>A capture of bytes, a capture of a file and a restart; an interruption of the power is a capture whose
  remaining calls fail, followed by a restart.\<close>

datatype EvidenceOp =
    CaptureBytes PersistIo "string option" "string option" "bytes option" bool "bytes option"
  | CaptureFile PersistFileIo "bytes option" "string option" "string option" nat bytes bool bytes
  | EvidenceRestart

fun evidence_step :: "(bytes \<Rightarrow> bytes option) \<Rightarrow> EvidenceOp \<Rightarrow> EvidenceService \<Rightarrow> EvidenceService \<times> bool" where
  "evidence_step sha256 (CaptureBytes io i c d derived prev) service =
     poison_evidence_capture_global sha256 io i c d derived prev service"
| "evidence_step sha256 (CaptureFile io source i c n digest derived prev) service =
     (case poison_evidence_capture_file_global sha256 io source i c n digest derived prev service of
        (service', captured) \<Rightarrow> (service', captured \<noteq> None))"
| "evidence_step sha256 EvidenceRestart service = (poison_evidence_on_system_start (es_disk service), True)"

text \<open>The renames of a capture: of its object and, with the other calls of the same write, of its record.\<close>

fun object_rename :: "EvidenceOp \<Rightarrow> bytes RenameIo" where
  "object_rename (CaptureBytes io i c d derived prev) = ai_rename (pi_object io)"
| "object_rename (CaptureFile io source i c n digest derived prev) = ci_rename (pf_copy io)"
| "object_rename EvidenceRestart = RenameDone"

definition op_record_io :: "EvidenceOp \<Rightarrow> AtomicIo \<Rightarrow> bool" where
  "op_record_io op io \<longleftrightarrow> (case op of CaptureBytes pio _ _ _ _ _ \<Rightarrow> io = pi_record pio
     | CaptureFile fio _ _ _ _ _ _ _ \<Rightarrow> io = pf_record fio | EvidenceRestart \<Rightarrow> False)"

text \<open>Every check of a capture whether a file exists gets an answer.\<close>

fun stats_answer :: "EvidenceOp \<Rightarrow> bool" where
  "stats_answer (CaptureBytes io i c d derived prev) \<longleftrightarrow>
     pi_stat io \<and> ai_stat (pi_object io) \<and> ai_stat (pi_record io)"
| "stats_answer (CaptureFile io source i c n digest derived prev) \<longleftrightarrow>
     ci_stat (pf_copy io) \<and> ci_stat_again (pf_copy io) \<and> ai_stat (pf_record io)"
| "stats_answer EvidenceRestart \<longleftrightarrow> True"

text \<open>What both captures come down to: a record is persisted, its object first.\<close>

definition persisted_as :: "(bytes \<Rightarrow> bytes option) \<Rightarrow> EvidenceOp \<Rightarrow> AtomicIo \<Rightarrow> PoisonEvidenceRecord \<Rightarrow>
    bytes Disk \<Rightarrow> bytes Disk \<Rightarrow> bool \<Rightarrow> bool" where
  "persisted_as sha256 op io r disk disk' ok \<longleftrightarrow> op_record_io op io \<and>
     (\<exists>disk1. (stats_answer op \<longrightarrow> (\<forall>p. evidence_final p \<and> disk p \<noteq> Absent \<longrightarrow> disk1 p = disk p)) \<and>
        (\<forall>i. disk1 (record_path i) = disk (record_path i)) \<and>
        ((disk' = disk1 \<and> \<not> ok) \<or>
         (whole_rename (object_rename op) \<or> stats_answer op \<and> disk (object_path r) \<noteq> Absent \<longrightarrow>
            object_there sha256 disk1 r) \<and>
         poison_evidence_write_atomic io (record_temporary (er_evidence_id r)) (record_path (er_evidence_id r))
           (poison_evidence_record_encode r) disk1 = (disk', ok)))"

lemma persist_as:
  assumes "poison_evidence_persist sha256 io r data disk = (disk', ok)"
    and "er_content_length r = of_nat (length data)" "sha256 data = Some (er_content_sha256 r)"
  shows "persisted_as sha256 (CaptureBytes io i c d derived prev) (pi_record io) r disk disk' ok"
proof (cases "pi_directories io")
  case False
  then show ?thesis using assms(1) by (auto simp: poison_evidence_persist_def persisted_as_def op_record_io_def)
next
  case True
  obtain disk1 ok1 where first: "(if storage_file_exists (pi_stat io) disk (object_path r)
      then (disk, poison_evidence_object_matches sha256 (pi_readable io) disk (object_path r)
             (er_content_sha256 r) (length data))
      else poison_evidence_write_atomic (pi_object io) (object_temporary r) (object_path r) data disk) = (disk1, ok1)"
    by fastforce
  have kept: "disk1 p = disk p"
    if "evidence_final p" "ai_stat (pi_object io) \<and> disk p \<noteq> Absent \<or> p \<noteq> object_path r" for p
    using first write_atomic_keeps [of p "object_temporary r" "object_path r" "pi_object io" disk data] that
      final_not_temporary(1) [of p r] by (auto simp: storage_file_exists_def split: if_splits)
  have there: "object_there sha256 disk1 r"
    if ok1 "whole_rename (ai_rename (pi_object io)) \<or> storage_file_exists (pi_stat io) disk (object_path r)"
  proof (cases "storage_file_exists (pi_stat io) disk (object_path r)")
    case False
    then have "poison_evidence_write_atomic (pi_object io) (object_temporary r) (object_path r) data disk = (disk1, True)"
      using first that(1) by simp
    from write_atomic_done [OF this] show ?thesis
      using False that(2) assms(2,3) final_not_temporary(1) [of "object_path r" r] by (auto simp: object_there_def)
  next
    case True
    then show ?thesis
      using first that(1) assms(2,3) by (auto simp: object_there_def object_matches_iff)
  qed
  show ?thesis
    unfolding persisted_as_def
  proof (intro exI [of _ disk1] conjI allI impI)
    show "disk1 (record_path i) = disk (record_path i)" for i by (rule kept) simp_all
    show "disk' = disk1 \<and> \<not> ok \<or>
      (whole_rename (object_rename (CaptureBytes io i c d derived prev)) \<or>
       stats_answer (CaptureBytes io i c d derived prev) \<and> disk (object_path r) \<noteq> Absent \<longrightarrow> object_there sha256 disk1 r) \<and>
      poison_evidence_write_atomic (pi_record io) (record_temporary (er_evidence_id r)) (record_path (er_evidence_id r))
        (poison_evidence_record_encode r) disk1 = (disk', ok)"
      using assms(1) True first there
      by (cases ok1) (auto simp: poison_evidence_persist_def storage_file_exists_def)
  qed (use kept in \<open>auto simp: op_record_io_def\<close>)
qed

lemma persist_file_as:
  assumes "poison_evidence_persist_file sha256 io r disk = (disk', ok)"
  shows "persisted_as sha256 (CaptureFile io source i c n digest derived prev) (pf_record io) r disk disk' ok"
proof (cases "pf_directories io")
  case False
  then show ?thesis using assms(1) by (auto simp: poison_evidence_persist_file_def persisted_as_def op_record_io_def)
next
  case True
  obtain disk1 ok1 where first:
    "poison_evidence_copy_object sha256 (pf_copy io) (object_temporary r) (object_path r) r disk = (disk1, ok1)"
    by fastforce
  have kept: "disk1 p = disk p"
    if "evidence_final p" "ci_stat (pf_copy io) \<and> disk p \<noteq> Absent \<or> p \<noteq> object_path r" for p
    using copy_object_keeps [of p "object_temporary r" "object_path r" "pf_copy io" disk sha256 r] first that
      final_not_temporary(1) [of p r] by (auto simp: storage_file_exists_def)
  show ?thesis
    unfolding persisted_as_def
  proof (intro exI [of _ disk1] conjI allI impI)
    show "disk1 (record_path i) = disk (record_path i)" for i by (rule kept) simp_all
    show "disk' = disk1 \<and> \<not> ok \<or>
      (whole_rename (object_rename (CaptureFile io source i c n digest derived prev)) \<or>
       stats_answer (CaptureFile io source i c n digest derived prev) \<and> disk (object_path r) \<noteq> Absent \<longrightarrow>
         object_there sha256 disk1 r) \<and>
      poison_evidence_write_atomic (pf_record io) (record_temporary (er_evidence_id r)) (record_path (er_evidence_id r))
        (poison_evidence_record_encode r) disk1 = (disk', ok)"
      using assms(1) True first copy_object_there [of sha256 "pf_copy io" r disk disk1]
      by (cases ok1) (auto simp: poison_evidence_persist_file_def storage_file_exists_def)
  qed (use kept in \<open>auto simp: op_record_io_def\<close>)
qed

text \<open>One step: nothing changes but the store, or the record of the capture is persisted.\<close>

definition op_describes :: "(bytes \<Rightarrow> bytes option) \<Rightarrow> EvidenceOp \<Rightarrow> PoisonEvidenceRecord \<Rightarrow> bool" where
  "op_describes sha256 op r \<longleftrightarrow>
     (case op of
        CaptureBytes _ i c d derived prev \<Rightarrow>
          i = Some (er_evidence_id r) \<and> c = Some (er_case_id r) \<and> er_derived r = derived \<and>
          prev = Some (er_previous_audit_sha256 r) \<and>
          (\<exists>data. d = Some data \<and> er_content_length r = of_nat (length data) \<and>
             sha256 data = Some (er_content_sha256 r))
      | CaptureFile _ source i c n digest derived prev \<Rightarrow>
          i = Some (er_evidence_id r) \<and> c = Some (er_case_id r) \<and> er_derived r = derived \<and>
          prev = er_previous_audit_sha256 r \<and> er_content_length r = of_nat n \<and> er_content_sha256 r = digest
      | EvidenceRestart \<Rightarrow> False)"

lemma evidence_step_cases:
  assumes "evidence_step sha256 op service = (service', ok)"
  obtains (nothing) "es_disk service' = es_disk service" "ok \<longrightarrow> op = EvidenceRestart"
    "es_store service' = es_store service \<or> es_store service' = []"
  | (persisted) io r where "op \<noteq> EvidenceRestart" "op_describes sha256 op r" "evidence_sealed sha256 r"
      "persisted_as sha256 op io r (es_disk service) (es_disk service') ok"
      "length (es_store service) < POISON_EVIDENCE_MAX_RECORDS"
      "\<forall>x \<in> set (es_store service). er_active x \<longrightarrow> er_evidence_id x \<noteq> er_evidence_id r"
      "es_store service' = es_store service @ (if ok then [r] else [])"
proof (cases op)
  case EvidenceRestart
  then show ?thesis
    using assms that(1) by (auto simp: poison_evidence_on_system_start_def poison_evidence_store_init_def)
next
  case op: (CaptureBytes io i c d derived prev)
  show ?thesis
  proof (cases "\<exists>staging. poison_evidence_capture sha256 poison_evidence_store_init i c d derived prev = Some staging \<and>
      \<not> (length (es_store service) \<ge> POISON_EVIDENCE_MAX_RECORDS \<or> poison_evidence_find (es_store service) i \<noteq> None)")
    case False
    then have "service' = service \<and> \<not> ok"
      using assms op by (auto simp: poison_evidence_capture_global_def split: option.splits if_splits)
    then show ?thesis using that(1) by simp
  next
    case True
    then obtain staging where staging: "poison_evidence_capture sha256 poison_evidence_store_init i c d derived prev = Some staging"
      and free: "length (es_store service) < POISON_EVIDENCE_MAX_RECORDS" "poison_evidence_find (es_store service) i = None"
      by auto
    from capture_staging [OF staging] obtain data r where r: "staging = [r]" "d = Some data" "i = Some (er_evidence_id r)"
        "er_content_length r = of_nat (length data)" "sha256 data = Some (er_content_sha256 r)" "evidence_sealed sha256 r"
        "c = Some (er_case_id r)" "er_derived r = derived" "prev = Some (er_previous_audit_sha256 r)"
      by auto
    obtain disk' where disk': "poison_evidence_persist sha256 io r data (es_disk service) = (disk', ok)"
      "es_disk service' = disk'" "es_store service' = es_store service @ (if ok then [r] else [])"
      using assms op staging free r(1,2)
      by (auto simp: poison_evidence_capture_global_def split: prod.splits if_splits)
    show ?thesis
    proof (rule that(2))
      show "op \<noteq> EvidenceRestart" "op_describes sha256 op r"
        using op r by (simp_all add: op_describes_def)
      show "persisted_as sha256 op (pi_record io) r (es_disk service) (es_disk service') ok"
        unfolding op using persist_as [OF disk'(1) r(4,5)] disk'(2) by simp
      show "\<forall>x \<in> set (es_store service). er_active x \<longrightarrow> er_evidence_id x \<noteq> er_evidence_id r"
        using free(2) r(3) by (auto simp: poison_evidence_find_def find_None_iff)
    qed (use r free disk' in simp_all)
  qed
next
  case op: (CaptureFile io source i c n digest derived prev)
  show ?thesis
  proof (cases "\<exists>r. n \<noteq> 0 \<and> poison_evidence_stage_file sha256 source i c n digest derived prev = Some r \<and>
      \<not> (length (es_store service) \<ge> POISON_EVIDENCE_MAX_RECORDS \<or> poison_evidence_find (es_store service) i \<noteq> None)")
    case False
    then have "service' = service \<and> \<not> ok"
      using assms op by (auto simp: poison_evidence_capture_file_global_def split: option.splits if_splits)
    then show ?thesis using that(1) by simp
  next
    case True
    then obtain r where r: "poison_evidence_stage_file sha256 source i c n digest derived prev = Some r"
      and free: "n \<noteq> 0" "length (es_store service) < POISON_EVIDENCE_MAX_RECORDS"
        "poison_evidence_find (es_store service) i = None"
      by auto
    from stage_file_record [OF r] have rec: "i = Some (er_evidence_id r)" "evidence_sealed sha256 r"
      "c = Some (er_case_id r)" "er_derived r = derived" "prev = er_previous_audit_sha256 r"
      "er_content_length r = of_nat n" "er_content_sha256 r = digest" by auto
    obtain disk' where disk': "poison_evidence_persist_file sha256 io r (es_disk service) = (disk', ok)"
      "es_disk service' = disk'" "es_store service' = es_store service @ (if ok then [r] else [])"
      using assms op r free
      by (auto simp: poison_evidence_capture_file_global_def split: prod.splits if_splits)
    show ?thesis
    proof (rule that(2))
      show "op \<noteq> EvidenceRestart" "op_describes sha256 op r"
        using op rec by (simp_all add: op_describes_def)
      show "persisted_as sha256 op (pf_record io) r (es_disk service) (es_disk service') ok"
        unfolding op using persist_file_as [OF disk'(1)] disk'(2) by simp
      show "\<forall>x \<in> set (es_store service). er_active x \<longrightarrow> er_evidence_id x \<noteq> er_evidence_id r"
        using free(3) rec(1) by (auto simp: poison_evidence_find_def find_None_iff)
    qed (use rec free disk' in simp_all)
  qed
qed

lemma persisted_stat: "persisted_as sha256 op io r disk disk' ok \<Longrightarrow> stats_answer op \<Longrightarrow> ai_stat io"
  by (auto simp: persisted_as_def op_record_io_def split: EvidenceOp.splits)

lemma persisted_keeps:
  assumes "persisted_as sha256 op io r disk disk' ok" "stats_answer op" "evidence_final p" "disk p \<noteq> Absent"
  shows "disk' p = disk p"
proof -
  obtain disk1 where disk1: "\<And>p. evidence_final p \<Longrightarrow> disk p \<noteq> Absent \<Longrightarrow> disk1 p = disk p"
    and cases: "disk' = disk1 \<or> poison_evidence_write_atomic io (record_temporary (er_evidence_id r))
       (record_path (er_evidence_id r)) (poison_evidence_record_encode r) disk1 = (disk', ok)"
    using assms(1,2) unfolding persisted_as_def by blast
  have same: "disk1 p = disk p" using disk1 assms(3,4) by blast
  have "fst (poison_evidence_write_atomic io (record_temporary (er_evidence_id r))
      (record_path (er_evidence_id r)) (poison_evidence_record_encode r) disk1) p = disk1 p"
    by (rule write_atomic_keeps)
      (use same assms(3,4) persisted_stat [OF assms(1,2)] final_not_temporary(2) in
        \<open>auto simp: storage_file_exists_def\<close>)
  then show ?thesis using cases same by auto
qed

lemma record_temporary_differs [simp]: "record_temporary i \<noteq> record_path j" "record_path j \<noteq> record_temporary i"
  by (simp_all add: record_temporary_def record_path_def)

text \<open>No rename of a capture reports success for less than the whole file.\<close>

definition whole_renames :: "EvidenceOp \<Rightarrow> bool" where
  "whole_renames op \<longleftrightarrow> whole_rename (object_rename op) \<and>
     (\<forall>io. op_record_io op io \<longrightarrow> whole_rename (ai_rename io))"

lemma persisted_done:
  assumes "persisted_as sha256 op io r disk disk' True"
  shows "whole_renames op \<Longrightarrow> disk' (record_path (er_evidence_id r)) = Holds (poison_evidence_record_encode r)"
    "whole_rename (object_rename op) \<or> stats_answer op \<and> disk (object_path r) \<noteq> Absent \<Longrightarrow> object_there sha256 disk' r"
proof -
  obtain disk1 where there: "whole_rename (object_rename op) \<or> stats_answer op \<and> disk (object_path r) \<noteq> Absent \<Longrightarrow>
      object_there sha256 disk1 r"
    and written: "poison_evidence_write_atomic io (record_temporary (er_evidence_id r))
       (record_path (er_evidence_id r)) (poison_evidence_record_encode r) disk1 = (disk', True)"
    and io: "op_record_io op io"
    using assms unfolding persisted_as_def by blast
  show "disk' (record_path (er_evidence_id r)) = Holds (poison_evidence_record_encode r)" if "whole_renames op"
    using write_atomic_done [OF written] that io by (auto simp: whole_renames_def)
  have "disk' (object_path r) = disk1 (object_path r)"
    using write_atomic_keeps [of "object_path r" "record_temporary (er_evidence_id r)"
        "record_path (er_evidence_id r)" io disk1 "poison_evidence_record_encode r"]
      final_not_temporary(2) [of "object_path r" "er_evidence_id r"] written by simp
  then show "object_there sha256 disk' r"
    if "whole_rename (object_rename op) \<or> stats_answer op \<and> disk (object_path r) \<noteq> Absent"
    using there [OF that] by (simp add: object_there_def)
qed

text \<open>The files of objects and records are never changed once they exist, whatever is captured later, as long
  as the checks for them get an answer.\<close>

lemma step_keeps_final:
  assumes "evidence_final p" "es_disk service p \<noteq> Absent" "stats_answer op"
  shows "es_disk (fst (evidence_step sha256 op service)) p = es_disk service p"
proof -
  obtain service' ok where step: "evidence_step sha256 op service = (service', ok)" by fastforce
  then show ?thesis
  proof (cases rule: evidence_step_cases)
    case nothing
    then show ?thesis using step by simp
  next
    case (persisted io r)
    then show ?thesis using step persisted_keeps [OF persisted(4) assms(3,1,2)] by simp
  qed
qed

lemma run_keeps_final:
  assumes "evidence_final p" "es_disk service p \<noteq> Absent" "\<forall>op \<in> set ops. stats_answer op"
  shows "es_disk (run_state (evidence_step sha256) service ops) p = es_disk service p"
  using assms(2,3)
proof (induction ops arbitrary: service)
  case (Cons op ops)
  have "es_disk (fst (evidence_step sha256 op service)) p = es_disk service p"
    using step_keeps_final [OF assms(1) Cons.prems(1)] Cons.prems(2) by simp
  then show ?case using Cons.IH [of "fst (evidence_step sha256 op service)"] Cons.prems by simp
qed simp


text \<open>A record is written after its object: a copy that fails, or that is cut short, leaves less than the file
  it copies.\<close>

definition shorter_copy :: "EvidenceOp \<Rightarrow> bool" where
  "shorter_copy op \<longleftrightarrow> (\<forall>io b. op_record_io op io \<longrightarrow>
     ai_rename io = CopyFails (Holds b) \<or> ai_rename io = RenameShort (Holds b) \<longrightarrow>
     length b < POISON_EVIDENCE_RECORD_SIZE)"

text \<open>The storage as the consistency needs it: the checks for files get an answer, an object that is reported
  as renamed is whole, and a record that is copied in part is not a whole one.\<close>

definition faithful_storage :: "EvidenceOp \<Rightarrow> bool" where
  "faithful_storage op \<longleftrightarrow> stats_answer op \<and> whole_rename (object_rename op) \<and> shorter_copy op"

definition evidence_consistent :: "(bytes \<Rightarrow> bytes option) \<Rightarrow> bytes Disk \<Rightarrow> bool" where
  "evidence_consistent sha256 disk \<longleftrightarrow>
     (\<forall>i b. disk (record_path i) = Holds b \<and> length b = POISON_EVIDENCE_RECORD_SIZE \<longrightarrow>
        (\<exists>r. er_evidence_id r = i \<and> b = poison_evidence_record_encode r \<and> evidence_sealed sha256 r \<and>
           object_there sha256 disk r))"

lemma step_consistent:
  assumes "evidence_consistent sha256 (es_disk service)" "faithful_storage op"
  shows "evidence_consistent sha256 (es_disk (fst (evidence_step sha256 op service)))"
proof -
  obtain service' ok where step: "evidence_step sha256 op service = (service', ok)" by fastforce
  then have "evidence_consistent sha256 (es_disk service')"
  proof (cases rule: evidence_step_cases)
    case nothing
    then show ?thesis using assms(1) by simp
  next
    case (persisted io r)
    let ?disk = "es_disk service" and ?disk' = "es_disk service'" and ?i = "er_evidence_id r"
    have kept: "object_there sha256 ?disk' x" if "object_there sha256 ?disk x" for x
      using that persisted_keeps [OF persisted(4), of "object_path x"] assms(2)
      by (auto simp: object_there_def faithful_storage_def)
    obtain disk1 where disk1: "\<And>i. disk1 (record_path i) = ?disk (record_path i)"
      and cases: "?disk' = disk1 \<or> object_there sha256 disk1 r \<and>
        poison_evidence_write_atomic io (record_temporary ?i) (record_path ?i) (poison_evidence_record_encode r) disk1
          = (?disk', ok)" and io: "op_record_io op io"
      using persisted(4) assms(2) unfolding persisted_as_def faithful_storage_def by blast
    have "\<exists>x. er_evidence_id x = i \<and> b = poison_evidence_record_encode x \<and> evidence_sealed sha256 x \<and> object_there sha256 ?disk' x"
      if b: "?disk' (record_path i) = Holds b" "length b = POISON_EVIDENCE_RECORD_SIZE" for i b
    proof (cases "?disk (record_path i) = Holds b")
      case True
      then show ?thesis using assms(1) b(2) kept unfolding evidence_consistent_def by blast
    next
      case False
      then have written: "poison_evidence_write_atomic io (record_temporary ?i) (record_path ?i)
          (poison_evidence_record_encode r) disk1 = (?disk', ok)" and there: "object_there sha256 disk1 r"
        using cases b(1) disk1 by auto
      have there': "object_there sha256 ?disk' r"
        using there write_atomic_keeps [of "object_path r" "record_temporary ?i" "record_path ?i" io disk1
            "poison_evidence_record_encode r"] written final_not_temporary(2) [of "object_path r" ?i]
        by (simp add: object_there_def)
      have i: "i = ?i"
        using False b(1) disk1 write_atomic_keeps [of "record_path i" "record_temporary ?i" "record_path ?i" io disk1
            "poison_evidence_record_encode r"] written by force
      have "b = poison_evidence_record_encode r"
      proof (cases ok)
        case True
        then have "poison_evidence_write_atomic io (record_temporary ?i) (record_path ?i)
          (poison_evidence_record_encode r) disk1 = (?disk', True)" using written by simp
        from write_atomic_done [OF this] show ?thesis
          using b i assms(2) io by (auto simp: faithful_storage_def shorter_copy_def)
      next
        case not_ok: False
        have "ai_rename io \<noteq> CopyFails (Holds b)"
          using assms(2) io b(2) unfolding faithful_storage_def shorter_copy_def by fastforce
        then show ?thesis
          using write_atomic_failed [of io "record_temporary ?i" "record_path ?i" "poison_evidence_record_encode r" disk1 ?disk']
            written not_ok b(1) i False disk1 by auto
      qed
      then show ?thesis using i persisted(3) there' by (intro exI [of _ r]) simp
    qed
    then show ?thesis unfolding evidence_consistent_def by blast
  qed
  then show ?thesis using step by simp
qed


text \<open>The store is bounded and its ids differ; a full store refuses everything until the restart.\<close>

lemma evidence_store_bounded:
  assumes "length (es_store service) \<le> POISON_EVIDENCE_MAX_RECORDS"
  shows "length (es_store (fst (evidence_step sha256 op service))) \<le> POISON_EVIDENCE_MAX_RECORDS"
proof -
  obtain service' ok where step: "evidence_step sha256 op service = (service', ok)" by fastforce
  then show ?thesis
    using assms by (cases rule: evidence_step_cases) (auto simp: step)
qed

lemma full_store_refuses:
  assumes "length (es_store service) = POISON_EVIDENCE_MAX_RECORDS" "op \<noteq> EvidenceRestart"
  shows "\<not> snd (evidence_step sha256 op service)"
proof -
  obtain service' ok where step: "evidence_step sha256 op service = (service', ok)" by fastforce
  then show ?thesis
    using assms by (cases rule: evidence_step_cases) (auto simp: step)
qed

text \<open>A check that gets no answer lets a write replace what is there, and a rename that is cut short passes for
  a whole one.\<close>

lemma failed_check_replaces:
  assumes "\<not> ai_stat io" "write_ok (ai_write io)" "ai_rename io = RenameDone" "temporary_path \<noteq> final_path"
  shows "poison_evidence_write_atomic io temporary_path final_path data disk =
    (disk(temporary_path := Absent, final_path := Holds data), True)"
  using assms
  by (auto simp: poison_evidence_write_atomic_def storage_file_exists_def storage_common_rename_def)

lemma short_rename_passes:
  assumes "disk final_path = Absent" "write_ok (ai_write io)" "ai_rename io = RenameShort left"
    and "temporary_path \<noteq> final_path"
  shows "poison_evidence_write_atomic io temporary_path final_path data disk =
    (disk(temporary_path := Absent, final_path := left), True)"
  using assms
  by (auto simp: poison_evidence_write_atomic_def storage_file_exists_def storage_common_rename_def)

text \<open>What an interrupted copy of an object leaves behind blocks this content for ever: no later capture of
  it succeeds.\<close>

lemma damaged_object_blocks:
  assumes "es_disk service (object_path r) \<noteq> Absent" "\<not> object_there sha256 (es_disk service) r"
    and "er_content_sha256 x = er_content_sha256 r" "er_content_length x = er_content_length r"
    and "op_describes sha256 op x" "stats_answer op"
  shows "\<not> snd (evidence_step sha256 op service)"
proof -
  obtain service' ok where step: "evidence_step sha256 op service = (service', ok)" by fastforce
  then show ?thesis
  proof (cases rule: evidence_step_cases)
    case nothing
    then show ?thesis using step assms(5) by (auto simp: op_describes_def)
  next
    case (persisted io y)
    have same: "er_content_sha256 y = er_content_sha256 r" "er_content_length y = er_content_length r"
      using persisted(2) assms(3-5) by (auto simp: op_describes_def split: EvidenceOp.splits)
    then have "object_path y = object_path r" by (simp add: object_path_def)
    moreover have "es_disk service' (object_path r) = es_disk service (object_path r)"
      by (rule persisted_keeps [OF persisted(4) assms(6) _ assms(1)]) simp
    ultimately have "\<not> object_there sha256 (es_disk service') y"
      using assms(2) same by (simp add: object_there_def)
    then show ?thesis
      using persisted_done(2) [of sha256 op io y] persisted(4) step assms(1,6) \<open>object_path y = object_path r\<close>
      by (cases ok) auto
  qed
qed

text \<open>A storage where everything works takes evidence of a new id.\<close>

lemma capture_goes_through:
  assumes "poison_evidence_id_validate (Some i)" "poison_evidence_id_validate (Some c)" "data \<noteq> []"
    and "\<And>b. sha256 b \<noteq> None" "pi_directories io"
    and "write_ok (ai_write (pi_object io))" "ai_rename (pi_object io) = RenameDone"
    and "write_ok (ai_write (pi_record io))" "ai_rename (pi_record io) = RenameDone"
    and "es_store service = []" "\<And>p. evidence_final p \<Longrightarrow> es_disk service p = Absent"
  shows "snd (evidence_step sha256 (CaptureBytes io (Some i) (Some c) (Some data) derived (Some prev)) service)"
proof -
  have goes: "snd (poison_evidence_write_atomic aio t f d disk) \<and>
      (\<forall>p. p \<noteq> t \<longrightarrow> p \<noteq> f \<longrightarrow> fst (poison_evidence_write_atomic aio t f d disk) p = disk p)"
    if "write_ok (ai_write aio)" "ai_rename aio = RenameDone" "disk f = Absent" "t \<noteq> f" for aio t f d disk
    using that by (simp add: poison_evidence_write_atomic_def storage_common_rename_def storage_file_exists_def)
  have "\<forall>b. \<exists>d. sha256 b = Some d" using assms(4) by auto
  then obtain f where f: "\<And>b. sha256 b = Some (f b)" by metis
  obtain staging where staging: "poison_evidence_capture sha256 poison_evidence_store_init (Some i) (Some c)
      (Some data) derived (Some prev) = Some staging"
    using assms(1-3)
    by (auto simp: f poison_evidence_capture_def poison_evidence_begin_def poison_evidence_append_def Let_def
        poison_evidence_commit_def poison_evidence_store_init_def poison_evidence_find_def empty_transaction_def)
  from capture_staging [OF staging] obtain r where r: "staging = [r]" "er_evidence_id r = i" by auto
  have "snd (poison_evidence_persist sha256 io r data (es_disk service))"
    using goes [OF assms(6,7), of "es_disk service" "object_path r" "object_temporary r" data]
      goes [OF assms(8,9), of _ "record_path i" "record_temporary i" "poison_evidence_record_encode r"]
      assms(5,11) final_not_temporary(1) [of "object_path r" r] final_not_temporary(1) [of "record_path i" r]
      final_paths r(2)
    by (auto simp: poison_evidence_persist_def storage_file_exists_def split: prod.split)
  then show ?thesis
    using staging r assms(10)
    by (auto simp: poison_evidence_capture_global_def poison_evidence_find_def split: prod.splits)
qed

text \<open>The first capture on an empty disk, with a hash of 32 zeros.\<close>

definition sample_persist :: PersistIo where
  "sample_persist = (let io = \<lparr> ai_stat = True, ai_write = \<lparr> wi_open = True, wi_write = True, wi_sync = True, wi_close = True,
       wi_left = Absent \<rparr>, ai_rename = RenameDone, ai_clean = True \<rparr>
     in \<lparr> pi_directories = True, pi_stat = True, pi_readable = True, pi_object = io, pi_record = io \<rparr>)"

definition sample_capture :: EvidenceOp where
  "sample_capture = CaptureBytes sample_persist (Some ''e1'') (Some ''c1'') (Some [7, 8]) False (Some (zeros 32))"

definition sample_service :: EvidenceService where
  "sample_service = poison_evidence_on_system_start (\<lambda>_. Absent)"

lemma sample_capture_works: "snd (evidence_step (\<lambda>_. Some (zeros 32)) sample_capture sample_service)"
  unfolding sample_capture_def
  by (rule capture_goes_through)
    (simp_all add: id_validate_iff evidence_id_char_def of_char_def sample_persist_def Let_def write_ok_def sample_service_def
      poison_evidence_on_system_start_def poison_evidence_store_init_def)



definition sample_evidence_record :: PoisonEvidenceRecord where
  "sample_evidence_record = empty_record \<lparr> er_evidence_id := ''e1'', er_case_id := ''c1'', er_content_length := 2 \<rparr>"

lemma audit_digest_binds_record_witness:
  "er_case_id sample_evidence_record = er_case_id (sample_evidence_record \<lparr> er_active := True \<rparr>)"
  using audit_digest_binds_record
    [of sample_evidence_record "sample_evidence_record \<lparr> er_active := True \<rparr>"]
  by (simp add: evidence_audit_input_def record_wf_def sample_evidence_record_def empty_record_def no_nul_def of_char_def)

end
