(* ===== verification/Workload.thy ===== *)
theory Workload
  imports Evidence Vfs AuditChain Diagnostics
begin

text \<open>Managed workloads (\<open>poison_workload/\<close>): the state machine of a workload with its limits, its bounded
  console and its artifacts, the two records that connections attach to, and the adapters that run a
  script or an application for it.\<close>

section \<open>State\<close>

abbreviation "POISON_WORKLOAD_MAX_ID \<equiv> (64 :: nat)"
abbreviation "POISON_WORKLOAD_MAX_DIGEST \<equiv> (65 :: nat)"
abbreviation "POISON_WORKLOAD_MAX_CONSOLE_FRAMES \<equiv> (32 :: nat)"
abbreviation "POISON_WORKLOAD_MAX_CONSOLE_TEXT \<equiv> (128 :: nat)"
abbreviation "POISON_WORKLOAD_MAX_ARTIFACTS \<equiv> (8 :: nat)"
abbreviation "POISON_WORKLOAD_MAX_ARTIFACT_ID \<equiv> (64 :: nat)"
abbreviation "POISON_WORKLOAD_MAX_ARTIFACT_PATH \<equiv> (257 :: nat)"

datatype PoisonWorkloadState =
    PoisonWorkloadQueued | PoisonWorkloadRunning | PoisonWorkloadCancelling | PoisonWorkloadCompleted
  | PoisonWorkloadFailed | PoisonWorkloadCancelled | PoisonWorkloadTimedOut | PoisonWorkloadCrashed
  | PoisonWorkloadDisconnected

datatype PoisonWorkloadTerminalReason =
    PoisonWorkloadTerminalNone | PoisonWorkloadTerminalCompleted | PoisonWorkloadTerminalCancelled
  | PoisonWorkloadTerminalTimeout | PoisonWorkloadTerminalCrash | PoisonWorkloadTerminalDisconnect
  | PoisonWorkloadTerminalHeapLimit | PoisonWorkloadTerminalSourceLimit | PoisonWorkloadTerminalModuleLimit
  | PoisonWorkloadTerminalParserLimit | PoisonWorkloadTerminalStackLimit | PoisonWorkloadTerminalFuelLimit
  | PoisonWorkloadTerminalCallbackLimit | PoisonWorkloadTerminalTimerLimit
  | PoisonWorkloadTerminalHandleLimit | PoisonWorkloadTerminalLogLimit
  | PoisonWorkloadTerminalArtifactLimit

datatype PoisonWorkloadConsoleType =
    PoisonWorkloadConsoleStdout | PoisonWorkloadConsoleStderr | PoisonWorkloadConsoleLog
  | PoisonWorkloadConsoleEvent | PoisonWorkloadConsoleTruncation

record PoisonWorkloadLimits =
  wl_heap_bytes :: u32
  wl_source_bytes :: u32
  wl_modules :: u16
  wl_parser_depth :: u16
  wl_stack_depth :: u16
  wl_fuel :: u32
  wl_callbacks :: u16
  wl_timers :: u16
  wl_open_handles :: u16
  wl_logs :: u32
  wl_artifacts :: u16
  wl_wall_ms :: u32
  wl_artifact_bytes :: u32

record PoisonWorkloadUsage =
  wu_heap_bytes :: u32
  wu_source_bytes :: u32
  wu_modules :: u16
  wu_parser_depth :: u16
  wu_stack_depth :: u16
  wu_fuel :: u32
  wu_callbacks :: u16
  wu_timers :: u16
  wu_open_handles :: u16
  wu_logs :: u32
  wu_artifacts :: u16
  wu_wall_ms :: u32
  wu_artifact_bytes :: u32

datatype PoisonWorkloadArtifactState =
  PoisonWorkloadArtifactPartial | PoisonWorkloadArtifactProject | PoisonWorkloadArtifactEvidence

record PoisonWorkloadArtifact =
  wa_artifact_id :: string
  wa_path :: string
  wa_size :: u64
  wa_sha256 :: bytes
  wa_state :: PoisonWorkloadArtifactState
  wa_evidence_id :: string

record PoisonWorkloadConsoleFrame =
  wf_sequence :: u64
  wf_type :: PoisonWorkloadConsoleType
  wf_text :: string

text \<open>The console and the artifacts are the first \<open>count\<close> entries of their arrays; what lies behind is zero
  and is cleared before it is used.\<close>

record PoisonWorkload =
  pw_workload_id :: string
  pw_project_digest :: string
  pw_capabilities_digest :: string
  pw_state :: PoisonWorkloadState
  pw_terminal_reason :: PoisonWorkloadTerminalReason
  pw_limits :: PoisonWorkloadLimits
  pw_usage :: PoisonWorkloadUsage
  pw_console :: "PoisonWorkloadConsoleFrame list"
  pw_next_console_sequence :: u64
  pw_artifacts :: "PoisonWorkloadArtifact list"

definition zero_limits :: PoisonWorkloadLimits where
  "zero_limits = \<lparr> wl_heap_bytes = 0, wl_source_bytes = 0, wl_modules = 0, wl_parser_depth = 0, wl_stack_depth = 0,
     wl_fuel = 0, wl_callbacks = 0, wl_timers = 0, wl_open_handles = 0, wl_logs = 0, wl_artifacts = 0,
     wl_wall_ms = 0, wl_artifact_bytes = 0 \<rparr>"

definition zero_usage :: PoisonWorkloadUsage where
  "zero_usage = \<lparr> wu_heap_bytes = 0, wu_source_bytes = 0, wu_modules = 0, wu_parser_depth = 0, wu_stack_depth = 0,
     wu_fuel = 0, wu_callbacks = 0, wu_timers = 0, wu_open_handles = 0, wu_logs = 0, wu_artifacts = 0,
     wu_wall_ms = 0, wu_artifact_bytes = 0 \<rparr>"

text \<open>What \<open>memset\<close> leaves.\<close>

definition zero_artifact :: PoisonWorkloadArtifact where
  "zero_artifact = \<lparr> wa_artifact_id = '''', wa_path = '''', wa_size = 0, wa_sha256 = zeros 32,
     wa_state = PoisonWorkloadArtifactPartial, wa_evidence_id = '''' \<rparr>"

definition zero_workload :: PoisonWorkload where
  "zero_workload = \<lparr> pw_workload_id = '''', pw_project_digest = '''', pw_capabilities_digest = '''',
     pw_state = PoisonWorkloadQueued, pw_terminal_reason = PoisonWorkloadTerminalNone, pw_limits = zero_limits,
     pw_usage = zero_usage, pw_console = [], pw_next_console_sequence = 0, pw_artifacts = [] \<rparr>"

section \<open>Operations\<close>

definition hex_digit_char :: "char \<Rightarrow> bool" where
  "hex_digit_char c \<longleftrightarrow> (char_code CHR ''0'' \<le> char_code c \<and> char_code c \<le> char_code CHR ''9'') \<or>
     (char_code CHR ''a'' \<le> char_code c \<and> char_code c \<le> char_code CHR ''f'')"

definition workload_bounded_digest :: "string option \<Rightarrow> bool" where
  "workload_bounded_digest value =
    (case value of None \<Rightarrow> False
     | Some v \<Rightarrow> length v = POISON_WORKLOAD_MAX_DIGEST - 1 \<and> list_all hex_digit_char v)"

definition workload_id_char :: "char \<Rightarrow> bool" where
  "workload_id_char c \<longleftrightarrow> (char_code CHR ''a'' \<le> char_code c \<and> char_code c \<le> char_code CHR ''z'') \<or>
     (char_code CHR ''0'' \<le> char_code c \<and> char_code c \<le> char_code CHR ''9'') \<or> c = CHR ''-'' \<or> c = CHR ''_''"

definition workload_bounded_id :: "string option \<Rightarrow> bool" where
  "workload_bounded_id value =
    (case value of None \<Rightarrow> False
     | Some v \<Rightarrow> if v = '''' \<or> length v \<ge> POISON_WORKLOAD_MAX_ID then False else list_all workload_id_char v)"

fun workload_state_index :: "PoisonWorkloadState \<Rightarrow> nat" where
  "workload_state_index PoisonWorkloadQueued = 0"
| "workload_state_index PoisonWorkloadRunning = 1"
| "workload_state_index PoisonWorkloadCancelling = 2"
| "workload_state_index PoisonWorkloadCompleted = 3"
| "workload_state_index PoisonWorkloadFailed = 4"
| "workload_state_index PoisonWorkloadCancelled = 5"
| "workload_state_index PoisonWorkloadTimedOut = 6"
| "workload_state_index PoisonWorkloadCrashed = 7"
| "workload_state_index PoisonWorkloadDisconnected = 8"

definition terminal_state :: "PoisonWorkloadState \<Rightarrow> bool" where
  "terminal_state state \<longleftrightarrow> workload_state_index state \<ge> workload_state_index PoisonWorkloadCompleted"

lemma terminal_state_iff [simp]:
  "terminal_state s \<longleftrightarrow> s \<noteq> PoisonWorkloadQueued \<and> s \<noteq> PoisonWorkloadRunning \<and> s \<noteq> PoisonWorkloadCancelling"
  by (cases s) (simp_all add: terminal_state_def)

definition state_for_reason :: "PoisonWorkloadTerminalReason \<Rightarrow> PoisonWorkloadState" where
  "state_for_reason reason =
    (case reason of
       PoisonWorkloadTerminalCancelled \<Rightarrow> PoisonWorkloadCancelled
     | PoisonWorkloadTerminalTimeout \<Rightarrow> PoisonWorkloadTimedOut
     | PoisonWorkloadTerminalDisconnect \<Rightarrow> PoisonWorkloadDisconnected
     | PoisonWorkloadTerminalCompleted \<Rightarrow> PoisonWorkloadCompleted
     | _ \<Rightarrow> PoisonWorkloadFailed)"

definition poison_workload_init :: "string option \<Rightarrow> string option \<Rightarrow> string option \<Rightarrow>
    PoisonWorkloadLimits option \<Rightarrow> PoisonWorkload option" where
  "poison_workload_init workload_id project_digest capabilities_digest limits =
    (case limits of
       None \<Rightarrow> None
     | Some l \<Rightarrow>
         if \<not> workload_bounded_id workload_id \<or> \<not> workload_bounded_digest project_digest \<or>
            \<not> workload_bounded_digest capabilities_digest \<or> wl_heap_bytes l = 0 \<or> wl_source_bytes l = 0 \<or>
            wl_modules l = 0 \<or> wl_fuel l = 0 \<or> wl_wall_ms l = 0
         then None
         else Some (zero_workload \<lparr> pw_workload_id := the workload_id, pw_project_digest := the project_digest,
                pw_capabilities_digest := the capabilities_digest, pw_state := PoisonWorkloadQueued,
                pw_limits := l, pw_next_console_sequence := 1 \<rparr>))"

definition poison_workload_start :: "PoisonWorkload \<Rightarrow> PoisonWorkload \<times> bool" where
  "poison_workload_start workload =
    (if pw_state workload \<noteq> PoisonWorkloadQueued then (workload, False)
     else (workload \<lparr> pw_state := PoisonWorkloadRunning \<rparr>, True))"

definition poison_workload_request_cancel :: "PoisonWorkload \<Rightarrow> PoisonWorkload \<times> bool" where
  "poison_workload_request_cancel workload =
    (if pw_state workload \<noteq> PoisonWorkloadRunning then (workload, False)
     else (workload \<lparr> pw_state := PoisonWorkloadCancelling \<rparr>, True))"

definition poison_workload_force_terminate ::
    "PoisonWorkloadTerminalReason \<Rightarrow> PoisonWorkload \<Rightarrow> PoisonWorkload \<times> bool" where
  "poison_workload_force_terminate reason workload =
    (if reason = PoisonWorkloadTerminalNone \<or> terminal_state (pw_state workload) then (workload, False)
     else if pw_state workload \<noteq> PoisonWorkloadRunning \<and> pw_state workload \<noteq> PoisonWorkloadCancelling
     then (workload, False)
     else (workload \<lparr> pw_terminal_reason := reason, pw_state := state_for_reason reason \<rparr>, True))"

text \<open>The 16-bit comparison is made in \<open>int\<close>, where the subtraction cannot wrap either.\<close>

definition exceeds :: "'a :: len word \<Rightarrow> 'a word \<Rightarrow> 'a word \<Rightarrow> bool" where
  "exceeds current increment maximum \<longleftrightarrow> increment > maximum \<or> current > maximum - increment"

definition usage_exceeds :: "PoisonWorkloadUsage \<Rightarrow> PoisonWorkloadUsage \<Rightarrow> PoisonWorkloadLimits \<Rightarrow> bool" where
  "usage_exceeds u i l \<longleftrightarrow>
     exceeds (wu_heap_bytes u) (wu_heap_bytes i) (wl_heap_bytes l) \<or>
     exceeds (wu_source_bytes u) (wu_source_bytes i) (wl_source_bytes l) \<or>
     exceeds (wu_modules u) (wu_modules i) (wl_modules l) \<or>
     exceeds (wu_parser_depth u) (wu_parser_depth i) (wl_parser_depth l) \<or>
     exceeds (wu_stack_depth u) (wu_stack_depth i) (wl_stack_depth l) \<or>
     exceeds (wu_fuel u) (wu_fuel i) (wl_fuel l) \<or>
     exceeds (wu_callbacks u) (wu_callbacks i) (wl_callbacks l) \<or>
     exceeds (wu_timers u) (wu_timers i) (wl_timers l) \<or>
     exceeds (wu_open_handles u) (wu_open_handles i) (wl_open_handles l) \<or>
     exceeds (wu_logs u) (wu_logs i) (wl_logs l) \<or>
     exceeds (wu_artifacts u) (wu_artifacts i) (wl_artifacts l) \<or>
     exceeds (wu_wall_ms u) (wu_wall_ms i) (wl_wall_ms l) \<or>
     exceeds (wu_artifact_bytes u) (wu_artifact_bytes i) (wl_artifact_bytes l)"

definition usage_plus :: "PoisonWorkloadUsage \<Rightarrow> PoisonWorkloadUsage \<Rightarrow> PoisonWorkloadUsage" where
  "usage_plus u i = \<lparr> wu_heap_bytes = wu_heap_bytes u + wu_heap_bytes i,
     wu_source_bytes = wu_source_bytes u + wu_source_bytes i, wu_modules = wu_modules u + wu_modules i,
     wu_parser_depth = wu_parser_depth u + wu_parser_depth i, wu_stack_depth = wu_stack_depth u + wu_stack_depth i,
     wu_fuel = wu_fuel u + wu_fuel i, wu_callbacks = wu_callbacks u + wu_callbacks i,
     wu_timers = wu_timers u + wu_timers i, wu_open_handles = wu_open_handles u + wu_open_handles i,
     wu_logs = wu_logs u + wu_logs i, wu_artifacts = wu_artifacts u + wu_artifacts i,
     wu_wall_ms = wu_wall_ms u + wu_wall_ms i, wu_artifact_bytes = wu_artifact_bytes u + wu_artifact_bytes i \<rparr>"

definition poison_workload_account :: "PoisonWorkloadUsage option \<Rightarrow> PoisonWorkloadTerminalReason \<Rightarrow>
    PoisonWorkload \<Rightarrow> PoisonWorkload \<times> bool" where
  "poison_workload_account increment limit_reason workload =
    (case increment of
       None \<Rightarrow> (workload, False)
     | Some i \<Rightarrow>
         if pw_state workload \<noteq> PoisonWorkloadRunning then (workload, False)
         else if usage_exceeds (pw_usage workload) i (pw_limits workload)
         then poison_workload_force_terminate
                (if limit_reason = PoisonWorkloadTerminalNone then PoisonWorkloadTerminalFuelLimit else limit_reason)
                workload
         else (workload \<lparr> pw_usage := usage_plus (pw_usage workload) i \<rparr>, True))"

definition poison_workload_append_console ::
    "PoisonWorkloadConsoleType \<Rightarrow> string option \<Rightarrow> PoisonWorkload \<Rightarrow> PoisonWorkload \<times> bool" where
  "poison_workload_append_console type line workload =
    (case line of
       None \<Rightarrow> (workload, False)
     | Some t \<Rightarrow>
         if terminal_state (pw_state workload) then (workload, False)
         else let truncated = strnlen t (POISON_WORKLOAD_MAX_CONSOLE_TEXT + 1) > POISON_WORKLOAD_MAX_CONSOLE_TEXT;
                  stored = (if truncated then ''[truncated]'' else t);
                  stored_bytes = of_nat (length stored) :: u32;
                  frames = length (pw_console workload);
                  logs = wl_logs (pw_limits workload);
                  sequence = pw_next_console_sequence workload
         in if frames \<ge> POISON_WORKLOAD_MAX_CONSOLE_FRAMES - 1 \<or>
               stored_bytes > logs \<or> wu_logs (pw_usage workload) > logs - stored_bytes
            then ((if frames < POISON_WORKLOAD_MAX_CONSOLE_FRAMES
                   then workload \<lparr> pw_console := pw_console workload @
                            [\<lparr> wf_sequence = sequence, wf_type = PoisonWorkloadConsoleTruncation,
                               wf_text = ''[output limit reached]'' \<rparr>],
                          pw_next_console_sequence := sequence + 1 \<rparr>
                   else workload)
                  \<lparr> pw_usage := (pw_usage workload) \<lparr> wu_logs := logs \<rparr>,
                    pw_terminal_reason := PoisonWorkloadTerminalLogLimit, pw_state := PoisonWorkloadFailed \<rparr>, False)
            else (workload \<lparr> pw_console := pw_console workload @
                      [\<lparr> wf_sequence = sequence,
                         wf_type = (if truncated then PoisonWorkloadConsoleTruncation else type), wf_text = stored \<rparr>],
                    pw_next_console_sequence := sequence + 1,
                    pw_usage := (pw_usage workload) \<lparr> wu_logs := wu_logs (pw_usage workload) + stored_bytes \<rparr> \<rparr>, True))"

definition poison_workload_finalize_artifact :: "bool \<Rightarrow> PoisonWorkload \<Rightarrow> PoisonWorkload \<times> bool" where
  "poison_workload_finalize_artifact evidence_requested workload =
    (if pw_state workload \<noteq> PoisonWorkloadRunning \<or> \<not> evidence_requested \<or>
        length (pw_artifacts workload) \<ge> POISON_WORKLOAD_MAX_ARTIFACTS \<or>
        wu_artifacts (pw_usage workload) \<ge> wl_artifacts (pw_limits workload)
     then (workload, False)
     else (workload \<lparr> pw_artifacts := pw_artifacts workload @ [zero_artifact],
             pw_usage := (pw_usage workload) \<lparr> wu_artifacts := wu_artifacts (pw_usage workload) + 1 \<rparr> \<rparr>, True))"

definition poison_workload_finish :: "bool \<Rightarrow> PoisonWorkload \<Rightarrow> PoisonWorkload \<times> bool" where
  "poison_workload_finish success workload =
    (if pw_state workload \<noteq> PoisonWorkloadRunning \<and> pw_state workload \<noteq> PoisonWorkloadCancelling
     then (workload, False)
     else (workload \<lparr>
             pw_terminal_reason := (if success then PoisonWorkloadTerminalCompleted else PoisonWorkloadTerminalCrash),
             pw_state := (if success then PoisonWorkloadCompleted else PoisonWorkloadCrashed) \<rparr>, True))"

section \<open>Artifacts\<close>

definition artifact_id_char :: "char \<Rightarrow> bool" where
  "artifact_id_char c \<longleftrightarrow> (char_code CHR ''a'' \<le> char_code c \<and> char_code c \<le> char_code CHR ''z'') \<or>
     (char_code CHR ''A'' \<le> char_code c \<and> char_code c \<le> char_code CHR ''Z'') \<or>
     (char_code CHR ''0'' \<le> char_code c \<and> char_code c \<le> char_code CHR ''9'') \<or>
     c = CHR ''-'' \<or> c = CHR ''_'' \<or> c = CHR ''.''"

definition poison_workload_artifact_id_valid :: "string option \<Rightarrow> bool" where
  "poison_workload_artifact_id_valid artifact_id =
    (case artifact_id of None \<Rightarrow> False
     | Some a \<Rightarrow> if a = '''' \<or> hd a = CHR ''.'' \<or>
                    strnlen a POISON_WORKLOAD_MAX_ARTIFACT_ID \<ge> POISON_WORKLOAD_MAX_ARTIFACT_ID
                 then False else list_all artifact_id_char a)"

definition poison_workload_artifact_path_valid :: "string option \<Rightarrow> bool" where
  "poison_workload_artifact_path_valid path =
    (case path of None \<Rightarrow> False
     | Some p \<Rightarrow>
         if strnlen p POISON_WORKLOAD_MAX_ARTIFACT_PATH \<ge> POISON_WORKLOAD_MAX_ARTIFACT_PATH \<or>
            take 13 p \<noteq> ''/ext/scripts/'' \<or> \<not> strstr p ''/artifacts/'' then False
         else \<not> strstr p ''/../'' \<and> \<not> strstr p ''/./'' \<and> CHR 0x5C \<notin> set p)"

definition poison_workload_artifact_find :: "PoisonWorkload \<Rightarrow> string \<Rightarrow> nat option" where
  "poison_workload_artifact_find workload artifact_id =
     find_index (\<lambda>a. wa_artifact_id a = artifact_id) (pw_artifacts workload)"

definition poison_workload_artifact_begin ::
    "string option \<Rightarrow> string option \<Rightarrow> PoisonWorkload \<Rightarrow> PoisonWorkload \<times> bool" where
  "poison_workload_artifact_begin artifact_id project_path workload =
    (if pw_state workload \<noteq> PoisonWorkloadRunning \<or> \<not> poison_workload_artifact_id_valid artifact_id \<or>
        \<not> poison_workload_artifact_path_valid project_path
     then (workload, False)
     else case poison_workload_artifact_find workload (the artifact_id) of
            Some existing \<Rightarrow> (workload, wa_path (pw_artifacts workload ! existing) = the project_path)
          | None \<Rightarrow>
              if length (pw_artifacts workload) \<ge> POISON_WORKLOAD_MAX_ARTIFACTS \<or>
                 length (pw_artifacts workload) \<ge> unat (wl_artifacts (pw_limits workload))
              then (fst (poison_workload_force_terminate PoisonWorkloadTerminalArtifactLimit workload), False)
              else (workload \<lparr> pw_artifacts := pw_artifacts workload @
                      [zero_artifact \<lparr> wa_artifact_id := the artifact_id, wa_path := the project_path,
                         wa_state := PoisonWorkloadArtifactPartial \<rparr>] \<rparr>, True))"

text \<open>\<open>content\<close>: the bytes of the file, \<open>None\<close> when it cannot be opened or a read fails.\<close>

definition poison_workload_artifact_file_matches ::
    "(bytes \<Rightarrow> bytes option) \<Rightarrow> bytes option \<Rightarrow> u64 \<Rightarrow> bytes \<Rightarrow> bool" where
  "poison_workload_artifact_file_matches sha256 content expected_size expected_sha256 =
    (case content of None \<Rightarrow> False
     | Some b \<Rightarrow> length b = unat expected_size \<and> sha256 b = Some expected_sha256)"

text \<open>What the storage gives while an artifact is committed: the file as it is when it is checked, as it is
  when it is hashed again for the evidence, and the outcomes of writing that.\<close>

record ArtifactIo =
  ao_checked :: "bytes option"
  ao_source :: "bytes option"
  ao_persist :: PersistFileIo

definition poison_workload_artifact_commit :: "(bytes \<Rightarrow> bytes option) \<Rightarrow> ArtifactIo \<Rightarrow> string \<Rightarrow> u64 \<Rightarrow>
    bytes \<Rightarrow> bool \<Rightarrow> string \<Rightarrow> string \<Rightarrow> bytes \<Rightarrow> PoisonWorkload \<Rightarrow> EvidenceService \<Rightarrow>
    PoisonWorkload \<times> EvidenceService \<times> bool" where
  "poison_workload_artifact_commit sha256 io artifact_id expected_size expected_sha256 evidence_requested
      evidence_id case_id previous_audit_sha256 workload evidence =
    (if pw_state workload \<noteq> PoisonWorkloadRunning \<or> expected_size = 0 \<or> expected_size > ucast UINT32_MAX
     then (workload, evidence, False)
     else case poison_workload_artifact_find workload artifact_id of
       None \<Rightarrow> (workload, evidence, False)
     | Some index \<Rightarrow>
         let artifact = pw_artifacts workload ! index;
             artifact_bytes = ucast expected_size :: u32;
             limit = wl_artifact_bytes (pw_limits workload);
             used = wu_artifact_bytes (pw_usage workload)
         in if wa_state artifact \<noteq> PoisonWorkloadArtifactPartial
            then (workload, evidence, wa_size artifact = expected_size \<and> wa_sha256 artifact = expected_sha256 \<and>
                    wa_state artifact = (if evidence_requested then PoisonWorkloadArtifactEvidence
                                         else PoisonWorkloadArtifactProject) \<and>
                    (\<not> evidence_requested \<or> wa_evidence_id artifact = evidence_id))
            else if artifact_bytes > limit \<or> used > limit - artifact_bytes
            then (fst (poison_workload_force_terminate PoisonWorkloadTerminalArtifactLimit workload), evidence, False)
            else if \<not> poison_workload_artifact_file_matches sha256 (ao_checked io) expected_size expected_sha256
            then (workload, evidence, False)
            else let (evidence', captured) =
                   (if evidence_requested
                    then poison_evidence_capture_file_global sha256 (ao_persist io) (ao_source io) (Some evidence_id)
                           (Some case_id) (unat expected_size) expected_sha256 True previous_audit_sha256 evidence
                    else (evidence, None))
            in if evidence_requested \<and> captured = None then (workload, evidence', False)
               else (workload \<lparr> pw_artifacts := (pw_artifacts workload)[index := artifact \<lparr>
                         wa_evidence_id := (if evidence_requested then er_evidence_id (the captured)
                                            else wa_evidence_id artifact),
                         wa_state := (if evidence_requested then PoisonWorkloadArtifactEvidence
                                      else PoisonWorkloadArtifactProject),
                         wa_size := expected_size, wa_sha256 := expected_sha256 \<rparr>],
                       pw_usage := (pw_usage workload) \<lparr> wu_artifacts := wu_artifacts (pw_usage workload) + 1,
                         wu_artifact_bytes := used + artifact_bytes \<rparr> \<rparr>, evidence', True))"

section \<open>The adapters\<close>

datatype JsLimitReason =
    JsLimitReasonNone | JsLimitReasonFuel | JsLimitReasonWallTime | JsLimitReasonHeap | JsLimitReasonSource
  | JsLimitReasonModule | JsLimitReasonParser | JsLimitReasonStack | JsLimitReasonCallback
  | JsLimitReasonTimer | JsLimitReasonHandle | JsLimitReasonLog | JsLimitReasonArtifact

fun js_limits_reason_text :: "JsLimitReason \<Rightarrow> string" where
  "js_limits_reason_text JsLimitReasonFuel = ''javascript fuel limit exceeded''"
| "js_limits_reason_text JsLimitReasonWallTime = ''javascript wall-time limit exceeded''"
| "js_limits_reason_text JsLimitReasonHeap = ''javascript heap limit exceeded''"
| "js_limits_reason_text JsLimitReasonSource = ''javascript source limit exceeded''"
| "js_limits_reason_text JsLimitReasonModule = ''javascript module limit exceeded''"
| "js_limits_reason_text JsLimitReasonParser = ''javascript parser limit exceeded''"
| "js_limits_reason_text JsLimitReasonStack = ''javascript stack limit exceeded''"
| "js_limits_reason_text JsLimitReasonCallback = ''javascript callback limit exceeded''"
| "js_limits_reason_text JsLimitReasonTimer = ''javascript timer limit exceeded''"
| "js_limits_reason_text JsLimitReasonHandle = ''javascript handle limit exceeded''"
| "js_limits_reason_text JsLimitReasonLog = ''javascript log limit exceeded''"
| "js_limits_reason_text JsLimitReasonArtifact = ''javascript artifact limit exceeded''"
| "js_limits_reason_text JsLimitReasonNone = ''javascript limit not exceeded''"

definition js_reasons :: "(JsLimitReason \<times> PoisonWorkloadTerminalReason) list" where
  "js_reasons = [(JsLimitReasonHeap, PoisonWorkloadTerminalHeapLimit),
     (JsLimitReasonSource, PoisonWorkloadTerminalSourceLimit), (JsLimitReasonModule, PoisonWorkloadTerminalModuleLimit),
     (JsLimitReasonParser, PoisonWorkloadTerminalParserLimit), (JsLimitReasonStack, PoisonWorkloadTerminalStackLimit),
     (JsLimitReasonFuel, PoisonWorkloadTerminalFuelLimit), (JsLimitReasonCallback, PoisonWorkloadTerminalCallbackLimit),
     (JsLimitReasonTimer, PoisonWorkloadTerminalTimerLimit), (JsLimitReasonHandle, PoisonWorkloadTerminalHandleLimit),
     (JsLimitReasonLog, PoisonWorkloadTerminalLogLimit), (JsLimitReasonArtifact, PoisonWorkloadTerminalArtifactLimit)]"

definition poison_workload_js_limit_reason :: "string option \<Rightarrow> PoisonWorkloadTerminalReason" where
  "poison_workload_js_limit_reason msg =
    (case msg of None \<Rightarrow> PoisonWorkloadTerminalNone
     | Some t \<Rightarrow> (case List.find (\<lambda>p. t = js_limits_reason_text (fst p)) js_reasons of
                    None \<Rightarrow> PoisonWorkloadTerminalNone | Some p \<Rightarrow> snd p))"

datatype JsThreadEvent = JsThreadEventDone | JsThreadEventError | JsThreadEventPrint | JsThreadEventErrorTrace

definition poison_workload_js_event :: "JsThreadEvent \<times> string option \<Rightarrow> PoisonWorkload \<Rightarrow> PoisonWorkload" where
  "poison_workload_js_event event workload =
    (let (kind, msg) = event; line = (case msg of None \<Rightarrow> '''' | Some t \<Rightarrow> t) in
     if kind = JsThreadEventPrint
     then fst (poison_workload_append_console PoisonWorkloadConsoleStdout (Some line) workload)
     else if (kind = JsThreadEventError \<or> kind = JsThreadEventErrorTrace) \<and>
             pw_state workload \<noteq> PoisonWorkloadCancelling
     then let limit_reason = poison_workload_js_limit_reason msg in
       if limit_reason \<noteq> PoisonWorkloadTerminalNone
       then fst (poison_workload_force_terminate limit_reason workload)
       else fst (poison_workload_finish False
              (fst (poison_workload_append_console PoisonWorkloadConsoleStderr (Some line) workload)))
     else if kind = JsThreadEventDone \<and> pw_state workload \<noteq> PoisonWorkloadCancelling
     then fst (poison_workload_finish True workload)
     else workload)"

record PoisonWorkloadJsAdapter =
  js_thread :: bool
  js_workload :: bool

record PoisonWorkloadNativeAdapter =
  na_workload :: bool
  na_running :: bool

datatype PoisonManagedRuntime =
    PoisonManagedRuntimeUnspecified | PoisonManagedRuntimeJavaScript | PoisonManagedRuntimeNative
  | PoisonManagedRuntimeWasm | PoisonManagedRuntimeOther

record PoisonManagedWorkload =
  mw_occupied :: bool
  mw_attachments :: u16
  mw_actor_digest :: bytes
  mw_workload :: PoisonWorkload
  mw_js :: PoisonWorkloadJsAdapter
  mw_native :: PoisonWorkloadNativeAdapter
  mw_runtime :: PoisonManagedRuntime
  mw_entrypoint :: string
  mw_effective_js_capabilities :: u32
  mw_diagnostics_started :: bool
  mw_diagnostics_terminal_recorded :: bool
  mw_recovery_pending :: bool
  mw_evidence_requested :: bool

definition zero_managed :: PoisonManagedWorkload where
  "zero_managed = \<lparr> mw_occupied = False, mw_attachments = 0, mw_actor_digest = zeros 32,
     mw_workload = zero_workload, mw_js = \<lparr> js_thread = False, js_workload = False \<rparr>,
     mw_native = \<lparr> na_workload = False, na_running = False \<rparr>, mw_runtime = PoisonManagedRuntimeUnspecified,
     mw_entrypoint = '''', mw_effective_js_capabilities = 0, mw_diagnostics_started = False,
     mw_diagnostics_terminal_recorded = False, mw_recovery_pending = False, mw_evidence_requested = False \<rparr>"

text \<open>The events a script delivers while the adapter holds its workload.\<close>

definition js_events :: "(JsThreadEvent \<times> string option) list \<Rightarrow> PoisonManagedWorkload \<Rightarrow> PoisonManagedWorkload" where
  "js_events events managed =
    (if js_workload (mw_js managed)
     then managed \<lparr> mw_workload := fold poison_workload_js_event events (mw_workload managed) \<rparr> else managed)"

definition poison_workload_js_start_managed :: "bool \<Rightarrow> PoisonManagedWorkload \<Rightarrow> PoisonManagedWorkload \<times> bool" where
  "poison_workload_js_start_managed thread_started managed =
    (let (w, started) = poison_workload_start (mw_workload managed) in
     if \<not> started then (managed, False)
     else if \<not> thread_started
     then (managed \<lparr> mw_workload := fst (poison_workload_finish False w),
             mw_js := \<lparr> js_thread = False, js_workload = False \<rparr> \<rparr>, False)
     else (managed \<lparr> mw_workload := w, mw_js := \<lparr> js_thread = True, js_workload = True \<rparr> \<rparr>, True))"

text \<open>The thread is stopped without the lock of the workload, so events may still come: \<open>late\<close>.\<close>

definition poison_workload_js_cancel ::
    "(JsThreadEvent \<times> string option) list \<Rightarrow> PoisonManagedWorkload \<Rightarrow> PoisonManagedWorkload \<times> bool" where
  "poison_workload_js_cancel late managed =
    (if \<not> js_thread (mw_js managed) \<or> \<not> js_workload (mw_js managed) then (managed, False)
     else let (w, requested) = poison_workload_request_cancel (mw_workload managed) in
       if \<not> requested then (managed, False)
       else let stopped = js_events late (managed \<lparr> mw_workload := w \<rparr>);
                (w', terminated) = poison_workload_force_terminate PoisonWorkloadTerminalCancelled (mw_workload stopped)
       in (stopped \<lparr> mw_workload := w', mw_js := (mw_js stopped) \<lparr> js_thread := False \<rparr> \<rparr>, terminated))"

definition poison_workload_js_cleanup ::
    "(JsThreadEvent \<times> string option) list \<Rightarrow> PoisonManagedWorkload \<Rightarrow> PoisonManagedWorkload" where
  "poison_workload_js_cleanup late managed =
    (if js_thread (mw_js managed) then js_events late managed else managed)
       \<lparr> mw_js := \<lparr> js_thread = False, js_workload = False \<rparr> \<rparr>"

definition poison_workload_native_path_valid :: "string option \<Rightarrow> bool" where
  "poison_workload_native_path_valid path =
    (case path of None \<Rightarrow> False
     | Some p \<Rightarrow>
         if p = '''' \<or> strnlen p 256 \<ge> 256 then False
         else if strstr p ''..'' then False
         else if length p < 5 \<or> drop (length p - 4) p \<noteq> ''.fap'' then False
         else take 5 p = ''/ext/'' \<or> take 5 p = ''/int/'')"

definition poison_workload_native_start :: "bool \<Rightarrow> string option \<Rightarrow> PoisonManagedWorkload \<Rightarrow>
    PoisonManagedWorkload \<times> bool" where
  "poison_workload_native_start launched fap_path managed =
    (if na_running (mw_native managed) \<or> \<not> poison_workload_native_path_valid fap_path then (managed, False)
     else let (w, started) = poison_workload_start (mw_workload managed) in
       if \<not> started then (managed, False)
       else if \<not> launched then (managed \<lparr> mw_workload := fst (poison_workload_finish False w) \<rparr>, False)
       else (managed \<lparr> mw_workload := w, mw_native := \<lparr> na_workload = True, na_running = True \<rparr> \<rparr>, True))"

definition poison_workload_native_cancel :: "bool \<Rightarrow> PoisonManagedWorkload \<Rightarrow> PoisonManagedWorkload \<times> bool" where
  "poison_workload_native_cancel signalled managed =
    (if \<not> na_running (mw_native managed) \<or> \<not> na_workload (mw_native managed) then (managed, False)
     else let (w, requested) = poison_workload_request_cancel (mw_workload managed) in
       if \<not> requested then (managed, False)
       else if \<not> signalled then (managed \<lparr> mw_workload := w \<rparr>, False)
       else let (w', terminated) = poison_workload_force_terminate PoisonWorkloadTerminalCancelled w
       in (managed \<lparr> mw_workload := w', mw_native := \<lparr> na_workload = False, na_running = False \<rparr> \<rparr>, terminated))"

definition poison_workload_native_cleanup :: "PoisonManagedWorkload \<Rightarrow> PoisonManagedWorkload" where
  "poison_workload_native_cleanup managed =
     managed \<lparr> mw_native := \<lparr> na_workload = False, na_running = False \<rparr> \<rparr>"

section \<open>The table of managed workloads\<close>

abbreviation "POISON_MANAGED_WORKLOAD_MAX_RECORDS \<equiv> (2 :: nat)"

type_synonym WorkloadTable = "PoisonManagedWorkload option list"

definition poison_managed_workload_matches :: "PoisonManagedWorkload option \<Rightarrow> bytes \<Rightarrow> string \<Rightarrow> bool" where
  "poison_managed_workload_matches managed actor_digest workload_id =
    (case managed of None \<Rightarrow> False
     | Some m \<Rightarrow> mw_occupied m \<and> mw_actor_digest m = actor_digest \<and> pw_workload_id (mw_workload m) = workload_id)"

definition poison_managed_workload_terminal :: "PoisonManagedWorkload \<Rightarrow> bool" where
  "poison_managed_workload_terminal managed \<longleftrightarrow> mw_occupied managed \<and> terminal_state (pw_state (mw_workload managed))"

definition managed_replaceable :: "PoisonManagedWorkload option \<Rightarrow> bool" where
  "managed_replaceable candidate =
    (case candidate of None \<Rightarrow> True
     | Some m \<Rightarrow> \<not> mw_occupied m \<or>
         (mw_attachments m = 0 \<and>
          (pw_project_digest (mw_workload m) = '''' \<or> poison_managed_workload_terminal m)))"

definition managed_fresh :: "bytes \<Rightarrow> string \<Rightarrow> PoisonManagedWorkload" where
  "managed_fresh actor_digest workload_id = zero_managed \<lparr> mw_occupied := True, mw_actor_digest := actor_digest,
     mw_workload := zero_workload \<lparr> pw_workload_id := take (POISON_WORKLOAD_MAX_ID - 1) workload_id \<rparr> \<rparr>"

definition poison_managed_workload_attach ::
    "bytes \<Rightarrow> string option \<Rightarrow> bool \<Rightarrow> WorkloadTable \<Rightarrow> WorkloadTable \<times> nat option" where
  "poison_managed_workload_attach actor_digest workload_id create_if_missing table =
    (if \<not> workload_bounded_id workload_id then (table, None)
     else let (table', selected) =
       (case find_index (\<lambda>c. poison_managed_workload_matches c actor_digest (the workload_id)) table of
          Some index \<Rightarrow> (table, Some index)
        | None \<Rightarrow>
            (case (if create_if_missing then find_index managed_replaceable table else None) of
               None \<Rightarrow> (table, None)
             | Some index \<Rightarrow> (table[index := Some (managed_fresh actor_digest (the workload_id))], Some index)))
     in case selected of
          None \<Rightarrow> (table', None)
        | Some index \<Rightarrow>
            let m = the (table' ! index) in
            if mw_attachments m < - 1
            then (table'[index := Some (m \<lparr> mw_attachments := mw_attachments m + 1 \<rparr>)], Some index)
            else (table', None))"

text \<open>\<open>None\<close>: the check of the count stops the device.\<close>

definition poison_managed_workload_detach :: "nat option \<Rightarrow> WorkloadTable \<Rightarrow> WorkloadTable option" where
  "poison_managed_workload_detach managed table =
    (case managed of
       None \<Rightarrow> Some table
     | Some index \<Rightarrow>
         let m = the (table ! index) in
         if mw_attachments m = 0 then None
         else Some (table[index := Some (m \<lparr> mw_attachments := mw_attachments m - 1 \<rparr>)]))"

section \<open>A workload as a machine\<close>

datatype WorkloadOp =
    WorkloadStart | WorkloadCancel | WorkloadTerminate PoisonWorkloadTerminalReason
  | WorkloadAccount "PoisonWorkloadUsage option" PoisonWorkloadTerminalReason
  | WorkloadPrint PoisonWorkloadConsoleType "string option" | WorkloadFinish bool
  | WorkloadEvent JsThreadEvent "string option" | WorkloadFinalize bool
  | WorkloadArtifactBegin "string option" "string option"
  | WorkloadArtifactCommit ArtifactIo string u64 bytes bool string string bytes

fun workload_step :: "(bytes \<Rightarrow> bytes option) \<Rightarrow> WorkloadOp \<Rightarrow> PoisonWorkload \<times> EvidenceService \<Rightarrow>
    (PoisonWorkload \<times> EvidenceService) \<times> bool" where
  "workload_step sha256 WorkloadStart (w, e) = (case poison_workload_start w of (w', ok) \<Rightarrow> ((w', e), ok))"
| "workload_step sha256 WorkloadCancel (w, e) = (case poison_workload_request_cancel w of (w', ok) \<Rightarrow> ((w', e), ok))"
| "workload_step sha256 (WorkloadTerminate reason) (w, e) =
     (case poison_workload_force_terminate reason w of (w', ok) \<Rightarrow> ((w', e), ok))"
| "workload_step sha256 (WorkloadAccount increment reason) (w, e) =
     (case poison_workload_account increment reason w of (w', ok) \<Rightarrow> ((w', e), ok))"
| "workload_step sha256 (WorkloadPrint type line) (w, e) =
     (case poison_workload_append_console type line w of (w', ok) \<Rightarrow> ((w', e), ok))"
| "workload_step sha256 (WorkloadFinish success) (w, e) =
     (case poison_workload_finish success w of (w', ok) \<Rightarrow> ((w', e), ok))"
| "workload_step sha256 (WorkloadEvent kind msg) (w, e) = ((poison_workload_js_event (kind, msg) w, e), True)"
| "workload_step sha256 (WorkloadFinalize requested) (w, e) =
     (case poison_workload_finalize_artifact requested w of (w', ok) \<Rightarrow> ((w', e), ok))"
| "workload_step sha256 (WorkloadArtifactBegin i p) (w, e) =
     (case poison_workload_artifact_begin i p w of (w', ok) \<Rightarrow> ((w', e), ok))"
| "workload_step sha256 (WorkloadArtifactCommit io i n digest requested evidence_id case_id prev) (w, e) =
     (case poison_workload_artifact_commit sha256 io i n digest requested evidence_id case_id prev w e of
        (w', e', ok) \<Rightarrow> ((w', e'), ok))"

lemmas workload_ops = poison_workload_start_def poison_workload_request_cancel_def
  poison_workload_force_terminate_def poison_workload_account_def poison_workload_append_console_def
  poison_workload_finish_def poison_workload_js_event_def poison_workload_finalize_artifact_def
  poison_workload_artifact_begin_def poison_workload_artifact_commit_def

lemma terminal_step: "terminal_state (pw_state w) \<Longrightarrow> fst (fst (workload_step sha256 op (w, e))) = w"
  by (cases op) (auto simp: workload_ops Let_def split: option.split)

text \<open>C36: a workload that has ended never changes again: no start, cancellation, console line, event of its
  script, accounting or artifact has any effect on it.\<close>

theorem ended_workload_never_changes:
  assumes "terminal_state (pw_state w)"
  shows "fst (run_state (workload_step sha256) (w, e) ops) = w"
  using assms
proof (induction ops arbitrary: e)
  case (Cons op ops)
  obtain e' where "fst (workload_step sha256 op (w, e)) = (w, e')"
    using terminal_step [OF Cons.prems, of sha256 op e] by (metis prod.collapse)
  then show ?case using Cons.IH [OF Cons.prems] by simp
qed simp

section \<open>Limits\<close>

lemma exceeds_sum:
  fixes c :: "'a :: len word"
  assumes "\<not> exceeds c i m"
  shows "unat (c + i) = unat c + unat i" "c + i \<le> m"
proof -
  have i: "i \<le> m" and c: "c \<le> m - i" using assms by (auto simp: exceeds_def not_less)
  have "unat c \<le> unat (m - i)" using c by (simp add: word_le_nat_alt)
  also have "\<dots> = unat m - unat i" using i by (simp add: unat_sub)
  finally have sum: "unat c + unat i \<le> unat m" using i by (simp add: word_le_nat_alt)
  moreover have "unat m < 2 ^ LENGTH('a)" by (rule unsigned_less)
  ultimately have "unat c + unat i < 2 ^ LENGTH('a)" by linarith
  then show *: "unat (c + i) = unat c + unat i"
    by (simp add: unat_word_ariths)
  show "c + i \<le> m" using sum by (simp add: word_le_nat_alt *)
qed

definition usage_within :: "PoisonWorkloadUsage \<Rightarrow> PoisonWorkloadLimits \<Rightarrow> bool" where
  "usage_within u l \<longleftrightarrow> wu_heap_bytes u \<le> wl_heap_bytes l \<and> wu_source_bytes u \<le> wl_source_bytes l \<and>
     wu_modules u \<le> wl_modules l \<and> wu_parser_depth u \<le> wl_parser_depth l \<and>
     wu_stack_depth u \<le> wl_stack_depth l \<and> wu_fuel u \<le> wl_fuel l \<and> wu_callbacks u \<le> wl_callbacks l \<and>
     wu_timers u \<le> wl_timers l \<and> wu_open_handles u \<le> wl_open_handles l \<and> wu_logs u \<le> wl_logs l \<and>
     wu_artifacts u \<le> wl_artifacts l \<and> wu_wall_ms u \<le> wl_wall_ms l \<and>
     wu_artifact_bytes u \<le> wl_artifact_bytes l"

lemma usage_plus_within: "\<not> usage_exceeds u i l \<Longrightarrow> usage_within (usage_plus u i) l"
  by (simp add: usage_exceeds_def usage_within_def usage_plus_def exceeds_sum(2))

text \<open>The console: numbered from 1 without a gap, at most 32 frames; the artifacts: different ids, no more than
  allowed, their counters what was committed.\<close>

definition committed :: "PoisonWorkload \<Rightarrow> PoisonWorkloadArtifact list" where
  "committed w = filter (\<lambda>a. wa_state a \<noteq> PoisonWorkloadArtifactPartial) (pw_artifacts w)"

definition console_numbered :: "PoisonWorkload \<Rightarrow> bool" where
  "console_numbered w \<longleftrightarrow> length (pw_console w) \<le> POISON_WORKLOAD_MAX_CONSOLE_FRAMES \<and>
     map (unat \<circ> wf_sequence) (pw_console w) = [1..<Suc (length (pw_console w))] \<and>
     unat (pw_next_console_sequence w) = Suc (length (pw_console w)) \<and>
     (\<not> terminal_state (pw_state w) \<longrightarrow> length (pw_console w) < POISON_WORKLOAD_MAX_CONSOLE_FRAMES) \<and>
     (\<forall>f \<in> set (pw_console w). length (wf_text f) \<le> POISON_WORKLOAD_MAX_CONSOLE_TEXT)"

definition artifacts_counted :: "PoisonWorkload \<Rightarrow> bool" where
  "artifacts_counted w \<longleftrightarrow> length (pw_artifacts w) \<le> POISON_WORKLOAD_MAX_ARTIFACTS \<and>
     length (pw_artifacts w) \<le> unat (wl_artifacts (pw_limits w)) \<and>
     distinct (map wa_artifact_id (pw_artifacts w)) \<and>
     unat (wu_artifacts (pw_usage w)) = length (committed w) \<and>
     unat (wu_artifact_bytes (pw_usage w)) = sum_list (map (unat \<circ> wa_size) (committed w))"

definition workload_inv :: "PoisonWorkload \<Rightarrow> bool" where
  "workload_inv w \<longleftrightarrow> console_numbered w \<and> artifacts_counted w \<and> usage_within (pw_usage w) (pw_limits w)"

text \<open>The accounting never counts artifacts and the unchecked counter is not used: so the service itself
  behaves, which calls neither.\<close>

definition counts_no_artifacts :: "WorkloadOp \<Rightarrow> bool" where
  "counts_no_artifacts op \<longleftrightarrow> (case op of
     WorkloadAccount (Some i) _ \<Rightarrow> wu_artifacts i = 0 \<and> wu_artifact_bytes i = 0
   | WorkloadFinalize _ \<Rightarrow> False | _ \<Rightarrow> True)"

lemma inv_state [intro]:
  "workload_inv w \<Longrightarrow> terminal_state s \<or> \<not> terminal_state (pw_state w) \<Longrightarrow>
     workload_inv (w \<lparr> pw_state := s \<rparr>)"
  by (auto simp: workload_inv_def console_numbered_def artifacts_counted_def committed_def)

lemma inv_reason [simp]: "workload_inv (w \<lparr> pw_terminal_reason := r \<rparr>) = workload_inv w"
  by (simp add: workload_inv_def console_numbered_def artifacts_counted_def committed_def)

lemma state_for_reason_terminal: "terminal_state (state_for_reason reason)"
  by (cases reason) (simp_all add: state_for_reason_def)

lemma inv_terminate: "workload_inv w \<Longrightarrow> workload_inv (fst (poison_workload_force_terminate reason w))"
proof -
  assume inv: "workload_inv w"
  have "workload_inv (w \<lparr> pw_terminal_reason := reason, pw_state := state_for_reason reason \<rparr>)"
    using inv_state [of "w \<lparr> pw_terminal_reason := reason \<rparr>" "state_for_reason reason"] inv
      state_for_reason_terminal [of reason] by simp
  then show ?thesis using inv by (simp add: poison_workload_force_terminate_def)
qed

lemma inv_finish: "workload_inv w \<Longrightarrow> workload_inv (fst (poison_workload_finish success w))"
  using inv_state [of "w \<lparr> pw_terminal_reason := if success then PoisonWorkloadTerminalCompleted else PoisonWorkloadTerminalCrash \<rparr>"
      "if success then PoisonWorkloadCompleted else PoisonWorkloadCrashed"]
  by (auto simp: poison_workload_finish_def)

lemma console_push:
  assumes "console_numbered w" "length (pw_console w) < POISON_WORKLOAD_MAX_CONSOLE_FRAMES"
    and "wf_sequence f = pw_next_console_sequence w" "length (wf_text f) \<le> POISON_WORKLOAD_MAX_CONSOLE_TEXT"
    and "pw_console w' = pw_console w @ [f]" "pw_next_console_sequence w' = pw_next_console_sequence w + 1"
    and "terminal_state (pw_state w') \<or> length (pw_console w') < POISON_WORKLOAD_MAX_CONSOLE_FRAMES"
  shows "console_numbered w'"
proof -
  have "pw_next_console_sequence w \<noteq> - 1"
    using assms(1,2) by (auto simp: console_numbered_def unat_UINT64_MAX)
  then have "unat (pw_next_console_sequence w') = Suc (Suc (length (pw_console w)))"
    using assms(1,6) by (simp add: unat_Suc_eq console_numbered_def)
  then show ?thesis
    using assms by (auto simp: console_numbered_def)
qed

lemma print_effect:
  assumes inv: "console_numbered w"
  obtains c q l r s where "fst (poison_workload_append_console type line w) = w \<lparr> pw_console := c,
      pw_next_console_sequence := q, pw_usage := (pw_usage w) \<lparr> wu_logs := l \<rparr>, pw_terminal_reason := r, pw_state := s \<rparr>"
    and "console_numbered (fst (poison_workload_append_console type line w))"
    and "l = wu_logs (pw_usage w) \<or> l \<le> wl_logs (pw_limits w)"
proof (cases "line = None \<or> terminal_state (pw_state w)")
  case True
  then have "fst (poison_workload_append_console type line w) = w"
    by (auto simp: poison_workload_append_console_def split: option.split)
  then show ?thesis
    using that [where c = "pw_console w" and q = "pw_next_console_sequence w" and l = "wu_logs (pw_usage w)"
        and r = "pw_terminal_reason w" and s = "pw_state w"] inv by simp
next
  case False
  then obtain t where Some: "line = Some t" and going: "\<not> terminal_state (pw_state w)" by auto
  let ?w' = "fst (poison_workload_append_console type line w)"
  let ?stored = "if strnlen t (POISON_WORKLOAD_MAX_CONSOLE_TEXT + 1) > POISON_WORKLOAD_MAX_CONSOLE_TEXT
    then ''[truncated]'' else t"
  let ?logs = "wl_logs (pw_limits w)"
  have frames: "length (pw_console w) < POISON_WORKLOAD_MAX_CONSOLE_FRAMES"
    using inv going by (auto simp: console_numbered_def)
  have small: "length ?stored \<le> POISON_WORKLOAD_MAX_CONSOLE_TEXT"
    by (auto simp: strnlen_def min_def split: if_splits)
  show ?thesis
  proof (cases "length (pw_console w) \<ge> POISON_WORKLOAD_MAX_CONSOLE_FRAMES - 1 \<or>
      exceeds (wu_logs (pw_usage w)) (of_nat (length ?stored)) ?logs")
    case True
    then have w': "?w' = w \<lparr> pw_console := pw_console w @ [\<lparr> wf_sequence = pw_next_console_sequence w,
          wf_type = PoisonWorkloadConsoleTruncation, wf_text = ''[output limit reached]'' \<rparr>],
        pw_next_console_sequence := pw_next_console_sequence w + 1,
        pw_usage := (pw_usage w) \<lparr> wu_logs := ?logs \<rparr>,
        pw_terminal_reason := PoisonWorkloadTerminalLogLimit, pw_state := PoisonWorkloadFailed \<rparr>"
      using Some going frames by (auto simp: poison_workload_append_console_def Let_def exceeds_def)
    have "console_numbered ?w'"
      by (rule console_push [of w "\<lparr> wf_sequence = pw_next_console_sequence w,
          wf_type = PoisonWorkloadConsoleTruncation, wf_text = ''[output limit reached]'' \<rparr>"])
        (use inv frames in \<open>simp_all add: w'\<close>)
    then show ?thesis using that [OF w'] by simp
  next
    case fits: False
    then have w': "?w' = w \<lparr> pw_console := pw_console w @ [\<lparr> wf_sequence = pw_next_console_sequence w,
          wf_type = (if strnlen t (POISON_WORKLOAD_MAX_CONSOLE_TEXT + 1) > POISON_WORKLOAD_MAX_CONSOLE_TEXT
            then PoisonWorkloadConsoleTruncation else type), wf_text = ?stored \<rparr>],
        pw_next_console_sequence := pw_next_console_sequence w + 1,
        pw_usage := (pw_usage w) \<lparr> wu_logs := wu_logs (pw_usage w) + of_nat (length ?stored) \<rparr>,
        pw_terminal_reason := pw_terminal_reason w, pw_state := pw_state w \<rparr>"
      using Some going by (auto simp: poison_workload_append_console_def Let_def exceeds_def)
    have "console_numbered ?w'"
      by (rule console_push [of w "\<lparr> wf_sequence = pw_next_console_sequence w,
          wf_type = (if strnlen t (POISON_WORKLOAD_MAX_CONSOLE_TEXT + 1) > POISON_WORKLOAD_MAX_CONSOLE_TEXT
            then PoisonWorkloadConsoleTruncation else type), wf_text = ?stored \<rparr>"])
        (use inv frames small fits in \<open>simp_all add: w'\<close>)
    moreover have "wu_logs (pw_usage w) + of_nat (length ?stored) \<le> ?logs"
      using exceeds_sum(2) fits by blast
    ultimately show ?thesis using that [OF w'] by simp
  qed
qed

lemma inv_print: "workload_inv w \<Longrightarrow> workload_inv (fst (poison_workload_append_console type line w))"
  by (rule print_effect [of w type line])
    (auto simp: workload_inv_def artifacts_counted_def committed_def usage_within_def)

lemma inv_event: "workload_inv w \<Longrightarrow> workload_inv (poison_workload_js_event event w)"
  by (cases event) (simp add: poison_workload_js_event_def Let_def inv_terminate inv_finish inv_print)

lemma inv_account:
  assumes "workload_inv w" "counts_no_artifacts (WorkloadAccount increment reason)"
  shows "workload_inv (fst (poison_workload_account increment reason w))"
proof (cases increment)
  case None
  then show ?thesis using assms by (simp add: poison_workload_account_def)
next
  case (Some i)
  show ?thesis
  proof (cases "pw_state w = PoisonWorkloadRunning \<and> \<not> usage_exceeds (pw_usage w) i (pw_limits w)")
    case True
    have "artifacts_counted (w \<lparr> pw_usage := usage_plus (pw_usage w) i \<rparr>)"
      using assms Some by (simp add: workload_inv_def artifacts_counted_def committed_def usage_plus_def counts_no_artifacts_def)
    then show ?thesis
      using assms Some True usage_plus_within [of "pw_usage w" i "pw_limits w"]
      by (simp add: poison_workload_account_def workload_inv_def console_numbered_def)
  next
    case False
    then show ?thesis using assms Some by (simp add: poison_workload_account_def inv_terminate)
  qed
qed

lemma inv_artifact_begin: "workload_inv w \<Longrightarrow> workload_inv (fst (poison_workload_artifact_begin i p w))"
  by (auto simp: poison_workload_artifact_begin_def inv_terminate split: option.split)
    (auto simp: workload_inv_def console_numbered_def artifacts_counted_def committed_def
      poison_workload_artifact_find_def zero_artifact_def)

lemma filter_update_one:
  assumes "i < length xs" "\<not> P (xs ! i)" "P y"
  shows "length (filter P (xs[i := y])) = Suc (length (filter P xs))"
    "sum_list (map g (filter P (xs[i := y]))) = sum_list (map g (filter P xs)) + (g y :: nat)"
proof -
  have "xs = take i xs @ xs ! i # drop (Suc i) xs" "xs[i := y] = take i xs @ y # drop (Suc i) xs"
    using assms(1) by (simp_all add: id_take_nth_drop upd_conv_take_nth_drop)
  moreover have "filter P (take i xs @ xs ! i # drop (Suc i) xs) = filter P (take i xs) @ filter P (drop (Suc i) xs)"
    "filter P (take i xs @ y # drop (Suc i) xs) = filter P (take i xs) @ y # filter P (drop (Suc i) xs)"
    using assms(2,3) by simp_all
  ultimately have "filter P xs = filter P (take i xs) @ filter P (drop (Suc i) xs)"
    "filter P (xs[i := y]) = filter P (take i xs) @ y # filter P (drop (Suc i) xs)"
    by metis+
  then show "length (filter P (xs[i := y])) = Suc (length (filter P xs))"
    "sum_list (map g (filter P (xs[i := y]))) = sum_list (map g (filter P xs)) + g y"
    by simp_all
qed

text \<open>A commit that takes effect, and what it does to the workload.\<close>

lemma commit_cases:
  assumes "poison_workload_artifact_commit sha256 io i n digest requested evidence_id case_id prev w e = (w', e', ok)"
  obtains (same) "w' = w" | (over) "w' = fst (poison_workload_force_terminate PoisonWorkloadTerminalArtifactLimit w)" "\<not> ok"
  | (committed) index a where "ok" "pw_state w = PoisonWorkloadRunning" "index < length (pw_artifacts w)"
      "wa_artifact_id (pw_artifacts w ! index) = i" "wa_state (pw_artifacts w ! index) = PoisonWorkloadArtifactPartial"
      "n \<le> ucast UINT32_MAX"
      "\<not> exceeds (wu_artifact_bytes (pw_usage w)) (ucast n) (wl_artifact_bytes (pw_limits w))"
      "wa_artifact_id a = i" "wa_path a = wa_path (pw_artifacts w ! index)"
      "wa_state a = (if requested then PoisonWorkloadArtifactEvidence else PoisonWorkloadArtifactProject)"
      "wa_size a = n" "wa_sha256 a = digest"
      "poison_workload_artifact_file_matches sha256 (ao_checked io) n digest"
      "w' = w \<lparr> pw_artifacts := (pw_artifacts w)[index := a], pw_usage := (pw_usage w) \<lparr>
         wu_artifacts := wu_artifacts (pw_usage w) + 1,
         wu_artifact_bytes := wu_artifact_bytes (pw_usage w) + ucast n \<rparr> \<rparr>"
proof (cases "poison_workload_artifact_find w i")
  case None
  then show ?thesis using assms that(1) by (auto simp: poison_workload_artifact_commit_def split: if_splits)
next
  case (Some index)
  have index: "index < length (pw_artifacts w)" "wa_artifact_id (pw_artifacts w ! index) = i"
    using find_index_SomeD Some unfolding poison_workload_artifact_find_def by fast+
  define io_result where "io_result = (if requested
      then poison_evidence_capture_file_global sha256 (ao_persist io) (ao_source io) (Some evidence_id)
             (Some case_id) (unat n) digest True prev e
      else (e, None))"
  define blocked where "blocked \<longleftrightarrow> pw_state w \<noteq> PoisonWorkloadRunning \<or> n = 0 \<or> n > ucast UINT32_MAX"
  define full where "full \<longleftrightarrow> exceeds (wu_artifact_bytes (pw_usage w)) (ucast n :: u32) (wl_artifact_bytes (pw_limits w))"
  define updated where "updated = (\<lambda>id. w \<lparr> pw_artifacts := (pw_artifacts w)[index := (pw_artifacts w ! index) \<lparr>
      wa_evidence_id := id,
      wa_state := (if requested then PoisonWorkloadArtifactEvidence else PoisonWorkloadArtifactProject),
      wa_size := n, wa_sha256 := digest \<rparr>], pw_usage := (pw_usage w) \<lparr>
      wu_artifacts := wu_artifacts (pw_usage w) + 1,
      wu_artifact_bytes := wu_artifact_bytes (pw_usage w) + ucast n \<rparr> \<rparr>)"
  have result: "(w', e', ok) =
    (if blocked then (w, e, False)
     else if wa_state (pw_artifacts w ! index) \<noteq> PoisonWorkloadArtifactPartial
     then (w, e, wa_size (pw_artifacts w ! index) = n \<and> wa_sha256 (pw_artifacts w ! index) = digest \<and>
             wa_state (pw_artifacts w ! index) = (if requested then PoisonWorkloadArtifactEvidence
                else PoisonWorkloadArtifactProject) \<and>
             (\<not> requested \<or> wa_evidence_id (pw_artifacts w ! index) = evidence_id))
     else if full then (fst (poison_workload_force_terminate PoisonWorkloadTerminalArtifactLimit w), e, False)
     else if \<not> poison_workload_artifact_file_matches sha256 (ao_checked io) n digest then (w, e, False)
     else if requested \<and> snd io_result = None then (w, fst io_result, False)
     else (updated (if requested then er_evidence_id (the (snd io_result))
             else wa_evidence_id (pw_artifacts w ! index)), fst io_result, True))"
    unfolding assms [symmetric]
    by (simp add: poison_workload_artifact_commit_def Some exceeds_def Let_def case_prod_beta io_result_def blocked_def
        full_def updated_def)
  show ?thesis
  proof (cases "blocked \<or> wa_state (pw_artifacts w ! index) \<noteq> PoisonWorkloadArtifactPartial")
    case True
    then have "w' = w" using result by (auto split: if_splits)
    then show ?thesis by (rule that(1))
  next
    case go: False
    show ?thesis
    proof (cases full)
      case True
      then show ?thesis using that(2) result go by simp
    next
      case fits: False
      show ?thesis
      proof (cases "poison_workload_artifact_file_matches sha256 (ao_checked io) n digest \<and>
          \<not> (requested \<and> snd io_result = None)")
        case False
        then have "w' = w" using result go fits by (auto split: if_splits)
        then show ?thesis by (rule that(1))
      next
        case True
        define id where "id = (if requested then er_evidence_id (the (snd io_result))
             else wa_evidence_id (pw_artifacts w ! index))"
        have done_: "w' = updated id" "ok" using result go fits True by (auto simp: id_def)
        show ?thesis
          by (rule that(3) [of index "(pw_artifacts w ! index) \<lparr> wa_evidence_id := id,
              wa_state := (if requested then PoisonWorkloadArtifactEvidence else PoisonWorkloadArtifactProject),
              wa_size := n, wa_sha256 := digest \<rparr>"])
            (use done_ go fits True index in \<open>simp_all add: blocked_def full_def updated_def not_less\<close>)
      qed
    qed
  qed
qed

lemma unat_ucast_small:
  assumes "(n :: u64) \<le> ucast UINT32_MAX"
  shows "unat (ucast n :: u32) = unat n"
proof -
  have "unat n \<le> unat (ucast UINT32_MAX :: u64)" using assms by (simp add: word_le_nat_alt)
  then have "unat n < 2 ^ 32" by (simp add: unat_UINT32_MAX)
  then show ?thesis by (simp add: unsigned_ucast_eq take_bit_nat_eq_self_iff)
qed

lemma inv_commit:
  assumes inv: "workload_inv w"
    and "poison_workload_artifact_commit sha256 io i n digest requested evidence_id case_id prev w e = (w', e', ok)"
  shows "workload_inv w'"
  using assms(2)
proof (cases rule: commit_cases)
  case same
  then show ?thesis using inv by simp
next
  case over
  then show ?thesis using inv_terminate [OF inv] by simp
next
  case (committed index a)
  let ?P = "\<lambda>a. wa_state a \<noteq> PoisonWorkloadArtifactPartial"
  note counted = inv [unfolded workload_inv_def artifacts_counted_def committed_def, THEN conjunct2, THEN conjunct1]
  have a: "?P a" using committed(10) by simp
  have partial: "\<not> ?P (pw_artifacts w ! index)" using committed(5) by simp
  note one = filter_update_one [of index "pw_artifacts w" ?P a, OF committed(3) partial a]
  have ids: "map wa_artifact_id ((pw_artifacts w)[index := a]) = map wa_artifact_id (pw_artifacts w)"
    using committed(3,4,8) by (simp add: map_update list_update_same_conv)
  have few: "length (filter ?P (pw_artifacts w)) < length (pw_artifacts w)"
    using one(1) length_filter_le [of ?P "(pw_artifacts w)[index := a]"] by simp
  have "unat (wu_artifacts (pw_usage w)) < unat (wl_artifacts (pw_limits w))" using counted few by simp
  then have next_artifact: "unat (wu_artifacts (pw_usage w) + 1) = Suc (unat (wu_artifacts (pw_usage w)))"
    using word_order.extremum_strict [of "wl_artifacts (pw_limits w)"]
    by (intro unat_Suc_eq notI) (simp add: word_less_nat_alt)
  have total: "unat (wu_artifact_bytes (pw_usage w) + ucast n) = unat (wu_artifact_bytes (pw_usage w)) + unat n"
    using exceeds_sum(1) [OF committed(7)] unat_ucast_small [OF committed(6)] by simp
  have "artifacts_counted w'"
    using counted ids one next_artifact total
    by (simp add: artifacts_counted_def committed_def committed(11,14))
  moreover have "usage_within (pw_usage w') (pw_limits w')"
    using inv counted few next_artifact exceeds_sum(2) [OF committed(7)]
    by (simp add: workload_inv_def usage_within_def committed(14) word_le_nat_alt)
  ultimately show ?thesis
    using inv by (simp add: workload_inv_def console_numbered_def committed(14))
qed

lemma inv_step:
  assumes "workload_inv w" "counts_no_artifacts op"
  shows "workload_inv (fst (fst (workload_step sha256 op (w, e))))"
proof (cases op)
  case WorkloadStart
  then show ?thesis
    using assms(1) by (auto simp: poison_workload_start_def workload_inv_def console_numbered_def artifacts_counted_def committed_def)
next
  case WorkloadCancel
  then show ?thesis
    using assms(1) by (auto simp: poison_workload_request_cancel_def workload_inv_def console_numbered_def artifacts_counted_def committed_def)
next
  case (WorkloadTerminate reason)
  then show ?thesis using inv_terminate [OF assms(1), of reason] by (simp add: case_prod_beta)
next
  case (WorkloadAccount i r)
  then show ?thesis using inv_account [OF assms(1), of i r] assms(2) by (simp add: case_prod_beta)
next
  case (WorkloadPrint t l)
  then show ?thesis using inv_print [OF assms(1), of t l] by (simp add: case_prod_beta)
next
  case (WorkloadFinish s)
  then show ?thesis using inv_finish [OF assms(1), of s] by (simp add: case_prod_beta)
next
  case (WorkloadEvent k m)
  then show ?thesis using inv_event [OF assms(1), of "(k, m)"] by simp
next
  case (WorkloadFinalize r)
  then show ?thesis using assms(2) by (simp add: counts_no_artifacts_def)
next
  case (WorkloadArtifactBegin i p)
  then show ?thesis using inv_artifact_begin [OF assms(1), of i p] by (simp add: case_prod_beta)
next
  case (WorkloadArtifactCommit io i n d r ei ci p)
  then show ?thesis using inv_commit [OF assms(1)] by (simp split: prod.split)
qed

lemma init_inv:
  assumes "poison_workload_init workload_id project_digest capabilities_digest limits = Some w"
  shows "workload_inv w"
  using assms
  by (auto simp: poison_workload_init_def workload_inv_def console_numbered_def artifacts_counted_def committed_def
      usage_within_def zero_workload_def zero_usage_def split: option.splits if_splits)

text \<open>What holds whatever is called: the artifacts are counted in two ways, when they are committed and by the
  accounting, and only the second looks at the limit of their number.\<close>

definition commits_nothing :: "WorkloadOp \<Rightarrow> bool" where
  "commits_nothing op \<longleftrightarrow> (case op of WorkloadArtifactCommit _ _ _ _ _ _ _ _ \<Rightarrow> False | _ \<Rightarrow> True)"

definition workload_core :: "PoisonWorkload \<Rightarrow> bool" where
  "workload_core w \<longleftrightarrow> console_numbered w \<and> length (pw_artifacts w) \<le> POISON_WORKLOAD_MAX_ARTIFACTS \<and>
     distinct (filter (\<lambda>i. i \<noteq> '''') (map wa_artifact_id (pw_artifacts w))) \<and>
     usage_within ((pw_usage w) \<lparr> wu_artifacts := 0 \<rparr>) (pw_limits w) \<and>
     unat (wu_artifacts (pw_usage w)) \<le> unat (wl_artifacts (pw_limits w)) + length (committed w)"

lemma core_state:
  "workload_core w \<Longrightarrow> terminal_state s \<or> \<not> terminal_state (pw_state w) \<Longrightarrow>
     workload_core (w \<lparr> pw_terminal_reason := r, pw_state := s \<rparr>)"
  by (auto simp: workload_core_def console_numbered_def committed_def)

lemma core_terminate: "workload_core w \<Longrightarrow> workload_core (fst (poison_workload_force_terminate reason w))"
  using core_state [of w "state_for_reason reason" reason] state_for_reason_terminal [of reason]
  by (simp add: poison_workload_force_terminate_def)

lemma core_finish: "workload_core w \<Longrightarrow> workload_core (fst (poison_workload_finish success w))"
  using core_state [of w "if success then PoisonWorkloadCompleted else PoisonWorkloadCrashed"
      "if success then PoisonWorkloadTerminalCompleted else PoisonWorkloadTerminalCrash"]
  by (auto simp: poison_workload_finish_def)

lemma core_print: "workload_core w \<Longrightarrow> workload_core (fst (poison_workload_append_console type line w))"
  by (rule print_effect [of w type line]) (auto simp: workload_core_def committed_def usage_within_def)

lemma core_event: "workload_core w \<Longrightarrow> workload_core (poison_workload_js_event event w)"
  by (cases event) (simp add: poison_workload_js_event_def Let_def core_terminate core_finish core_print)

lemma core_account:
  assumes "workload_core w"
  shows "workload_core (fst (poison_workload_account increment reason w))"
proof (cases "\<exists>i. increment = Some i \<and> pw_state w = PoisonWorkloadRunning \<and> \<not> usage_exceeds (pw_usage w) i (pw_limits w)")
  case True
  then obtain i where i: "increment = Some i" "pw_state w = PoisonWorkloadRunning"
    "\<not> usage_exceeds (pw_usage w) i (pw_limits w)" by blast
  then show ?thesis
    using assms usage_plus_within [OF i(3)]
    by (auto simp: poison_workload_account_def workload_core_def console_numbered_def committed_def usage_within_def
        word_le_nat_alt)
next
  case False
  then show ?thesis
    using assms core_terminate [OF assms] by (auto simp: poison_workload_account_def split: option.split)
qed

lemma unat_plus_one_le: "unat (x + 1) \<le> Suc (unat (x :: 'a :: len word))"
  by (cases "x = - 1") (simp_all add: unat_Suc_eq)

lemma core_finalize: "workload_core w \<Longrightarrow> workload_core (fst (poison_workload_finalize_artifact requested w))"
  using inc_le [of "wu_artifacts (pw_usage w)" "wl_artifacts (pw_limits w)"]
  by (auto simp: poison_workload_finalize_artifact_def workload_core_def console_numbered_def committed_def
      usage_within_def zero_artifact_def not_le word_le_nat_alt word_less_nat_alt)

lemma core_artifact_begin:
  assumes "workload_core w"
  shows "workload_core (fst (poison_workload_artifact_begin i p w))"
proof (cases "pw_state w \<noteq> PoisonWorkloadRunning \<or> \<not> poison_workload_artifact_id_valid i \<or>
    \<not> poison_workload_artifact_path_valid p \<or> poison_workload_artifact_find w (the i) \<noteq> None")
  case True
  then have "fst (poison_workload_artifact_begin i p w) = w"
    by (auto simp: poison_workload_artifact_begin_def split: option.split)
  then show ?thesis using assms by simp
next
  case False
  then have "the i \<notin> wa_artifact_id ` set (pw_artifacts w)" by (auto simp: poison_workload_artifact_find_def)
  then have new: "workload_core (w \<lparr> pw_artifacts := pw_artifacts w @ [zero_artifact \<lparr> wa_artifact_id := the i,
      wa_path := the p, wa_state := PoisonWorkloadArtifactPartial \<rparr>] \<rparr>)"
    if "length (pw_artifacts w) < POISON_WORKLOAD_MAX_ARTIFACTS"
    using that assms by (auto simp: workload_core_def console_numbered_def committed_def zero_artifact_def)
  show ?thesis
    using False new core_terminate [OF assms, of PoisonWorkloadTerminalArtifactLimit]
    by (auto simp: poison_workload_artifact_begin_def)
qed

lemma core_commit:
  assumes inv: "workload_core w"
    and "poison_workload_artifact_commit sha256 io i n digest requested evidence_id case_id prev w e = (w', e', ok)"
  shows "workload_core w'"
  using assms(2)
proof (cases rule: commit_cases)
  case same
  then show ?thesis using inv by simp
next
  case over
  then show ?thesis using core_terminate [OF inv] by simp
next
  case (committed index a)
  let ?P = "\<lambda>a. wa_state a \<noteq> PoisonWorkloadArtifactPartial"
  have "?P a" "\<not> ?P (pw_artifacts w ! index)" using committed(5,10) by simp_all
  then have one: "length (filter ?P ((pw_artifacts w)[index := a])) = Suc (length (filter ?P (pw_artifacts w)))"
    using filter_update_one(1) [OF committed(3), of ?P a] by simp
  have ids: "map wa_artifact_id ((pw_artifacts w)[index := a]) = map wa_artifact_id (pw_artifacts w)"
    using committed(3,4,8) by (simp add: map_update list_update_same_conv)
  show ?thesis
    using inv one ids unat_plus_one_le [of "wu_artifacts (pw_usage w)"] exceeds_sum(2) [OF committed(7)]
    by (auto simp: workload_core_def console_numbered_def committed_def committed(14) usage_within_def)
qed

lemma core_step: "workload_core w \<Longrightarrow> workload_core (fst (fst (workload_step sha256 op (w, e))))"
proof (cases op)
  case (WorkloadArtifactCommit io i n d r ei ci p)
  then show "workload_core w \<Longrightarrow> ?thesis" using core_commit by (simp split: prod.split)
qed (simp_all add: case_prod_beta core_terminate core_account core_print core_finish core_event core_finalize core_artifact_begin,
  auto simp: poison_workload_start_def poison_workload_request_cancel_def workload_core_def console_numbered_def committed_def)

lemma within_step:
  assumes "usage_within (pw_usage w) (pw_limits w) \<and> workload_core w" "commits_nothing op"
  shows "usage_within (pw_usage (fst (fst (workload_step sha256 op (w, e)))))
    (pw_limits (fst (fst (workload_step sha256 op (w, e)))))"
proof -
  note within = conjunct1 [OF assms(1)] conjunct2 [OF assms(1)]
  have ends: "usage_within (pw_usage (fst (poison_workload_force_terminate reason v)))
      (pw_limits (fst (poison_workload_force_terminate reason v))) = usage_within (pw_usage v) (pw_limits v)"
    "usage_within (pw_usage (fst (poison_workload_finish success v)))
      (pw_limits (fst (poison_workload_finish success v))) = usage_within (pw_usage v) (pw_limits v)" for reason success v
    by (simp_all add: poison_workload_force_terminate_def poison_workload_finish_def)
  have prints: "usage_within (pw_usage (fst (poison_workload_append_console type line w)))
      (pw_limits (fst (poison_workload_append_console type line w)))" for type line
    by (rule print_effect [of w type line])
      (use within in \<open>auto simp: usage_within_def workload_core_def\<close>)
  show ?thesis
  proof (cases op)
    case (WorkloadEvent kind msg)
    then show ?thesis using within by (simp add: poison_workload_js_event_def Let_def ends prints)
  next
    case (WorkloadAccount i r)
    then show ?thesis
      using within by (auto simp: poison_workload_account_def ends usage_plus_within case_prod_beta split: option.split)
  next
    case (WorkloadFinalize r)
    then show ?thesis
      using within inc_le [of "wu_artifacts (pw_usage w)" "wl_artifacts (pw_limits w)"]
      by (auto simp: poison_workload_finalize_artifact_def usage_within_def not_le case_prod_beta)
  next
    case (WorkloadArtifactBegin i p)
    then show ?thesis
      using within by (auto simp: poison_workload_artifact_begin_def ends case_prod_beta split: option.split)
  next
    case (WorkloadArtifactCommit io i n d r ei ci p)
    then show ?thesis using assms(2) by (simp add: commits_nothing_def)
  qed (use within in \<open>auto simp: case_prod_beta ends prints poison_workload_start_def poison_workload_request_cancel_def\<close>)
qed

lemma run_invariant:
  assumes "P w" "\<And>op w e. op \<in> set ops \<Longrightarrow> P w \<Longrightarrow> P (fst (fst (workload_step sha256 op (w, e))))"
  shows "P (fst (run_state (workload_step sha256) (w, e) ops))"
  using assms
proof (induction ops arbitrary: w e)
  case (Cons op ops)
  obtain w1 e1 where eq: "fst (workload_step sha256 op (w, e)) = (w1, e1)" by fastforce
  have "P w1" using Cons.prems(2) [of op w e] Cons.prems(1) by (simp add: eq)
  then show ?case using Cons.IH [of w1 e1] Cons.prems(2) by (simp add: eq)
qed simp

lemma init_core:
  assumes "poison_workload_init workload_id project_digest capabilities_digest limits = Some w"
  shows "workload_core w"
  using init_inv [OF assms]
  by (auto simp: workload_inv_def workload_core_def artifacts_counted_def usage_within_def committed_def intro: distinct_filter)


text \<open>A workload with an artifact: created, started, printing, an artifact committed, finished.\<close>

definition sample_limits :: PoisonWorkloadLimits where
  "sample_limits = zero_limits \<lparr> wl_heap_bytes := 1024, wl_source_bytes := 1024, wl_modules := 4, wl_fuel := 100,
     wl_wall_ms := 1000, wl_logs := 64, wl_artifacts := 1, wl_artifact_bytes := 16 \<rparr>"

definition sample_workload :: PoisonWorkload where
  "sample_workload = zero_workload \<lparr> pw_workload_id := ''w1'', pw_project_digest := replicate 64 CHR ''a'',
     pw_capabilities_digest := replicate 64 CHR ''b'', pw_limits := sample_limits, pw_next_console_sequence := 1 \<rparr>"

lemma sample_workload_init:
  "poison_workload_init (Some ''w1'') (Some (replicate 64 CHR ''a'')) (Some (replicate 64 CHR ''b'')) (Some sample_limits)
     = Some sample_workload"
  by (simp add: poison_workload_init_def sample_workload_def sample_limits_def workload_bounded_id_def
      workload_bounded_digest_def workload_id_char_def hex_digit_char_def of_char_def list_all_iff zero_workload_def)

definition sample_artifact_io :: ArtifactIo where
  "sample_artifact_io = \<lparr> ao_checked = Some [1, 2], ao_source = None, ao_persist = undefined \<rparr>"

definition sample_workload_ops :: "WorkloadOp list" where
  "sample_workload_ops = [WorkloadStart, WorkloadEvent JsThreadEventPrint (Some ''hi''),
     WorkloadArtifactBegin (Some ''a.bin'') (Some ''/ext/scripts/p/artifacts/a.bin''),
     WorkloadArtifactCommit sample_artifact_io ''a.bin'' 2 (zeros 32) False '''' '''' (zeros 32),
     WorkloadEvent JsThreadEventDone None]"


lemma ucast_UINT32_MAX: "ucast UINT32_MAX = (0xFFFFFFFF :: u64)"
proof (rule word_unat_eq_iff [THEN iffD2])
  show "unat (ucast UINT32_MAX :: u64) = unat (0xFFFFFFFF :: u64)"
    by (simp add: unat_UINT32_MAX)
qed

lemma sample_workload_completes:
  "let w = fst (run_state (workload_step (\<lambda>_. Some (zeros 32))) (sample_workload, sample_service) sample_workload_ops)
   in pw_state w = PoisonWorkloadCompleted \<and> length (committed w) = 1 \<and> length (pw_console w) = 1"
  by (simp add: ucast_UINT32_MAX committed_def sample_workload_ops_def workload_ops sample_workload_def sample_limits_def zero_workload_def zero_usage_def
      zero_limits_def zero_artifact_def poison_workload_artifact_id_valid_def artifact_id_char_def strnlen_def of_char_def
      poison_workload_artifact_path_valid_def poison_workload_artifact_find_def sample_artifact_io_def
      poison_workload_artifact_file_matches_def Let_def)

lemma ended_workload_never_changes_witness:
  "fst (run_state (workload_step (\<lambda>_. Some (zeros 32)))
      (sample_workload \<lparr> pw_state := PoisonWorkloadCrashed \<rparr>, sample_service) [WorkloadStart, WorkloadFinish True])
     = sample_workload \<lparr> pw_state := PoisonWorkloadCrashed \<rparr>"
  by (rule ended_workload_never_changes) simp

section \<open>What the code leaves open\<close>

text \<open>The text of the time limit is not in the table of limits, so a script that ran out of time is reported
  as crashed; no event of a script ever gives the state of a timeout.\<close>

lemma wall_time_reported_as_crash:
  assumes "pw_state w = PoisonWorkloadRunning" "wl_logs (pw_limits w) > 128" "pw_console w = []" "wu_logs (pw_usage w) = 0"
  shows "pw_state (poison_workload_js_event
      (JsThreadEventError, Some (js_limits_reason_text JsLimitReasonWallTime)) w) = PoisonWorkloadCrashed"
proof -
  have "(35 :: u32) \<le> wl_logs (pw_limits w)"
    using assms(2) by (simp add: word_le_nat_alt word_less_nat_alt)
  then show ?thesis
    using assms by (simp add: poison_workload_js_event_def poison_workload_js_limit_reason_def js_reasons_def
        poison_workload_append_console_def poison_workload_finish_def strnlen_def Let_def not_less)
qed

text \<open>When the signal to an application fails, its workload stays in the state of a cancellation, and every
  later attempt to cancel is refused.\<close>

lemma unsignalled_cancel_sticks:
  assumes "poison_workload_native_cancel False m = (m', ok)" "pw_state (mw_workload m) = PoisonWorkloadRunning"
    and "na_running (mw_native m)" "na_workload (mw_native m)"
  shows "pw_state (mw_workload m') = PoisonWorkloadCancelling \<and> \<not> snd (poison_workload_native_cancel signalled m')"
  using assms by (auto simp: poison_workload_native_cancel_def poison_workload_request_cancel_def Let_def)

text \<open>The unchecked counter of artifacts makes an entry without a name; the counter the commit increases is not
  compared with its limit, so accounting artifacts and committing one exceeds it.\<close>

lemma accounted_artifacts_exceed:
  "\<exists>ops. \<not> wu_artifacts (pw_usage (fst (run_state (workload_step (\<lambda>_. Some (zeros 32))) (sample_workload, e) ops)))
       \<le> wl_artifacts sample_limits"
proof -
  let ?ops = "[WorkloadStart, WorkloadAccount (Some (zero_usage \<lparr> wu_artifacts := 1 \<rparr>)) PoisonWorkloadTerminalNone,
     WorkloadArtifactBegin (Some ''a.bin'') (Some ''/ext/scripts/p/artifacts/a.bin''),
     WorkloadArtifactCommit sample_artifact_io ''a.bin'' 2 (zeros 32) False '''' '''' (zeros 32)]"
  have "wu_artifacts (pw_usage (fst (run_state (workload_step (\<lambda>_. Some (zeros 32))) (sample_workload, e) ?ops))) = 2"
    by (simp add: ucast_UINT32_MAX workload_ops sample_workload_def sample_limits_def zero_workload_def zero_usage_def
      zero_limits_def zero_artifact_def poison_workload_artifact_id_valid_def artifact_id_char_def strnlen_def of_char_def
      poison_workload_artifact_path_valid_def poison_workload_artifact_find_def sample_artifact_io_def
      poison_workload_artifact_file_matches_def usage_exceeds_def usage_plus_def exceeds_def Let_def)
  moreover have "\<not> (2 :: u16) \<le> wl_artifacts sample_limits" by (simp add: sample_limits_def word_le_nat_alt)
  ultimately show ?thesis by metis
qed

end
