(* ===== verification/WorkloadService.thy ===== *)
theory WorkloadService
  imports Workload
begin

text \<open>The request handler of the workloads (\<open>rpc/rpc_poison_workload.c\<close>): the validation of a request, the
  record a connection is bound to, creation, start, cancellation and artifacts, with the replies, audit
  events and diagnostics it produces.  What the session grants, the outcomes of starting a script or an
  application and what the storage gives are inputs of a call.\<close>

section \<open>Capabilities of a script\<close>

abbreviation "JsCapabilityDevice \<equiv> (0x001 :: u32)"
abbreviation "JsCapabilityRuntime \<equiv> (0x002 :: u32)"
abbreviation "JsCapabilityUi \<equiv> (0x004 :: u32)"
abbreviation "JsCapabilityNotification \<equiv> (0x008 :: u32)"
abbreviation "JsCapabilityBadUsb \<equiv> (0x010 :: u32)"
abbreviation "JsCapabilitySerial \<equiv> (0x020 :: u32)"
abbreviation "JsCapabilityGpio \<equiv> (0x040 :: u32)"
abbreviation "JsCapabilityStorage \<equiv> (0x080 :: u32)"
abbreviation "JsCapabilityCrypto \<equiv> (0x100 :: u32)"
abbreviation "JsCapabilityCompute \<equiv> (0x200 :: u32)"
abbreviation "JsCapabilityEvidence \<equiv> (0x400 :: u32)"

definition POISON_JS_CAPABILITY_KNOWN_MASK :: u32 where
  "POISON_JS_CAPABILITY_KNOWN_MASK = JsCapabilityDevice OR JsCapabilityRuntime OR JsCapabilityUi OR
     JsCapabilityNotification OR JsCapabilityBadUsb OR JsCapabilitySerial OR JsCapabilityGpio OR
     JsCapabilityStorage OR JsCapabilityCrypto OR JsCapabilityCompute OR JsCapabilityEvidence"

definition rpc_poison_workload_effective_js_capabilities :: "PoisonCapability \<Rightarrow> u32 \<Rightarrow> u32" where
  "rpc_poison_workload_effective_js_capabilities session_capabilities requested_capabilities =
    (let allowed0 = (if session_capabilities AND POISON_CAPABILITY_CONTROL \<noteq> 0
            then JsCapabilityDevice OR JsCapabilityRuntime OR JsCapabilityUi OR JsCapabilityNotification OR
                 JsCapabilityCrypto OR JsCapabilityCompute else 0);
         allowed1 = (if session_capabilities AND POISON_CAPABILITY_FILES \<noteq> 0
            then allowed0 OR JsCapabilityStorage else allowed0);
         allowed2 = (if session_capabilities AND POISON_CAPABILITY_EVIDENCE \<noteq> 0
            then allowed1 OR JsCapabilityEvidence else allowed1);
         allowed3 = (if session_capabilities AND POISON_CAPABILITY_RADIO \<noteq> 0
            then allowed2 OR JsCapabilitySerial OR JsCapabilityGpio else allowed2)
     in requested_capabilities AND allowed3 AND POISON_JS_CAPABILITY_KNOWN_MASK)"

section \<open>Requests\<close>

datatype WorkloadOperation =
    WORKLOAD_OPERATION_UNSPECIFIED | WORKLOAD_OPERATION_CREATE | WORKLOAD_OPERATION_RUN
  | WORKLOAD_OPERATION_CANCEL | WORKLOAD_OPERATION_INSPECT | WORKLOAD_OPERATION_FINALIZE_ARTIFACT
  | WORKLOAD_OPERATION_OTHER

datatype PoisonWorkloadOperation =
    PoisonWorkloadOperationCreate | PoisonWorkloadOperationRun | PoisonWorkloadOperationCancel
  | PoisonWorkloadOperationInspect | PoisonWorkloadOperationFinalizeArtifact

record WireLimits =
  li_heap_bytes :: u32
  li_source_bytes :: u32
  li_modules :: u32
  li_parser_depth :: u32
  li_stack_depth :: u32
  li_fuel :: u32
  li_callbacks :: u32
  li_timers :: u32
  li_open_handles :: u32
  li_logs :: u32
  li_artifacts :: u32
  li_wall_ms :: u32
  li_artifact_bytes :: u32

text \<open>The limits are present or not (\<open>has_limits\<close>); texts fit their fields.\<close>

record WorkloadRequest =
  wq_operation :: WorkloadOperation
  wq_workload_id :: string
  wq_runtime :: PoisonManagedRuntime
  wq_project_digest :: string
  wq_capabilities_digest :: string
  wq_entrypoint :: string
  wq_limits :: "WireLimits option"
  wq_from_sequence :: u64
  wq_evidence_requested :: bool
  wq_artifact_id :: string
  wq_artifact_path :: string
  wq_artifact_size :: u64
  wq_artifact_sha256 :: string
  wq_evidence_id :: string
  wq_case_id :: string
  wq_capability_mask :: u32

definition rpc_poison_workload_digest_valid :: "string \<Rightarrow> bool" where
  "rpc_poison_workload_digest_valid digest \<longleftrightarrow> strnlen digest 65 = 64 \<and> list_all hex_digit_char digest"

definition hex_value :: "char \<Rightarrow> u8" where
  "hex_value c = (if char_code c \<le> char_code CHR ''9'' then of_nat (char_code c - char_code CHR ''0'')
     else of_nat (char_code c - char_code CHR ''a'' + 10))"

definition rpc_poison_workload_hex_digest :: "string \<Rightarrow> bytes option" where
  "rpc_poison_workload_hex_digest value =
    (if \<not> rpc_poison_workload_digest_valid value then None
     else Some (map (\<lambda>index. push_bit 4 (hex_value (value ! (index * 2))) OR hex_value (value ! (index * 2 + 1)))
            [0..<32]))"

definition rpc_poison_workload_limits_valid :: "WireLimits \<Rightarrow> bool" where
  "rpc_poison_workload_limits_valid l \<longleftrightarrow>
     li_heap_bytes l > 0 \<and> li_heap_bytes l \<le> 64 * 1024 \<and> li_source_bytes l > 0 \<and>
     li_source_bytes l \<le> 256 * 1024 \<and> li_modules l > 0 \<and> li_modules l \<le> 32 \<and> li_parser_depth l > 0 \<and>
     li_parser_depth l \<le> 64 \<and> li_stack_depth l > 0 \<and> li_stack_depth l \<le> 64 \<and> li_fuel l > 0 \<and>
     li_fuel l \<le> 10000000 \<and> li_callbacks l \<le> 64 \<and> li_timers l \<le> 64 \<and> li_open_handles l \<le> 32 \<and>
     li_logs l > 0 \<and> li_logs l \<le> 64 * 1024 \<and> li_artifacts l \<le> 8 \<and> li_artifact_bytes l \<le> 8 * 1024 * 1024 \<and>
     ((li_artifacts l = 0) = (li_artifact_bytes l = 0)) \<and> li_wall_ms l > 0 \<and> li_wall_ms l \<le> 60000"

definition rpc_poison_workload_artifact_fields_empty :: "WorkloadRequest \<Rightarrow> bool" where
  "rpc_poison_workload_artifact_fields_empty request \<longleftrightarrow>
     wq_artifact_id request = '''' \<and> wq_artifact_path request = '''' \<and> wq_artifact_size request = 0 \<and>
     wq_artifact_sha256 request = '''' \<and> wq_evidence_id request = '''' \<and> wq_case_id request = ''''"

text \<open>Resolution of a path for reading; it always returns (\<open>Vfs\<close>).\<close>

definition resolved_for_reading :: "string \<Rightarrow> PoisonRole \<Rightarrow> PoisonVfsResolvedPath option" where
  "resolved_for_reading path role =
    (case poison_vfs_resolve_path (Some path) role PoisonVfsOperationRead of None \<Rightarrow> None | Some r \<Rightarrow> r)"

definition rpc_poison_workload_artifact_request_valid :: "WorkloadRequest \<Rightarrow> PoisonRole \<Rightarrow> bool" where
  "rpc_poison_workload_artifact_request_valid request role \<longleftrightarrow>
     wq_runtime request = PoisonManagedRuntimeUnspecified \<and> wq_project_digest request = '''' \<and>
     wq_capabilities_digest request = '''' \<and> wq_entrypoint request = '''' \<and> wq_limits request = None \<and>
     wq_from_sequence request = 0 \<and> wq_artifact_id request \<noteq> '''' \<and> wq_artifact_size request > 0 \<and>
     wq_artifact_size request \<le> 8 * 1024 * 1024 \<and> rpc_poison_workload_digest_valid (wq_artifact_sha256 request) \<and>
     (if wq_evidence_requested request
      then poison_evidence_id_validate (Some (wq_evidence_id request)) \<and>
           poison_evidence_id_validate (Some (wq_case_id request))
      else wq_evidence_id request = '''' \<and> wq_case_id request = '''') \<and>
     (case resolved_for_reading (wq_artifact_path request) role of
        None \<Rightarrow> False
      | Some r \<Rightarrow> rp_vfs_namespace r = PoisonVfsNamespaceScripts \<and> strstr (rp_backing_path r) ''/artifacts/'')"

definition rpc_poison_workload_suffix :: "string \<Rightarrow> string \<Rightarrow> bool" where
  "rpc_poison_workload_suffix path suff \<longleftrightarrow>
     length path > length suff \<and> drop (length path - length suff) path = suff"

definition rpc_poison_workload_resolve_entrypoint ::
    "WorkloadRequest \<Rightarrow> PoisonRole \<Rightarrow> PoisonVfsResolvedPath option" where
  "rpc_poison_workload_resolve_entrypoint request role =
    (case resolved_for_reading (wq_entrypoint request) role of
       None \<Rightarrow> None
     | Some r \<Rightarrow>
         if (case wq_runtime request of
               PoisonManagedRuntimeJavaScript \<Rightarrow> rp_vfs_namespace r = PoisonVfsNamespaceScripts \<and>
                 rpc_poison_workload_suffix (rp_backing_path r) ''.js''
             | PoisonManagedRuntimeNative \<Rightarrow> rp_vfs_namespace r = PoisonVfsNamespaceApps \<and>
                 rpc_poison_workload_suffix (rp_backing_path r) ''.fap''
             | PoisonManagedRuntimeWasm \<Rightarrow> rp_vfs_namespace r = PoisonVfsNamespaceWorkloads \<and>
                 rpc_poison_workload_suffix (rp_backing_path r) ''.wasm''
             | _ \<Rightarrow> False)
         then Some r else None)"

definition rpc_poison_workload_request_is_valid :: "WorkloadRequest \<Rightarrow> PoisonRole \<Rightarrow> bool" where
  "rpc_poison_workload_request_is_valid request role =
    (if role \<ge> PoisonRoleCount \<or> wq_workload_id request = '''' \<or> strnlen (wq_workload_id request) 65 \<ge> 65 \<or>
        wq_operation request = WORKLOAD_OPERATION_UNSPECIFIED \<or> wq_operation request = WORKLOAD_OPERATION_OTHER
     then False
     else if wq_operation request = WORKLOAD_OPERATION_CREATE
     then wq_limits request \<noteq> None \<and> rpc_poison_workload_limits_valid (the (wq_limits request)) \<and>
          wq_capability_mask request AND NOT POISON_JS_CAPABILITY_KNOWN_MASK = 0 \<and>
          (wq_runtime request = PoisonManagedRuntimeJavaScript \<or> wq_capability_mask request = 0) \<and>
          rpc_poison_workload_digest_valid (wq_project_digest request) \<and>
          rpc_poison_workload_digest_valid (wq_capabilities_digest request) \<and>
          rpc_poison_workload_resolve_entrypoint request role \<noteq> None \<and>
          wq_from_sequence request = 0 \<and> \<not> wq_evidence_requested request \<and>
          rpc_poison_workload_artifact_fields_empty request
     else if wq_operation request = WORKLOAD_OPERATION_FINALIZE_ARTIFACT
     then rpc_poison_workload_artifact_request_valid request role
     else if wq_project_digest request \<noteq> '''' \<or> wq_capabilities_digest request \<noteq> '''' \<or>
             wq_entrypoint request \<noteq> '''' \<or> wq_limits request \<noteq> None \<or>
             wq_runtime request \<noteq> PoisonManagedRuntimeUnspecified \<or> wq_capability_mask request \<noteq> 0
     then False
     else if \<not> rpc_poison_workload_artifact_fields_empty request then False
     else if wq_operation request = WORKLOAD_OPERATION_INSPECT then \<not> wq_evidence_requested request
     else if wq_operation request = WORKLOAD_OPERATION_CANCEL
     then wq_from_sequence request = 0 \<and> \<not> wq_evidence_requested request
     else wq_from_sequence request = 0)"

fun rpc_poison_workload_operation :: "WorkloadOperation \<Rightarrow> PoisonWorkloadOperation" where
  "rpc_poison_workload_operation WORKLOAD_OPERATION_CREATE = PoisonWorkloadOperationCreate"
| "rpc_poison_workload_operation WORKLOAD_OPERATION_RUN = PoisonWorkloadOperationRun"
| "rpc_poison_workload_operation WORKLOAD_OPERATION_CANCEL = PoisonWorkloadOperationCancel"
| "rpc_poison_workload_operation WORKLOAD_OPERATION_FINALIZE_ARTIFACT = PoisonWorkloadOperationFinalizeArtifact"
| "rpc_poison_workload_operation _ = PoisonWorkloadOperationInspect"

record PoisonWorkloadAuthorization =
  az_create :: bool
  az_run :: bool
  az_cancel :: bool
  az_inspect :: bool
  az_finalize_artifact :: bool

definition rpc_poison_workload_authorization :: "PoisonCapability \<Rightarrow> PoisonWorkloadAuthorization" where
  "rpc_poison_workload_authorization capabilities =
    (let control = (capabilities AND POISON_CAPABILITY_CONTROL \<noteq> 0)
     in \<lparr> az_create = control, az_run = control, az_cancel = control,
          az_inspect = (capabilities AND POISON_CAPABILITY_STATUS \<noteq> 0), az_finalize_artifact = control \<rparr>)"

definition poison_workload_authorize :: "PoisonWorkloadAuthorization \<Rightarrow> PoisonWorkloadOperation \<Rightarrow> bool" where
  "poison_workload_authorize authorization operation =
    (case operation of
       PoisonWorkloadOperationCreate \<Rightarrow> az_create authorization
     | PoisonWorkloadOperationRun \<Rightarrow> az_run authorization
     | PoisonWorkloadOperationCancel \<Rightarrow> az_cancel authorization
     | PoisonWorkloadOperationInspect \<Rightarrow> az_inspect authorization
     | PoisonWorkloadOperationFinalizeArtifact \<Rightarrow> az_finalize_artifact authorization)"

definition rpc_poison_workload_limits :: "WireLimits \<Rightarrow> PoisonWorkloadLimits" where
  "rpc_poison_workload_limits l = \<lparr> wl_heap_bytes = li_heap_bytes l, wl_source_bytes = li_source_bytes l,
     wl_modules = ucast (li_modules l), wl_parser_depth = ucast (li_parser_depth l),
     wl_stack_depth = ucast (li_stack_depth l), wl_fuel = li_fuel l, wl_callbacks = ucast (li_callbacks l),
     wl_timers = ucast (li_timers l), wl_open_handles = ucast (li_open_handles l), wl_logs = li_logs l,
     wl_artifacts = ucast (li_artifacts l), wl_wall_ms = li_wall_ms l, wl_artifact_bytes = li_artifact_bytes l \<rparr>"

section \<open>What a request produces\<close>

datatype WorkloadOutput =
    WorkloadDiagnostic PoisonDiagnosticCategory string
  | WorkloadAudit string bool
  | WorkloadConsole u64 PoisonWorkloadConsoleType string
  | WorkloadStatus "PoisonManagedWorkload option" bool string
  | CompleteCancellable u32
  | InvalidParameters

text \<open>The state of one connection: the record of the table it is bound to and the command it can cancel.\<close>

record RpcPoisonWorkload =
  rw_managed :: "nat option"
  rw_active_command_id :: u32

text \<open>What is read and what happens around one request.\<close>

record WorkloadIo =
  wk_verified :: bool
  wk_thread_started :: bool
  wk_launched :: bool
  wk_registered :: bool
  wk_signalled :: bool
  wk_late_events :: "(JsThreadEvent \<times> string option) list"
  wk_case_exists :: bool
  wk_artifact :: ArtifactIo
  wk_previous_audit :: bytes

fun rpc_poison_workload_limit_reason :: "PoisonWorkloadTerminalReason \<Rightarrow> bool" where
  "rpc_poison_workload_limit_reason PoisonWorkloadTerminalNone = False"
| "rpc_poison_workload_limit_reason PoisonWorkloadTerminalCompleted = False"
| "rpc_poison_workload_limit_reason PoisonWorkloadTerminalCancelled = False"
| "rpc_poison_workload_limit_reason PoisonWorkloadTerminalTimeout = False"
| "rpc_poison_workload_limit_reason PoisonWorkloadTerminalCrash = False"
| "rpc_poison_workload_limit_reason PoisonWorkloadTerminalDisconnect = False"
| "rpc_poison_workload_limit_reason _ = True"

fun rpc_poison_workload_terminal_summary :: "PoisonWorkloadTerminalReason \<Rightarrow> string" where
  "rpc_poison_workload_terminal_summary PoisonWorkloadTerminalCompleted = ''javascript completed''"
| "rpc_poison_workload_terminal_summary PoisonWorkloadTerminalCancelled = ''javascript cancelled''"
| "rpc_poison_workload_terminal_summary PoisonWorkloadTerminalTimeout = ''javascript timed out''"
| "rpc_poison_workload_terminal_summary PoisonWorkloadTerminalCrash = ''javascript crashed''"
| "rpc_poison_workload_terminal_summary PoisonWorkloadTerminalDisconnect = ''javascript disconnected''"
| "rpc_poison_workload_terminal_summary PoisonWorkloadTerminalHeapLimit = ''javascript heap limit''"
| "rpc_poison_workload_terminal_summary PoisonWorkloadTerminalSourceLimit = ''javascript source limit''"
| "rpc_poison_workload_terminal_summary PoisonWorkloadTerminalModuleLimit = ''javascript module limit''"
| "rpc_poison_workload_terminal_summary PoisonWorkloadTerminalParserLimit = ''javascript parser limit''"
| "rpc_poison_workload_terminal_summary PoisonWorkloadTerminalStackLimit = ''javascript stack limit''"
| "rpc_poison_workload_terminal_summary PoisonWorkloadTerminalFuelLimit = ''javascript fuel limit''"
| "rpc_poison_workload_terminal_summary PoisonWorkloadTerminalCallbackLimit = ''javascript callback limit''"
| "rpc_poison_workload_terminal_summary PoisonWorkloadTerminalTimerLimit = ''javascript timer limit''"
| "rpc_poison_workload_terminal_summary PoisonWorkloadTerminalHandleLimit = ''javascript handle limit''"
| "rpc_poison_workload_terminal_summary PoisonWorkloadTerminalLogLimit = ''javascript log limit''"
| "rpc_poison_workload_terminal_summary PoisonWorkloadTerminalArtifactLimit = ''javascript artifact limit''"
| "rpc_poison_workload_terminal_summary PoisonWorkloadTerminalNone = ''javascript terminal''"

definition rpc_poison_workload_diagnostic_record ::
    "PoisonManagedWorkload \<Rightarrow> PoisonDiagnosticCategory \<Rightarrow> string \<Rightarrow> WorkloadOutput list" where
  "rpc_poison_workload_diagnostic_record managed category summary =
    (if mw_runtime managed \<noteq> PoisonManagedRuntimeJavaScript \<or> \<not> mw_occupied managed \<or>
        rpc_poison_workload_hex_digest (pw_project_digest (mw_workload managed)) = None
     then [] else [WorkloadDiagnostic category summary])"

definition rpc_poison_workload_record_start ::
    "PoisonManagedWorkload \<Rightarrow> PoisonManagedWorkload \<times> WorkloadOutput list" where
  "rpc_poison_workload_record_start managed =
    (if mw_diagnostics_started managed \<or> mw_runtime managed \<noteq> PoisonManagedRuntimeJavaScript then (managed, [])
     else (managed \<lparr> mw_diagnostics_started := True, mw_recovery_pending := False \<rparr>,
       rpc_poison_workload_diagnostic_record managed PoisonDiagnosticJavascriptStart ''javascript started'' @
       (if mw_recovery_pending managed
        then rpc_poison_workload_diagnostic_record managed PoisonDiagnosticJavascriptRecovery
               ''javascript recovery verified''
        else [])))"

definition rpc_poison_workload_record_terminal ::
    "PoisonManagedWorkload \<Rightarrow> PoisonManagedWorkload \<times> WorkloadOutput list" where
  "rpc_poison_workload_record_terminal managed =
    (if \<not> mw_occupied managed \<or> mw_diagnostics_terminal_recorded managed \<or>
        mw_runtime managed \<noteq> PoisonManagedRuntimeJavaScript \<or> \<not> terminal_state (pw_state (mw_workload managed))
     then (managed, [])
     else let reason = pw_terminal_reason (mw_workload managed);
              summary = rpc_poison_workload_terminal_summary reason
     in (managed \<lparr> mw_diagnostics_terminal_recorded := True,
           mw_recovery_pending := mw_recovery_pending managed \<or> reason = PoisonWorkloadTerminalCrash \<or>
             rpc_poison_workload_limit_reason reason \<or> reason = PoisonWorkloadTerminalDisconnect \<or>
             reason = PoisonWorkloadTerminalTimeout \<rparr>,
         rpc_poison_workload_diagnostic_record managed PoisonDiagnosticJavascriptTerminal summary @
         (if reason = PoisonWorkloadTerminalCrash
          then rpc_poison_workload_diagnostic_record managed PoisonDiagnosticJavascriptCrash ''javascript crashed''
          else if rpc_poison_workload_limit_reason reason
          then rpc_poison_workload_diagnostic_record managed PoisonDiagnosticJavascriptLimit summary
          else [])))"

definition rpc_poison_workload_cleanup_adapter :: "WorkloadIo \<Rightarrow> PoisonManagedWorkload \<Rightarrow> PoisonManagedWorkload" where
  "rpc_poison_workload_cleanup_adapter io managed =
    (if mw_runtime managed = PoisonManagedRuntimeJavaScript
     then poison_workload_js_cleanup (wk_late_events io) managed
     else if mw_runtime managed = PoisonManagedRuntimeNative then poison_workload_native_cleanup managed
     else managed)"

definition rpc_poison_workload_cancel_active ::
    "WorkloadIo \<Rightarrow> PoisonManagedWorkload \<Rightarrow> PoisonManagedWorkload \<times> bool" where
  "rpc_poison_workload_cancel_active io managed =
    (let state = pw_state (mw_workload managed) in
     if \<not> mw_occupied managed then (managed, False)
     else if state = PoisonWorkloadCancelled then (managed, True)
     else if state \<noteq> PoisonWorkloadRunning \<and> state \<noteq> PoisonWorkloadCancelling then (managed, False)
     else if mw_runtime managed = PoisonManagedRuntimeJavaScript
     then poison_workload_js_cancel (wk_late_events io) managed
     else if mw_runtime managed = PoisonManagedRuntimeNative
     then poison_workload_native_cancel (wk_signalled io) managed
     else let (w, ok) = poison_workload_force_terminate PoisonWorkloadTerminalCancelled (mw_workload managed)
       in (managed \<lparr> mw_workload := w \<rparr>, ok))"

section \<open>The operations on a record\<close>

text \<open>Creation; the third component says whether the active command of the connection is forgotten.\<close>

definition rpc_poison_workload_create :: "WorkloadIo \<Rightarrow> WorkloadRequest \<Rightarrow> PoisonRole \<Rightarrow> u32 \<Rightarrow>
    PoisonManagedWorkload \<Rightarrow> PoisonManagedWorkload \<times> WorkloadOutput list \<times> bool \<times> bool" where
  "rpc_poison_workload_create io request role effective managed =
    (let existing = (pw_project_digest (mw_workload managed) \<noteq> '''');
         (m1, out) = (if existing then rpc_poison_workload_record_terminal managed else (managed, []));
         current = mw_workload m1
     in if existing \<and> pw_workload_id current = wq_workload_id request \<and>
           pw_project_digest current = wq_project_digest request \<and>
           pw_capabilities_digest current = wq_capabilities_digest request \<and> mw_runtime m1 = wq_runtime request \<and>
           mw_effective_js_capabilities m1 = effective \<and> pw_state current = PoisonWorkloadQueued
        then (m1, out, False, True)
        else if existing \<and> \<not> terminal_state (pw_state current) then (m1, out, False, False)
        else let m2 = (if existing
                       then (rpc_poison_workload_cleanup_adapter io m1) \<lparr> mw_workload := zero_workload \<rparr> else m1)
        in case rpc_poison_workload_resolve_entrypoint request role of
             None \<Rightarrow> (m2, out, False, False)
           | Some resolved \<Rightarrow>
               if wq_runtime request = PoisonManagedRuntimeJavaScript \<and> \<not> wk_verified io
               then (m2, out, False, False)
               else case poison_workload_init (Some (wq_workload_id request)) (Some (wq_project_digest request))
                           (Some (wq_capabilities_digest request))
                           (map_option rpc_poison_workload_limits (wq_limits request)) of
                      None \<Rightarrow> (m2, out, False, False)
                    | Some w \<Rightarrow>
                        (m2 \<lparr> mw_workload := w, mw_runtime := wq_runtime request,
                           mw_entrypoint := rp_backing_path resolved, mw_diagnostics_started := False,
                           mw_diagnostics_terminal_recorded := False, mw_evidence_requested := False,
                           mw_effective_js_capabilities := effective \<rparr>, out, True, True))"

text \<open>Start; the third component is the new active command of the connection.\<close>

definition rpc_poison_workload_run :: "WorkloadIo \<Rightarrow> WorkloadRequest \<Rightarrow> PoisonCapability \<Rightarrow> u32 \<Rightarrow> u32 \<Rightarrow>
    PoisonManagedWorkload \<Rightarrow> PoisonManagedWorkload \<times> WorkloadOutput list \<times> u32 \<times> bool" where
  "rpc_poison_workload_run io request capabilities command_id active managed =
    (if pw_workload_id (mw_workload managed) \<noteq> wq_workload_id request then (managed, [], active, False)
     else if pw_state (mw_workload managed) = PoisonWorkloadRunning then (managed, [], active, True)
     else let (m1, started) =
         (if mw_runtime managed = PoisonManagedRuntimeJavaScript
          then poison_workload_js_start_managed (wk_thread_started io) managed
          else if mw_runtime managed = PoisonManagedRuntimeNative \<and> capabilities AND POISON_CAPABILITY_NATIVE \<noteq> 0
          then poison_workload_native_start (wk_launched io) (Some (mw_entrypoint managed)) managed
          else (managed, False))
     in if \<not> started then (m1, [], active, False)
        else let (m2, out) = rpc_poison_workload_record_start
                   (m1 \<lparr> mw_evidence_requested := wq_evidence_requested request \<rparr>)
        in if \<not> wk_registered io
           then (fst (rpc_poison_workload_cancel_active io m2), out, 0, False)
           else (m2, out, command_id, True))"

fun strstr_tail :: "string \<Rightarrow> string \<Rightarrow> string option" where
  "strstr_tail [] needle = (if needle = [] then Some [] else None)"
| "strstr_tail (c # cs) needle = (if prefix needle (c # cs) then Some (c # cs) else strstr_tail cs needle)"

definition rpc_poison_workload_artifact_within_project :: "string \<Rightarrow> string \<Rightarrow> bool" where
  "rpc_poison_workload_artifact_within_project entrypoint artifact_path =
    (case strstr_tail entrypoint ''/versions/'' of
       None \<Rightarrow> False
     | Some versions \<Rightarrow>
         let digest = drop (length ''/versions/'') versions in
         if length digest < 65 \<or> digest ! 64 \<noteq> CHR ''/'' then False
         else let root_length = length entrypoint - length digest + 64
         in take root_length artifact_path = take root_length entrypoint \<and>
            take 11 (drop root_length artifact_path) = ''/artifacts/'')"

definition rpc_poison_workload_finalize_artifact :: "(bytes \<Rightarrow> bytes option) \<Rightarrow> WorkloadIo \<Rightarrow> WorkloadRequest \<Rightarrow>
    PoisonRole \<Rightarrow> PoisonManagedWorkload \<Rightarrow> EvidenceService \<Rightarrow> PoisonManagedWorkload \<times> EvidenceService \<times> bool" where
  "rpc_poison_workload_finalize_artifact sha256 io request role managed evidence =
    (if pw_workload_id (mw_workload managed) \<noteq> wq_workload_id request \<or>
        pw_state (mw_workload managed) \<noteq> PoisonWorkloadRunning \<or>
        (wq_evidence_requested request \<and> \<not> mw_evidence_requested managed) \<or>
        (wq_evidence_requested request \<and> \<not> wk_case_exists io)
     then (managed, evidence, False)
     else case resolved_for_reading (wq_artifact_path request) role of
       None \<Rightarrow> (managed, evidence, False)
     | Some resolved \<Rightarrow>
         if \<not> rpc_poison_workload_artifact_within_project (mw_entrypoint managed) (rp_backing_path resolved)
         then (managed, evidence, False)
         else case rpc_poison_workload_hex_digest (wq_artifact_sha256 request) of
                None \<Rightarrow> (managed, evidence, False)
              | Some digest \<Rightarrow>
                  let (w1, begun) = poison_workload_artifact_begin (Some (wq_artifact_id request))
                                      (Some (rp_backing_path resolved)) (mw_workload managed)
                  in if \<not> begun then (managed \<lparr> mw_workload := w1 \<rparr>, evidence, False)
                     else let (w2, evidence', committed) =
                         poison_workload_artifact_commit sha256 (wk_artifact io) (wq_artifact_id request)
                           (wq_artifact_size request) digest (wq_evidence_requested request)
                           (wq_evidence_id request) (wq_case_id request) (wk_previous_audit io) w1 evidence
                     in (managed \<lparr> mw_workload := w2 \<rparr>, evidence', committed))"

section \<open>The request\<close>

record WorkloadWorld =
  ww_table :: WorkloadTable
  ww_evidence :: EvidenceService

abbreviation bound :: "RpcPoisonWorkload \<Rightarrow> WorkloadTable \<Rightarrow> PoisonManagedWorkload option" where
  "bound rpc table \<equiv> (case rw_managed rpc of None \<Rightarrow> None | Some index \<Rightarrow> table ! index)"

text \<open>\<open>None\<close>: the device stops in a check.\<close>

definition rpc_poison_workload_bind :: "bytes \<Rightarrow> string \<Rightarrow> bool \<Rightarrow> RpcPoisonWorkload \<Rightarrow> WorkloadTable \<Rightarrow>
    (RpcPoisonWorkload \<times> WorkloadTable \<times> bool) option" where
  "rpc_poison_workload_bind actor_digest workload_id create_if_missing rpc table =
    (if poison_managed_workload_matches (bound rpc table) actor_digest workload_id then Some (rpc, table, True)
     else if (case bound rpc table of None \<Rightarrow> False | Some m \<Rightarrow> \<not> terminal_state (pw_state (mw_workload m)))
     then Some (rpc, table, False)
     else case poison_managed_workload_attach actor_digest (Some workload_id) create_if_missing table of
            (table1, None) \<Rightarrow> Some (rpc, table1, False)
          | (table1, Some selected) \<Rightarrow>
              map_option (\<lambda>table2. (rpc \<lparr> rw_managed := Some selected, rw_active_command_id := 0 \<rparr>, table2, True))
                (poison_managed_workload_detach (rw_managed rpc) table1))"

text \<open>The session of the request: the role, the capabilities and the identity of the client, if it has one.\<close>

record WorkloadSession =
  wx_secure_dispatch :: bool
  wx_identity :: "(PoisonRole \<times> PoisonCapability \<times> bytes) option"

definition workload_operate :: "(bytes \<Rightarrow> bytes option) \<Rightarrow> WorkloadIo \<Rightarrow> WorkloadRequest \<Rightarrow> PoisonRole \<Rightarrow>
    PoisonCapability \<Rightarrow> u32 \<Rightarrow> PoisonManagedWorkload \<Rightarrow> EvidenceService \<Rightarrow> u32 \<Rightarrow>
    PoisonManagedWorkload \<times> EvidenceService \<times> u32 \<times> WorkloadOutput list \<times> string \<times> bool" where
  "workload_operate sha256 io request role capabilities command_id managed evidence active =
    (case rpc_poison_workload_operation (wq_operation request) of
       PoisonWorkloadOperationCreate \<Rightarrow>
         let effective = (if wq_runtime request = PoisonManagedRuntimeJavaScript
               then rpc_poison_workload_effective_js_capabilities capabilities (wq_capability_mask request) else 0);
             (m, out, forget, ok) = rpc_poison_workload_create io request role effective managed
         in (m, evidence, if forget then 0 else active, out, ''workload.create'', ok)
     | PoisonWorkloadOperationRun \<Rightarrow>
         let (m, out, active', ok) = rpc_poison_workload_run io request capabilities command_id active managed
         in (m, evidence, active', out, ''workload.run'', ok)
     | PoisonWorkloadOperationCancel \<Rightarrow>
         let (m, ok) = (if pw_workload_id (mw_workload managed) = wq_workload_id request
               then rpc_poison_workload_cancel_active io managed else (managed, False))
         in (m, evidence, active, [], ''workload.cancel'', ok)
     | PoisonWorkloadOperationFinalizeArtifact \<Rightarrow>
         let (m, evidence', ok) = rpc_poison_workload_finalize_artifact sha256 io request role managed evidence
         in (m, evidence', active, [], ''workload.artifact'', ok)
     | PoisonWorkloadOperationInspect \<Rightarrow>
         (managed, evidence, active, [], ''workload.inspect'',
          pw_workload_id (mw_workload managed) = wq_workload_id request \<and>
          wq_from_sequence request \<le> pw_next_console_sequence (mw_workload managed)))"

definition rpc_poison_workload_console :: "PoisonWorkload \<Rightarrow> u64 \<Rightarrow> WorkloadOutput list" where
  "rpc_poison_workload_console workload from_sequence =
     map (\<lambda>f. WorkloadConsole (wf_sequence f) (wf_type f) (wf_text f))
       (filter (\<lambda>f. \<not> wf_sequence f < from_sequence) (pw_console workload))"

text \<open>The end of every request: audit, console, diagnostics, status and the end of a command that can be
  cancelled.\<close>

definition workload_conclude :: "WorkloadRequest \<Rightarrow> string \<Rightarrow> string \<Rightarrow> bool \<Rightarrow> RpcPoisonWorkload \<Rightarrow>
    WorkloadWorld \<Rightarrow> RpcPoisonWorkload \<times> WorkloadWorld \<times> WorkloadOutput list" where
  "workload_conclude request action message ok rpc world =
    (let audit = [WorkloadAudit action ok] in
     case rw_managed rpc of
       None \<Rightarrow> (rpc, world, audit @ [WorkloadStatus None ok message])
     | Some index \<Rightarrow>
         let managed = the (ww_table world ! index);
             console = (if rpc_poison_workload_operation (wq_operation request) = PoisonWorkloadOperationInspect \<and>
                           ok
                        then rpc_poison_workload_console (mw_workload managed) (wq_from_sequence request) else []);
             (m1, out) = rpc_poison_workload_record_terminal managed;
             status = (if mw_occupied m1 \<and> pw_workload_id (mw_workload m1) = wq_workload_id request
                       then Some m1 else None);
             ended = (rw_active_command_id rpc \<noteq> 0 \<and> terminal_state (pw_state (mw_workload m1)))
         in (if ended then rpc \<lparr> rw_active_command_id := 0 \<rparr> else rpc,
             world \<lparr> ww_table := (ww_table world)[index := Some m1] \<rparr>,
             audit @ console @ out @ [WorkloadStatus status ok message] @
             (if ended then [CompleteCancellable (rw_active_command_id rpc)] else [])))"

definition rpc_poison_workload_process :: "(bytes \<Rightarrow> bytes option) \<Rightarrow> WorkloadIo \<Rightarrow> WorkloadSession \<Rightarrow>
    bool \<Rightarrow> u32 \<Rightarrow> WorkloadRequest \<Rightarrow> RpcPoisonWorkload \<Rightarrow> WorkloadWorld \<Rightarrow>
    (RpcPoisonWorkload \<times> WorkloadWorld \<times> WorkloadOutput list) option" where
  "rpc_poison_workload_process sha256 io session has_next command_id request rpc world =
    (if has_next \<or> \<not> wx_secure_dispatch session then Some (rpc, world, [InvalidParameters])
     else let refused = (\<lambda>rpc world. Some (workload_conclude request ''workload.inspect'' ''rejected'' False rpc world)) in
     case wx_identity session of
       None \<Rightarrow> refused rpc world
     | Some (role, capabilities, actor_digest) \<Rightarrow>
         if \<not> rpc_poison_workload_request_is_valid request role \<or>
            \<not> poison_workload_authorize (rpc_poison_workload_authorization capabilities)
                (rpc_poison_workload_operation (wq_operation request))
         then refused rpc world
         else case rpc_poison_workload_bind actor_digest (wq_workload_id request)
                     (rpc_poison_workload_operation (wq_operation request) = PoisonWorkloadOperationCreate)
                     rpc (ww_table world) of
                None \<Rightarrow> None
              | Some (rpc1, table1, False) \<Rightarrow> refused rpc1 (world \<lparr> ww_table := table1 \<rparr>)
              | Some (rpc1, table1, True) \<Rightarrow>
                  let index = the (rw_managed rpc1);
                      (m, evidence, active, out, action, ok) = workload_operate sha256 io request role capabilities
                         command_id (the (table1 ! index)) (ww_evidence world) (rw_active_command_id rpc1);
                      message = (if ok then ''accepted''
                         else if rpc_poison_workload_operation (wq_operation request) = PoisonWorkloadOperationRun \<and>
                                 mw_runtime m = PoisonManagedRuntimeWasm
                         then ''measured Wasm runtime unavailable'' else ''rejected'');
                      (rpc', world', replies) = workload_conclude request action message ok
                        (rpc1 \<lparr> rw_active_command_id := active \<rparr>)
                        \<lparr> ww_table = table1[index := Some m], ww_evidence = evidence \<rparr>
                  in Some (rpc', world', out @ replies))"

definition rpc_system_poison_workload_free :: "WorkloadIo \<Rightarrow> RpcPoisonWorkload \<Rightarrow> WorkloadTable \<Rightarrow>
    (WorkloadTable \<times> WorkloadOutput list) option" where
  "rpc_system_poison_workload_free io rpc table =
    (let complete = (if rw_active_command_id rpc \<noteq> 0 then [CompleteCancellable (rw_active_command_id rpc)] else []) in
     case rw_managed rpc of
       None \<Rightarrow> Some (table, complete)
     | Some index \<Rightarrow>
         let managed = the (table ! index);
             w = (if terminal_state (pw_state (mw_workload managed)) then mw_workload managed
                  else fst (poison_workload_force_terminate PoisonWorkloadTerminalDisconnect (mw_workload managed)));
             (m1, out) = rpc_poison_workload_record_terminal (managed \<lparr> mw_workload := w \<rparr>);
             m2 = rpc_poison_workload_cleanup_adapter io m1
         in map_option (\<lambda>table'. (table', out @ complete))
              (poison_managed_workload_detach (Some index) (table[index := Some m2])))"

section \<open>What an operation leaves alone\<close>

text \<open>No operation on a record touches the fields the table is kept by.\<close>

definition same_place :: "PoisonManagedWorkload \<Rightarrow> PoisonManagedWorkload \<Rightarrow> bool" where
  "same_place m m' \<longleftrightarrow> mw_occupied m' = mw_occupied m \<and> mw_attachments m' = mw_attachments m \<and>
     mw_actor_digest m' = mw_actor_digest m"

lemma same_place_refl [simp]: "same_place m m"
  by (simp add: same_place_def)

lemma same_place_trans: "same_place a b \<Longrightarrow> same_place b c \<Longrightarrow> same_place a c"
  by (simp add: same_place_def)

lemma same_place_updates [simp]:
  "same_place m (m' \<lparr> mw_workload := w \<rparr>) = same_place m m'" "same_place m (m' \<lparr> mw_js := j \<rparr>) = same_place m m'"
  "same_place m (m' \<lparr> mw_native := n \<rparr>) = same_place m m'" "same_place m (m' \<lparr> mw_runtime := r \<rparr>) = same_place m m'"
  "same_place m (m' \<lparr> mw_entrypoint := p \<rparr>) = same_place m m'"
  "same_place m (m' \<lparr> mw_effective_js_capabilities := c \<rparr>) = same_place m m'"
  "same_place m (m' \<lparr> mw_diagnostics_started := b \<rparr>) = same_place m m'"
  "same_place m (m' \<lparr> mw_diagnostics_terminal_recorded := b \<rparr>) = same_place m m'"
  "same_place m (m' \<lparr> mw_recovery_pending := b \<rparr>) = same_place m m'"
  "same_place m (m' \<lparr> mw_evidence_requested := b \<rparr>) = same_place m m'"
  by (simp_all add: same_place_def)

lemma js_events_same [simp]: "same_place m (js_events events m') = same_place m m'"
  by (simp add: js_events_def)

lemma cancel_same [simp]: "same_place m (fst (rpc_poison_workload_cancel_active io m)) "
  by (simp add: rpc_poison_workload_cancel_active_def poison_workload_js_cancel_def poison_workload_native_cancel_def
      Let_def case_prod_beta)

lemma cleanup_same [simp]: "same_place m (rpc_poison_workload_cleanup_adapter io m') = same_place m m'"
  by (simp add: rpc_poison_workload_cleanup_adapter_def poison_workload_js_cleanup_def poison_workload_native_cleanup_def)

lemma terminal_same [simp]: "same_place m (fst (rpc_poison_workload_record_terminal m')) = same_place m m'"
  by (simp add: rpc_poison_workload_record_terminal_def Let_def)

lemma start_same [simp]: "same_place m (fst (rpc_poison_workload_record_start m')) = same_place m m'"
  by (simp add: rpc_poison_workload_record_start_def)

lemma js_start_same [simp]: "same_place m (fst (poison_workload_js_start_managed b m))"
  by (simp add: poison_workload_js_start_managed_def Let_def case_prod_beta)

lemma native_start_same [simp]: "same_place m (fst (poison_workload_native_start b p m))"
  by (simp add: poison_workload_native_start_def Let_def case_prod_beta)

lemma create_same: "same_place m (fst (rpc_poison_workload_create io request role effective m))"
  by (simp add: rpc_poison_workload_create_def Let_def case_prod_beta split: option.split)

lemma run_same: "same_place m (fst (rpc_poison_workload_run io request capabilities command_id active m))"
proof -
  have js: "same_place m (fst (rpc_poison_workload_record_start
      ((fst (poison_workload_js_start_managed b m)) \<lparr> mw_evidence_requested := r \<rparr>)))" for b r
    by simp
  have native: "same_place m (fst (rpc_poison_workload_record_start
      ((fst (poison_workload_native_start b p m)) \<lparr> mw_evidence_requested := r \<rparr>)))" for b p r
    by simp
  have cancel: "same_place m x \<Longrightarrow> same_place m (fst (rpc_poison_workload_cancel_active io x))" for x
    by (rule same_place_trans [OF _ cancel_same])
  show ?thesis
    by (simp add: rpc_poison_workload_run_def Let_def case_prod_beta js native cancel)
qed

lemma finalize_same: "same_place m (fst (rpc_poison_workload_finalize_artifact sha256 io request role m e))"
  by (simp add: rpc_poison_workload_finalize_artifact_def Let_def case_prod_beta split: option.split)

lemma operate_same: "same_place m (fst (workload_operate sha256 io request role capabilities command_id m e active))"
  using create_same run_same finalize_same
  by (simp add: workload_operate_def Let_def case_prod_beta split: PoisonWorkloadOperation.split)

text \<open>The conclusion of a request changes nothing of the work of a record, only what was told to the diagnostics.\<close>

definition same_work :: "PoisonManagedWorkload \<Rightarrow> PoisonManagedWorkload \<Rightarrow> bool" where
  "same_work m m' \<longleftrightarrow> mw_occupied m' = mw_occupied m \<and> mw_actor_digest m' = mw_actor_digest m \<and>
     mw_workload m' = mw_workload m \<and> mw_js m' = mw_js m \<and> mw_native m' = mw_native m \<and>
     mw_runtime m' = mw_runtime m \<and> mw_entrypoint m' = mw_entrypoint m \<and>
     mw_effective_js_capabilities m' = mw_effective_js_capabilities m \<and>
     mw_evidence_requested m' = mw_evidence_requested m"

lemma same_work_refl [simp]: "same_work m m"
  by (simp add: same_work_def)

lemma same_work_trans: "same_work a b \<Longrightarrow> same_work b c \<Longrightarrow> same_work a c"
  by (simp add: same_work_def)

lemma same_work_attachments [simp]: "same_work m (m' \<lparr> mw_attachments := n \<rparr>) = same_work m m'"
  by (simp add: same_work_def)

lemma terminal_same_work [simp]: "same_work m (fst (rpc_poison_workload_record_terminal m))"
  by (simp add: rpc_poison_workload_record_terminal_def Let_def same_work_def)

section \<open>The table and its connections\<close>

definition attached :: "RpcPoisonWorkload list \<Rightarrow> nat \<Rightarrow> nat" where
  "attached conns index = length (filter (\<lambda>c. rw_managed c = Some index) conns)"

text \<open>Every record is occupied and counts exactly the connections bound to it.\<close>

definition table_inv :: "RpcPoisonWorkload list \<Rightarrow> WorkloadTable \<Rightarrow> bool" where
  "table_inv conns table \<longleftrightarrow> length table = POISON_MANAGED_WORKLOAD_MAX_RECORDS \<and>
     (\<forall>c \<in> set conns. \<forall>index. rw_managed c = Some index \<longrightarrow> index < length table \<and> table ! index \<noteq> None) \<and>
     (\<forall>index m. index < length table \<and> table ! index = Some m \<longrightarrow>
        mw_occupied m \<and> unat (mw_attachments m) = attached conns index)"

lemma table_update_same:
  assumes "table_inv conns table" "index < length table" "table ! index = Some m" "same_place m m'"
  shows "table_inv conns (table[index := Some m'])"
  using assms by (auto simp: table_inv_def nth_list_update same_place_def)

lemma attached_rebind:
  assumes "c < length conns" "rw_managed r = Some i"
  shows "attached (conns[c := r]) i = (if rw_managed (conns ! c) = Some i then attached conns i else Suc (attached conns i))"
    "j \<noteq> i \<Longrightarrow> attached (conns[c := r]) j = (if rw_managed (conns ! c) = Some j then attached conns j - 1 else attached conns j)"
proof -
  have split: "conns = take c conns @ conns ! c # drop (Suc c) conns" "conns[c := r] = take c conns @ r # drop (Suc c) conns"
    using assms(1) by (simp_all add: id_take_nth_drop upd_conv_take_nth_drop)
  have old: "attached conns k = attached (take c conns) k + (if rw_managed (conns ! c) = Some k then 1 else 0) +
      attached (drop (Suc c) conns) k" for k
    by (subst split(1)) (simp add: attached_def)
  have new: "attached (conns[c := r]) k = attached (take c conns) k + (if rw_managed r = Some k then 1 else 0) +
      attached (drop (Suc c) conns) k" for k
    by (subst split(2)) (simp add: attached_def)
  show "attached (conns[c := r]) i = (if rw_managed (conns ! c) = Some i then attached conns i else Suc (attached conns i))"
    "j \<noteq> i \<Longrightarrow> attached (conns[c := r]) j = (if rw_managed (conns ! c) = Some j then attached conns j - 1 else attached conns j)"
    using old new assms(2) by auto
qed

lemma attached_unbind:
  assumes "c < length conns" "rw_managed r = None"
  shows "attached (conns[c := r]) j = (if rw_managed (conns ! c) = Some j then attached conns j - 1 else attached conns j)"
proof -
  have split: "conns = take c conns @ conns ! c # drop (Suc c) conns" "conns[c := r] = take c conns @ r # drop (Suc c) conns"
    using assms(1) by (simp_all add: id_take_nth_drop upd_conv_take_nth_drop)
  have "attached conns j = attached (take c conns) j + (if rw_managed (conns ! c) = Some j then 1 else 0) +
      attached (drop (Suc c) conns) j"
    by (subst split(1)) (simp add: attached_def)
  moreover have "attached (conns[c := r]) j = attached (take c conns) j + attached (drop (Suc c) conns) j"
    by (subst split(2)) (simp add: attached_def assms(2))
  ultimately show ?thesis by simp
qed

lemma attached_positive: "c < length conns \<Longrightarrow> rw_managed (conns ! c) = Some i \<Longrightarrow> attached conns i > 0"
  by (auto simp: attached_def filter_empty_conv dest: nth_mem)

lemma attached_same: "c < length conns \<Longrightarrow> rw_managed r = rw_managed (conns ! c) \<Longrightarrow> attached (conns[c := r]) j = attached conns j"
  by (cases "rw_managed r") (simp_all add: attached_rebind attached_unbind, metis attached_rebind option.inject)

text \<open>What an attachment does to the table.\<close>

lemma attach_cases:
  assumes "poison_managed_workload_attach actor (Some i) create table = (table', selected)"
  obtains (none) "selected = None" "table' = table"
  | (found) index m where "selected = Some index" "index < length table" "table ! index = Some m"
      "poison_managed_workload_matches (Some m) actor i" "mw_attachments m < - 1"
      "table' = table[index := Some (m \<lparr> mw_attachments := mw_attachments m + 1 \<rparr>)]"
  | (created) index where "selected = Some index" "index < length table" "managed_replaceable (table ! index)"
      "create" "workload_bounded_id (Some i)"
      "table' = table[index := Some ((managed_fresh actor i) \<lparr> mw_attachments := 1 \<rparr>)]"
proof (cases "workload_bounded_id (Some i)")
  case False
  then show ?thesis using assms that(1) by (simp add: poison_managed_workload_attach_def)
next
  case valid: True
  show ?thesis
  proof (cases "find_index (\<lambda>c. poison_managed_workload_matches c actor i) table")
    case (Some index)
    from find_index_SomeD [OF Some] obtain m where m: "index < length table" "table ! index = Some m"
      "poison_managed_workload_matches (Some m) actor i"
      by (cases "table ! index") (auto simp: poison_managed_workload_matches_def)
    show ?thesis
    proof (cases "mw_attachments m < - 1")
      case True
      show ?thesis
        by (rule that(2) [OF _ m]) (use assms valid Some m True in \<open>simp_all add: poison_managed_workload_attach_def\<close>)
    next
      case False
      then show ?thesis using that(1) assms valid Some m by (simp add: poison_managed_workload_attach_def)
    qed
  next
    case missing: None
    show ?thesis
    proof (cases "if create then find_index managed_replaceable table else None")
      case None
      then show ?thesis
        using that(1) assms valid missing by (simp add: poison_managed_workload_attach_def)
    next
      case (Some index)
      then have index: "create" "index < length table" "managed_replaceable (table ! index)"
        using find_index_SomeD [of managed_replaceable table index] by (auto split: if_splits)
      have "(0 :: u16) < - 1" by (simp add: word_gt_0)
      then show ?thesis
        by (intro that(3) [of index])
          (use assms valid missing Some index in \<open>simp_all add: poison_managed_workload_attach_def managed_fresh_def zero_managed_def\<close>)
    qed
  qed
qed

definition table_counts :: "(nat \<Rightarrow> nat) \<Rightarrow> WorkloadTable \<Rightarrow> bool" where
  "table_counts counts table \<longleftrightarrow> (\<forall>index < length table. case table ! index of
     None \<Rightarrow> counts index = 0 | Some m \<Rightarrow> mw_occupied m \<and> unat (mw_attachments m) = counts index)"

text \<open>Records that may not be replaced keep their work.\<close>

definition work_kept :: "WorkloadTable \<Rightarrow> WorkloadTable \<Rightarrow> bool" where
  "work_kept table table' \<longleftrightarrow> length table' = length table \<and>
     (\<forall>index m. index < length table \<and> table ! index = Some m \<and> \<not> managed_replaceable (Some m) \<longrightarrow>
        (\<exists>m'. table' ! index = Some m' \<and> same_work m m')) \<and>
     (\<forall>index m'. index < length table \<and> table' ! index = Some m' \<longrightarrow>
        pw_state (mw_workload m') = PoisonWorkloadQueued \<or> (\<exists>m. table ! index = Some m \<and> same_work m m'))"

lemma same_work_state: "same_work m m' \<Longrightarrow> pw_state (mw_workload m') = pw_state (mw_workload m)"
  by (simp add: same_work_def)

lemma work_kept_refl [simp]: "work_kept table table"
  by (auto simp: work_kept_def)

lemma work_kept_update:
  assumes "work_kept table table'" "index < length table'" "table' ! index = Some m" "same_work m m'"
  shows "work_kept table (table'[index := Some m'])"
proof -
  note kept = assms(1) [unfolded work_kept_def]
  have forward: "\<exists>m'. table'[index := Some n] ! i = Some m' \<and> same_work m0 m'"
    if "i < length table" "table ! i = Some m0" "\<not> managed_replaceable (Some m0)" "n = m'" for i m0 n
  proof (cases "i = index")
    case True
    then have "\<exists>m'. table' ! index = Some m' \<and> same_work m0 m'" using kept that(1-3) by blast
    then have "same_work m0 m" using assms(3) by simp
    then show ?thesis using True assms(2,4) that(4) same_work_trans [of m0 m m'] by auto
  next
    case False
    then show ?thesis using kept that(1-3) by auto
  qed
  have backward: "pw_state (mw_workload n) = PoisonWorkloadQueued \<or> (\<exists>m0. table ! i = Some m0 \<and> same_work m0 n)"
    if "i < length table" "table'[index := Some m'] ! i = Some n" for i n
  proof (cases "i = index")
    case True
    then have n: "n = m'" using that(2) assms(2) by simp
    have "pw_state (mw_workload m) = PoisonWorkloadQueued \<or> (\<exists>m0. table ! i = Some m0 \<and> same_work m0 m)"
      using kept that(1) assms(3) True by blast
    then show ?thesis using same_work_state [OF assms(4)] same_work_trans [OF _ assms(4)] n by auto
  next
    case False
    then show ?thesis using kept that by auto
  qed
  show ?thesis unfolding work_kept_def using kept forward backward by simp
qed

lemma counts_update:
  assumes "table_counts counts table" "mw_occupied m" "unat (mw_attachments m) = n"
  shows "table_counts (counts(index := n)) (table[index := Some m])"
  unfolding table_counts_def
proof (intro allI impI)
  fix k
  assume "k < length (table[index := Some m])"
  then have "k < length table" by simp
  then have "case table ! k of None \<Rightarrow> counts k = 0 | Some m \<Rightarrow> mw_occupied m \<and> unat (mw_attachments m) = counts k"
    using assms(1) unfolding table_counts_def by blast
  then show "case table[index := Some m] ! k of None \<Rightarrow> (counts(index := n)) k = 0
      | Some m \<Rightarrow> mw_occupied m \<and> unat (mw_attachments m) = (counts(index := n)) k"
    using assms(2,3) \<open>k < length table\<close> by (cases "k = index") (auto split: option.split)
qed

lemma bounded_id_take: "workload_bounded_id (Some i) \<Longrightarrow> take (POISON_WORKLOAD_MAX_ID - 1) i = i"
  by (simp add: workload_bounded_id_def split: if_splits)

lemma attach_counts:
  assumes "table_counts counts table" "poison_managed_workload_attach actor (Some i) create table = (table', Some index)"
  shows "table_counts (counts(index := Suc (counts index))) table' \<and> index < length table \<and> work_kept table table' \<and>
    (\<exists>m. table' ! index = Some m \<and> poison_managed_workload_matches (Some m) actor i) \<and>
    ((table ! index \<noteq> None \<and> poison_managed_workload_matches (table ! index) actor i) \<or> counts index = 0)"
  using assms(2)
proof (cases rule: attach_cases)
  case none
  then show ?thesis by simp
next
  case (found k m)
  have m: "mw_occupied m" "unat (mw_attachments m) = counts k"
    using assms(1) found(2,3) by (auto simp: table_counts_def dest: spec [of _ k])
  have "unat (mw_attachments m + 1) = Suc (counts k)"
    using found(5) m(2) by (subst unat_Suc_eq) auto
  then have "table_counts (counts(k := Suc (counts k))) table'"
    unfolding found(6) by (intro counts_update [OF assms(1)]) (use m in simp_all)
  moreover have "work_kept table table'"
    unfolding found(6) by (rule work_kept_update [of _ _ _ m]) (use found(2,3) in simp_all)
  ultimately show ?thesis
    using found by (auto simp: poison_managed_workload_matches_def)
next
  case (created k)
  have zero: "counts k = 0"
    using assms(1) created(2,3) by (auto simp: table_counts_def managed_replaceable_def split: option.splits dest: spec [of _ k])
  let ?m = "(managed_fresh actor i) \<lparr> mw_attachments := 1 \<rparr>"
  have "table_counts (counts(k := Suc (counts k))) table'"
    unfolding created(6) by (intro counts_update [OF assms(1)]) (simp_all add: zero managed_fresh_def)
  moreover have "work_kept table table'"
    unfolding created(6) work_kept_def using created(2,3)
    by (auto simp: nth_list_update managed_fresh_def zero_workload_def)
  moreover have "poison_managed_workload_matches (Some ?m) actor i"
    using bounded_id_take [OF created(5)] by (simp add: poison_managed_workload_matches_def managed_fresh_def zero_managed_def)
  ultimately show ?thesis
    using created zero by auto
qed

lemma detach_counts:
  assumes "table_counts counts table" "old < length table" "table ! old = Some m" "counts old > 0"
  shows "\<exists>table'. poison_managed_workload_detach (Some old) table = Some table' \<and>
    table_counts (counts(old := counts old - 1)) table' \<and> length table' = length table \<and>
    (\<forall>index. index \<noteq> old \<longrightarrow> table' ! index = table ! index) \<and>
    table' = table[old := Some (m \<lparr> mw_attachments := mw_attachments m - 1 \<rparr>)]"
proof -
  have m: "mw_occupied m" "unat (mw_attachments m) = counts old"
    using assms(1-3) by (auto simp: table_counts_def dest: spec [of _ old])
  then have nz: "mw_attachments m \<noteq> 0" using assms(4) by auto
  then have "unat (mw_attachments m - 1) = counts old - 1"
    using m(2) by (simp add: unat_minus_one)
  then show ?thesis
    using counts_update [OF assms(1), of "m \<lparr> mw_attachments := mw_attachments m - 1 \<rparr>" "counts old - 1" old] m(1) nz assms(2,3)
    by (simp add: poison_managed_workload_detach_def)
qed

lemma table_inv_counts:
  "table_inv conns table \<longleftrightarrow> length table = POISON_MANAGED_WORKLOAD_MAX_RECORDS \<and>
     (\<forall>c \<in> set conns. \<forall>index. rw_managed c = Some index \<longrightarrow> index < length table) \<and>
     table_counts (attached conns) table"
proof
  assume inv: "table_inv conns table"
  have "attached conns i = 0" if "i < length table" "table ! i = None" for i
    using inv that by (auto simp: table_inv_def attached_def filter_empty_conv)
  then show "length table = POISON_MANAGED_WORKLOAD_MAX_RECORDS \<and>
     (\<forall>c \<in> set conns. \<forall>index. rw_managed c = Some index \<longrightarrow> index < length table) \<and>
     table_counts (attached conns) table"
    using inv by (auto simp: table_inv_def table_counts_def split: option.split)
next
  assume r: "length table = POISON_MANAGED_WORKLOAD_MAX_RECORDS \<and>
     (\<forall>c \<in> set conns. \<forall>index. rw_managed c = Some index \<longrightarrow> index < length table) \<and>
     table_counts (attached conns) table"
  have "table ! index \<noteq> None" if "c \<in> set conns" "rw_managed c = Some index" for c index
  proof
    assume "table ! index = None"
    moreover have "index < length table" using r that by blast
    ultimately have "attached conns index = 0" using r by (auto simp: table_counts_def dest: spec [of _ index])
    then show False using that by (auto simp: attached_def filter_empty_conv)
  qed
  then show "table_inv conns table"
    using r by (auto simp: table_inv_def table_counts_def split: option.splits)
qed

lemma bind_table:
  assumes inv: "table_inv conns table" and c: "c < length conns" "conns ! c = rpc"
  shows "\<exists>rpc' table' ok. rpc_poison_workload_bind actor i create rpc table = Some (rpc', table', ok) \<and>
    table_inv (conns[c := rpc']) table' \<and> work_kept table table' \<and>
    (ok \<longrightarrow> (\<exists>index m. rw_managed rpc' = Some index \<and> index < length table' \<and> table' ! index = Some m \<and>
       poison_managed_workload_matches (Some m) actor i))"
proof -
  have counts: "table_counts (attached conns) table" and len: "length table = POISON_MANAGED_WORKLOAD_MAX_RECORDS"
    using inv by (simp_all add: table_inv_counts)
  have bound_ok: "\<And>index. rw_managed rpc = Some index \<Longrightarrow> index < length table \<and> table ! index \<noteq> None"
    using inv c nth_mem [OF c(1)] unfolding table_inv_def by metis
  have same: "conns[c := rpc] = conns" using c by auto
  show ?thesis
  proof (cases "poison_managed_workload_matches (bound rpc table) actor i")
    case True
    then obtain index m where m: "rw_managed rpc = Some index" "table ! index = Some m"
      by (auto simp: poison_managed_workload_matches_def split: option.splits)
    have "rpc_poison_workload_bind actor i create rpc table = Some (rpc, table, True)"
      using True by (simp only: rpc_poison_workload_bind_def if_True)
    then show ?thesis
      using True inv same m bound_ok [OF m(1)]
      by (intro exI [of _ rpc] exI [of _ table] exI [of _ True]) simp
  next
    case other: False
    show ?thesis
    proof (cases "case bound rpc table of None \<Rightarrow> False | Some m \<Rightarrow> \<not> terminal_state (pw_state (mw_workload m))")
      case True
      have "rpc_poison_workload_bind actor i create rpc table = Some (rpc, table, False)"
        using True other by (simp only: rpc_poison_workload_bind_def if_True if_False)
      then show ?thesis
        using inv same by (intro exI [of _ rpc] exI [of _ table] exI [of _ False]) simp
    next
      case free: False
      obtain table1 selected where attach:
        "poison_managed_workload_attach actor (Some i) create table = (table1, selected)" by fastforce
      show ?thesis
      proof (cases selected)
        case None
        then have "table1 = table" using attach by (auto elim: attach_cases)
        then have "rpc_poison_workload_bind actor i create rpc table = Some (rpc, table, False)"
          using other free None attach by (simp only: rpc_poison_workload_bind_def if_False) simp
        then show ?thesis
          using inv same by (intro exI [of _ rpc] exI [of _ table] exI [of _ False]) simp
      next
        case (Some index)
        note a = attach_counts [OF counts attach [unfolded Some]]
        let ?rpc = "rpc \<lparr> rw_managed := Some index, rw_active_command_id := 0 \<rparr>"
        have len1: "length table1 = length table" using a by (simp add: work_kept_def)
        have other_index: "rw_managed rpc \<noteq> Some index"
          using a other attached_positive [OF c(1), of index] c(2) by auto
        have range: "\<forall>x \<in> set (conns[c := ?rpc]). \<forall>k. rw_managed x = Some k \<longrightarrow> k < length table"
          using inv a by (auto simp: table_inv_counts dest!: set_update_subset_insert [THEN subsetD])
        show ?thesis
        proof (cases "rw_managed rpc")
          case None
          have "attached (conns[c := ?rpc]) = (attached conns)(index := Suc (attached conns index))"
            by (rule ext) (use None c attached_rebind [of c conns ?rpc index] in auto)
          then have "table_inv (conns[c := ?rpc]) table1"
            using a len len1 range by (simp add: table_inv_counts)
          moreover have "rpc_poison_workload_bind actor i create rpc table = Some (?rpc, table1, True)"
            using other free attach Some None
            by (simp only: rpc_poison_workload_bind_def if_False) (simp add: poison_managed_workload_detach_def)
          ultimately show ?thesis
            using a len1 by (intro exI [of _ ?rpc] exI [of _ table1] exI [of _ True]) auto
        next
          case old: (Some k)
          then have k: "k < length table" "table ! k \<noteq> None" "k \<noteq> index" using bound_ok other_index by auto
          then obtain m0 where m0: "table1 ! k = Some m0"
            using a attach [unfolded Some] by (cases rule: attach_cases [OF attach [unfolded Some]]) auto
          define counts1 where "counts1 = (attached conns)(index := Suc (attached conns index))"
          have pos: "counts1 k > 0"
            using attached_positive [OF c(1), of k] old c(2) k(3) by (simp add: counts1_def)
          have "k < length table1" using k len1 by simp
          then obtain table2 where d: "poison_managed_workload_detach (Some k) table1 = Some table2"
            "table_counts (counts1(k := counts1 k - 1)) table2"
            "length table2 = length table1" "\<forall>j. j \<noteq> k \<longrightarrow> table2 ! j = table1 ! j"
            "table2 = table1[k := Some (m0 \<lparr> mw_attachments := mw_attachments m0 - 1 \<rparr>)]"
            using detach_counts [of counts1 table1 k m0] m0 pos a unfolding counts1_def by blast
          have "attached (conns[c := ?rpc]) = counts1(k := counts1 k - 1)"
            by (rule ext) (use old c k attached_rebind [of c conns ?rpc index] in \<open>auto simp: counts1_def\<close>)
          then have "table_inv (conns[c := ?rpc]) table2"
            using d len len1 range by (simp add: table_inv_counts)
          moreover have "work_kept table table2"
            unfolding d(5) using a k len1 m0 by (intro work_kept_update [of _ _ _ m0]) simp_all
          moreover have "table2 ! index = table1 ! index" using d(4) k(3) by auto
          moreover have "rpc_poison_workload_bind actor i create rpc table = Some (?rpc, table2, True)"
            using other free attach Some old d(1)
            by (simp only: rpc_poison_workload_bind_def if_False) simp
          ultimately show ?thesis
            using a len1 d(3) by (intro exI [of _ ?rpc] exI [of _ table2] exI [of _ True]) auto
        qed
      qed
    qed
  qed
qed

section \<open>A request\<close>

text \<open>Two tables that differ only in what was told to the diagnostics.\<close>

definition same_but_told :: "WorkloadTable \<Rightarrow> WorkloadTable \<Rightarrow> bool" where
  "same_but_told table table' \<longleftrightarrow> length table' = length table \<and>
     (\<forall>index < length table. case table ! index of None \<Rightarrow> table' ! index = None
        | Some m \<Rightarrow> \<exists>m'. table' ! index = Some m' \<and> same_place m m' \<and> same_work m m')"

lemma same_but_told_refl [simp]: "same_but_told table table"
  by (auto simp: same_but_told_def split: option.split)

lemma same_but_told_entry:
  assumes "same_but_told table table'" "index < length table"
  shows "table ! index = Some m \<Longrightarrow> \<exists>m'. table' ! index = Some m' \<and> same_place m m' \<and> same_work m m'"
    "table' ! index = Some m' \<Longrightarrow> \<exists>m. table ! index = Some m \<and> same_place m m' \<and> same_work m m'"
  using assms by (auto simp: same_but_told_def split: option.splits dest!: spec [of _ index])

lemma told_counts: "table_counts counts table \<Longrightarrow> same_but_told table table' \<Longrightarrow> table_counts counts table'"
  by (fastforce simp: table_counts_def same_but_told_def same_place_def split: option.splits)

lemma told_inv: "table_inv conns table \<Longrightarrow> same_but_told table table' \<Longrightarrow> table_inv conns table'"
  using told_counts by (auto simp: table_inv_counts same_but_told_def)



lemma told_kept:
  assumes "work_kept a b" "same_but_told b c"
  shows "work_kept a c"
proof -
  note kept = assms(1) [unfolded work_kept_def]
  have len: "length c = length b" using assms(2) by (simp add: same_but_told_def)
  have forward: "\<exists>m'. c ! i = Some m' \<and> same_work m m'"
    if i: "i < length a" "a ! i = Some m" "\<not> managed_replaceable (Some m)" for i m
  proof -
    obtain m1 where "b ! i = Some m1" "same_work m m1" using kept i by blast
    moreover have "i < length b" using kept i(1) by simp
    ultimately obtain m' where "c ! i = Some m'" "same_work m1 m'"
      using same_but_told_entry(1) [OF assms(2), of i m1] by auto
    then show ?thesis using same_work_trans [OF \<open>same_work m m1\<close>] by simp
  qed
  have backward: "pw_state (mw_workload m') = PoisonWorkloadQueued \<or> (\<exists>m. a ! i = Some m \<and> same_work m m')"
    if i: "i < length a" "c ! i = Some m'" for i m'
  proof -
    obtain m1 where m1: "b ! i = Some m1" "same_work m1 m'"
      using same_but_told_entry(2) [OF assms(2), of i m'] i kept by auto
    then have "pw_state (mw_workload m1) = PoisonWorkloadQueued \<or> (\<exists>m. a ! i = Some m \<and> same_work m m1)"
      using kept i(1) by blast
    then show ?thesis using same_work_state [OF m1(2)] same_work_trans [OF _ m1(2)] by auto
  qed
  show ?thesis unfolding work_kept_def using kept len forward backward by simp
qed

lemma conclude_effect:
  assumes "workload_conclude request action message ok rpc world = (rpc', world', outs)"
    and "\<And>index. rw_managed rpc = Some index \<Longrightarrow> index < length (ww_table world) \<and> ww_table world ! index \<noteq> None"
  shows "rw_managed rpc' = rw_managed rpc \<and> ww_evidence world' = ww_evidence world \<and>
    same_but_told (ww_table world) (ww_table world')"
proof (cases "rw_managed rpc")
  case None
  then show ?thesis using assms(1) by (auto simp: workload_conclude_def Let_def)
next
  case (Some index)
  then obtain m where m: "index < length (ww_table world)" "ww_table world ! index = Some m" using assms(2) by auto
  have w: "rw_managed rpc' = rw_managed rpc" "ww_evidence world' = ww_evidence world"
    "ww_table world' = (ww_table world)[index := Some (fst (rpc_poison_workload_record_terminal m))]"
    using assms(1) Some m(2)
    by (simp_all add: workload_conclude_def Let_def case_prod_beta) (auto split: if_splits)
  have "same_but_told (ww_table world) (ww_table world')"
    unfolding w(3) using m
    by (auto simp: same_but_told_def nth_list_update split: option.split)
  then show ?thesis using w by simp
qed

lemma attached_cong: "map rw_managed conns = map rw_managed conns' \<Longrightarrow> attached conns = attached conns'"
proof (rule ext)
  fix i
  assume "map rw_managed conns = map rw_managed conns'"
  then have "length (filter (\<lambda>x. x = Some i) (map rw_managed conns)) = length (filter (\<lambda>x. x = Some i) (map rw_managed conns'))"
    by simp
  then show "attached conns i = attached conns' i"
    by (simp add: attached_def filter_map o_def)
qed

lemma table_inv_cong: "map rw_managed conns = map rw_managed conns' \<Longrightarrow> table_inv conns table = table_inv conns' table"
proof -
  assume eq: "map rw_managed conns = map rw_managed conns'"
  have all: "(\<forall>c \<in> set cs. \<forall>i. rw_managed c = Some i \<longrightarrow> i < n)
      = (\<forall>x \<in> set (map rw_managed cs). \<forall>i. x = Some i \<longrightarrow> i < n)" for cs :: "RpcPoisonWorkload list" and n
    by simp
  show ?thesis
    unfolding table_inv_counts attached_cong [OF eq] all eq by (rule refl)
qed

text \<open>What one request does: nothing but binding its connection, or one operation on a record of the client
  and of the id of the request.\<close>

definition operated :: "(bytes \<Rightarrow> bytes option) \<Rightarrow> WorkloadIo \<Rightarrow> WorkloadSession \<Rightarrow> WorkloadRequest \<Rightarrow>
    PoisonManagedWorkload \<Rightarrow> PoisonManagedWorkload \<Rightarrow> bool" where
  "operated sha256 io session request m m' \<longleftrightarrow>
     (\<exists>role capabilities actor command_id e active.
        wx_secure_dispatch session \<and> wx_identity session = Some (role, capabilities, actor) \<and>
        rpc_poison_workload_request_is_valid request role \<and>
        poison_workload_authorize (rpc_poison_workload_authorization capabilities)
          (rpc_poison_workload_operation (wq_operation request)) \<and>
        poison_managed_workload_matches (Some m) actor (wq_workload_id request) \<and>
        m' = fst (workload_operate sha256 io request role capabilities command_id m e active))"

lemma process_effect:
  assumes inv: "table_inv conns (ww_table world)" and c: "c < length conns" "conns ! c = rpc"
  shows "\<exists>rpc' world' outs table1.
    rpc_poison_workload_process sha256 io session has_next command_id request rpc world = Some (rpc', world', outs) \<and>
    table_inv (conns[c := rpc']) (ww_table world') \<and> work_kept (ww_table world) table1 \<and>
    (same_but_told table1 (ww_table world') \<or>
     (\<exists>index m m'. index < length table1 \<and> table1 ! index = Some m \<and> operated sha256 io session request m m' \<and>
        same_but_told (table1[index := Some m']) (ww_table world')))"
proof -
  have valid: "\<And>index. rw_managed x = Some index \<Longrightarrow> index < length t \<and> t ! index \<noteq> None"
    if "table_inv (conns[c := x]) t" for x t
  proof -
    fix index
    assume "rw_managed x = Some index"
    then show "index < length t \<and> t ! index \<noteq> None"
      using that c(1) set_update_memI [of c conns x] unfolding table_inv_def by blast
  qed
  have refused: "\<exists>rpc' world' outs. workload_conclude request a s ok x w = (rpc', world', outs) \<and>
      table_inv (conns[c := rpc']) (ww_table world') \<and> same_but_told (ww_table w) (ww_table world')"
    if "table_inv (conns[c := x]) (ww_table w)" for a s ok x w
  proof -
    obtain rpc' world' outs where concl: "workload_conclude request a s ok x w = (rpc', world', outs)"
      by (metis prod_cases3)
    note eff = conclude_effect [OF concl valid [OF that]]
    have "map rw_managed (conns[c := rpc']) = map rw_managed (conns[c := x])"
      using eff by (simp add: map_update)
    then have "table_inv (conns[c := rpc']) (ww_table world')"
      using told_inv [OF that] eff table_inv_cong by blast
    then show ?thesis using concl eff by blast
  qed
  have self: "conns[c := rpc] = conns" using c by auto
  show ?thesis
  proof (cases "has_next \<or> \<not> wx_secure_dispatch session")
    case True
    then have "rpc_poison_workload_process sha256 io session has_next command_id request rpc world
        = Some (rpc, world, [InvalidParameters])"
      by (simp add: rpc_poison_workload_process_def)
    then show ?thesis using inv self by (metis same_but_told_refl work_kept_refl)
  next
    case secure: False
    show ?thesis
    proof (cases "\<exists>role capabilities actor. wx_identity session = Some (role, capabilities, actor) \<and>
        rpc_poison_workload_request_is_valid request role \<and>
        poison_workload_authorize (rpc_poison_workload_authorization capabilities)
          (rpc_poison_workload_operation (wq_operation request))")
      case False
      then have "rpc_poison_workload_process sha256 io session has_next command_id request rpc world
          = Some (workload_conclude request ''workload.inspect'' ''rejected'' False rpc world)"
        using secure by (auto simp: rpc_poison_workload_process_def Let_def split: option.split)
      then show ?thesis
        using refused [of rpc world "''workload.inspect''" "''rejected''" False] inv self by (metis work_kept_refl)
    next
      case True
      then obtain role capabilities actor where id: "wx_identity session = Some (role, capabilities, actor)"
        and ok: "rpc_poison_workload_request_is_valid request role"
          "poison_workload_authorize (rpc_poison_workload_authorization capabilities)
             (rpc_poison_workload_operation (wq_operation request))"
        by blast
      let ?create = "rpc_poison_workload_operation (wq_operation request) = PoisonWorkloadOperationCreate"
      obtain rpc1 table1 bound_ok where bind: "rpc_poison_workload_bind actor (wq_workload_id request) ?create rpc (ww_table world)
          = Some (rpc1, table1, bound_ok)"
        and inv1: "table_inv (conns[c := rpc1]) table1" and kept: "work_kept (ww_table world) table1"
        and matched: "bound_ok \<longrightarrow> (\<exists>index m. rw_managed rpc1 = Some index \<and> index < length table1 \<and>
          table1 ! index = Some m \<and> poison_managed_workload_matches (Some m) actor (wq_workload_id request))"
        using bind_table [OF inv c] by blast
      show ?thesis
      proof (cases bound_ok)
        case False
        then have "rpc_poison_workload_process sha256 io session has_next command_id request rpc world
            = Some (workload_conclude request ''workload.inspect'' ''rejected'' False rpc1 (world \<lparr> ww_table := table1 \<rparr>))"
          using secure id ok bind by (simp add: rpc_poison_workload_process_def Let_def)
        moreover obtain rpc' world' outs where "workload_conclude request ''workload.inspect'' ''rejected'' False rpc1
            (world \<lparr> ww_table := table1 \<rparr>) = (rpc', world', outs)"
          "table_inv (conns[c := rpc']) (ww_table world')" "same_but_told table1 (ww_table world')"
          using refused [of rpc1 "world \<lparr> ww_table := table1 \<rparr>" "''workload.inspect''" "''rejected''" False] inv1
          by auto
        ultimately show ?thesis
          using kept by (intro exI [of _ rpc'] exI [of _ world'] exI [of _ outs] exI [of _ table1]) simp
      next
        case True
        then obtain index m where m: "rw_managed rpc1 = Some index" "index < length table1" "table1 ! index = Some m"
          "poison_managed_workload_matches (Some m) actor (wq_workload_id request)"
          using matched by blast
        obtain m' evidence active out action done_ok where op: "workload_operate sha256 io request role capabilities
            command_id m (ww_evidence world) (rw_active_command_id rpc1) = (m', evidence, active, out, action, done_ok)"
          by (metis prod_cases6)
        have place: "same_place m m'" using operate_same [of m] op by (metis fst_conv)
        let ?rpc = "rpc1 \<lparr> rw_active_command_id := active \<rparr>"
        let ?world = "\<lparr> ww_table = table1[index := Some m'], ww_evidence = evidence \<rparr>"
        have same: "map rw_managed (conns[c := ?rpc]) = map rw_managed (conns[c := rpc1])" by (simp add: map_update)
        have inv2: "table_inv (conns[c := ?rpc]) (ww_table ?world)"
          unfolding table_inv_cong [OF same] using table_update_same [OF inv1 m(2,3) place] by simp
        define message where "message = (if done_ok then ''accepted''
           else if rpc_poison_workload_operation (wq_operation request) = PoisonWorkloadOperationRun \<and>
                   mw_runtime m' = PoisonManagedRuntimeWasm
           then ''measured Wasm runtime unavailable'' else ''rejected'')"
        obtain rpc' world' outs where concl: "workload_conclude request action message done_ok ?rpc ?world = (rpc', world', outs)"
          and inv3: "table_inv (conns[c := rpc']) (ww_table world')" and told: "same_but_told (ww_table ?world) (ww_table world')"
          using refused [OF inv2, of action message done_ok] by blast
        have "rpc_poison_workload_process sha256 io session has_next command_id request rpc world = Some (rpc', world', out @ outs)"
          using secure id ok bind True m op concl
          by (simp add: rpc_poison_workload_process_def Let_def message_def)
        moreover have "operated sha256 io session request m m'"
          unfolding operated_def using secure id ok m(4) op by (metis fst_conv)
        ultimately show ?thesis
          using inv3 kept told m(2,3)
          by (intro exI [of _ rpc'] exI [of _ world'] exI [of _ "out @ outs"] exI [of _ table1]) auto
      qed
    qed
  qed
qed


section \<open>What may start a workload\<close>

abbreviation running :: "PoisonManagedWorkload \<Rightarrow> bool" where
  "running m \<equiv> pw_state (mw_workload m) = PoisonWorkloadRunning"

lemma event_starts_nothing:
  "pw_state w \<noteq> PoisonWorkloadRunning \<Longrightarrow> pw_state (poison_workload_js_event event w) \<noteq> PoisonWorkloadRunning"
  using state_for_reason_terminal
  by (auto simp: poison_workload_js_event_def poison_workload_append_console_def poison_workload_force_terminate_def
      poison_workload_finish_def Let_def case_prod_beta split: option.splits)

lemma events_start_nothing:
  "pw_state w \<noteq> PoisonWorkloadRunning \<Longrightarrow> pw_state (fold poison_workload_js_event events w) \<noteq> PoisonWorkloadRunning"
  by (induction events arbitrary: w) (simp_all add: event_starts_nothing)

lemma terminate_starts_nothing:
  "pw_state w \<noteq> PoisonWorkloadRunning \<Longrightarrow>
     pw_state (fst (poison_workload_force_terminate reason w)) \<noteq> PoisonWorkloadRunning"
  using state_for_reason_terminal [of reason] by (auto simp: poison_workload_force_terminate_def)

lemma cancel_starts_nothing:
  assumes "\<not> running m"
  shows "\<not> running (fst (rpc_poison_workload_cancel_active io m))"
proof -
  have no: "fst (poison_workload_request_cancel (mw_workload m)) = mw_workload m"
    "\<not> snd (poison_workload_request_cancel (mw_workload m))"
    using assms by (simp_all add: poison_workload_request_cancel_def)
  show ?thesis
    using assms no terminate_starts_nothing [OF assms]
    by (simp add: rpc_poison_workload_cancel_active_def poison_workload_js_cancel_def poison_workload_native_cancel_def
        Let_def case_prod_beta)
qed

lemma terminal_starts_nothing [simp]: "running (fst (rpc_poison_workload_record_terminal m)) = running m"
  using same_work_state [OF terminal_same_work [of m]] by simp

lemma cleanup_starts_nothing: "\<not> running m \<Longrightarrow> \<not> running (rpc_poison_workload_cleanup_adapter io m)"
  by (simp add: rpc_poison_workload_cleanup_adapter_def poison_workload_js_cleanup_def poison_workload_native_cleanup_def
      js_events_def events_start_nothing)

lemma create_starts_nothing:
  assumes "\<not> running m"
  shows "\<not> running (fst (rpc_poison_workload_create io request role effective m))"
  using assms
  by (auto simp: rpc_poison_workload_create_def Let_def case_prod_beta zero_workload_def poison_workload_init_def
      split: option.splits if_splits)

lemma artifact_begin_starts_nothing:
  "pw_state w \<noteq> PoisonWorkloadRunning \<Longrightarrow>
     pw_state (fst (poison_workload_artifact_begin i p w)) \<noteq> PoisonWorkloadRunning"
  by (simp add: poison_workload_artifact_begin_def)

lemma finalize_starts_nothing:
  "\<not> running m \<Longrightarrow> \<not> running (fst (rpc_poison_workload_finalize_artifact sha256 io request role m e))"
  by (simp add: rpc_poison_workload_finalize_artifact_def)

lemma js_events_runtime [simp]: "mw_runtime (js_events events m) = mw_runtime m"
  by (simp add: js_events_def)

lemma cancel_runtime [simp]: "mw_runtime (fst (rpc_poison_workload_cancel_active io m)) = mw_runtime m"
  by (simp add: rpc_poison_workload_cancel_active_def poison_workload_js_cancel_def poison_workload_native_cancel_def
      Let_def case_prod_beta)

lemma record_start_runtime [simp]: "mw_runtime (fst (rpc_poison_workload_record_start m)) = mw_runtime m"
  by (simp add: rpc_poison_workload_record_start_def)

lemma start_runtime [simp]:
  "mw_runtime (fst (poison_workload_js_start_managed b m)) = mw_runtime m"
  "mw_runtime (fst (poison_workload_native_start b p m)) = mw_runtime m"
  by (simp_all add: poison_workload_js_start_managed_def poison_workload_native_start_def Let_def case_prod_beta)

lemma run_runtime: "mw_runtime (fst (rpc_poison_workload_run io request capabilities command_id active m)) = mw_runtime m"
  by (simp add: rpc_poison_workload_run_def Let_def case_prod_beta)

lemma run_starts:
  assumes "\<not> running m" "running (fst (rpc_poison_workload_run io request capabilities command_id active m))"
  shows "mw_runtime m = PoisonManagedRuntimeJavaScript \<or>
    mw_runtime m = PoisonManagedRuntimeNative \<and> capabilities AND POISON_CAPABILITY_NATIVE \<noteq> 0"
  using assms by (auto simp: rpc_poison_workload_run_def split: if_splits)

lemma operate_starts:
  assumes "\<not> running m" "running (fst (workload_operate sha256 io request role capabilities command_id m e active))"
  shows "rpc_poison_workload_operation (wq_operation request) = PoisonWorkloadOperationRun \<and>
    (let runtime = mw_runtime (fst (workload_operate sha256 io request role capabilities command_id m e active)) in
     runtime = PoisonManagedRuntimeJavaScript \<or>
     runtime = PoisonManagedRuntimeNative \<and> capabilities AND POISON_CAPABILITY_NATIVE \<noteq> 0)"
  using assms create_starts_nothing [OF assms(1)] cancel_starts_nothing [OF assms(1)]
    finalize_starts_nothing [OF assms(1)] run_starts [OF assms(1)] run_runtime
  by (cases "rpc_poison_workload_operation (wq_operation request)")
    (auto simp: workload_operate_def Let_def case_prod_beta split: if_splits)


section \<open>The service\<close>

text \<open>A fixed number of connections, each of which may end and be opened again, and the scripts that deliver
  events to the record they run in.\<close>

datatype ServiceOp =
    ServiceRequest nat WorkloadIo WorkloadSession bool u32 WorkloadRequest
  | ServiceDisconnect nat WorkloadIo
  | ServiceScript nat "(JsThreadEvent \<times> string option) list"

type_synonym ServiceState = "RpcPoisonWorkload list \<times> WorkloadWorld"

abbreviation "new_connection \<equiv> \<lparr> rw_managed = None, rw_active_command_id = 0 \<rparr>"

fun service_step :: "(bytes \<Rightarrow> bytes option) \<Rightarrow> ServiceOp \<Rightarrow> ServiceState \<Rightarrow> (ServiceState \<times> WorkloadOutput list) option" where
  "service_step sha256 (ServiceRequest c io session has_next command_id request) (conns, world) =
     (if c < length conns
      then map_option (\<lambda>(rpc', world', outs). ((conns[c := rpc'], world'), outs))
             (rpc_poison_workload_process sha256 io session has_next command_id request (conns ! c) world)
      else Some ((conns, world), []))"
| "service_step sha256 (ServiceDisconnect c io) (conns, world) =
     (if c < length conns
      then map_option (\<lambda>(table', outs). ((conns[c := new_connection], world \<lparr> ww_table := table' \<rparr>), outs))
             (rpc_system_poison_workload_free io (conns ! c) (ww_table world))
      else Some ((conns, world), []))"
| "service_step sha256 (ServiceScript index events) (conns, world) =
     (if index < length (ww_table world)
      then Some ((conns, world \<lparr> ww_table := (ww_table world)[index :=
             map_option (js_events events) (ww_table world ! index)] \<rparr>), [])
      else Some ((conns, world), []))"

primrec service_run :: "(bytes \<Rightarrow> bytes option) \<Rightarrow> ServiceOp list \<Rightarrow> ServiceState \<Rightarrow> ServiceState option" where
  "service_run sha256 [] state = Some state"
| "service_run sha256 (op # ops) state =
     (case service_step sha256 op state of None \<Rightarrow> None | Some (state', outs) \<Rightarrow> service_run sha256 ops state')"

definition workload_service_start :: "nat \<Rightarrow> EvidenceService \<Rightarrow> ServiceState" where
  "workload_service_start n evidence = (replicate n new_connection,
     \<lparr> ww_table = replicate POISON_MANAGED_WORKLOAD_MAX_RECORDS None, ww_evidence = evidence \<rparr>)"

definition service_inv :: "ServiceState \<Rightarrow> bool" where
  "service_inv state \<longleftrightarrow> table_inv (fst state) (ww_table (snd state))"

lemma start_inv: "service_inv (workload_service_start n evidence)"
  by (auto simp: service_inv_def workload_service_start_def table_inv_def less_Suc_eq numeral_2_eq_2)

lemma table_inv_bound:
  assumes "table_inv conns table" "c < length conns" "rw_managed (conns ! c) = Some index"
  obtains m where "index < length table" "table ! index = Some m" "attached conns index > 0"
  using assms attached_positive [OF assms(2,3)] nth_mem [OF assms(2)] unfolding table_inv_def by blast

lemma free_table:
  assumes inv: "table_inv conns table" and c: "c < length conns"
  shows "\<exists>table' outs. rpc_system_poison_workload_free io (conns ! c) table = Some (table', outs) \<and>
    table_inv (conns[c := new_connection]) table'"
proof -
  have range: "rw_managed x = Some k \<Longrightarrow> k < length table" if "x \<in> set (conns[c := new_connection])" for x k
    using inv that by (auto simp: table_inv_counts dest!: set_update_subset_insert [THEN subsetD])
  have len: "length table = POISON_MANAGED_WORKLOAD_MAX_RECORDS" using inv by (simp add: table_inv_def)
  show ?thesis
  proof (cases "rw_managed (conns ! c)")
    case None
    have "attached (conns[c := new_connection]) = attached conns"
      by (rule ext) (simp add: attached_unbind [OF c] None)
    then show ?thesis
      using inv range None by (simp add: rpc_system_poison_workload_free_def table_inv_counts)
  next
    case (Some index)
    obtain m where m: "index < length table" "table ! index = Some m" "attached conns index > 0"
      by (rule table_inv_bound [OF inv c Some])
    define w where "w = (if terminal_state (pw_state (mw_workload m)) then mw_workload m
      else fst (poison_workload_force_terminate PoisonWorkloadTerminalDisconnect (mw_workload m)))"
    define told where "told = rpc_poison_workload_record_terminal (m \<lparr> mw_workload := w \<rparr>)"
    define m2 where "m2 = rpc_poison_workload_cleanup_adapter io (fst told)"
    have "same_place m m2" by (simp add: m2_def told_def)
    then have "table_inv conns (table[index := Some m2])"
      by (rule table_update_same [OF inv m(1,2)])
    then have counts: "table_counts (attached conns) (table[index := Some m2])" by (simp add: table_inv_counts)
    obtain table' where d: "poison_managed_workload_detach (Some index) (table[index := Some m2]) = Some table'"
      "table_counts ((attached conns)(index := attached conns index - 1)) table'" "length table' = length table"
      using detach_counts [OF counts, of index m2] m by auto
    have "attached (conns[c := new_connection]) = (attached conns)(index := attached conns index - 1)"
      by (rule ext) (use attached_unbind [OF c, of new_connection] Some in auto)
    then have "table_inv (conns[c := new_connection]) table'"
      using d len range by (auto simp: table_inv_counts)
    moreover have "rpc_system_poison_workload_free io (conns ! c) table = Some (table', snd told @
        (if rw_active_command_id (conns ! c) \<noteq> 0 then [CompleteCancellable (rw_active_command_id (conns ! c))] else []))"
      using Some m d(1)
      by (simp add: rpc_system_poison_workload_free_def Let_def case_prod_beta w_def told_def m2_def del: terminal_state_iff)
    ultimately show ?thesis by blast
  qed
qed

lemma service_step_inv:
  assumes "service_inv (conns, world)"
  shows "\<exists>state outs. service_step sha256 op (conns, world) = Some (state, outs) \<and> service_inv state"
proof (cases op)
  case (ServiceRequest c io session has_next command_id request)
  show ?thesis
  proof (cases "c < length conns")
    case True
    obtain rpc' world' outs where
      "rpc_poison_workload_process sha256 io session has_next command_id request (conns ! c) world = Some (rpc', world', outs)"
      "table_inv (conns[c := rpc']) (ww_table world')"
      using process_effect [OF assms [unfolded service_inv_def, simplified] True refl, of sha256 io session has_next
          command_id request] by blast
    then show ?thesis using ServiceRequest True by (simp add: service_inv_def)
  qed (use assms ServiceRequest in simp)
next
  case (ServiceDisconnect c io)
  show ?thesis
  proof (cases "c < length conns")
    case True
    then show ?thesis
      using free_table [OF assms [unfolded service_inv_def, simplified] True, of io] ServiceDisconnect
      by (auto simp: service_inv_def)
  qed (use assms ServiceDisconnect in simp)
next
  case (ServiceScript index events)
  show ?thesis
  proof (cases "index < length (ww_table world) \<and> ww_table world ! index \<noteq> None")
    case True
    then obtain m where m: "index < length (ww_table world)" "ww_table world ! index = Some m" by blast
    have "table_inv conns ((ww_table world)[index := Some (js_events events m)])"
      by (rule table_update_same [OF _ m]) (use assms in \<open>simp_all add: service_inv_def\<close>)
    then show ?thesis using ServiceScript m by (simp add: service_inv_def)
  next
    case False
    then have "(ww_table world)[index := map_option (js_events events) (ww_table world ! index)] = ww_table world"
      by (cases "index < length (ww_table world)") (auto simp: list_update_same_conv list_update_beyond not_less)
    then show ?thesis using assms ServiceScript by (simp add: service_inv_def)
  qed
qed

lemma service_run_inv:
  "service_inv state \<Longrightarrow> \<exists>state'. service_run sha256 ops state = Some state' \<and> service_inv state'"
proof (induction ops arbitrary: state)
  case (Cons op ops)
  obtain conns world where st: "state = (conns, world)" by fastforce
  obtain state1 outs where "service_step sha256 op state = Some (state1, outs)" "service_inv state1"
    using service_step_inv [OF Cons.prems [unfolded st], of sha256 op] unfolding st by blast
  then show ?case using Cons.IH by simp
qed simp

text \<open>C32: however many clients connect, disconnect and send requests in whatever order, whatever their scripts
  print and however the storage and the threads behave, the workload service never stops the device: the check
  that a record being let go is held always passes, and every record counts exactly the connections bound to
  it.\<close>

theorem workload_service_never_stops:
  "\<exists>conns world. service_run sha256 ops (workload_service_start n evidence) = Some (conns, world) \<and>
     length (ww_table world) = POISON_MANAGED_WORKLOAD_MAX_RECORDS \<and>
     (\<forall>index m. index < length (ww_table world) \<and> ww_table world ! index = Some m \<longrightarrow>
        mw_occupied m \<and> unat (mw_attachments m) = attached conns index)"
proof -
  obtain conns world where "service_run sha256 ops (workload_service_start n evidence) = Some (conns, world)"
    "service_inv (conns, world)"
    using service_run_inv [OF start_inv, of sha256 ops n evidence] by (metis prod.collapse)
  then show ?thesis unfolding service_inv_def table_inv_def by auto
qed


text \<open>What a request did to a record that is there afterwards.\<close>

lemma request_records:
  assumes "service_inv (conns, world)"
    and "service_step sha256 (ServiceRequest c io session has_next command_id request) (conns, world)
      = Some ((conns', world'), outs)"
  obtains (bound) table1 where "work_kept (ww_table world) table1" "same_but_told table1 (ww_table world')"
  | (used) table1 index m m' where "work_kept (ww_table world) table1" "index < length table1" "table1 ! index = Some m"
      "operated sha256 io session request m m'" "same_but_told (table1[index := Some m']) (ww_table world')"
proof (cases "c < length conns")
  case True
  obtain rpc' world1 outs1 table1 where p:
    "rpc_poison_workload_process sha256 io session has_next command_id request (conns ! c) world = Some (rpc', world1, outs1)"
    "work_kept (ww_table world) table1"
    "same_but_told table1 (ww_table world1) \<or>
     (\<exists>index m m'. index < length table1 \<and> table1 ! index = Some m \<and> operated sha256 io session request m m' \<and>
        same_but_told (table1[index := Some m']) (ww_table world1))"
    using process_effect [OF assms(1) [unfolded service_inv_def, simplified] True refl, of sha256 io session has_next
        command_id request] by blast
  have "world1 = world'" using p(1) assms(2) True by simp
  then show ?thesis using p(2,3) that by blast
next
  case False
  then show ?thesis using assms(2) that(1) [of "ww_table world"] by simp
qed

lemma operated_session:
  assumes "operated sha256 io session request m m'"
  obtains role capabilities where "wx_identity session = Some (role, capabilities, mw_actor_digest m)"
    "poison_workload_authorize (rpc_poison_workload_authorization capabilities)
       (rpc_poison_workload_operation (wq_operation request))" "mw_actor_digest m' = mw_actor_digest m"
    "\<not> running m \<Longrightarrow> running m' \<Longrightarrow> rpc_poison_workload_operation (wq_operation request) = PoisonWorkloadOperationRun \<and>
       (mw_runtime m' = PoisonManagedRuntimeJavaScript \<or>
        mw_runtime m' = PoisonManagedRuntimeNative \<and> capabilities AND POISON_CAPABILITY_NATIVE \<noteq> 0)"
proof -
  obtain role capabilities actor command_id e active where o:
    "wx_identity session = Some (role, capabilities, actor)"
    "poison_workload_authorize (rpc_poison_workload_authorization capabilities)
       (rpc_poison_workload_operation (wq_operation request))"
    "poison_managed_workload_matches (Some m) actor (wq_workload_id request)"
    "m' = fst (workload_operate sha256 io request role capabilities command_id m e active)"
    using assms unfolding operated_def by blast
  have own: "actor = mw_actor_digest m" using o(3) by (simp add: poison_managed_workload_matches_def)
  have same: "mw_actor_digest m' = mw_actor_digest m"
    using operate_same [of m sha256 io request role capabilities command_id e active] o(4) by (simp add: same_place_def)
  have starts: "rpc_poison_workload_operation (wq_operation request) = PoisonWorkloadOperationRun \<and>
       (mw_runtime m' = PoisonManagedRuntimeJavaScript \<or>
        mw_runtime m' = PoisonManagedRuntimeNative \<and> capabilities AND POISON_CAPABILITY_NATIVE \<noteq> 0)"
    if "\<not> running m" "running m'"
    using operate_starts [OF that(1) that(2) [unfolded o(4)]] unfolding o(4) Let_def .
  show ?thesis by (rule that [OF o(1) [unfolded own] o(2) same starts])
qed

text \<open>C33: a request of a client touches workloads of that client only: a workload of another client that is not
  free for replacement (it has a connection, or was created and has not ended) keeps its state, console, artifacts, limits,
  script and runtime unchanged.\<close>

theorem request_touches_own_workloads_only:
  assumes "service_run sha256 ops (workload_service_start n evidence) = Some (conns, world)"
    and "service_step sha256 (ServiceRequest c io session has_next command_id request) (conns, world)
      = Some ((conns', world'), outs)"
    and "index < length (ww_table world)" "ww_table world ! index = Some m" "\<not> managed_replaceable (Some m)"
    and "\<forall>role capabilities. wx_identity session \<noteq> Some (role, capabilities, mw_actor_digest m)"
  shows "\<exists>m'. ww_table world' ! index = Some m' \<and> same_work m m'"
proof -
  have inv: "service_inv (conns, world)"
    using service_run_inv [OF start_inv, of sha256 ops n evidence] assms(1) by simp
  from inv assms(2) show ?thesis
  proof (cases rule: request_records)
    case (bound table1)
    then show ?thesis using told_kept [OF bound] assms(3-5) unfolding work_kept_def by blast
  next
    case (used table1 k m1 m2)
    obtain m' where m': "table1 ! index = Some m'" "same_work m m'"
      using used(1) assms(3-5) unfolding work_kept_def by blast
    have "mw_actor_digest m' = mw_actor_digest m" using m'(2) by (simp add: same_work_def)
    moreover have "mw_actor_digest m1 \<noteq> mw_actor_digest m"
      using used(4) by (rule operated_session) (use assms(6) in simp)
    ultimately have "k \<noteq> index" using used(3) m'(1) by auto
    then have "(table1[k := Some m2]) ! index = Some m'" using m'(1) by simp
    moreover have "index < length (table1[k := Some m2])" using used(1) assms(3) by (simp add: work_kept_def)
    ultimately obtain m'' where "ww_table world' ! index = Some m''" "same_work m' m''"
      using same_but_told_entry(1) [OF used(5)] by blast
    then show ?thesis using same_work_trans [OF m'(2)] by blast
  qed
qed



text \<open>A client with the native capability creates an application and starts it; another client looks on.\<close>

definition sample_create :: WorkloadRequest where
  "sample_create = \<lparr> wq_operation = WORKLOAD_OPERATION_CREATE, wq_workload_id = ''w1'',
     wq_runtime = PoisonManagedRuntimeNative, wq_project_digest = replicate 64 CHR ''a'',
     wq_capabilities_digest = replicate 64 CHR ''b'', wq_entrypoint = ''/apps/a.fap'',
     wq_limits = Some \<lparr> li_heap_bytes = 1024, li_source_bytes = 1024, li_modules = 1, li_parser_depth = 1,
       li_stack_depth = 1, li_fuel = 1, li_callbacks = 0, li_timers = 0, li_open_handles = 0, li_logs = 1,
       li_artifacts = 0, li_wall_ms = 1, li_artifact_bytes = 0 \<rparr>,
     wq_from_sequence = 0, wq_evidence_requested = False, wq_artifact_id = '''', wq_artifact_path = '''',
     wq_artifact_size = 0, wq_artifact_sha256 = '''', wq_evidence_id = '''', wq_case_id = '''', wq_capability_mask = 0 \<rparr>"

definition sample_run :: WorkloadRequest where
  "sample_run = sample_create \<lparr> wq_operation := WORKLOAD_OPERATION_RUN, wq_runtime := PoisonManagedRuntimeUnspecified,
     wq_project_digest := '''', wq_capabilities_digest := '''', wq_entrypoint := '''', wq_limits := None \<rparr>"

definition sample_io :: WorkloadIo where
  "sample_io = \<lparr> wk_verified = True, wk_thread_started = True, wk_launched = True, wk_registered = True,
     wk_signalled = True, wk_late_events = [], wk_case_exists = False, wk_artifact = sample_artifact_io,
     wk_previous_audit = zeros 32 \<rparr>"

definition sample_session :: "u8 \<Rightarrow> WorkloadSession" where
  "sample_session actor = \<lparr> wx_secure_dispatch = True, wx_identity = Some (PoisonRoleOwner,
     POISON_CAPABILITY_STATUS OR POISON_CAPABILITY_CONTROL OR POISON_CAPABILITY_NATIVE, replicate 32 actor) \<rparr>"

definition sample_created :: "PoisonManagedWorkload" where
  "sample_created = (managed_fresh (replicate 32 1) ''w1'') \<lparr> mw_attachments := 1,
     mw_workload := zero_workload \<lparr> pw_workload_id := ''w1'', pw_project_digest := replicate 64 CHR ''a'',
       pw_capabilities_digest := replicate 64 CHR ''b'',
       pw_limits := rpc_poison_workload_limits (the (wq_limits sample_create)), pw_next_console_sequence := 1 \<rparr>,
     mw_runtime := PoisonManagedRuntimeNative, mw_entrypoint := ''/ext/apps/a.fap'' \<rparr>"

definition sample_started :: "PoisonManagedWorkload" where
  "sample_started = sample_created \<lparr> mw_workload := (mw_workload sample_created) \<lparr> pw_state := PoisonWorkloadRunning \<rparr>,
     mw_native := \<lparr> na_workload = True, na_running = True \<rparr> \<rparr>"

lemma sample_entrypoint: "normal_form (Some ''/apps/a.fap'') = Some ''/apps/a.fap''"
  by code_simp

lemma sample_resolves: "rpc_poison_workload_resolve_entrypoint sample_create PoisonRoleOwner =
    Some \<lparr> rp_vfs_namespace = PoisonVfsNamespaceApps, rp_read_only = False,
      rp_logical_path = ''/apps/a.fap'', rp_backing_path = ''/ext/apps/a.fap'' \<rparr>"
  by (simp add: rpc_poison_workload_resolve_entrypoint_def resolved_for_reading_def poison_vfs_resolve_path_def
      normalize_path_computes sample_entrypoint poison_vfs_find_namespace_def namespace_info_def namespace_row_def
      poison_vfs_role_can_write_def rpc_poison_workload_suffix_def sample_create_def Let_def)

lemma sample_requests_valid:
  "rpc_poison_workload_request_is_valid sample_create PoisonRoleOwner"
  "rpc_poison_workload_request_is_valid sample_run PoisonRoleOwner"
  using sample_resolves
  by (simp_all add: rpc_poison_workload_request_is_valid_def rpc_poison_workload_limits_valid_def
      rpc_poison_workload_digest_valid_def rpc_poison_workload_artifact_fields_empty_def sample_run_def
      hex_digit_char_def of_char_def list_all_iff strnlen_def sample_create_def)

lemma sample_authorized:
  "poison_workload_authorize (rpc_poison_workload_authorization
     (POISON_CAPABILITY_STATUS OR POISON_CAPABILITY_CONTROL OR POISON_CAPABILITY_NATIVE)) operation"
  by (cases operation) (simp_all add: poison_workload_authorize_def rpc_poison_workload_authorization_def)


definition sample_connections :: "RpcPoisonWorkload list" where
  "sample_connections = [\<lparr> rw_managed = Some 0, rw_active_command_id = 0 \<rparr>, new_connection]"

lemma sample_created_step:
  "service_step sha256 (ServiceRequest 0 sample_io (sample_session 1) False 1 sample_create) (workload_service_start 2 e) =
     Some ((sample_connections, \<lparr> ww_table = [Some sample_created, None], ww_evidence = e \<rparr>),
       [WorkloadAudit ''workload.create'' True, WorkloadStatus (Some sample_created) True ''accepted''])"
proof -
  let ?fresh = "(managed_fresh (replicate 32 1) ''w1'') \<lparr> mw_attachments := 1 \<rparr>"
  have positive: "(0 :: u16) < - 1" by (simp add: word_gt_0)
  have bind: "rpc_poison_workload_bind (replicate 32 1) ''w1'' True new_connection [None, None]
      = Some (\<lparr> rw_managed = Some 0, rw_active_command_id = 0 \<rparr>, [Some ?fresh, None], True)"
    by (simp add: positive Let_def rpc_poison_workload_bind_def poison_managed_workload_matches_def poison_managed_workload_attach_def
        workload_bounded_id_def workload_id_char_def of_char_def managed_replaceable_def managed_fresh_def zero_managed_def
        poison_managed_workload_detach_def)
  have create: "rpc_poison_workload_create sample_io sample_create PoisonRoleOwner 0 ?fresh = (sample_created, [], True, True)"
    using sample_resolves
    by (simp add: rpc_poison_workload_create_def poison_workload_init_def sample_created_def sample_create_def
        workload_bounded_id_def workload_bounded_digest_def workload_id_char_def hex_digit_char_def of_char_def
        list_all_iff managed_fresh_def zero_managed_def zero_workload_def rpc_poison_workload_limits_def Let_def)
  have fields: "wq_workload_id sample_create = ''w1''" "wq_operation sample_create = WORKLOAD_OPERATION_CREATE"
    "wq_runtime sample_create = PoisonManagedRuntimeNative" by (simp_all add: sample_create_def)
  have record_fields: "mw_occupied sample_created" "pw_workload_id (mw_workload sample_created) = ''w1''"
    "pw_state (mw_workload sample_created) = PoisonWorkloadQueued"
    by (simp_all add: sample_created_def managed_fresh_def zero_workload_def)
  show ?thesis
    using sample_requests_valid sample_authorized bind create
    by (simp add: fields record_fields workload_service_start_def sample_connections_def rpc_poison_workload_process_def sample_session_def
        workload_operate_def workload_conclude_def rpc_poison_workload_record_terminal_def numeral_2_eq_2 Let_def
        case_prod_beta)
qed


lemma sample_started_step:
  "service_step sha256 (ServiceRequest 0 sample_io (sample_session 1) False 1 sample_run)
      (sample_connections, \<lparr> ww_table = [Some sample_created, None], ww_evidence = e \<rparr>) =
     Some (([\<lparr> rw_managed = Some 0, rw_active_command_id = 1 \<rparr>, new_connection],
        \<lparr> ww_table = [Some sample_started, None], ww_evidence = e \<rparr>),
       [WorkloadAudit ''workload.run'' True, WorkloadStatus (Some sample_started) True ''accepted''])"
proof -
  have fields: "wq_workload_id sample_run = ''w1''" "wq_operation sample_run = WORKLOAD_OPERATION_RUN"
    "\<not> wq_evidence_requested sample_run" by (simp_all add: sample_run_def sample_create_def)
  have record_fields: "mw_occupied sample_created" "pw_workload_id (mw_workload sample_created) = ''w1''"
    "pw_state (mw_workload sample_created) = PoisonWorkloadQueued" "mw_actor_digest sample_created = replicate 32 1"
    "mw_runtime sample_created = PoisonManagedRuntimeNative" "mw_entrypoint sample_created = ''/ext/apps/a.fap''"
    "\<not> na_running (mw_native sample_created)" "mw_evidence_requested sample_created = False"
    by (simp_all add: sample_created_def managed_fresh_def zero_workload_def zero_managed_def)
  have started_fields: "mw_occupied sample_started" "pw_workload_id (mw_workload sample_started) = ''w1''"
    "pw_state (mw_workload sample_started) = PoisonWorkloadRunning" "mw_runtime sample_started = PoisonManagedRuntimeNative"
    using record_fields by (simp_all add: sample_started_def)
  have bind: "rpc_poison_workload_bind (replicate 32 1) ''w1'' False \<lparr> rw_managed = Some 0, rw_active_command_id = 0 \<rparr>
      [Some sample_created, None] = Some (\<lparr> rw_managed = Some 0, rw_active_command_id = 0 \<rparr>, [Some sample_created, None], True)"
    by (simp add: rpc_poison_workload_bind_def poison_managed_workload_matches_def record_fields)
  have same: "sample_started \<lparr> mw_evidence_requested := False \<rparr> = sample_started"
    by (simp add: sample_started_def sample_created_def managed_fresh_def zero_managed_def)
  have path: "poison_workload_native_path_valid (Some ''/ext/apps/a.fap'')"
    by (simp add: poison_workload_native_path_valid_def strnlen_def)
  have start: "poison_workload_native_start True (Some ''/ext/apps/a.fap'') sample_created = (sample_started, True)"
    using path record_fields
    by (simp add: poison_workload_native_start_def poison_workload_start_def sample_started_def)
  have run: "rpc_poison_workload_run sample_io sample_run
      (POISON_CAPABILITY_STATUS OR POISON_CAPABILITY_CONTROL OR POISON_CAPABILITY_NATIVE) 1 0 sample_created =
      (sample_started, [], 1, True)"
    using start same
    by (simp add: rpc_poison_workload_run_def rpc_poison_workload_record_start_def fields record_fields started_fields
        sample_io_def Let_def)
  show ?thesis
    using sample_requests_valid sample_authorized bind run
    by (simp add: fields started_fields sample_connections_def rpc_poison_workload_process_def
        sample_session_def workload_operate_def workload_conclude_def rpc_poison_workload_record_terminal_def Let_def
        case_prod_beta)
qed


lemma sample_created_run:
  "service_run sha256 [ServiceRequest 0 sample_io (sample_session 1) False 1 sample_create] (workload_service_start 2 e) =
     Some (sample_connections, \<lparr> ww_table = [Some sample_created, None], ww_evidence = e \<rparr>)"
  by (simp add: sample_created_step)


lemma workload_service_never_stops_witness:
  "mw_occupied sample_created \<and> unat (mw_attachments sample_created) = attached sample_connections 0"
proof -
  obtain conns world where run: "service_run (\<lambda>_. None) [ServiceRequest 0 sample_io (sample_session 1) False 1 sample_create]
      (workload_service_start 2 sample_service) = Some (conns, world)"
    and records: "\<forall>index m. index < length (ww_table world) \<and> ww_table world ! index = Some m \<longrightarrow>
      mw_occupied m \<and> unat (mw_attachments m) = attached conns index"
    using workload_service_never_stops [of "\<lambda>_. None" "[ServiceRequest 0 sample_io (sample_session 1) False 1 sample_create]"
        2 sample_service] by blast
  have "conns = sample_connections" "ww_table world = [Some sample_created, None]"
    using run unfolding sample_created_run by auto
  then show ?thesis using records [rule_format, of 0 sample_created] by simp
qed

lemma sample_other_step:
  "service_step sha256 (ServiceRequest 1 sample_io (sample_session 2) False 1 sample_run)
      (sample_connections, \<lparr> ww_table = [Some sample_created, None], ww_evidence = e \<rparr>) =
     Some ((sample_connections, \<lparr> ww_table = [Some sample_created, None], ww_evidence = e \<rparr>),
       [WorkloadAudit ''workload.inspect'' False, WorkloadStatus None False ''rejected''])"
proof -
  have fields: "wq_workload_id sample_run = ''w1''" "wq_operation sample_run = WORKLOAD_OPERATION_RUN"
    by (simp_all add: sample_run_def sample_create_def)
  have "mw_actor_digest sample_created ! 0 = 1"
    by (simp add: sample_created_def managed_fresh_def)
  then have other: "mw_actor_digest sample_created \<noteq> replicate 32 2" by auto
  have bind: "rpc_poison_workload_bind (replicate 32 2) ''w1'' False new_connection [Some sample_created, None]
      = Some (new_connection, [Some sample_created, None], False)"
    using other
    by (simp add: rpc_poison_workload_bind_def poison_managed_workload_matches_def poison_managed_workload_attach_def
        Let_def)
  show ?thesis
    using sample_requests_valid sample_authorized bind
    by (simp add: fields sample_connections_def rpc_poison_workload_process_def sample_session_def
        workload_conclude_def Let_def case_prod_beta)
qed

lemma request_touches_own_workloads_only_witness:
  "\<exists>m'. [Some sample_created, None] ! 0 = Some m' \<and> same_work sample_created m'"
proof -
  have m: "\<not> managed_replaceable (Some sample_created)" "mw_actor_digest sample_created = replicate 32 1"
    by (simp_all add: managed_replaceable_def sample_created_def managed_fresh_def)
  have "(replicate 32 1 :: bytes) ! 0 \<noteq> replicate 32 2 ! 0" by simp
  then have "(replicate 32 1 :: bytes) \<noteq> replicate 32 2" by metis
  then show ?thesis
    using request_touches_own_workloads_only [OF sample_created_run [of "\<lambda>_. None" sample_service]
        sample_other_step, of 0 sample_created] m
    by (simp add: sample_session_def)
qed

section \<open>What the code leaves open\<close>

text \<open>A workload that was created and never started survives its connection: the disconnection does not end it,
  and as long as it is in the table its record cannot be used by another client.\<close>

lemma queued_workload_blocks_record:
  assumes "rw_managed rpc = Some index" "index < length table" "table ! index = Some m"
    "pw_state (mw_workload m) = PoisonWorkloadQueued" "pw_project_digest (mw_workload m) \<noteq> ''''" "mw_occupied m"
    "mw_runtime m = PoisonManagedRuntimeWasm"
    "rpc_system_poison_workload_free io rpc table = Some (table', outs)"
  shows "\<exists>m'. table' ! index = Some m' \<and> mw_workload m' = mw_workload m \<and> \<not> managed_replaceable (Some m')"
  using assms
  by (auto simp: rpc_system_poison_workload_free_def poison_workload_force_terminate_def
      rpc_poison_workload_record_terminal_def rpc_poison_workload_cleanup_adapter_def poison_managed_workload_detach_def
      managed_replaceable_def poison_managed_workload_terminal_def Let_def split: if_splits)

text \<open>The capabilities of a script are among those requested and those the session allows; the keyboard emulation
  is never allowed.\<close>

lemma script_capabilities_within_session:
  "rpc_poison_workload_effective_js_capabilities session requested AND NOT requested = 0"
  "rpc_poison_workload_effective_js_capabilities session requested AND JsCapabilityBadUsb = 0"
  "session AND POISON_CAPABILITY_FILES = 0 \<Longrightarrow>
     rpc_poison_workload_effective_js_capabilities session requested AND JsCapabilityStorage = 0"
  "session AND POISON_CAPABILITY_EVIDENCE = 0 \<Longrightarrow>
     rpc_poison_workload_effective_js_capabilities session requested AND JsCapabilityEvidence = 0"
  "session AND POISON_CAPABILITY_RADIO = 0 \<Longrightarrow>
     rpc_poison_workload_effective_js_capabilities session requested AND (JsCapabilitySerial OR JsCapabilityGpio) = 0"
proof -
  have "(requested AND (x AND y)) AND NOT requested = 0" "((requested AND x) AND y) AND NOT requested = 0" for x y
    by (rule bit_word_eqI, simp add: bit_simps)+
  then show "rpc_poison_workload_effective_js_capabilities session requested AND NOT requested = 0"
    by (simp only: rpc_poison_workload_effective_js_capabilities_def Let_def)
qed (simp_all add: rpc_poison_workload_effective_js_capabilities_def POISON_JS_CAPABILITY_KNOWN_MASK_def Let_def
      and.assoc)

end
