(* ===== verification/AppBridge.thy ===== *)
theory AppBridge
  imports ContentUpdate
begin

text \<open>The bridge between the running application and its clients (\<open>poison_app/poison_app.c\<close>): one run with
  its numbered events, one endpoint for commands and one subscriber for events.  The callbacks are named by
  their context; what a callback does is an argument.\<close>

section \<open>Runs, events and commands\<close>

abbreviation "POISON_APP_MAX_TEXT \<equiv> (128 :: nat)"
abbreviation "POISON_APP_MAX_MESSAGE \<equiv> (1025 :: nat)"
abbreviation "POISON_APP_PROTOCOL_VERSION \<equiv> (1 :: u32)"

datatype PoisonAppEventKind =
    PoisonAppEventLog | PoisonAppEventProgress | PoisonAppEventForm | PoisonAppEventTable
  | PoisonAppEventArtifact | PoisonAppEventResult | PoisonAppEventOther

record PoisonAppRun =
  ar_app_id :: string
  ar_run_id :: string
  ar_next_sequence :: u64
  ar_active :: bool
  ar_cancelled :: bool

record PoisonAppEvent =
  ev_app_id :: string
  ev_run_id :: string
  ev_event_id :: string
  ev_sequence :: u64
  ev_kind :: PoisonAppEventKind
  ev_message :: string
  ev_level :: "string option"
  ev_percent :: u32
  ev_label :: "string option"
  ev_schema_json :: "string option"
  ev_rows_json :: "string option"
  ev_artifact_name :: "string option"
  ev_artifact_path :: "string option"
  ev_artifact_sha256 :: "string option"
  ev_artifact_size :: u64
  ev_success :: bool

record PoisonAppCommand =
  ac_protocol_version :: u32
  ac_app_id :: "string option"
  ac_run_id :: "string option"
  ac_command_id :: "string option"
  ac_payload_json :: "string option"
  ac_cancel :: bool

record PoisonAppService =
  as_run :: PoisonAppRun
  as_command :: "nat option"
  as_event :: "nat option"

definition zero_run :: PoisonAppRun where
  "zero_run = \<lparr> ar_app_id = '''', ar_run_id = '''', ar_next_sequence = 0, ar_active = False, ar_cancelled = False \<rparr>"

definition poison_app_on_system_start :: PoisonAppService where
  "poison_app_on_system_start = \<lparr> as_run = zero_run, as_command = None, as_event = None \<rparr>"

definition app_bounded_text :: "string option \<Rightarrow> nat \<Rightarrow> bool" where
  "app_bounded_text value capacity =
    (case value of None \<Rightarrow> False | Some v \<Rightarrow> v \<noteq> '''' \<and> strnlen v capacity < capacity)"

definition poison_app_digest_is_valid :: "string option \<Rightarrow> bool" where
  "poison_app_digest_is_valid value =
    (case value of None \<Rightarrow> False | Some v \<Rightarrow> length v = 64 \<and> list_all lower_hex v)"

definition poison_app_artifact_path_is_valid :: "string option \<Rightarrow> bool" where
  "poison_app_artifact_path_is_valid value \<longleftrightarrow>
     app_bounded_text value 257 \<and>
     (let v = the value in take 5 v = ''/ext/'' \<and> \<not> strstr v ''//'' \<and> \<not> strstr v ''/../'' \<and>
        drop (length v - 3) v \<noteq> ''/..'')"

definition poison_app_run_start :: "string option \<Rightarrow> string option \<Rightarrow> PoisonAppRun \<Rightarrow> PoisonAppRun \<times> bool" where
  "poison_app_run_start app_id run_id run =
    (if ar_active run \<or> \<not> app_bounded_text app_id POISON_APP_MAX_TEXT \<or>
        \<not> app_bounded_text run_id POISON_APP_MAX_TEXT
     then (run, False)
     else (zero_run \<lparr> ar_app_id := the app_id, ar_run_id := the run_id, ar_active := True \<rparr>, True))"

definition poison_app_accept_event :: "PoisonAppEvent \<Rightarrow> PoisonAppRun \<Rightarrow> PoisonAppRun \<times> bool" where
  "poison_app_accept_event event run =
    (if \<not> ar_active run \<or> ar_cancelled run \<or> ar_app_id run \<noteq> ev_app_id event \<or> ar_run_id run \<noteq> ev_run_id event \<or>
        ev_sequence event \<noteq> ar_next_sequence run \<or> ev_kind event = PoisonAppEventOther
     then (run, False)
     else (run \<lparr> ar_next_sequence := ar_next_sequence run + 1 \<rparr>, True))"

definition poison_app_cancel :: "PoisonAppRun \<Rightarrow> PoisonAppRun \<times> bool" where
  "poison_app_cancel run =
    (if \<not> ar_active run \<or> ar_cancelled run then (run, False)
     else (run \<lparr> ar_cancelled := True, ar_active := False \<rparr>, True))"

definition poison_app_event_is_typed :: "PoisonAppEvent \<Rightarrow> bool" where
  "poison_app_event_is_typed event =
    (if ev_kind event = PoisonAppEventOther \<or> \<not> app_bounded_text (Some (ev_event_id event)) POISON_APP_MAX_TEXT
     then False
     else case ev_kind event of
       PoisonAppEventLog \<Rightarrow> app_bounded_text (ev_level event) 17 \<and>
         app_bounded_text (Some (ev_message event)) POISON_APP_MAX_MESSAGE
     | PoisonAppEventProgress \<Rightarrow> ev_percent event \<le> 100 \<and> app_bounded_text (ev_label event) 129
     | PoisonAppEventForm \<Rightarrow> app_bounded_text (ev_schema_json event) 4097
     | PoisonAppEventTable \<Rightarrow> app_bounded_text (ev_schema_json event) 4097 \<and> app_bounded_text (ev_rows_json event) 8193
     | PoisonAppEventArtifact \<Rightarrow> app_bounded_text (ev_artifact_name event) 129 \<and>
         poison_app_artifact_path_is_valid (ev_artifact_path event) \<and>
         poison_app_digest_is_valid (ev_artifact_sha256 event)
     | PoisonAppEventResult \<Rightarrow> app_bounded_text (Some (ev_message event)) POISON_APP_MAX_MESSAGE
     | PoisonAppEventOther \<Rightarrow> False)"

section \<open>The endpoint and the subscriber\<close>

definition poison_app_endpoint_register :: "string option \<Rightarrow> string option \<Rightarrow> nat \<Rightarrow> PoisonAppService \<Rightarrow>
    PoisonAppService \<times> bool" where
  "poison_app_endpoint_register app_id run_id ctxt service =
    (if ar_active (as_run service) then (service, False)
     else let (run, registered) = poison_app_run_start app_id run_id (as_run service) in
       if registered then (service \<lparr> as_run := run, as_command := Some ctxt \<rparr>, True) else (service, False))"

definition poison_app_endpoint_unregister :: "nat \<Rightarrow> PoisonAppService \<Rightarrow> PoisonAppService" where
  "poison_app_endpoint_unregister ctxt service =
    (if as_command service = Some ctxt then service \<lparr> as_run := zero_run, as_command := None \<rparr> else service)"

text \<open>A command is dispatched in three parts, because the lock is given up while the callback runs: the check
  which gives the callback to call, the callback, and the cancellation of the run.\<close>

definition poison_app_dispatch_check :: "PoisonAppCommand \<Rightarrow> PoisonAppService \<Rightarrow> nat option" where
  "poison_app_dispatch_check command service =
    (if ac_protocol_version command \<noteq> POISON_APP_PROTOCOL_VERSION \<or>
        \<not> app_bounded_text (ac_app_id command) POISON_APP_MAX_TEXT \<or>
        \<not> app_bounded_text (ac_run_id command) POISON_APP_MAX_TEXT \<or>
        \<not> app_bounded_text (ac_command_id command) POISON_APP_MAX_TEXT \<or> ac_payload_json command = None \<or>
        strnlen (the (ac_payload_json command)) 4097 \<ge> 4097
     then None
     else if ar_active (as_run service) \<and> Some (ar_app_id (as_run service)) = ac_app_id command \<and>
             Some (ar_run_id (as_run service)) = ac_run_id command
     then as_command service else None)"

definition poison_app_dispatch_cancel :: "PoisonAppService \<Rightarrow> PoisonAppService \<times> bool" where
  "poison_app_dispatch_cancel service =
    (let (run, cancelled) = poison_app_cancel (as_run service) in (service \<lparr> as_run := run \<rparr>, cancelled))"

definition poison_app_dispatch_command :: "(nat \<Rightarrow> PoisonAppCommand \<Rightarrow> 's \<Rightarrow> 's \<times> bool) \<Rightarrow> PoisonAppCommand \<Rightarrow>
    PoisonAppService \<times> 's \<Rightarrow> (PoisonAppService \<times> 's) \<times> bool" where
  "poison_app_dispatch_command callback command state =
    (let (service, s) = state in
     case poison_app_dispatch_check command service of
       None \<Rightarrow> ((service, s), False)
     | Some ctxt \<Rightarrow>
         let (s', ok) = callback ctxt command s in
         if \<not> ok then ((service, s'), False)
         else if ac_cancel command
         then let (service', cancelled) = poison_app_dispatch_cancel service in ((service', s'), cancelled)
         else ((service, s'), True))"

text \<open>The last component is the subscriber that is told of the event.\<close>

definition poison_app_publish_event :: "PoisonAppEvent \<Rightarrow> PoisonAppService \<Rightarrow> PoisonAppService \<times> bool \<times> nat option" where
  "poison_app_publish_event event service =
    (if \<not> poison_app_event_is_typed event then (service, False, None)
     else let (run, accepted) = poison_app_accept_event event (as_run service)
     in (service \<lparr> as_run := run \<rparr>, accepted, if accepted then as_event service else None))"

definition poison_app_event_subscribe :: "nat \<Rightarrow> PoisonAppService \<Rightarrow> PoisonAppService \<times> bool" where
  "poison_app_event_subscribe ctxt service =
    (let available = (as_event service = None \<or> as_event service = Some ctxt)
     in (if available then service \<lparr> as_event := Some ctxt \<rparr> else service, available))"

definition poison_app_event_unsubscribe :: "nat \<Rightarrow> PoisonAppService \<Rightarrow> PoisonAppService" where
  "poison_app_event_unsubscribe ctxt service =
    (if as_event service = Some ctxt then service \<lparr> as_event := None \<rparr> else service)"

section \<open>The events of a run\<close>

datatype AppOp =
    AppRegister "string option" "string option" nat | AppUnregister nat | AppCancel
  | AppPublish PoisonAppEvent | AppSubscribe nat | AppUnsubscribe nat

text \<open>The bridge with the events it accepted since the endpoint was last registered or unregistered.\<close>

fun app_step :: "AppOp \<Rightarrow> PoisonAppService \<times> PoisonAppEvent list \<Rightarrow> (PoisonAppService \<times> PoisonAppEvent list) \<times> bool" where
  "app_step (AppRegister a r c) (s, events) =
     (case poison_app_endpoint_register a r c s of (s', ok) \<Rightarrow> ((s', if ok then [] else events), ok))"
| "app_step (AppUnregister c) (s, events) =
     ((poison_app_endpoint_unregister c s, if as_command s = Some c then [] else events), True)"
| "app_step AppCancel (s, events) = (case poison_app_dispatch_cancel s of (s', ok) \<Rightarrow> ((s', events), ok))"
| "app_step (AppPublish e) (s, events) =
     (case poison_app_publish_event e s of (s', ok, told) \<Rightarrow> ((s', if ok then events @ [e] else events), ok))"
| "app_step (AppSubscribe c) (s, events) = (case poison_app_event_subscribe c s of (s', ok) \<Rightarrow> ((s', events), ok))"
| "app_step (AppUnsubscribe c) (s, events) = ((poison_app_event_unsubscribe c s, events), True)"

definition app_numbered :: "PoisonAppService \<times> PoisonAppEvent list \<Rightarrow> bool" where
  "app_numbered state \<longleftrightarrow> (case state of (s, events) \<Rightarrow>
     map ev_sequence events = map of_nat [0..<length events] \<and>
     ar_next_sequence (as_run s) = of_nat (length events) \<and>
     (\<forall>e \<in> set events. poison_app_event_is_typed e \<and> ev_app_id e = ar_app_id (as_run s) \<and>
        ev_run_id e = ar_run_id (as_run s)))"

lemmas app_ops = poison_app_endpoint_register_def poison_app_endpoint_unregister_def poison_app_run_start_def
  poison_app_dispatch_cancel_def poison_app_cancel_def poison_app_publish_event_def poison_app_accept_event_def
  poison_app_event_subscribe_def poison_app_event_unsubscribe_def

lemma app_step_numbered: "app_numbered state \<Longrightarrow> app_numbered (fst (app_step op state))"
proof -
  assume inv: "app_numbered state"
  obtain s events where st: "state = (s, events)" by fastforce
  show "app_numbered (fst (app_step op state))"
  proof (cases op)
    case (AppPublish e)
    show ?thesis
    proof (cases "poison_app_event_is_typed e \<and> snd (poison_app_accept_event e (as_run s))")
      case True
      then have "ev_sequence e = of_nat (length events)" "ev_app_id e = ar_app_id (as_run s)" "ev_run_id e = ar_run_id (as_run s)"
        using inv by (auto simp: st app_numbered_def poison_app_accept_event_def split: if_splits)
      then show ?thesis
        using inv True AppPublish
        by (auto simp: st app_numbered_def poison_app_publish_event_def poison_app_accept_event_def split: if_splits)
    next
      case False
      then show ?thesis
        using inv AppPublish
        by (auto simp: st app_numbered_def poison_app_publish_event_def poison_app_accept_event_def split: if_splits)
    qed
  qed (use inv in \<open>auto simp: st app_numbered_def app_ops zero_run_def Let_def split: if_splits\<close>)
qed

interpretation app: invariant_machine app_step app_numbered
  by unfold_locales (rule app_step_numbered)

text \<open>C40: whatever the application, its clients and the subscribers do, the events accepted since the endpoint was
  registered are numbered 0, 1, 2 and so on without a gap, each is well formed for its kind, and each names the
  application and the run of the registration.\<close>

theorem app_events_numbered:
  "let (s, events) = run_state app_step (poison_app_on_system_start, []) ops in
     map ev_sequence events = map of_nat [0..<length events] \<and>
     (\<forall>e \<in> set events. poison_app_event_is_typed e \<and> ev_app_id e = ar_app_id (as_run s) \<and>
        ev_run_id e = ar_run_id (as_run s))"
proof -
  have "app_numbered (run_state app_step (poison_app_on_system_start, []) ops)"
    by (rule app.run_keeps) (simp add: app_numbered_def poison_app_on_system_start_def zero_run_def)
  then show ?thesis by (auto simp: app_numbered_def split: prod.splits)
qed


text \<open>A run that publishes one result.\<close>

definition sample_event :: PoisonAppEvent where
  "sample_event = \<lparr> ev_app_id = ''app'', ev_run_id = ''r1'', ev_event_id = ''e1'', ev_sequence = 0,
     ev_kind = PoisonAppEventResult, ev_message = ''done'', ev_level = None, ev_percent = 0, ev_label = None,
     ev_schema_json = None, ev_rows_json = None, ev_artifact_name = None, ev_artifact_path = None,
     ev_artifact_sha256 = None, ev_artifact_size = 0, ev_success = True \<rparr>"

lemma sample_app_run:
  "run_state app_step (poison_app_on_system_start, [])
     [AppRegister (Some ''app'') (Some ''r1'') 1, AppPublish sample_event] =
     (\<lparr> as_run = zero_run \<lparr> ar_app_id := ''app'', ar_run_id := ''r1'', ar_active := True, ar_next_sequence := 1 \<rparr>,
        as_command = Some 1, as_event = None \<rparr>, [sample_event])"
  by (simp add: app_ops poison_app_on_system_start_def zero_run_def sample_event_def app_bounded_text_def strnlen_def
      poison_app_event_is_typed_def)

lemma app_events_numbered_witness:
  "map ev_sequence [sample_event] = [0] \<and> poison_app_event_is_typed sample_event"
  using app_events_numbered [of "[AppRegister (Some ''app'') (Some ''r1'') 1, AppPublish sample_event]"]
  unfolding sample_app_run by simp

end
