(* ===== verification/Spec2Isabelle.thy ===== *)
theory Spec2Isabelle
  imports TransportInvariant PackageArchive Confirmation Diagnostics PackageStorage PackageAuthority WorkloadService AppBridge
begin

text \<open>
A verification development for the services of Poisoned OS, the firmware under \<open>applications/services/\<close>.

\<^bold>\<open>The program.\<close>  A device is driven over RPC (USB, BLE or UART).  A client pairs with it (elliptic-curve
exchange, a code the owner compares, a physical confirmation), the device registers the client and both
derive session keys.  From then on every request is an encrypted, numbered envelope; the device decrypts
it, checks number, channel and registration, and dispatches the inner message to the handler of its tag if
the role of the session has the capabilities the tag requires.  Behind the handlers are the services: the
policy and the confirmation dialogs, the audit chain and the diagnostics counters, the packages (signed
archives, their transactions, records, directories and recovery after power loss), the content updates,
the virtual file system, the managed workloads and the tools.

\<^bold>\<open>The theories\<close> and what they model (paths below \<open>src/applications/services/\<close>):

  \<^item> \<open>Prelude\<close>, \<open>Ring\<close>, \<open>Tables\<close>, \<open>Files\<close>, \<open>Folders\<close>: the shared vocabulary: machine words, C strings and
    buffers, the loops every component repeats; arrays written at a wrapping cursor; arrays of slots
    searched by key; the calls of \<open>storage/storage_external_api.c\<close> on files and directory trees with their
    outcomes as inputs.  The interfaces are locales: \<open>machine\<close> (operations that keep an invariant) and its
    extensions, a counter that only grows, a slot table with one live slot per key.  Each component
    interprets the interfaces it provides.
  \<^item> \<open>Policy\<close>, \<open>Confirmation\<close>: \<open>rpc/poison_policy.c\<close> and \<open>rpc/poison_confirmation.c\<close>.
  \<^item> \<open>AuditChain\<close>, \<open>Diagnostics\<close>: \<open>poison_audit/\<close>, \<open>poison_diagnostics/\<close>, two rings of 16 events.
  \<^item> \<open>Session\<close>, \<open>Resume\<close>, \<open>Pairing\<close>: \<open>rpc/rpc_poison_session.c\<close>: the state machine of a session with its frames
    and sequence numbers, the slots that let a client resume, the handshake.
  \<^item> \<open>PairingStore\<close>: \<open>rpc/poison_pairing_store.c\<close>: the registered clients, the two-slot image on disk.
  \<^item> \<open>Channel\<close>: \<open>rpc/rpc_poison_channel.c\<close>: numbered channels with credits.
  \<^item> \<open>SecureTransport\<close>, \<open>TransportInvariant\<close>: \<open>rpc/rpc.c\<close> with the handlers of the two files above: one
    connection as a machine, one message at a time; then what every reachable connection satisfies.
  \<^item> \<open>ContentUpdate\<close>, \<open>PackageManager\<close>, \<open>PackageStorage\<close>, \<open>PackageAuthority\<close>: \<open>poison_packages/\<close>: admission and
    state machine of an update, transactions and records, the directories and the recovery at system
    start, the signing keys.
  \<^item> \<open>ZipArchive\<close>, \<open>PackageManifest\<close>, \<open>PackageArchive\<close>: \<open>poison_packages/poison_package_archive.c\<close> with
    \<open>poison_package_verify.c\<close> and \<open>poison_package_signature.c\<close>: the scan of the ZIP file, the manifest and
    the canonical form its signature covers (with the JSON printer of \<open>lib/mjs/common/frozen/frozen.c\<close>),
    the digests of the members.
  \<^item> \<open>Vfs\<close>: \<open>poison_vfs/\<close>: normalisation and resolution of paths, journal, recovery, workspaces.
  \<^item> \<open>Evidence\<close>: \<open>poison_evidence/poison_evidence.c\<close>: records, transactions, the files of the store.
  \<^item> \<open>Workload\<close>, \<open>WorkloadService\<close>: \<open>poison_workload/\<close> and \<open>rpc/rpc_poison_workload.c\<close>: a workload with its
    limits, console and artifacts, the adapters of the script engine and of applications, the table of
    managed workloads; then the request handler, and the service with all its connections as a machine.
  \<^item> \<open>AppBridge\<close>: \<open>poison_app/poison_app.c\<close>: the events and commands of the running application.

In every theory a \<open>record\<close> is a struct and a \<open>datatype\<close> an enumeration of the code, under the name it has
there; an operation is one definition under the name of its function, or, where a function is long, some
definitions named after its parts and composed in the order of the code.  An operation takes the state and
returns the new state with its result; every early return is a branch.  Where the code may read outside a
buffer, loop or stop the device (\<open>furi_check\<close>), the result is an option and \<open>None\<close> is that outcome.
Integers have the width of the C type; \<open>size_t\<close> is \<open>nat\<close> where the code bounds it.

\<^bold>\<open>What the lemmas show.\<close>  For each component: an invariant and that every operation keeps it; what each
operation does on every branch; then the contract.  The sessions never repeat an initialisation vector and
never accept a number twice; commands run only for an active session of a registered client with the
capabilities of the command, and a removed client is cut off; a handshake succeeds exactly under its
conditions and its transcript determines everything exchanged; the pairing table is a finite map and its
image survives every interruption; the audit ring is the tail of the log and linked; updates and packages
become active only through their checks in order; interrupted installations and rollbacks recover; captured evidence stays as it was and describes the
object it names; a workload stays within its limits, runs only for its client with the capability to run it
and is untouched by others; an accepted archive carries the content its trusted signer signed; paths that may be written lie in a
directory of the role.

\<^bold>\<open>Bounds and termination.\<close>  Loops over the bytes of an archive or a path are \<open>partial_function (option)\<close> and
proved to return on every input; no fuel is used anywhere.  Sizes of tables (8 clients, 4 channels, 8
resume slots, 8 packages, 16 events, 32 records of evidence, 2 managed workloads, 33 members of an archive of
at most 4 MB) are those of the headers.

\<^bold>\<open>Parameters.\<close>  The primitives of mbedtls (AES-GCM, HMAC, HKDF, SHA-256, ECDH, ECDSA), the random generator,
the clock, the JSON scanner of frozen, the protobuf codec, the handlers of other services and the outcomes
of the storage calls are arguments.  Nothing is assumed of them except where a theorem says so: that
authentic texts decrypt to what was encrypted, that digests or tags that are equal have equal inputs.

\<^bold>\<open>Not modelled.\<close>  Threads and mutexes: the code takes one lock per service, and a step of a model is what
runs under it.  The third-party code (FreeRTOS, mbedtls, mJS, nanopb, the STM32 and USB libraries, u8g2, FatFs,
heatshrink, mlib) and the hardware, radio and user-interface stacks inherited from the upstream firmware,
which the services call but do not depend on for their guarantees.  Generated protobuf sources are not part
of the repository.  Of the services above: the handlers that only move data between messages and the
services (catalog, audit, diagnostics, workspace, profiles, evidence, lessons), and the glue to the radio and serial drivers.
\<close>

end
